(* ===== verification/Prelude.thy ===== *)
theory Prelude
  imports Main "HOL-Library.Word" "HOL-Library.AList"
begin

text \<open>
  Shared vocabulary of the development.

  \<^item> Rust's \<^verbatim>\<open>Result\<close> is the sum type with \<open>Err\<close> on the left; a method that takes
    \<^verbatim>\<open>&mut self\<close> and returns a \<^verbatim>\<open>Result\<close> returns the result together with the state it
    leaves behind, also when it fails.
  \<^item> Unsigned machine integers are words, so they are bounded by their type and plain
    \<open>+\<close>, \<open>-\<close>, \<open>*\<close> wrap as a release build does.  Signed integers are
    mathematical integers on which saturation, wrapping and truncating division are
    written out.
  \<^item> \<^verbatim>\<open>HashMap\<close> is an association list with distinct keys whose order stands for the
    unspecified iteration order; \<^verbatim>\<open>BTreeMap\<close> is an association list sorted by key.
\<close>

named_theorems u128_simps \<open>numeric meaning (unat) of the unsigned operations\<close>
named_theorems i128_simps \<open>definitions of the signed operations\<close>
named_theorems map_simps \<open>lookup laws of the map models\<close>


section \<open>Results\<close>

abbreviation Ok :: "'a \<Rightarrow> 'e + 'a" where "Ok x \<equiv> Inr x"
abbreviation Err :: "'e \<Rightarrow> 'e + 'a" where "Err e \<equiv> Inl e"

definition is_ok :: "'e + 'a \<Rightarrow> bool" where
  "is_ok r = (case r of Ok _ \<Rightarrow> True | Err _ \<Rightarrow> False)"

lemma is_ok_simps [simp]: "is_ok (Ok x)" "\<not> is_ok (Err e)"
  by (simp_all add: is_ok_def)

lemma is_okE: "is_ok r \<Longrightarrow> (\<And>x. r = Ok x \<Longrightarrow> P) \<Longrightarrow> P"
  by (cases r) auto


text \<open>The question-mark operator and \<^verbatim>\<open>Option::ok_or\<close>.\<close>

definition and_then :: "'e + 'a \<Rightarrow> ('a \<Rightarrow> 'e + 'b) \<Rightarrow> 'e + 'b" where
  "and_then r f = (case r of Ok x \<Rightarrow> f x | Err e \<Rightarrow> Err e)"

lemma and_then_simps [simp]: "and_then (Ok x) f = f x" "and_then (Err e) f = Err e"
  by (simp_all add: and_then_def)

lemma and_then_Ok_iff: "and_then r f = Ok y \<longleftrightarrow> (\<exists>x. r = Ok x \<and> f x = Ok y)"
  by (cases r) auto

definition ok_or :: "'a option \<Rightarrow> 'e \<Rightarrow> 'e + 'a" where
  "ok_or x e = (case x of Some v \<Rightarrow> Ok v | None \<Rightarrow> Err e)"

lemma ok_or_simps [simp]: "ok_or (Some v) e = Ok v" "ok_or None e = Err e"
  by (simp_all add: ok_or_def)

lemma ok_or_Ok_iff: "ok_or x e = Ok y \<longleftrightarrow> x = Some y"
  by (cases x) auto


section \<open>Machine integers\<close>

type_synonym u128 = "128 word"
type_synonym u64 = "64 word"
type_synonym u32 = "32 word"
type_synonym i128 = int
type_synonym i64 = int
type_synonym uuid = "128 word"

subsection \<open>Unsigned 128-bit operations\<close>

definition u128_MAX :: u128 where
  "u128_MAX = - 1"

definition saturating_add :: "u128 \<Rightarrow> u128 \<Rightarrow> u128" where
  "saturating_add a b = (if unat a + unat b < 2 ^ 128 then a + b else u128_MAX)"

definition saturating_sub :: "u128 \<Rightarrow> u128 \<Rightarrow> u128" where
  "saturating_sub a b = (if b \<le> a then a - b else 0)"

definition saturating_mul :: "u128 \<Rightarrow> u128 \<Rightarrow> u128" where
  "saturating_mul a b = (if unat a * unat b < 2 ^ 128 then a * b else u128_MAX)"

definition checked_add :: "u128 \<Rightarrow> u128 \<Rightarrow> u128 option" where
  "checked_add a b = (if unat a + unat b < 2 ^ 128 then Some (a + b) else None)"

definition checked_sub :: "u128 \<Rightarrow> u128 \<Rightarrow> u128 option" where
  "checked_sub a b = (if b \<le> a then Some (a - b) else None)"

definition checked_mul :: "u128 \<Rightarrow> u128 \<Rightarrow> u128 option" where
  "checked_mul a b = (if unat a * unat b < 2 ^ 128 then Some (a * b) else None)"

definition div_ceil :: "u128 \<Rightarrow> u128 \<Rightarrow> u128" where
  "div_ceil a b = (let d = a div b; r = a mod b in if r > 0 then d + 1 else d)"

lemma unat_lt_u128 [simp]: "unat (a :: u128) < 2 ^ 128"
  using unsigned_less [of a] by simp

lemma unat_lt_u128' [simp]: "unat (a :: u128) < 340282366920938463463374607431768211456"
  using unat_lt_u128 [of a] by simp

lemma unat_u128_MAX [simp, u128_simps]: "unat u128_MAX = 2 ^ 128 - 1"
  by (simp add: u128_MAX_def unsigned_minus_1_eq_mask mask_eq_exp_minus_1)

lemma unat_le_u128_MAX: "unat (a :: u128) \<le> 2 ^ 128 - 1"
  using unat_lt_u128 [of a] by linarith

lemma unat_saturating_add [u128_simps]:
  "unat (saturating_add a b) = min (unat a + unat b) (2 ^ 128 - 1)"
  by (auto simp: saturating_add_def unat_word_ariths)

lemma unat_saturating_sub [u128_simps]: "unat (saturating_sub a b) = unat a - unat b"
  by (auto simp: saturating_sub_def word_le_nat_alt unat_sub_if')

lemma unat_saturating_mul [u128_simps]:
  "unat (saturating_mul a b) = min (unat a * unat b) (2 ^ 128 - 1)"
  by (auto simp: saturating_mul_def unat_word_ariths)

text \<open>The same tests over the integers, in which evaluation counts in binary.\<close>

lemma u128_code [code]:
  "saturating_add a b = (if uint a + uint b < 2 ^ 128 then a + b else u128_MAX)"
  "saturating_mul a b = (if uint a * uint b < 2 ^ 128 then a * b else u128_MAX)"
  "checked_add a b = (if uint a + uint b < 2 ^ 128 then Some (a + b) else None)"
  "checked_mul a b = (if uint a * uint b < 2 ^ 128 then Some (a * b) else None)"
proof -
  have add: "unat a + unat b < 2 ^ 128 \<longleftrightarrow> uint a + uint b < 2 ^ 128"
    unfolding uint_nat by (metis of_nat_add of_nat_less_numeral_power_cancel_iff)
  have mul: "unat a * unat b < 2 ^ 128 \<longleftrightarrow> uint a * uint b < 2 ^ 128"
    unfolding uint_nat by (metis of_nat_mult of_nat_less_numeral_power_cancel_iff)
  show "saturating_add a b = (if uint a + uint b < 2 ^ 128 then a + b else u128_MAX)"
    "saturating_mul a b = (if uint a * uint b < 2 ^ 128 then a * b else u128_MAX)"
    "checked_add a b = (if uint a + uint b < 2 ^ 128 then Some (a + b) else None)"
    "checked_mul a b = (if uint a * uint b < 2 ^ 128 then Some (a * b) else None)"
    by (simp_all only: saturating_add_def saturating_mul_def checked_add_def checked_mul_def add mul)
qed

lemma checked_add_Some: "checked_add a b = Some c \<Longrightarrow> unat c = unat a + unat b"
  by (auto simp: checked_add_def unat_word_ariths split: if_splits)

lemma checked_sub_Some: "checked_sub a b = Some c \<Longrightarrow> unat c + unat b = unat a"
  by (auto simp: checked_sub_def word_le_nat_alt unat_sub_if' split: if_splits)

lemma checked_mul_Some: "checked_mul a b = Some c \<Longrightarrow> unat c = unat a * unat b"
  by (auto simp: checked_mul_def unat_word_ariths split: if_splits)

lemma checked_mul_iff: "(\<exists>c. checked_mul a b = Some c) \<longleftrightarrow> unat a * unat b < 2 ^ 128"
  by (auto simp: checked_mul_def)

lemma unat_div_u128 [u128_simps]: "unat ((a :: u128) div b) = unat a div unat b"
  by (simp add: unat_div_distrib)

lemma unat_sub_le: "(b :: 'a::len word) \<le> a \<Longrightarrow> unat (a - b) = unat a - unat b"
  by (simp add: unat_sub_if' word_le_nat_alt)

text \<open>Rounding up is the least quotient that covers the dividend.\<close>

lemma unat_div_ceil [u128_simps]:
  assumes "b \<noteq> 0"
  shows "unat (div_ceil a b) = (unat a + unat b - 1) div unat b"
proof -
  define x y where "x = unat a" and "y = unat b"
  have y: "0 < y" using assms by (simp add: y_def word_neq_0_conv unat_gt_0)
  have bound: "x div y + 1 \<le> 2 ^ 128 - 1" if "0 < x mod y"
  proof -
    have "y \<noteq> 1" using that by auto
    then have "2 \<le> y" using y by simp
    then have "x div y \<le> x div 2" by (rule div_le_mono2 [rotated]) simp
    moreover have "x < 2 ^ 128" by (simp add: x_def)
    ultimately show ?thesis by simp
  qed
  have pos: "a mod b > 0 \<longleftrightarrow> 0 < x mod y"
    by (simp add: x_def y_def word_less_nat_alt unat_mod_distrib)
  have split: "x = x div y * y + x mod y" by simp
  have "(x + y - 1) div y = (if 0 < x mod y then x div y + 1 else x div y)"
  proof (cases "0 < x mod y")
    case True
    have lt: "x mod y < y" using y by simp
    have "x + y - 1 = (x mod y - 1) + (x div y * y + y)"
      using True split by linarith
    then have "x + y - 1 = (x mod y - 1) + (x div y + 1) * y"
      by (simp only: add_mult_distrib mult_1)
    moreover have "((x mod y - 1) + (x div y + 1) * y) div y = (x mod y - 1) div y + (x div y + 1)"
      using y by (subst div_mult_self1) auto
    moreover have "(x mod y - 1) div y = 0"
      using lt by (intro div_less) auto
    ultimately show ?thesis using True by simp
  next
    case False
    then have x: "x = x div y * y" using split by simp
    have "x + y - 1 = (y - 1) + x div y * y"
      using x y by simp
    moreover have "((y - 1) + x div y * y) div y = (y - 1) div y + x div y"
      using y by (subst div_mult_self1) auto
    moreover have "(y - 1) div y = 0" using y by (intro div_less) auto
    ultimately show ?thesis using False by simp
  qed
  moreover have "unat (a div b + 1) = x div y + 1" if "0 < x mod y"
    using bound [OF that] by (simp add: x_def y_def unat_word_ariths unat_div_distrib)
  ultimately show ?thesis
    using pos by (simp add: div_ceil_def Let_def x_def y_def unat_div_distrib)
qed

lemma div_ceil_covers:
  assumes "b \<noteq> 0"
  shows "unat a \<le> unat (div_ceil a b) * unat b"
proof -
  have y: "0 < unat b" using assms by (simp add: unat_gt_0)
  have "unat a + unat b - 1 < (unat a + unat b - 1) div unat b * unat b + unat b"
    using y by (metis div_mult_mod_eq mod_less_divisor nat_add_left_cancel_less)
  then show ?thesis using y by (simp add: unat_div_ceil [OF assms])
qed


subsection \<open>Signed integers\<close>

definition i128_MAX :: i128 where "i128_MAX = 2 ^ 127 - 1"
definition i128_MIN :: i128 where "i128_MIN = - (2 ^ 127)"

definition in_i128 :: "int \<Rightarrow> bool" where
  "in_i128 x = (i128_MIN \<le> x \<and> x \<le> i128_MAX)"

definition i128_sat :: "int \<Rightarrow> i128" where
  "i128_sat x = max i128_MIN (min i128_MAX x)"

text \<open>Two's-complement wrap-around, the release-mode meaning of an overflowing operator.\<close>

definition i128_wrap :: "int \<Rightarrow> i128" where
  "i128_wrap x = sint (word_of_int x :: 128 word)"

definition i128_saturating_add :: "i128 \<Rightarrow> i128 \<Rightarrow> i128" where
  "i128_saturating_add a b = i128_sat (a + b)"

definition i128_saturating_sub :: "i128 \<Rightarrow> i128 \<Rightarrow> i128" where
  "i128_saturating_sub a b = i128_sat (a - b)"

definition i128_saturating_mul :: "i128 \<Rightarrow> i128 \<Rightarrow> i128" where
  "i128_saturating_mul a b = i128_sat (a * b)"

text \<open>Rust's integer division truncates towards zero.\<close>

definition trunc_div :: "int \<Rightarrow> int \<Rightarrow> int" where
  "trunc_div a b = sgn a * sgn b * (\<bar>a\<bar> div \<bar>b\<bar>)"

text \<open>The \<^verbatim>\<open>as\<close> casts between the 128-bit types reinterpret the bits.\<close>

definition u128_as_i128 :: "u128 \<Rightarrow> i128" where
  "u128_as_i128 a = sint a"

definition i128_as_u128 :: "i128 \<Rightarrow> u128" where
  "i128_as_u128 x = word_of_int x"

definition i64_MAX :: i64 where "i64_MAX = 2 ^ 63 - 1"
definition i64_MIN :: i64 where "i64_MIN = - (2 ^ 63)"

definition i64_sat :: "int \<Rightarrow> i64" where
  "i64_sat x = max i64_MIN (min i64_MAX x)"

definition u64_saturating_add :: "u64 \<Rightarrow> u64 \<Rightarrow> u64" where
  "u64_saturating_add a b = (if unat a + unat b < 2 ^ 64 then a + b else - 1)"

lemma u64_saturating_add_code [code]:
  "u64_saturating_add a b = (if uint a + uint b < 2 ^ 64 then a + b else - 1)"
proof -
  have "unat a + unat b < 2 ^ 64 \<longleftrightarrow> uint a + uint b < 2 ^ 64"
    unfolding uint_nat by (metis of_nat_add of_nat_less_numeral_power_cancel_iff)
  then show ?thesis by (simp only: u64_saturating_add_def)
qed

lemmas i128_bounds = i128_MAX_def i128_MIN_def

lemma in_i128_sat [simp]: "in_i128 (i128_sat x)"
  by (auto simp: in_i128_def i128_sat_def i128_bounds)

lemma i128_sat_id [i128_simps]: "in_i128 x \<Longrightarrow> i128_sat x = x"
  by (auto simp: in_i128_def i128_sat_def)

lemma i128_sat_mono: "x \<le> y \<Longrightarrow> i128_sat x \<le> i128_sat y"
  by (auto simp: i128_sat_def)

lemma i128_sat_0 [simp]: "i128_sat 0 = 0"
  by (simp add: i128_sat_def i128_bounds)

lemma u128_as_i128_small:
  assumes "unat a < 2 ^ 127"
  shows "u128_as_i128 a = int (unat a)"
proof -
  have "uint a < 2 ^ 127"
    using assms by (metis uint_nat of_nat_less_iff of_nat_numeral of_nat_power)
  moreover have "- (2 ^ 127) \<le> uint a" by (rule order_trans [of _ 0]) simp_all
  ultimately have "signed_take_bit 127 (uint a) = uint a"
    by (rule signed_take_bit_int_eq_self [rotated])
  then show ?thesis by (simp add: u128_as_i128_def sint_uint)
qed

lemma in_i128_cast: "in_i128 (u128_as_i128 a)"
  using sint_range_size [of a] by (auto simp: in_i128_def i128_bounds u128_as_i128_def word_size)

lemma unat_i128_as_u128:
  assumes "0 \<le> x" "in_i128 x"
  shows "unat (i128_as_u128 x) = nat x"
proof -
  have "x < 2 ^ 127" using assms(2) by (simp add: in_i128_def i128_bounds)
  then show ?thesis
    using assms(1)
    by (simp add: i128_as_u128_def unat_eq_nat_uint uint_word_of_int_eq take_bit_int_eq_self)
qed

lemma i128_wrap_id:
  assumes "in_i128 x"
  shows "i128_wrap x = x"
proof -
  have "- (2 ^ 127) \<le> x" "x < 2 ^ 127" using assms by (simp_all add: in_i128_def i128_bounds)
  then have "signed_take_bit 127 x = x" by (rule signed_take_bit_int_eq_self)
  then show ?thesis by (simp only: i128_wrap_def sint_sbintrunc') simp
qed

lemma trunc_div_0 [simp]: "trunc_div 0 b = 0"
  by (simp add: trunc_div_def)

lemma trunc_div_nonneg: "0 \<le> a \<Longrightarrow> 0 < b \<Longrightarrow> trunc_div a b = a div b"
  by (cases "a = 0") (auto simp: trunc_div_def)

lemma trunc_div_neg: "0 < b \<Longrightarrow> trunc_div (- a) b = - trunc_div a b"
  by (simp add: trunc_div_def)

lemma trunc_div_le:
  assumes "0 < b"
  shows "\<bar>trunc_div a b\<bar> \<le> \<bar>a\<bar>"
proof -
  have "\<bar>a\<bar> div b \<le> \<bar>a\<bar> div 1" by (rule zdiv_mono2) (use assms in auto)
  moreover have "0 \<le> \<bar>a\<bar> div b" using assms by (simp add: pos_imp_zdiv_nonneg_iff)
  ultimately show ?thesis using assms by (cases "a = 0") (auto simp: trunc_div_def abs_mult)
qed


section \<open>Strings\<close>

text \<open>
  Account identifiers are ASCII hex addresses; \<^verbatim>\<open>str::to_lowercase\<close> is modelled on the
  ASCII letters.
\<close>

definition lower_char :: "char \<Rightarrow> char" where
  "lower_char c =
     (let n = of_char c :: nat in if 65 \<le> n \<and> n \<le> 90 then char_of (n + 32) else c)"

definition to_lowercase :: "string \<Rightarrow> string" where
  "to_lowercase s = map lower_char s"

lemma lower_char_idem [simp]: "lower_char (lower_char c) = lower_char c"
proof (cases "65 \<le> (of_char c :: nat) \<and> (of_char c :: nat) \<le> 90")
  case True
  define n where "n = (of_char c :: nat)"
  have c: "lower_char c = char_of (n + 32)" using True by (simp add: lower_char_def n_def)
  have "of_char (char_of (n + 32) :: char) = n + 32"
    using True unfolding of_char_of n_def[symmetric] by (intro mod_less) simp
  then have "lower_char (char_of (n + 32)) = char_of (n + 32)"
    using True by (simp only: lower_char_def Let_def n_def [symmetric]) simp
  then show ?thesis using c by simp
next
  case False
  then show ?thesis by (auto simp: lower_char_def)
qed

lemma to_lowercase_idem [simp]: "to_lowercase (to_lowercase s) = to_lowercase s"
  by (simp add: to_lowercase_def comp_def)

text \<open>\<^verbatim>\<open>str::trim\<close>; of the white space of Unicode only the part in ASCII is stripped.\<close>

definition is_whitespace :: "char \<Rightarrow> bool" where
  "is_whitespace c = (c = CHR '' '' \<or> c = CHR 0x09 \<or> c = CHR 0x0A \<or> c = CHR 0x0B \<or> c = CHR 0x0C \<or> c = CHR 0x0D)"

definition trim :: "string \<Rightarrow> string" where
  "trim s = rev (dropWhile is_whitespace (rev (dropWhile is_whitespace s)))"

text \<open>Decimal printing, the \<^verbatim>\<open>Display\<close> of unsigned and signed integers, and its inverse.\<close>

fun decimal :: "nat \<Rightarrow> string" where
  "decimal n = (if n < 10 then [char_of (48 + n)] else decimal (n div 10) @ [char_of (48 + n mod 10)])"

declare decimal.simps [simp del]

definition decimal_int :: "int \<Rightarrow> string" where
  "decimal_int x = (if x < 0 then ''-'' @ decimal (nat (- x)) else decimal (nat x))"

definition read_decimal :: "string \<Rightarrow> nat" where
  "read_decimal s = foldl (\<lambda>n c. 10 * n + (of_char c - 48)) 0 s"

lemma read_decimal_decimal [simp]: "read_decimal (decimal n) = n"
  by (induction n rule: decimal.induct) (subst decimal.simps, simp add: read_decimal_def)

lemma decimal_inject [simp]: "decimal m = decimal n \<longleftrightarrow> m = n"
  by (metis read_decimal_decimal)

text \<open>
  The contract of a persisted text form: reading what was written gives the value back, and only
  the text of a value is read as it.
\<close>

locale text_codec =
  fixes enc :: "'a \<Rightarrow> string" and dec :: "string \<Rightarrow> 'e + 'a"
  assumes dec_enc: "dec (enc x) = Ok x"
    and dec_only: "dec s = Ok x \<Longrightarrow> s = enc x"
begin

lemma dec_iff: "dec s = Ok x \<longleftrightarrow> s = enc x"
  using dec_enc dec_only by blast

lemma enc_inject: "enc x = enc y \<longleftrightarrow> x = y"
  using dec_enc by (metis sum.inject(2))

end

end
