(* ===== verification/Maps.thy ===== *)
theory Maps
  imports Prelude
begin

text \<open>
  The two map types of the Rust standard library that the program keeps its state in.

  The contract the components rely on is stated as locales: \<open>keyed_map\<close> gives what a
  lookup returns after an insertion or a removal, \<open>ordered_map\<close> adds the ordered key
  traversal of \<^verbatim>\<open>BTreeMap\<close>.  The models discharge the laws in the interpretations
  \<open>hm\<close> and \<open>bt\<close>.
\<close>


section \<open>Interfaces\<close>

locale keyed_map =
  fixes emp :: 'm
    and get :: "'m \<Rightarrow> 'k \<Rightarrow> 'v option"
    and put :: "'k \<Rightarrow> 'v \<Rightarrow> 'm \<Rightarrow> 'm"
    and del :: "'k \<Rightarrow> 'm \<Rightarrow> 'm"
    and ok :: "'m \<Rightarrow> bool"
  assumes ok_emp: "ok emp"
    and ok_put: "ok m \<Longrightarrow> ok (put k v m)"
    and ok_del: "ok m \<Longrightarrow> ok (del k m)"
    and get_emp: "get emp k = None"
    and get_put: "ok m \<Longrightarrow> get (put k v m) k' = (if k' = k then Some v else get m k')"
    and get_del: "ok m \<Longrightarrow> get (del k m) k' = (if k' = k then None else get m k')"
begin

lemma get_put_del: "ok m \<Longrightarrow> get (put k v (del k m)) = get (put k v m)"
  by (rule ext) (simp add: get_put get_del ok_del)

lemma get_del_put: "ok m \<Longrightarrow> get m k = None \<Longrightarrow> get (del k (put k v m)) = get m"
  by (rule ext) (simp add: get_put get_del ok_put)

lemma dom_put: "ok m \<Longrightarrow> dom (get (put k v m)) = insert k (dom (get m))"
  by (auto simp: get_put dom_def split: if_splits)

lemma dom_del: "ok m \<Longrightarrow> dom (get (del k m)) = dom (get m) - {k}"
  by (auto simp: get_del dom_def split: if_splits)

end

locale ordered_map = keyed_map emp get put del ok
  for emp :: 'm and get :: "'m \<Rightarrow> ('k :: linorder) \<Rightarrow> 'v option" and put del ok +
  fixes keys :: "'m \<Rightarrow> 'k list"
  assumes keys_sorted: "ok m \<Longrightarrow> sorted_wrt (<) (keys m)"
    and keys_dom: "ok m \<Longrightarrow> set (keys m) = dom (get m)"
begin

lemma first_key_least:
  assumes "ok m" "keys m = k # ks" "get m k' \<noteq> None"
  shows "k \<le> k'"
proof -
  have "k' \<in> set (k # ks)" using assms keys_dom [of m] by (metis domIff)
  then show ?thesis using keys_sorted [of m] assms by auto
qed

lemma last_key_greatest:
  assumes "ok m" "keys m = ks @ [k]" "get m k' \<noteq> None"
  shows "k' \<le> k"
proof -
  have "k' \<in> set (ks @ [k])" using assms keys_dom [of m] by (metis domIff)
  then show ?thesis using keys_sorted [of m] assms by (auto simp: sorted_wrt_append)
qed

lemma keys_empty_iff: "ok m \<Longrightarrow> keys m = [] \<longleftrightarrow> (\<forall>k. get m k = None)"
  using keys_dom [of m] by (auto simp: dom_def)

end


section \<open>HashMap\<close>

type_synonym ('k, 'v) hashmap = "('k \<times> 'v) list"

definition hm_get :: "('k, 'v) hashmap \<Rightarrow> 'k \<Rightarrow> 'v option" where
  "hm_get m k = map_of m k"

definition hm_insert :: "'k \<Rightarrow> 'v \<Rightarrow> ('k, 'v) hashmap \<Rightarrow> ('k, 'v) hashmap" where
  "hm_insert k v m = AList.update k v m"

definition hm_remove :: "'k \<Rightarrow> ('k, 'v) hashmap \<Rightarrow> ('k, 'v) hashmap" where
  "hm_remove k m = AList.delete k m"

definition hm_contains_key :: "('k, 'v) hashmap \<Rightarrow> 'k \<Rightarrow> bool" where
  "hm_contains_key m k = (hm_get m k \<noteq> None)"

definition hm_values :: "('k, 'v) hashmap \<Rightarrow> 'v list" where
  "hm_values m = map snd m"

definition hm_keys :: "('k, 'v) hashmap \<Rightarrow> 'k list" where
  "hm_keys m = map fst m"

definition hm_ok :: "('k, 'v) hashmap \<Rightarrow> bool" where
  "hm_ok m = distinct (map fst m)"

lemma hm_get_Nil [simp]: "hm_get [] k = None"
  by (simp add: hm_get_def)

lemma hm_get_insert [simp, map_simps]:
  "hm_get (hm_insert k v m) k' = (if k' = k then Some v else hm_get m k')"
  by (simp add: hm_get_def hm_insert_def update_conv')

lemma hm_get_remove [simp, map_simps]:
  "hm_get (hm_remove k m) k' = (if k' = k then None else hm_get m k')"
  by (simp add: hm_get_def hm_remove_def delete_conv')

lemma hm_ok_Nil [simp]: "hm_ok []"
  by (simp add: hm_ok_def)

lemma hm_ok_insert [simp]: "hm_ok m \<Longrightarrow> hm_ok (hm_insert k v m)"
  by (simp add: hm_ok_def hm_insert_def distinct_update)

lemma hm_ok_remove [simp]: "hm_ok m \<Longrightarrow> hm_ok (hm_remove k m)"
  by (simp add: hm_ok_def hm_remove_def distinct_delete)

lemma set_hm_values: "hm_ok m \<Longrightarrow> v \<in> set (hm_values m) \<longleftrightarrow> (\<exists>k. hm_get m k = Some v)"
  by (force simp: hm_ok_def hm_values_def hm_get_def)

lemma set_hm_keys: "set (hm_keys m) = {k. hm_get m k \<noteq> None}"
  by (auto simp: hm_keys_def hm_get_def map_of_eq_None_iff)

lemma distinct_hm_keys: "hm_ok m \<Longrightarrow> distinct (hm_keys m)"
  by (simp add: hm_ok_def hm_keys_def)

interpretation hm: keyed_map "[]" hm_get hm_insert hm_remove hm_ok
  by unfold_locales simp_all


section \<open>BTreeMap\<close>

type_synonym ('k, 'v) btreemap = "('k \<times> 'v) list"

definition bt_get :: "('k, 'v) btreemap \<Rightarrow> 'k \<Rightarrow> 'v option" where
  "bt_get m k = map_of m k"

definition bt_insert :: "'k::linorder \<Rightarrow> 'v \<Rightarrow> ('k, 'v) btreemap \<Rightarrow> ('k, 'v) btreemap" where
  "bt_insert k v m =
     takeWhile (\<lambda>kv. fst kv < k) m @ (k, v) # dropWhile (\<lambda>kv. fst kv \<le> k) m"

definition bt_remove :: "'k \<Rightarrow> ('k, 'v) btreemap \<Rightarrow> ('k, 'v) btreemap" where
  "bt_remove k m = filter (\<lambda>kv. fst kv \<noteq> k) m"

text \<open>\<^verbatim>\<open>get_mut\<close> followed by a write through the reference.\<close>

definition bt_modify :: "'k \<Rightarrow> ('v \<Rightarrow> 'v) \<Rightarrow> ('k, 'v) btreemap \<Rightarrow> ('k, 'v) btreemap" where
  "bt_modify k f m = map (\<lambda>kv. if fst kv = k then (k, f (snd kv)) else kv) m"

definition bt_keys :: "('k, 'v) btreemap \<Rightarrow> 'k list" where
  "bt_keys m = map fst m"

definition bt_ok :: "('k::linorder, 'v) btreemap \<Rightarrow> bool" where
  "bt_ok m = sorted_wrt (<) (bt_keys m)"

definition first_key :: "('k, 'v) btreemap \<Rightarrow> 'k option" where
  "first_key m = (case bt_keys m of [] \<Rightarrow> None | k # _ \<Rightarrow> Some k)"

definition last_key :: "('k, 'v) btreemap \<Rightarrow> 'k option" where
  "last_key m = (case rev (bt_keys m) of [] \<Rightarrow> None | k # _ \<Rightarrow> Some k)"

lemma bt_ok_Nil [simp]: "bt_ok []"
  by (simp add: bt_ok_def bt_keys_def)

lemma bt_get_Nil [simp]: "bt_get [] k = None"
  by (simp add: bt_get_def)

lemma bt_ok_Cons:
  "bt_ok (kv # m) \<longleftrightarrow> (\<forall>k' \<in> fst ` set m. fst kv < k') \<and> bt_ok m"
  by (auto simp: bt_ok_def bt_keys_def)

lemma bt_ok_distinct: "bt_ok m \<Longrightarrow> distinct (map fst m)"
  by (induction m) (auto simp: bt_ok_Cons)

lemma bt_get_iff: "bt_ok m \<Longrightarrow> bt_get m k = Some v \<longleftrightarrow> (k, v) \<in> set m"
  by (simp add: bt_get_def bt_ok_distinct)

lemma bt_keys_modify [simp]: "bt_keys (bt_modify k f m) = bt_keys m"
  by (simp add: bt_modify_def bt_keys_def comp_def)

lemma bt_ok_modify [simp]: "bt_ok (bt_modify k f m) = bt_ok m"
  by (simp add: bt_ok_def)

lemma bt_get_modify [simp, map_simps]:
  "bt_get (bt_modify k f m) k' = (if k' = k then map_option f (bt_get m k) else bt_get m k')"
  by (induction m) (auto simp: bt_get_def bt_modify_def)

lemma bt_ok_remove [simp]: "bt_ok m \<Longrightarrow> bt_ok (bt_remove k m)"
  by (induction m) (auto simp: bt_ok_Cons bt_remove_def)

lemma bt_get_remove [simp, map_simps]:
  "bt_get (bt_remove k m) k' = (if k' = k then None else bt_get m k')"
  by (induction m) (auto simp: bt_get_def bt_remove_def)

lemma bt_insert_Cons:
  "bt_ok (kv # m) \<Longrightarrow> bt_insert k v (kv # m) =
     (if k < fst kv then (k, v) # kv # m
      else if k = fst kv then (k, v) # m else kv # bt_insert k v m)"
proof -
  assume "bt_ok (kv # m)"
  then have "dropWhile (\<lambda>kv'. fst kv' \<le> fst kv) m = m"
    by (cases m) (auto simp: bt_ok_Cons)
  then show ?thesis by (auto simp: bt_insert_def)
qed

lemma set_bt_insert:
  "bt_ok m \<Longrightarrow> set (bt_insert k v m) = insert (k, v) {kv \<in> set m. fst kv \<noteq> k}"
proof (induction m)
  case (Cons kv m)
  then show ?case by (auto simp: bt_insert_Cons bt_ok_Cons)
qed (simp add: bt_insert_def)

lemma bt_ok_insert [simp]: "bt_ok m \<Longrightarrow> bt_ok (bt_insert k v m)"
proof (induction m)
  case (Cons kv m)
  then show ?case by (force simp: bt_insert_Cons bt_ok_Cons set_bt_insert)
qed (simp add: bt_insert_def bt_ok_Cons)

lemma bt_get_insert [simp, map_simps]:
  "bt_ok m \<Longrightarrow> bt_get (bt_insert k v m) k' = (if k' = k then Some v else bt_get m k')"
proof (induction m)
  case (Cons kv m)
  then show ?case by (cases kv) (auto simp: bt_insert_Cons bt_ok_Cons bt_get_def)
qed (simp add: bt_insert_def bt_get_def)

lemma rev_bt_modify: "rev (bt_modify k f m) = bt_modify k f (rev m)"
  by (simp add: bt_modify_def rev_map)

lemma rev_bt_remove: "rev (bt_remove k m) = bt_remove k (rev m)"
  by (simp add: bt_remove_def rev_filter)

lemma first_key_None [simp]: "first_key m = None \<longleftrightarrow> m = []"
  by (cases m) (auto simp: first_key_def bt_keys_def)

lemma last_key_first_key: "last_key m = first_key (rev m)"
  by (simp add: last_key_def first_key_def bt_keys_def rev_map)

lemma first_key_Cons [simp]: "first_key (kv # m) = Some (fst kv)"
  by (simp add: first_key_def bt_keys_def)

interpretation bt: ordered_map "[]" bt_get bt_insert bt_remove bt_ok bt_keys
proof unfold_locales
  fix m :: "('a::linorder \<times> 'b) list"
  show "set (bt_keys m) = dom (bt_get m)"
    using dom_map_of_conv_image_fst [of m] by (simp add: bt_keys_def bt_get_def [abs_def])
qed (simp_all add: bt_ok_def [symmetric])

text \<open>The two ends of the key traversal, as the callers use them.\<close>

lemma first_key_min: "bt_ok m \<Longrightarrow> first_key m = Some k \<Longrightarrow> bt_get m k' \<noteq> None \<Longrightarrow> k \<le> k'"
  by (rule bt.first_key_least [of m k "tl (bt_keys m)"])
    (auto simp: first_key_def split: list.splits)

lemma last_key_max:
  assumes "bt_ok m" "last_key m = Some k" "bt_get m k' \<noteq> None"
  shows "k' \<le> k"
proof (rule bt.last_key_greatest [OF assms(1) _ assms(3)])
  show "bt_keys m = butlast (bt_keys m) @ [k]"
    using assms(2) by (cases "bt_keys m" rule: rev_cases) (auto simp: last_key_def)
qed

end
