(* ===== verification/Types.thy ===== *)
theory Types
  imports Maps
begin

text \<open>
  The domain vocabulary of \<^verbatim>\<open>src/types.rs\<close> and the part of \<^verbatim>\<open>src/error.rs\<close> the modelled
  components raise.  Record fields carry a prefix per struct, because one Isabelle field
  name cannot serve two records.  \<open>OrderId\<close> and \<open>AccountId\<close> are newtypes and are
  represented by their contents.
\<close>

type_synonym price_1e8 = u128
type_synonym size_1e8 = u128
type_synonym market_id = u64
type_synonym timestamp_ms = i64
type_synonym order_id = uuid
type_synonym account_id = string

datatype side = Buy | Sell

fun opposite :: "side \<Rightarrow> side" where
  "opposite Buy = Sell"
| "opposite Sell = Buy"

lemma opposite_opposite [simp]: "opposite (opposite s) = s"
  by (cases s) auto

lemma opposite_neq [simp]: "opposite s \<noteq> s" "s \<noteq> opposite s"
  by (cases s; simp)+

datatype order_type = Limit

datatype time_in_force = Gtc | Ioc | Fok

datatype order_status = New | Open | PartiallyFilled | Filled | Cancelled | Rejected

record order =
  ord_order_id :: order_id
  ord_market_id :: market_id
  ord_account :: account_id
  ord_side :: side
  ord_order_type :: order_type
  ord_time_in_force :: time_in_force
  ord_price_1e8 :: price_1e8
  ord_size_1e8 :: size_1e8
  ord_remaining_size_1e8 :: size_1e8
  ord_reduce_only :: bool
  ord_post_only :: bool
  ord_client_order_id :: "string option"
  ord_signed_nonce :: "u64 option"
  ord_signed_deadline_ms :: "timestamp_ms option"
  ord_created_at_ms :: timestamp_ms
  ord_status :: order_status

record new_order =
  no_market_id :: market_id
  no_account :: account_id
  no_side :: side
  no_price_1e8 :: price_1e8
  no_size_1e8 :: size_1e8
  no_time_in_force :: time_in_force
  no_reduce_only :: bool
  no_post_only :: bool
  no_client_order_id :: "string option"
  no_signed_nonce :: "u64 option"
  no_signed_deadline_ms :: "timestamp_ms option"

definition into_order :: "new_order \<Rightarrow> order_id \<Rightarrow> timestamp_ms \<Rightarrow> order" where
  "into_order n order_id created_at_ms = \<lparr>
     ord_order_id = order_id,
     ord_market_id = no_market_id n,
     ord_account = no_account n,
     ord_side = no_side n,
     ord_order_type = Limit,
     ord_time_in_force = no_time_in_force n,
     ord_price_1e8 = no_price_1e8 n,
     ord_size_1e8 = no_size_1e8 n,
     ord_remaining_size_1e8 = no_size_1e8 n,
     ord_reduce_only = no_reduce_only n,
     ord_post_only = no_post_only n,
     ord_client_order_id = no_client_order_id n,
     ord_signed_nonce = no_signed_nonce n,
     ord_signed_deadline_ms = no_signed_deadline_ms n,
     ord_created_at_ms = created_at_ms,
     ord_status = New \<rparr>"

record trade_match =
  tm_market_id :: market_id
  tm_maker_order_id :: order_id
  tm_taker_order_id :: order_id
  tm_maker_account :: account_id
  tm_taker_account :: account_id
  tm_maker_nonce :: "u64 option"
  tm_taker_nonce :: "u64 option"
  tm_maker_deadline_ms :: "timestamp_ms option"
  tm_taker_deadline_ms :: "timestamp_ms option"
  tm_price_1e8 :: price_1e8
  tm_size_1e8 :: size_1e8
  tm_buyer :: account_id
  tm_seller :: account_id
  tm_created_at_ms :: timestamp_ms

record market =
  mkt_market_id :: market_id
  mkt_symbol :: string
  mkt_kind :: string

text \<open>
  The error values.  Where the source attaches a formatted diagnostic text, the model keeps
  the variant and drops the text; identifiers that callers dispatch on are kept.
\<close>

datatype backend_error =
    ZeroPrice
  | ZeroSize
  | PostOnlyWouldMatch
  | SelfTrade
  | UnsupportedTimeInForce string
  | UnsupportedCommand string
  | OrderNotFound order_id
  | OrderNotOpen order_id
  | InvalidPerpTradeIntentId
  | InvalidNonce
  | NonceAlreadyUsed
  | MissingExecutionMetadata string
  | MalformedAccountAddress
  | DeadlineExpired
  | MalformedSignature
  | UnsupportedSignatureV
  | SignatureRecoveryFailed
  | SignatureSignerMismatch
  | Config
  | Persistence
  | PerpsMarketNotFound string
  | PerpsPriceUnavailable
  | PerpMarketPaused
  | PerpZeroSize
  | PerpZeroPrice
  | PerpZeroMargin
  | PerpPositionFlip
  | PerpReduceExceedsPosition
  | PerpInsufficientMargin
  | PerpLeverageExceeded string
  | PerpPositionNotFound
  | PerpMarkPriceUnavailable
  | PerpOrderNotFound uuid
  | PerpInvalidOrderState
  | PerpPostOnlyWouldMatch
  | PerpFokNotFillable
  | PerpReduceOnlyViolation
  | PerpUnsupportedTif string
  | PerpInvalidTifCombination
  | PerpDuplicateClientOrderId string
  | PerpSelfTrade
  | PerpOrderSizeCap
  | PerpOrderNotionalCap
  | PerpSubaccountNotionalCap
  | PerpOpenInterestCap
  | PerpOracleDeviationExceeded
  | PerpsUserBoundAboveLimit
  | PerpsUserBoundBelowLimit
  | PerpsInvalidBoundForSide

end
