(* ===== verification/Orderbook.thy ===== *)
theory Orderbook
  imports Types
begin

text \<open>
  The perp limit order book: \<^verbatim>\<open>src/orderbook/price_level.rs\<close>, \<^verbatim>\<open>src/orderbook/matching.rs\<close>
  and \<^verbatim>\<open>src/orderbook/book.rs\<close>.

  A price level is the FIFO queue of the ids resting at one price; a book side is a
  \<^verbatim>\<open>BTreeMap\<close> from prices to levels.  The matching loop of \<^verbatim>\<open>submit\<close> is a partial function,
  so that a loop that never ends would be the value \<open>None\<close>; \<^verbatim>\<open>now_ms()\<close> is a clock
  parameter indexed by the call.
\<close>


section \<open>Price levels\<close>

type_synonym price_level = "order_id list"

definition pl_push_back :: "order_id \<Rightarrow> price_level \<Rightarrow> price_level" where
  "pl_push_back i l = l @ [i]"

definition pl_front :: "price_level \<Rightarrow> order_id option" where
  "pl_front l = (case l of [] \<Rightarrow> None | i # _ \<Rightarrow> Some i)"

definition pl_pop_front :: "price_level \<Rightarrow> order_id option \<times> price_level" where
  "pl_pop_front l = (case l of [] \<Rightarrow> (None, []) | i # is \<Rightarrow> (Some i, is))"

definition pl_remove :: "order_id \<Rightarrow> price_level \<Rightarrow> bool \<times> price_level" where
  "pl_remove i l = (if i \<in> set l then (True, remove1 i l) else (False, l))"

definition pl_is_empty :: "price_level \<Rightarrow> bool" where
  "pl_is_empty l = (l = [])"

definition pl_total_size_1e8 :: "(order_id \<Rightarrow> size_1e8) \<Rightarrow> price_level \<Rightarrow> size_1e8" where
  "pl_total_size_1e8 remaining_size l = sum_list (map remaining_size l)"


section \<open>The book\<close>

definition prices_cross :: "side \<Rightarrow> price_1e8 \<Rightarrow> price_1e8 \<Rightarrow> bool" where
  "prices_cross taker_side maker_price taker_price =
     (case taker_side of Buy \<Rightarrow> maker_price \<le> taker_price | Sell \<Rightarrow> maker_price \<ge> taker_price)"

record order_location =
  loc_side :: side
  loc_price_1e8 :: price_1e8

record order_submit_result =
  sr_order :: order
  sr_trades :: "trade_match list"
  sr_maker_order_updates :: "order list"

record book_side_snapshot =
  bs_price_1e8 :: price_1e8
  bs_total_size_1e8 :: size_1e8

record order_book_snapshot =
  snap_market_id :: market_id
  snap_bids :: "book_side_snapshot list"
  snap_asks :: "book_side_snapshot list"

record order_book =
  ob_market_id :: market_id
  ob_bids :: "(price_1e8, price_level) btreemap"
  ob_asks :: "(price_1e8, price_level) btreemap"
  ob_locations :: "(order_id, order_location) hashmap"
  ob_orders :: "(order_id, order) hashmap"

definition new_order_book :: "market_id \<Rightarrow> order_book" where
  "new_order_book m =
     \<lparr> ob_market_id = m, ob_bids = [], ob_asks = [], ob_locations = [], ob_orders = [] \<rparr>"

text \<open>The side selection every accessor below starts with.\<close>

definition book_levels :: "order_book \<Rightarrow> side \<Rightarrow> (price_1e8, price_level) btreemap" where
  "book_levels b s = (case s of Buy \<Rightarrow> ob_bids b | Sell \<Rightarrow> ob_asks b)"

definition set_book_levels ::
  "side \<Rightarrow> (price_1e8, price_level) btreemap \<Rightarrow> order_book \<Rightarrow> order_book" where
  "set_book_levels s ls b = (case s of Buy \<Rightarrow> b\<lparr>ob_bids := ls\<rparr> | Sell \<Rightarrow> b\<lparr>ob_asks := ls\<rparr>)"

definition book_level :: "order_book \<Rightarrow> side \<Rightarrow> price_1e8 \<Rightarrow> price_level option" where
  "book_level b s p = bt_get (book_levels b s) p"

definition level_mut ::
  "side \<Rightarrow> price_1e8 \<Rightarrow> (price_level \<Rightarrow> price_level) \<Rightarrow> order_book \<Rightarrow> order_book" where
  "level_mut s p f b = set_book_levels s (bt_modify p f (book_levels b s)) b"

definition remove_empty_level :: "side \<Rightarrow> price_1e8 \<Rightarrow> order_book \<Rightarrow> order_book" where
  "remove_empty_level s p b =
     (let should_remove = (case book_level b s p of Some l \<Rightarrow> pl_is_empty l | None \<Rightarrow> False)
      in if should_remove then set_book_levels s (bt_remove p (book_levels b s)) b else b)"

definition get_order :: "order_book \<Rightarrow> order_id \<Rightarrow> order option" where
  "get_order b i = hm_get (ob_orders b) i"

definition put_order :: "order \<Rightarrow> order_book \<Rightarrow> order_book" where
  "put_order r b = b\<lparr>ob_orders := hm_insert (ord_order_id r) r (ob_orders b)\<rparr>"

definition validate_order :: "order \<Rightarrow> backend_error + unit" where
  "validate_order r =
     (if ord_price_1e8 r = 0 then Err ZeroPrice
      else if ord_size_1e8 r = 0 \<or> ord_remaining_size_1e8 r = 0 then Err ZeroSize
      else Ok ())"

definition best_opposite_price :: "order_book \<Rightarrow> side \<Rightarrow> price_1e8 option" where
  "best_opposite_price b taker_side =
     (case taker_side of Buy \<Rightarrow> first_key (ob_asks b) | Sell \<Rightarrow> last_key (ob_bids b))"

definition would_match :: "order_book \<Rightarrow> order \<Rightarrow> bool" where
  "would_match b r =
     (case best_opposite_price b (ord_side r) of
        None \<Rightarrow> False
      | Some best_price \<Rightarrow> prices_cross (ord_side r) best_price (ord_price_1e8 r))"

definition would_self_trade :: "order_book \<Rightarrow> order \<Rightarrow> bool" where
  "would_self_trade b r =
     (let levels = (case ord_side r of Buy \<Rightarrow> ob_asks b | Sell \<Rightarrow> ob_bids b);
          crossing = filter (\<lambda>(price, _). prices_cross (ord_side r) price (ord_price_1e8 r)) levels
      in list_ex (\<lambda>i. case hm_get (ob_orders b) i of
                        Some maker \<Rightarrow> ord_account maker = ord_account r
                      | None \<Rightarrow> False)
           (concat (map snd crossing)))"

definition best_match_order_id :: "order_book \<Rightarrow> side \<Rightarrow> price_1e8 \<Rightarrow> order_id option" where
  "best_match_order_id b taker_side taker_price =
     (case best_opposite_price b taker_side of
        None \<Rightarrow> None
      | Some best_price \<Rightarrow>
          if \<not> prices_cross taker_side best_price taker_price then None
          else (case book_level b (opposite taker_side) best_price of
                  None \<Rightarrow> None
                | Some l \<Rightarrow> pl_front l))"

definition maker_fill :: "size_1e8 \<Rightarrow> order \<Rightarrow> order" where
  "maker_fill fill_size m =
     (let remaining = ord_remaining_size_1e8 m - fill_size
      in m\<lparr>ord_remaining_size_1e8 := remaining,
           ord_status := (if remaining = 0 then Filled else PartiallyFilled)\<rparr>)"

definition apply_maker_fill ::
  "order_id \<Rightarrow> size_1e8 \<Rightarrow> order_book \<Rightarrow> (backend_error + order) \<times> order_book" where
  "apply_maker_fill i fill_size b =
     (case hm_get (ob_orders b) i of
        None \<Rightarrow> (Err (OrderNotFound i), b)
      | Some m0 \<Rightarrow>
          let m = maker_fill fill_size m0;
              b1 = b\<lparr>ob_orders := hm_insert i m (ob_orders b)\<rparr>;
              b2 = (if ord_remaining_size_1e8 m = 0
                    then let b' = level_mut (ord_side m) (ord_price_1e8 m) (snd \<circ> pl_pop_front) b1;
                             b'' = b'\<lparr>ob_locations := hm_remove i (ob_locations b')\<rparr>
                         in remove_empty_level (ord_side m) (ord_price_1e8 m) b''
                    else b1)
          in (case hm_get (ob_orders b2) i of
                None \<Rightarrow> (Err (OrderNotFound i), b2)
              | Some m' \<Rightarrow> (Ok m', b2)))"

definition rest_order :: "order \<Rightarrow> order_book \<Rightarrow> order_book" where
  "rest_order r b =
     (let ls = book_levels b (ord_side r);
          p = ord_price_1e8 r;
          l = (case bt_get ls p of Some l \<Rightarrow> l | None \<Rightarrow> []);
          b' = set_book_levels (ord_side r) (bt_insert p (pl_push_back (ord_order_id r) l) ls) b
      in b'\<lparr>ob_locations :=
              hm_insert (ord_order_id r) \<lparr> loc_side = ord_side r, loc_price_1e8 = p \<rparr>
                (ob_locations b')\<rparr>)"


section \<open>Submitting an order\<close>

definition make_trade :: "market_id \<Rightarrow> order \<Rightarrow> order \<Rightarrow> size_1e8 \<Rightarrow> timestamp_ms \<Rightarrow> trade_match" where
  "make_trade mkt taker maker fill_size created_at_ms =
     (let (buyer, seller) =
        (case ord_side taker of
           Buy \<Rightarrow> (ord_account taker, ord_account maker)
         | Sell \<Rightarrow> (ord_account maker, ord_account taker))
      in \<lparr> tm_market_id = mkt,
           tm_maker_order_id = ord_order_id maker,
           tm_taker_order_id = ord_order_id taker,
           tm_maker_account = ord_account maker,
           tm_taker_account = ord_account taker,
           tm_maker_nonce = ord_signed_nonce maker,
           tm_taker_nonce = ord_signed_nonce taker,
           tm_maker_deadline_ms = ord_signed_deadline_ms maker,
           tm_taker_deadline_ms = ord_signed_deadline_ms taker,
           tm_price_1e8 = ord_price_1e8 maker,
           tm_size_1e8 = fill_size,
           tm_buyer = buyer,
           tm_seller = seller,
           tm_created_at_ms = created_at_ms \<rparr>)"

type_synonym match_outcome = "order \<times> trade_match list \<times> order list"

partial_function (option) match_loop ::
  "(nat \<Rightarrow> timestamp_ms) \<Rightarrow> order \<Rightarrow> trade_match list \<Rightarrow> order list \<Rightarrow> order_book
     \<Rightarrow> ((backend_error + match_outcome) \<times> order_book) option" where
  "match_loop clock taker trades updates b =
     (if ord_remaining_size_1e8 taker > 0
      then case best_match_order_id b (ord_side taker) (ord_price_1e8 taker) of
             None \<Rightarrow> Some (Ok (taker, trades, updates), b)
           | Some maker_order_id \<Rightarrow>
               (case hm_get (ob_orders b) maker_order_id of
                  None \<Rightarrow> Some (Err (OrderNotFound maker_order_id), b)
                | Some maker \<Rightarrow>
                    let fill_size = min (ord_remaining_size_1e8 taker) (ord_remaining_size_1e8 maker);
                        trade = make_trade (ob_market_id b) taker maker fill_size (clock (length trades));
                        taker' = taker\<lparr>ord_remaining_size_1e8 := ord_remaining_size_1e8 taker - fill_size\<rparr>
                    in case apply_maker_fill maker_order_id fill_size b of
                         (res, b') \<Rightarrow>
                           (case res of
                              Err e \<Rightarrow> Some (Err e, b')
                            | Ok maker_after \<Rightarrow>
                                match_loop clock taker' (trades @ [trade]) (updates @ [maker_after]) b'))
      else Some (Ok (taker, trades, updates), b))"

text \<open>What \<^verbatim>\<open>submit\<close> does with the taker once the loop has ended.\<close>

definition settle_taker :: "order \<Rightarrow> bool \<Rightarrow> order" where
  "settle_taker t no_trades =
     (let t1 = t\<lparr>ord_status :=
                   (if ord_remaining_size_1e8 t = 0 then Filled
                    else if ord_remaining_size_1e8 t < ord_size_1e8 t then PartiallyFilled
                    else Open)\<rparr>
      in if ord_remaining_size_1e8 t1 > 0 \<and> ord_time_in_force t1 = Ioc
         then t1\<lparr>ord_remaining_size_1e8 := 0,
                 ord_status := (if no_trades then Cancelled else PartiallyFilled)\<rparr>
         else t1)"

definition finish_submit :: "match_outcome \<Rightarrow> order_book \<Rightarrow> order_submit_result \<times> order_book" where
  "finish_submit out b =
     (case out of (t, trades, updates) \<Rightarrow>
       let t' = settle_taker t (trades = []);
           b' = (if ord_remaining_size_1e8 t > 0 \<and> ord_time_in_force t = Gtc
                 then rest_order t' b else b)
       in (\<lparr> sr_order = t', sr_trades = trades, sr_maker_order_updates = updates \<rparr>,
           put_order t' b'))"

definition submit ::
  "(nat \<Rightarrow> timestamp_ms) \<Rightarrow> order \<Rightarrow> order_book
     \<Rightarrow> ((backend_error + order_submit_result) \<times> order_book) option" where
  "submit clock r b =
     (case validate_order r of
        Err e \<Rightarrow> Some (Err e, b)
      | Ok _ \<Rightarrow>
          if ord_time_in_force r = Fok
          then Some (Err (UnsupportedTimeInForce ''fok''), put_order (r\<lparr>ord_status := Rejected\<rparr>) b)
          else if ord_post_only r \<and> would_match b r
          then Some (Err PostOnlyWouldMatch, put_order (r\<lparr>ord_status := Rejected\<rparr>) b)
          else if would_self_trade b r
          then Some (Err SelfTrade, put_order (r\<lparr>ord_status := Rejected\<rparr>) b)
          else
            let taker = r\<lparr>ord_status := Open\<rparr>
            in (case match_loop clock taker [] [] (put_order taker b) of
                  None \<Rightarrow> None
                | Some (Err e, b') \<Rightarrow> Some (Err e, b')
                | Some (Ok out, b') \<Rightarrow>
                    let (result, b'') = finish_submit out b' in Some (Ok result, b'')))"


section \<open>Cancelling and reading\<close>

definition cancel :: "order_id \<Rightarrow> order_book \<Rightarrow> (backend_error + order) \<times> order_book" where
  "cancel i b =
     (case hm_get (ob_locations b) i of
        None \<Rightarrow> (Err (OrderNotOpen i), b)
      | Some loc \<Rightarrow>
          let b1 = b\<lparr>ob_locations := hm_remove i (ob_locations b)\<rparr>;
              b2 = level_mut (loc_side loc) (loc_price_1e8 loc) (snd \<circ> pl_remove i) b1;
              b3 = remove_empty_level (loc_side loc) (loc_price_1e8 loc) b2
          in (case hm_get (ob_orders b3) i of
                None \<Rightarrow> (Err (OrderNotFound i), b3)
              | Some r \<Rightarrow>
                  let r' = r\<lparr>ord_status := Cancelled, ord_remaining_size_1e8 := 0\<rparr>
                  in (Ok r', b3\<lparr>ob_orders := hm_insert i r' (ob_orders b3)\<rparr>)))"

definition resting_orders :: "order_book \<Rightarrow> order list" where
  "resting_orders b = List.map_filter (\<lambda>i. hm_get (ob_orders b) i) (hm_keys (ob_locations b))"

definition snapshot_level :: "order_book \<Rightarrow> price_1e8 \<Rightarrow> price_level \<Rightarrow> book_side_snapshot option" where
  "snapshot_level b p l =
     (let total = pl_total_size_1e8
                    (\<lambda>i. case hm_get (ob_orders b) i of
                           Some r \<Rightarrow> ord_remaining_size_1e8 r
                         | None \<Rightarrow> 0) l
      in if total > 0 then Some \<lparr> bs_price_1e8 = p, bs_total_size_1e8 = total \<rparr> else None)"

definition snapshot :: "order_book \<Rightarrow> order_book_snapshot" where
  "snapshot b =
     \<lparr> snap_market_id = ob_market_id b,
       snap_bids = List.map_filter (\<lambda>(p, l). snapshot_level b p l) (rev (ob_bids b)),
       snap_asks = List.map_filter (\<lambda>(p, l). snapshot_level b p l) (ob_asks b) \<rparr>"

end
