(* ===== verification/Orderbook_Inv.thy ===== *)
theory Orderbook_Inv
  imports Orderbook
begin

text \<open>
  The well-formedness invariant of the order book of \<^verbatim>\<open>src/orderbook/book.rs\<close>: the price levels,
  the location index and the order store agree, levels are sorted and non-empty, every queued
  order has something left to trade, and the best bid is below the best ask.  The theory shows
  how taking an order out of its level and overwriting a stored order affect the invariant.
\<close>

section \<open>The invariant\<close>

text \<open>The levels of a side from the best price outwards, and the ids in matching order.\<close>

definition priority_levels :: "order_book \<Rightarrow> side \<Rightarrow> (price_1e8 \<times> price_level) list" where
  "priority_levels b s = (case s of Buy \<Rightarrow> rev (ob_bids b) | Sell \<Rightarrow> ob_asks b)"

definition queue_ids :: "order_book \<Rightarrow> side \<Rightarrow> order_id list" where
  "queue_ids b s = concat (map snd (priority_levels b s))"

definition the_order :: "order_book \<Rightarrow> order_id \<Rightarrow> order" where
  "the_order b i = the (hm_get (ob_orders b) i)"

definition queue :: "order_book \<Rightarrow> side \<Rightarrow> order list" where
  "queue b s = map (the_order b) (queue_ids b s)"

definition resting_ok :: "order_book \<Rightarrow> side \<Rightarrow> price_1e8 \<Rightarrow> order_id \<Rightarrow> bool" where
  "resting_ok b s p i =
     (hm_get (ob_locations b) i = Some \<lparr> loc_side = s, loc_price_1e8 = p \<rparr> \<and>
      (case hm_get (ob_orders b) i of
         None \<Rightarrow> False
       | Some r \<Rightarrow> ord_side r = s \<and> ord_price_1e8 r = p \<and> p \<noteq> 0 \<and>
           0 < ord_remaining_size_1e8 r \<and> ord_remaining_size_1e8 r \<le> ord_size_1e8 r \<and>
           (ord_status r = Open \<or> ord_status r = PartiallyFilled)))"

definition levels_ok :: "order_book \<Rightarrow> side \<Rightarrow> bool" where
  "levels_ok b s =
     (bt_ok (book_levels b s) \<and>
      (\<forall>pl \<in> set (book_levels b s). snd pl \<noteq> [] \<and> (\<forall>i \<in> set (snd pl). resting_ok b s (fst pl) i)))"

definition located :: "order_book \<Rightarrow> bool" where
  "located b =
     (\<forall>il \<in> set (ob_locations b).
        case book_level b (loc_side (snd il)) (loc_price_1e8 (snd il)) of
          None \<Rightarrow> False
        | Some l \<Rightarrow> fst il \<in> set l)"

definition uncrossed :: "order_book \<Rightarrow> bool" where
  "uncrossed b = (\<forall>x \<in> set (ob_bids b). \<forall>y \<in> set (ob_asks b). fst x < fst y)"

definition book_inv :: "order_book \<Rightarrow> bool" where
  "book_inv b =
     (levels_ok b Buy \<and> levels_ok b Sell \<and>
      hm_ok (ob_orders b) \<and> hm_ok (ob_locations b) \<and>
      (\<forall>ir \<in> set (ob_orders b). ord_order_id (snd ir) = fst ir) \<and>
      distinct (queue_ids b Buy) \<and> distinct (queue_ids b Sell) \<and>
      located b \<and> uncrossed b)"


section \<open>Basic facts\<close>

lemma set_priority_levels [simp]: "set (priority_levels b s) = set (book_levels b s)"
  by (cases s) (auto simp: priority_levels_def book_levels_def)

lemma book_inv_levels: "book_inv b \<Longrightarrow> levels_ok b s"
  by (cases s) (auto simp: book_inv_def)

lemma book_inv_bt_ok: "book_inv b \<Longrightarrow> bt_ok (book_levels b s)"
  using book_inv_levels [of b s] by (simp add: levels_ok_def)

lemma book_inv_maps: "book_inv b \<Longrightarrow> hm_ok (ob_orders b)" "book_inv b \<Longrightarrow> hm_ok (ob_locations b)"
  by (auto simp: book_inv_def)

lemma book_inv_distinct: "book_inv b \<Longrightarrow> distinct (queue_ids b s)"
  by (cases s) (auto simp: book_inv_def)

lemma book_inv_order_id: "book_inv b \<Longrightarrow> hm_get (ob_orders b) i = Some r \<Longrightarrow> ord_order_id r = i"
  by (auto simp: book_inv_def hm_get_def dest!: map_of_SomeD)

lemma in_queue_ids: "i \<in> set (queue_ids b s) \<longleftrightarrow> (\<exists>p l. (p, l) \<in> set (book_levels b s) \<and> i \<in> set l)"
  by (force simp: queue_ids_def)

text \<open>An id rests in the book exactly when the location index has it.\<close>

lemma location_iff:
  assumes "book_inv b"
  shows "hm_get (ob_locations b) i = Some \<lparr> loc_side = s, loc_price_1e8 = p \<rparr> \<longleftrightarrow>
         (\<exists>l. (p, l) \<in> set (book_levels b s) \<and> i \<in> set l)"
proof
  assume "hm_get (ob_locations b) i = Some \<lparr> loc_side = s, loc_price_1e8 = p \<rparr>"
  then have "(i, \<lparr> loc_side = s, loc_price_1e8 = p \<rparr>) \<in> set (ob_locations b)"
    by (auto simp: hm_get_def dest: map_of_SomeD)
  then obtain l where "book_level b s p = Some l" "i \<in> set l"
    using assms by (force simp: book_inv_def located_def split: option.splits)
  then show "\<exists>l. (p, l) \<in> set (book_levels b s) \<and> i \<in> set l"
    using book_inv_bt_ok [OF assms, of s] by (auto simp: book_level_def bt_get_iff)
next
  assume "\<exists>l. (p, l) \<in> set (book_levels b s) \<and> i \<in> set l"
  then show "hm_get (ob_locations b) i = Some \<lparr> loc_side = s, loc_price_1e8 = p \<rparr>"
    using book_inv_levels [OF assms, of s] by (force simp: levels_ok_def resting_ok_def)
qed

lemma queue_ids_location:
  assumes "book_inv b"
  shows "i \<in> set (queue_ids b s) \<longleftrightarrow> (\<exists>loc. hm_get (ob_locations b) i = Some loc \<and> loc_side loc = s)"
proof
  assume "i \<in> set (queue_ids b s)"
  then show "\<exists>loc. hm_get (ob_locations b) i = Some loc \<and> loc_side loc = s"
    using location_iff [OF assms, of i s] by (fastforce simp: in_queue_ids)
next
  assume "\<exists>loc. hm_get (ob_locations b) i = Some loc \<and> loc_side loc = s"
  then obtain p where "hm_get (ob_locations b) i = Some \<lparr> loc_side = s, loc_price_1e8 = p \<rparr>"
    by (metis (full_types) old.unit.exhaust order_location.surjective order_location.select_convs)
  then show "i \<in> set (queue_ids b s)" using location_iff [OF assms, of i s p] by (auto simp: in_queue_ids)
qed

lemma queue_ids_disjoint: "book_inv b \<Longrightarrow> i \<in> set (queue_ids b s) \<Longrightarrow> i \<notin> set (queue_ids b (opposite s))"
  by (auto simp: queue_ids_location)

lemma not_located_not_queued:
  "book_inv b \<Longrightarrow> hm_get (ob_locations b) i = None \<Longrightarrow> i \<notin> set (queue_ids b s)"
  by (simp add: queue_ids_location)

lemma queued_order:
  assumes "book_inv b" "(p, l) \<in> set (book_levels b s)" "i \<in> set l"
  obtains r where "hm_get (ob_orders b) i = Some r" "ord_order_id r = i" "ord_side r = s"
    "ord_price_1e8 r = p" "0 < ord_remaining_size_1e8 r" "ord_remaining_size_1e8 r \<le> ord_size_1e8 r"
    "ord_status r = Open \<or> ord_status r = PartiallyFilled" "p \<noteq> 0"
proof -
  have "resting_ok b s p i"
    using book_inv_levels [OF assms(1), of s] assms(2,3) by (force simp: levels_ok_def)
  then show ?thesis
    using that book_inv_order_id [OF assms(1)] by (force simp: resting_ok_def split: option.splits)
qed

lemma in_queue:
  assumes "book_inv b" "r \<in> set (queue b s)"
  shows "hm_get (ob_orders b) (ord_order_id r) = Some r \<and> ord_side r = s \<and>
         ord_order_id r \<in> set (queue_ids b s) \<and> 0 < ord_remaining_size_1e8 r \<and>
         ord_remaining_size_1e8 r \<le> ord_size_1e8 r \<and> ord_price_1e8 r \<noteq> 0"
proof -
  from assms(2) obtain i where i: "i \<in> set (queue_ids b s)" "r = the_order b i"
    by (auto simp: queue_def)
  then obtain p l where "(p, l) \<in> set (book_levels b s)" "i \<in> set l" by (auto simp: in_queue_ids)
  then show ?thesis
    using queued_order [OF assms(1)] i by (metis option.sel the_order_def)
qed

lemma new_order_book_inv: "book_inv (new_order_book m)"
  by (simp add: book_inv_def new_order_book_def levels_ok_def book_levels_def located_def
      uncrossed_def queue_ids_def priority_levels_def)


section \<open>Taking an order out of the book\<close>

text \<open>
  Both a complete fill and a cancellation end the rest of an order: its location goes, its
  id leaves its level, and a level left empty is dropped.
\<close>

definition unrest :: "order_id \<Rightarrow> side \<Rightarrow> price_1e8 \<Rightarrow> order_book \<Rightarrow> order_book" where
  "unrest i s p b =
     (let ls = bt_modify p (remove1 i) (book_levels b s);
          b' = b\<lparr>ob_locations := hm_remove i (ob_locations b)\<rparr>
      in if bt_get ls p = Some [] then set_book_levels s (bt_remove p ls) b'
         else set_book_levels s ls b')"

lemma book_fields_set [simp]:
  "ob_orders (set_book_levels s ls b) = ob_orders b"
  "ob_locations (set_book_levels s ls b) = ob_locations b"
  "ob_market_id (set_book_levels s ls b) = ob_market_id b"
  "book_levels (set_book_levels s ls b) s' = (if s' = s then ls else book_levels b s')"
  by (cases s; cases s'; simp add: set_book_levels_def book_levels_def)+

lemma book_fields_upd [simp]:
  "book_levels (b\<lparr>ob_orders := x\<rparr>) s = book_levels b s"
  "book_levels (b\<lparr>ob_locations := y\<rparr>) s = book_levels b s"
  by (cases s; simp add: book_levels_def)+

lemma set_book_levels_twice [simp]:
  "set_book_levels s ls (set_book_levels s ls' b) = set_book_levels s ls b"
  "(set_book_levels s ls b)\<lparr>ob_orders := x\<rparr> = set_book_levels s ls (b\<lparr>ob_orders := x\<rparr>)"
  "(set_book_levels s ls b)\<lparr>ob_locations := y\<rparr> = set_book_levels s ls (b\<lparr>ob_locations := y\<rparr>)"
  by (cases s; simp add: set_book_levels_def)+

lemma priority_levels_eq:
  "priority_levels b s = (case s of Buy \<Rightarrow> rev (book_levels b s) | Sell \<Rightarrow> book_levels b s)"
  by (cases s) (auto simp: priority_levels_def book_levels_def)

lemma priority_levels_set [simp]:
  "priority_levels (set_book_levels s ls b) s' =
     (if s' = s then (case s of Buy \<Rightarrow> rev ls | Sell \<Rightarrow> ls) else priority_levels b s')"
  by (cases s; cases s'; simp add: priority_levels_eq)

lemma priority_levels_upd [simp]:
  "priority_levels (b\<lparr>ob_orders := x\<rparr>) s = priority_levels b s"
  "priority_levels (b\<lparr>ob_locations := y\<rparr>) s = priority_levels b s"
  by (cases s; simp add: priority_levels_eq)+

lemma queue_ids_upd [simp]:
  "queue_ids (b\<lparr>ob_orders := x\<rparr>) s = queue_ids b s"
  "queue_ids (b\<lparr>ob_locations := y\<rparr>) s = queue_ids b s"
  by (simp_all add: queue_ids_def)

lemma unrest_fields [simp]:
  "ob_orders (unrest i s p b) = ob_orders b"
  "ob_locations (unrest i s p b) = hm_remove i (ob_locations b)"
  "ob_market_id (unrest i s p b) = ob_market_id b"
  by (auto simp: unrest_def Let_def)

lemma unrest_orders: "unrest i s p (b\<lparr>ob_orders := x\<rparr>) = (unrest i s p b)\<lparr>ob_orders := x\<rparr>"
  by (cases s) (auto simp: unrest_def Let_def set_book_levels_def)

text \<open>The levels that remain: the id is gone from its level, and so is an empty level.\<close>

lemma unrest_levels:
  assumes "book_inv b" "(p, l) \<in> set (book_levels b s)"
  shows "book_levels (unrest i s p b) s' =
     (if s' \<noteq> s then book_levels b s'
      else if remove1 i l = [] then bt_remove p (book_levels b s)
      else bt_modify p (remove1 i) (book_levels b s))"
proof -
  have "bt_get (book_levels b s) p = Some l"
    using book_inv_bt_ok [OF assms(1)] assms(2) by (simp add: bt_get_iff)
  moreover have "bt_remove p (bt_modify p f m) = bt_remove p m" for f :: "order_id list \<Rightarrow> _" and m :: "(price_1e8 \<times> price_level) list"
    by (induction m) (auto simp: bt_remove_def bt_modify_def)
  ultimately show ?thesis by (simp add: unrest_def Let_def)
qed

lemma set_bt_remove: "set (bt_remove p ls) = {pl \<in> set ls. fst pl \<noteq> p}"
  by (simp add: bt_remove_def)

lemma bt_absent:
  assumes "p \<notin> fst ` set ls"
  shows "bt_modify p f ls = ls" "bt_remove p ls = ls"
  using assms by (induction ls) (auto simp: bt_modify_def bt_remove_def)

lemma bt_modify_Cons:
  "bt_modify p f (kv # ls) = (if fst kv = p then (p, f (snd kv)) else kv) # bt_modify p f ls"
  by (simp add: bt_modify_def)

lemma bt_remove_Cons: "bt_remove p (kv # ls) = (if fst kv = p then bt_remove p ls else kv # bt_remove p ls)"
  by (simp add: bt_remove_def)

text \<open>Where a key occurs in a map with distinct keys, the rest of the map is on either side of it.\<close>

lemma split_at_key:
  assumes "distinct (map fst ls)" "(p, l) \<in> set ls"
  obtains xs ys where "ls = xs @ (p, l) # ys" "p \<notin> fst ` set xs" "p \<notin> fst ` set ys"
proof -
  obtain xs ys where "ls = xs @ (p, l) # ys" using assms(2) by (metis split_list)
  then show ?thesis using that assms(1) by auto
qed

lemma bt_modify_append: "bt_modify p f (xs @ ys) = bt_modify p f xs @ bt_modify p f ys"
  by (simp add: bt_modify_def)

lemma bt_remove_append: "bt_remove p (xs @ ys) = bt_remove p xs @ bt_remove p ys"
  by (simp add: bt_remove_def)

lemmas bt_split_simps = bt_modify_append bt_remove_append bt_modify_Cons bt_remove_Cons bt_absent

lemma set_bt_modify:
  assumes "distinct (map fst ls)" "(p, l) \<in> set ls"
  shows "set (bt_modify p f ls) = {pl \<in> set ls. fst pl \<noteq> p} \<union> {(p, f l)}"
proof -
  obtain xs ys where ls: "ls = xs @ (p, l) # ys" "p \<notin> fst ` set xs" "p \<notin> fst ` set ys"
    by (rule split_at_key [OF assms])
  then have "{pl \<in> set ls. fst pl \<noteq> p} = set xs \<union> set ys" by force
  then show ?thesis using ls by (simp add: bt_split_simps)
qed

lemma concat_modify_remove1:
  assumes "distinct (map fst ls)" "(p, l) \<in> set ls" "distinct (concat (map snd ls))" "i \<in> set l"
  shows "concat (map snd (bt_modify p (remove1 i) ls)) = filter (\<lambda>j. j \<noteq> i) (concat (map snd ls))"
proof -
  obtain xs ys where ls: "ls = xs @ (p, l) # ys" "p \<notin> fst ` set xs" "p \<notin> fst ` set ys"
    by (rule split_at_key [OF assms(1,2)])
  define us vs where "us = concat (map snd xs)" and "vs = concat (map snd ys)"
  have "distinct (us @ l @ vs)" using assms(3) ls by (simp add: us_def vs_def)
  then have "filter (\<lambda>j. j \<noteq> i) us = us" "filter (\<lambda>j. j \<noteq> i) vs = vs" "distinct l"
    using assms(4) by (auto simp: filter_id_conv)
  moreover have "remove1 i l = filter (\<lambda>j. j \<noteq> i) l"
    using \<open>distinct l\<close> by (simp add: distinct_remove1_removeAll removeAll_filter_not_eq neq_commute)
  moreover have "concat (map snd (bt_modify p (remove1 i) ls)) = us @ remove1 i l @ vs"
    using ls by (simp add: bt_split_simps us_def vs_def)
  moreover have "concat (map snd ls) = us @ l @ vs" using ls(1) by (simp add: us_def vs_def)
  ultimately show ?thesis by simp
qed

lemma concat_remove_level:
  assumes "distinct (map fst ls)" "(p, [i]) \<in> set ls"
  shows "concat (map snd (bt_remove p ls)) = concat (map snd (bt_modify p (remove1 i) ls))"
proof -
  obtain xs ys where "ls = xs @ (p, [i]) # ys" "p \<notin> fst ` set xs" "p \<notin> fst ` set ys"
    by (rule split_at_key [OF assms])
  then show ?thesis by (simp add: bt_split_simps)
qed

lemma remove1_Nil_iff: "i \<in> set l \<Longrightarrow> remove1 i l = [] \<longleftrightarrow> l = [i]"
  by (cases l) auto

lemma set_unrest_levels:
  assumes "book_inv b" "(p, l) \<in> set (book_levels b s)"
  shows "set (book_levels (unrest i s p b) s) =
     {pl \<in> set (book_levels b s). fst pl \<noteq> p} \<union> (if remove1 i l = [] then {} else {(p, remove1 i l)})"
  using set_bt_modify [OF bt_ok_distinct [OF book_inv_bt_ok [OF assms(1)]] assms(2)]
  by (simp add: unrest_levels [OF assms] set_bt_remove)

lemma unrest_queue_ids:
  assumes "book_inv b" "(p, l) \<in> set (book_levels b s)" "i \<in> set l"
  shows "queue_ids (unrest i s p b) s' = filter (\<lambda>j. j \<noteq> i) (queue_ids b s')"
proof (cases "s' = s")
  case True
  have ok: "distinct (map fst (priority_levels b s))"
    using bt_ok_distinct [OF book_inv_bt_ok [OF assms(1)], of s]
    by (cases s) (simp_all add: priority_levels_eq rev_map [symmetric])
  have mem: "(p, l) \<in> set (priority_levels b s)" using assms(2) by simp
  have dis: "distinct (concat (map snd (priority_levels b s)))"
    using book_inv_distinct [OF assms(1), of s] by (simp add: queue_ids_def)
  have "priority_levels (unrest i s p b) s =
     (if remove1 i l = [] then bt_remove p (priority_levels b s)
      else bt_modify p (remove1 i) (priority_levels b s))"
    using unrest_levels [OF assms(1,2), of i s]
    by (cases s) (simp_all add: priority_levels_eq rev_bt_remove rev_bt_modify)
  then show ?thesis
    using True concat_modify_remove1 [OF ok mem dis assms(3)] concat_remove_level [OF ok, of p i] mem
      remove1_Nil_iff [OF assms(3)]
    by (simp add: queue_ids_def split: if_splits)
next
  case False
  then have "s' = opposite s" by (cases s; cases s'; simp)
  moreover have "i \<in> set (queue_ids b s)" unfolding in_queue_ids using assms(2,3) by blast
  ultimately have "i \<notin> set (queue_ids b s')" using queue_ids_disjoint [OF assms(1)] by simp
  moreover have "queue_ids (unrest i s p b) s' = queue_ids b s'"
    using False unrest_levels [OF assms(1,2), of i s']
    by (cases s') (simp_all add: queue_ids_def priority_levels_eq)
  ultimately show ?thesis by (metis (mono_tags, lifting) filter_True)
qed

lemma unrest_inv:
  assumes inv: "book_inv b" and mem: "(p, l) \<in> set (book_levels b s)" and i: "i \<in> set l"
  shows "book_inv (unrest i s p b)"
proof -
  let ?b = "unrest i s p b"
  note lv = unrest_levels [OF inv mem, of i] and sl = set_unrest_levels [OF inv mem, of i]
  have dl: "distinct l"
    using mem book_inv_distinct [OF inv, of s] by (auto simp: queue_ids_def distinct_concat_iff)
  have ids: "set (queue_ids ?b s') = set (queue_ids b s') - {i}" for s'
    by (auto simp: unrest_queue_ids [OF inv mem i])
  have keep: "resting_ok ?b s' q j" if "resting_ok b s' q j" "j \<noteq> i" for s' q j
    using that by (simp add: resting_ok_def)
  have sub: "\<exists>l'. (q, l') \<in> set (book_levels b s') \<and> set m \<subseteq> set l' - {i} \<and> m \<noteq> []"
    if "(q, m) \<in> set (book_levels ?b s')" for q m s'
  proof (cases "s' = s \<and> q = p")
    case True
    then show ?thesis using that mem dl sl by (auto split: if_splits)
  next
    case False
    then have old: "(q, m) \<in> set (book_levels b s')" using that sl lv by (auto split: if_splits)
    moreover have "i \<notin> set m"
    proof
      assume "i \<in> set m"
      then have "hm_get (ob_locations b) i = Some \<lparr> loc_side = s', loc_price_1e8 = q \<rparr>"
        using old location_iff [OF inv, of i s' q] by blast
      moreover have "hm_get (ob_locations b) i = Some \<lparr> loc_side = s, loc_price_1e8 = p \<rparr>"
        using mem i location_iff [OF inv, of i s p] by blast
      ultimately show False using False by simp
    qed
    ultimately show ?thesis using book_inv_levels [OF inv, of s'] by (force simp: levels_ok_def)
  qed
  have "levels_ok ?b s'" for s'
  proof -
    have "bt_ok (book_levels ?b s')" using book_inv_bt_ok [OF inv] by (auto simp: lv)
    moreover have "m \<noteq> [] \<and> (\<forall>j \<in> set m. resting_ok ?b s' q j)"
      if "(q, m) \<in> set (book_levels ?b s')" for q m
      using sub [OF that] book_inv_levels [OF inv, of s'] by (fastforce simp: levels_ok_def intro: keep)
    ultimately show ?thesis by (auto simp: levels_ok_def)
  qed
  moreover have "located ?b"
  proof -
    have "case book_level ?b (loc_side loc) (loc_price_1e8 loc) of None \<Rightarrow> False | Some m \<Rightarrow> j \<in> set m"
      if "(j, loc) \<in> set (ob_locations ?b)" for j loc
    proof -
      have get: "hm_get (ob_locations ?b) j = Some loc"
        using that hm_ok_remove [OF book_inv_maps(2) [OF inv], of i] by (simp add: hm_get_def hm_ok_def)
      then have j: "j \<noteq> i" "hm_get (ob_locations b) j = Some loc" by (auto split: if_splits)
      obtain s' q where loc: "loc = \<lparr> loc_side = s', loc_price_1e8 = q \<rparr>" by (cases loc) auto
      obtain m where m: "(q, m) \<in> set (book_levels b s')" "j \<in> set m"
        using j(2) location_iff [OF inv, of j s' q] loc by auto
      have "\<exists>m'. (q, m') \<in> set (book_levels ?b s') \<and> j \<in> set m'"
      proof (cases "s' = s \<and> q = p")
        case True
        then have "m = l" using m mem book_inv_bt_ok [OF inv, of s] by (metis bt_get_iff option.inject)
        then have "j \<in> set (remove1 i l)" using m j dl by simp
        then show ?thesis using True sl by (auto split: if_splits)
      next
        case False
        then show ?thesis using m sl lv by (cases "s' = s") auto
      qed
      moreover have "bt_ok (book_levels ?b s')" using book_inv_bt_ok [OF inv] by (auto simp: lv)
      ultimately have "\<exists>m'. bt_get (book_levels ?b s') q = Some m' \<and> j \<in> set m'"
        by (simp add: bt_get_iff)
      then show ?thesis by (auto simp: loc book_level_def)
    qed
    then show ?thesis by (auto simp: located_def)
  qed
  moreover have "uncrossed ?b"
  proof -
    have "x < y" if "(x, m) \<in> set (book_levels ?b Buy)" "(y, n) \<in> set (book_levels ?b Sell)" for x y m n
      using sub [OF that(1)] sub [OF that(2)] inv by (force simp: book_inv_def uncrossed_def book_levels_def)
    then show ?thesis by (auto simp: uncrossed_def book_levels_def)
  qed
  ultimately show ?thesis
    using inv by (simp add: book_inv_def unrest_queue_ids [OF inv mem i])
qed


section \<open>Changing an order in place\<close>

lemma hm_all_iff: "hm_ok m \<Longrightarrow> (\<forall>x \<in> set m. P (fst x) (snd x)) \<longleftrightarrow> (\<forall>k v. hm_get m k = Some v \<longrightarrow> P k v)"
  by (auto simp: hm_ok_def hm_get_def)

lemma replace_order_inv:
  assumes inv: "book_inv b" and id: "ord_order_id r = i"
    and rest: "\<And>s p. resting_ok b s p i \<Longrightarrow>
        ord_side r = s \<and> ord_price_1e8 r = p \<and> 0 < ord_remaining_size_1e8 r \<and>
        ord_remaining_size_1e8 r \<le> ord_size_1e8 r \<and> (ord_status r = Open \<or> ord_status r = PartiallyFilled)"
  shows "book_inv (b\<lparr>ob_orders := hm_insert i r (ob_orders b)\<rparr>)"
proof -
  let ?b = "b\<lparr>ob_orders := hm_insert i r (ob_orders b)\<rparr>"
  have keep: "resting_ok ?b s p j" if "resting_ok b s p j" for s p j
    using that rest [of s p] by (cases "j = i") (auto simp: resting_ok_def split: option.splits)
  then have "levels_ok b s \<Longrightarrow> levels_ok ?b s" for s by (auto simp: levels_ok_def)
  moreover have "\<forall>ir \<in> set (hm_insert i r (ob_orders b)). ord_order_id (snd ir) = fst ir"
    using id book_inv_order_id [OF inv] book_inv_maps(1) [OF inv]
    by (subst hm_all_iff [where P = "\<lambda>k v. ord_order_id v = k"]) (auto split: if_splits)
  moreover have "located ?b \<longleftrightarrow> located b" "uncrossed ?b \<longleftrightarrow> uncrossed b"
    by (simp_all add: located_def uncrossed_def book_level_def)
  ultimately show ?thesis using inv by (simp add: book_inv_def)
qed

lemma put_order_inv:
  assumes "book_inv b" "hm_get (ob_locations b) (ord_order_id r) = None"
  shows "book_inv (put_order r b)"
  unfolding put_order_def
  by (rule replace_order_inv) (use assms in \<open>auto simp: resting_ok_def\<close>)

lemma put_order_fields [simp]:
  "ob_locations (put_order r b) = ob_locations b"
  "ob_market_id (put_order r b) = ob_market_id b"
  "queue_ids (put_order r b) s = queue_ids b s"
  "hm_get (ob_orders (put_order r b)) i = (if i = ord_order_id r then Some r else hm_get (ob_orders b) i)"
  "book_levels (put_order r b) s = book_levels b s"
  by (simp_all add: put_order_def)

lemma queue_replace_other:
  "i \<notin> set (queue_ids b s) \<Longrightarrow> queue (b\<lparr>ob_orders := hm_insert i r (ob_orders b)\<rparr>) s = queue b s"
  by (auto simp: queue_def the_order_def)

lemma queue_put_order:
  "ord_order_id r \<notin> set (queue_ids b s) \<Longrightarrow> queue (put_order r b) s = queue b s"
  unfolding put_order_def by (rule queue_replace_other)


section \<open>Filling the maker at the front\<close>

lemma maker_fill_fields [simp]:
  "ord_order_id (maker_fill n m) = ord_order_id m" "ord_side (maker_fill n m) = ord_side m"
  "ord_price_1e8 (maker_fill n m) = ord_price_1e8 m" "ord_size_1e8 (maker_fill n m) = ord_size_1e8 m"
  "ord_remaining_size_1e8 (maker_fill n m) = ord_remaining_size_1e8 m - n"
  "ord_account (maker_fill n m) = ord_account m" "ord_market_id (maker_fill n m) = ord_market_id m"
  by (simp_all add: maker_fill_def Let_def)

lemma bt_modify_cong: "(\<And>l. (p, l) \<in> set ls \<Longrightarrow> f l = g l) \<Longrightarrow> bt_modify p f ls = bt_modify p g ls"
  unfolding bt_modify_def by (rule map_cong) auto

lemma remove_empty_level_unrest:
  assumes "\<And>l. (p, l) \<in> set (book_levels b s) \<Longrightarrow> f l = remove1 i l"
  shows "remove_empty_level s p ((level_mut s p f b)\<lparr>ob_locations := hm_remove i (ob_locations b)\<rparr>) = unrest i s p b"
    and "remove_empty_level s p (level_mut s p f (b\<lparr>ob_locations := hm_remove i (ob_locations b)\<rparr>)) = unrest i s p b"
  using bt_modify_cong [of p "book_levels b s" f "remove1 i", OF assms]
  by (auto simp: remove_empty_level_def level_mut_def unrest_def Let_def book_level_def pl_is_empty_def
      split: option.splits)

lemma front_level:
  assumes "book_inv b" "queue_ids b s = i # is"
  obtains p l rest where "priority_levels b s = (p, i # l) # rest" "(p, i # l) \<in> set (book_levels b s)"
proof (cases "priority_levels b s")
  case Nil
  then show ?thesis using assms(2) by (simp add: queue_ids_def)
next
  case (Cons pl rest)
  have mem: "pl \<in> set (book_levels b s)" using Cons set_priority_levels [of b s] by (metis list.set_intros(1))
  then have "snd pl \<noteq> []" using book_inv_levels [OF assms(1), of s] by (auto simp: levels_ok_def)
  then obtain l where "pl = (fst pl, i # l)"
    using assms(2) Cons by (cases "snd pl") (auto simp: queue_ids_def prod_eq_iff)
  then show ?thesis using that Cons mem by metis
qed

lemma apply_maker_fill_front:
  assumes inv: "book_inv b" and q: "queue b s = m # ms" and le: "n \<le> ord_remaining_size_1e8 m"
  shows "\<exists>b'. apply_maker_fill (ord_order_id m) n b = (Ok (maker_fill n m), b') \<and> book_inv b' \<and>
      queue b' s = (if n = ord_remaining_size_1e8 m then ms else maker_fill n m # ms) \<and>
      queue b' (opposite s) = queue b (opposite s) \<and>
      ob_market_id b' = ob_market_id b \<and>
      ob_orders b' = hm_insert (ord_order_id m) (maker_fill n m) (ob_orders b) \<and>
      (\<forall>j. hm_get (ob_locations b') j =
         (if n = ord_remaining_size_1e8 m \<and> j = ord_order_id m then None else hm_get (ob_locations b) j))"
proof -
  let ?i = "ord_order_id m" and ?m = "maker_fill n m"
  obtain i "is" where ids: "queue_ids b s = i # is" and m: "m = the_order b i" and ms: "ms = map (the_order b) is"
    using q by (auto simp: queue_def)
  obtain p l where mem: "(p, i # l) \<in> set (book_levels b s)"
    by (rule front_level [OF inv ids])
  obtain r where r: "hm_get (ob_orders b) i = Some r" "ord_order_id r = i" "ord_side r = s" "ord_price_1e8 r = p"
      "0 < ord_remaining_size_1e8 r" "ord_remaining_size_1e8 r \<le> ord_size_1e8 r"
    using queued_order [OF inv mem, of i] by auto
  have rm: "r = m" and i: "?i = i" using r m by (auto simp: the_order_def)
  have "distinct (i # is)" using book_inv_distinct [OF inv, of s] ids by simp
  then have notin: "i \<notin> set is" by simp
  have opp: "i \<notin> set (queue_ids b (opposite s))" using queue_ids_disjoint [OF inv, of i s] ids by simp
  have pop: "(snd \<circ> pl_pop_front) l' = remove1 i l'" if "(p, l') \<in> set (book_levels b s)" for l'
  proof -
    have "l' = i # l" using that mem book_inv_bt_ok [OF inv, of s] by (metis bt_get_iff option.inject)
    then show ?thesis by (simp add: pl_pop_front_def)
  qed
  show ?thesis
  proof (cases "n = ord_remaining_size_1e8 m")
    case True
    define b' where "b' = (unrest i s p b)\<lparr>ob_orders := hm_insert i ?m (ob_orders b)\<rparr>"
    have eval: "apply_maker_fill ?i n b = (Ok ?m, b')"
      using True r rm i remove_empty_level_unrest(1) [of p "b\<lparr>ob_orders := hm_insert i ?m (ob_orders b)\<rparr>" s _ i, OF pop]
      by (simp add: apply_maker_fill_def Let_def b'_def unrest_orders level_mut_def comp_def)
    have loc: "hm_get (ob_locations (unrest i s p b)) i = None" by simp
    have "book_inv b'"
      using put_order_inv [OF unrest_inv [OF inv mem], of i ?m] loc i by (simp add: b'_def put_order_def)
    moreover have "queue_ids b' s' = filter (\<lambda>j. j \<noteq> i) (queue_ids b s')" for s'
      using unrest_queue_ids [OF inv mem, of i s'] by (simp add: b'_def)
    then have "queue_ids b' s = is" "queue_ids b' (opposite s) = queue_ids b (opposite s)"
      using ids notin opp by (auto simp: filter_id_conv)
    then have "queue b' s = ms" "queue b' (opposite s) = queue b (opposite s)"
      using notin opp ms by (auto simp: queue_def the_order_def b'_def)
    ultimately show ?thesis using eval True i by (auto simp: b'_def)
  next
    case False
    then have rem: "ord_remaining_size_1e8 m - n \<noteq> 0" by simp
    define b' where "b' = b\<lparr>ob_orders := hm_insert i ?m (ob_orders b)\<rparr>"
    have eval: "apply_maker_fill ?i n b = (Ok ?m, b')"
      using rem r rm i by (simp add: apply_maker_fill_def Let_def b'_def)
    have "ord_remaining_size_1e8 m - n \<le> ord_remaining_size_1e8 m" using le by (simp add: word_sub_le)
    then have small: "ord_remaining_size_1e8 m - n \<le> ord_size_1e8 m" using r rm by (meson order_trans)
    have "book_inv b'" unfolding b'_def
    proof (rule replace_order_inv [OF inv])
      show "ord_order_id ?m = i" using i by simp
      fix s' p' assume "resting_ok b s' p' i"
      then have "s' = s" "p' = p" using r by (auto simp: resting_ok_def)
      then show "ord_side ?m = s' \<and> ord_price_1e8 ?m = p' \<and> 0 < ord_remaining_size_1e8 ?m \<and>
          ord_remaining_size_1e8 ?m \<le> ord_size_1e8 ?m \<and> (ord_status ?m = Open \<or> ord_status ?m = PartiallyFilled)"
        using r rm small rem [unfolded word_neq_0_conv] by (auto simp: maker_fill_def Let_def)
    qed
    moreover have "queue b' s = ?m # ms" "queue b' (opposite s) = queue b (opposite s)"
      using ids notin opp ms by (auto simp: queue_def the_order_def b'_def)
    ultimately show ?thesis using eval False i by (auto simp: b'_def)
  qed
qed

end
