(* ===== verification/Orderbook_Match.thy ===== *)
theory Orderbook_Match
  imports Orderbook_Inv
begin

text \<open>
  Price-time priority.  The resting orders of a side, read in the order the book serves them, form
  a queue sorted by price; the private lookups of \<^verbatim>\<open>OrderBook\<close> read that queue, and the matching loop of
  \<^verbatim>\<open>OrderBook::submit\<close> refines a walk over it.
\<close>

section \<open>Price priority of a side\<close>

definition at_least_as_good :: "side \<Rightarrow> price_1e8 \<Rightarrow> price_1e8 \<Rightarrow> bool" where
  "at_least_as_good s p q = (case s of Buy \<Rightarrow> q \<le> p | Sell \<Rightarrow> p \<le> q)"

lemma at_least_as_good_cross:
  "at_least_as_good (opposite s) p q \<Longrightarrow> prices_cross s q t \<Longrightarrow> prices_cross s p t"
  by (cases s) (auto simp: at_least_as_good_def prices_cross_def)

lemma at_least_as_good_refl [simp]: "at_least_as_good s p p"
  by (cases s) (auto simp: at_least_as_good_def)

lemma priority_levels_sorted:
  assumes "book_inv b"
  shows "sorted_wrt (\<lambda>x y. at_least_as_good s (fst x) (fst y)) (priority_levels b s)"
proof -
  have "sorted_wrt (\<lambda>x y. fst x < fst y) (book_levels b s)"
    using book_inv_bt_ok [OF assms, of s] by (simp add: bt_ok_def bt_keys_def sorted_wrt_map)
  then show ?thesis
    by (cases s) (auto simp: priority_levels_eq sorted_wrt_rev at_least_as_good_def
        intro: sorted_wrt_mono_rel [rotated])
qed

lemma level_order_price:
  assumes "book_inv b" "(p, l) \<in> set (book_levels b s)" "i \<in> set l"
  shows "ord_price_1e8 (the_order b i) = p"
  using queued_order [OF assms] by (metis option.sel the_order_def)

text \<open>The queue of a side is in price order; earlier means at least as good a price.\<close>

lemma sorted_wrt_concat_map:
  assumes "sorted_wrt R ls" "\<And>x. x \<in> set ls \<Longrightarrow> sorted_wrt Q (f x)"
    "\<And>x y u v. x \<in> set ls \<Longrightarrow> y \<in> set ls \<Longrightarrow> R x y \<Longrightarrow> u \<in> set (f x) \<Longrightarrow> v \<in> set (f y) \<Longrightarrow> Q u v"
  shows "sorted_wrt Q (concat (map f ls))"
  using assms
proof (induction ls)
  case (Cons x ls)
  have "sorted_wrt Q (concat (map f ls))"
  proof (rule Cons.IH)
    show "sorted_wrt R ls" using Cons.prems(1) by simp
    show "sorted_wrt Q (f y)" if "y \<in> set ls" for y using that Cons.prems(2) by simp
    show "Q u v" if "y \<in> set ls" "z \<in> set ls" "R y z" "u \<in> set (f y)" "v \<in> set (f z)" for y z u v
      by (rule Cons.prems(3) [of y z]) (use that in auto)
  qed
  moreover have "\<forall>u \<in> set (f x). \<forall>v \<in> set (concat (map f ls)). Q u v"
    using Cons.prems(1) Cons.prems(3) [of x] by auto
  ultimately show ?case using Cons.prems(2) by (simp add: sorted_wrt_append)
qed simp

lemma sorted_wrt_all: "(\<And>u v. u \<in> set l \<Longrightarrow> v \<in> set l \<Longrightarrow> Q u v) \<Longrightarrow> sorted_wrt Q l"
  by (induction l) auto

lemma queue_sorted:
  assumes "book_inv b"
  shows "sorted_wrt (\<lambda>x y. at_least_as_good s (ord_price_1e8 x) (ord_price_1e8 y)) (queue b s)"
proof -
  have "sorted_wrt (\<lambda>i j. at_least_as_good s (ord_price_1e8 (the_order b i)) (ord_price_1e8 (the_order b j)))
          (concat (map snd (priority_levels b s)))"
  proof (rule sorted_wrt_concat_map [OF priority_levels_sorted [OF assms]])
    fix x assume "x \<in> set (priority_levels b s)"
    then have "ord_price_1e8 (the_order b i) = fst x" if "i \<in> set (snd x)" for i
      using that level_order_price [OF assms, of "fst x" "snd x"] by simp
    then show "sorted_wrt (\<lambda>i j. at_least_as_good s (ord_price_1e8 (the_order b i)) (ord_price_1e8 (the_order b j))) (snd x)"
      by (intro sorted_wrt_all) simp
  next
    fix x y i j
    assume "x \<in> set (priority_levels b s)" "y \<in> set (priority_levels b s)"
      "at_least_as_good s (fst x) (fst y)" "i \<in> set (snd x)" "j \<in> set (snd y)"
    then show "at_least_as_good s (ord_price_1e8 (the_order b i)) (ord_price_1e8 (the_order b j))"
      using level_order_price [OF assms, of "fst x" "snd x"] level_order_price [OF assms, of "fst y" "snd y"] by simp
  qed
  then show ?thesis by (simp add: queue_def queue_ids_def sorted_wrt_map)
qed


section \<open>The read operations in terms of the queue\<close>

lemma queue_Nil_iff: "book_inv b \<Longrightarrow> queue b s = [] \<longleftrightarrow> priority_levels b s = []"
  by (cases "priority_levels b s")
    (use book_inv_levels [of b s] set_priority_levels [of b s] in
      \<open>auto simp: queue_def queue_ids_def levels_ok_def simp del: set_priority_levels\<close>)

lemma best_opposite_price_queue:
  assumes "book_inv b"
  shows "best_opposite_price b s =
     (case queue b (opposite s) of [] \<Rightarrow> None | m # _ \<Rightarrow> Some (ord_price_1e8 m))"
proof -
  have first: "best_opposite_price b s = first_key (priority_levels b (opposite s))"
    by (cases s) (auto simp: best_opposite_price_def priority_levels_def last_key_first_key)
  show ?thesis
  proof (cases "queue b (opposite s)")
    case Nil
    then have "priority_levels b (opposite s) = []" using queue_Nil_iff [OF assms] by metis
    then show ?thesis using first Nil by (simp add: first_key_def bt_keys_def)
  next
    case (Cons m ms)
    then obtain i "is" where ids: "queue_ids b (opposite s) = i # is" and m: "m = the_order b i"
      by (auto simp: queue_def)
    obtain p l rest where "priority_levels b (opposite s) = (p, i # l) # rest"
      "(p, i # l) \<in> set (book_levels b (opposite s))"
      by (rule front_level [OF assms ids])
    then show ?thesis using Cons first m level_order_price [OF assms] by simp
  qed
qed

lemma best_match_queue:
  assumes "book_inv b"
  shows "best_match_order_id b s p =
     (case queue b (opposite s) of
        [] \<Rightarrow> None
      | m # _ \<Rightarrow> if prices_cross s (ord_price_1e8 m) p then Some (ord_order_id m) else None)"
proof (cases "queue b (opposite s)")
  case Nil
  then show ?thesis by (simp add: best_match_order_id_def best_opposite_price_queue [OF assms])
next
  case (Cons m ms)
  then obtain i "is" where ids: "queue_ids b (opposite s) = i # is" and m: "m = the_order b i"
    by (auto simp: queue_def)
  obtain q l where mem: "(q, i # l) \<in> set (book_levels b (opposite s))"
    by (rule front_level [OF assms ids])
  then have q: "ord_price_1e8 m = q" using m level_order_price [OF assms mem] by simp
  have "ord_order_id m = i"
    using m queued_order [OF assms mem, of i] by (metis list.set_intros(1) option.sel the_order_def)
  moreover have "book_level b (opposite s) q = Some (i # l)"
    using mem book_inv_bt_ok [OF assms] by (simp add: book_level_def bt_get_iff)
  ultimately show ?thesis
    using Cons q by (simp add: best_match_order_id_def best_opposite_price_queue [OF assms] pl_front_def)
qed

lemma would_match_queue:
  assumes "book_inv b"
  shows "would_match b r \<longleftrightarrow>
     (\<exists>m \<in> set (queue b (opposite (ord_side r))). prices_cross (ord_side r) (ord_price_1e8 m) (ord_price_1e8 r))"
proof (cases "queue b (opposite (ord_side r))")
  case Nil
  then show ?thesis by (simp add: would_match_def best_opposite_price_queue [OF assms])
next
  case (Cons m ms)
  then show ?thesis
    using queue_sorted [OF assms, of "opposite (ord_side r)"]
    by (auto simp: would_match_def best_opposite_price_queue [OF assms] intro: at_least_as_good_cross)
qed

lemma would_self_trade_queue:
  assumes "book_inv b"
  shows "would_self_trade b r \<longleftrightarrow>
     (\<exists>m \<in> set (queue b (opposite (ord_side r))).
        prices_cross (ord_side r) (ord_price_1e8 m) (ord_price_1e8 r) \<and> ord_account m = ord_account r)"
proof -
  let ?s = "opposite (ord_side r)"
  have lv: "(case ord_side r of Buy \<Rightarrow> ob_asks b | Sell \<Rightarrow> ob_bids b) = book_levels b ?s"
    by (cases "ord_side r") (auto simp: book_levels_def)
  have ord: "hm_get (ob_orders b) i = Some (the_order b i) \<and> ord_price_1e8 (the_order b i) = fst x"
    if "x \<in> set (book_levels b ?s)" "i \<in> set (snd x)" for x i
    using queued_order [OF assms, of "fst x" "snd x" ?s i] that by (metis option.sel prod.collapse the_order_def)
  have "would_self_trade b r \<longleftrightarrow>
     (\<exists>x \<in> set (book_levels b ?s). prices_cross (ord_side r) (fst x) (ord_price_1e8 r) \<and>
        (\<exists>i \<in> set (snd x). case hm_get (ob_orders b) i of
             Some maker \<Rightarrow> ord_account maker = ord_account r | None \<Rightarrow> False))"
    unfolding would_self_trade_def Let_def lv by (simp add: list_ex_iff case_prod_beta Bex_def conj_assoc) blast
  also have "\<dots> \<longleftrightarrow> (\<exists>x \<in> set (book_levels b ?s). \<exists>i \<in> set (snd x).
        prices_cross (ord_side r) (ord_price_1e8 (the_order b i)) (ord_price_1e8 r) \<and>
        ord_account (the_order b i) = ord_account r)"
  proof (rule bex_cong [OF refl])
    fix x assume x: "x \<in> set (book_levels b ?s)"
    show "(prices_cross (ord_side r) (fst x) (ord_price_1e8 r) \<and>
        (\<exists>i \<in> set (snd x). case hm_get (ob_orders b) i of
             Some maker \<Rightarrow> ord_account maker = ord_account r | None \<Rightarrow> False)) \<longleftrightarrow>
      (\<exists>i \<in> set (snd x). prices_cross (ord_side r) (ord_price_1e8 (the_order b i)) (ord_price_1e8 r) \<and>
        ord_account (the_order b i) = ord_account r)"
      using ord [OF x] by auto
  qed
  also have "\<dots> \<longleftrightarrow> (\<exists>m \<in> set (queue b ?s).
        prices_cross (ord_side r) (ord_price_1e8 m) (ord_price_1e8 r) \<and> ord_account m = ord_account r)"
    by (simp add: queue_def queue_ids_def)
  finally show ?thesis .
qed


section \<open>The abstract matching of a taker against a queue\<close>

text \<open>
  The specification: walk the resting orders in priority order, take as much of each as the
  taker still wants, stop at the first one whose price does not cross.
\<close>

fun match_queue ::
  "side \<Rightarrow> price_1e8 \<Rightarrow> size_1e8 \<Rightarrow> order list \<Rightarrow> (order \<times> size_1e8) list \<times> size_1e8 \<times> order list" where
  "match_queue s p want [] = ([], want, [])"
| "match_queue s p want (m # ms) =
     (if want = 0 \<or> \<not> prices_cross s (ord_price_1e8 m) p then ([], want, m # ms)
      else if ord_remaining_size_1e8 m \<le> want
      then (case match_queue s p (want - ord_remaining_size_1e8 m) ms of
              (fs, want', ms') \<Rightarrow> ((m, ord_remaining_size_1e8 m) # fs, want', ms'))
      else ([(m, want)], 0, maker_fill want m # ms))"

fun fills_to_trades ::
  "market_id \<Rightarrow> (nat \<Rightarrow> timestamp_ms) \<Rightarrow> order \<Rightarrow> nat \<Rightarrow> (order \<times> size_1e8) list \<Rightarrow> trade_match list" where
  "fills_to_trades mkt clock t k [] = []"
| "fills_to_trades mkt clock t k (f # fs) =
     make_trade mkt t (fst f) (snd f) (clock k) # fills_to_trades mkt clock t (Suc k) fs"

definition filled_makers :: "(order \<times> size_1e8) list \<Rightarrow> order list" where
  "filled_makers fs = map (\<lambda>f. maker_fill (snd f) (fst f)) fs"

definition store_makers :: "order list \<Rightarrow> (order_id, order) hashmap \<Rightarrow> (order_id, order) hashmap" where
  "store_makers ms os = fold (\<lambda>m. hm_insert (ord_order_id m) m) ms os"

lemma match_queue_zero: "match_queue s p 0 ms = ([], 0, ms)"
  by (cases ms) auto

lemma make_trade_remaining [simp]:
  "make_trade mkt (t\<lparr>ord_remaining_size_1e8 := x\<rparr>) m n c = make_trade mkt t m n c"
  by (cases "ord_side t") (simp_all add: make_trade_def)

lemma fills_to_trades_remaining [simp]:
  "fills_to_trades mkt clock (t\<lparr>ord_remaining_size_1e8 := x\<rparr>) k fs = fills_to_trades mkt clock t k fs"
  by (induction fs arbitrary: k) auto

lemma length_fills_to_trades [simp]: "length (fills_to_trades mkt clock t k fs) = length fs"
  by (induction fs arbitrary: k) auto

text \<open>The loop computes exactly the abstract matching, and it ends.\<close>

lemma match_loop_refines:
  assumes "book_inv b" "queue b (opposite (ord_side t)) = ms"
    "match_queue (ord_side t) (ord_price_1e8 t) (ord_remaining_size_1e8 t) ms = (fs, want, ms')"
  shows "\<exists>b'. match_loop clock t trades updates b =
        Some (Ok (t\<lparr>ord_remaining_size_1e8 := want\<rparr>,
                  trades @ fills_to_trades (ob_market_id b) clock t (length trades) fs,
                  updates @ filled_makers fs), b') \<and>
      book_inv b' \<and> queue b' (opposite (ord_side t)) = ms' \<and>
      queue b' (ord_side t) = queue b (ord_side t) \<and>
      ob_market_id b' = ob_market_id b \<and>
      ob_orders b' = store_makers (filled_makers fs) (ob_orders b) \<and>
      (\<forall>j. hm_get (ob_locations b) j = None \<longrightarrow> hm_get (ob_locations b') j = None)"
  using assms
proof (induction ms arbitrary: b t trades updates fs)
  case Nil
  then show ?case
    using best_match_queue [OF Nil.prems(1), of "ord_side t" "ord_price_1e8 t"]
    by (subst match_loop.simps) (auto simp: filled_makers_def store_makers_def)
next
  case (Cons m ms)
  let ?s = "ord_side t" and ?p = "ord_price_1e8 t" and ?r = "ord_remaining_size_1e8 t" and ?n = "ord_remaining_size_1e8 m"
  note inv = Cons.prems(1) and q = Cons.prems(2)
  have best: "best_match_order_id b ?s ?p = (if prices_cross ?s (ord_price_1e8 m) ?p then Some (ord_order_id m) else None)"
    by (simp add: best_match_queue [OF inv] q)
  have get: "hm_get (ob_orders b) (ord_order_id m) = Some m"
    using in_queue [OF inv, of m "opposite ?s"] q by simp
  show ?case
  proof (cases "?r = 0 \<or> \<not> prices_cross ?s (ord_price_1e8 m) ?p")
    case True
    then have "fs = []" "want = ?r" "ms' = m # ms" using Cons.prems(3) by auto
    then show ?thesis using True inv q best
      by (subst match_loop.simps) (auto simp: filled_makers_def store_makers_def)
  next
    case False
    then have nz: "?r \<noteq> 0" and pos: "0 < ?r" and cross: "prices_cross ?s (ord_price_1e8 m) ?p"
      by (auto simp: word_neq_0_conv)
    let ?f = "min ?r ?n"
    let ?t = "t\<lparr>ord_remaining_size_1e8 := ?r - ?f\<rparr>"
    let ?trade = "make_trade (ob_market_id b) t m ?f (clock (length trades))"
    obtain b1 where ap: "apply_maker_fill (ord_order_id m) ?f b = (Ok (maker_fill ?f m), b1)" and inv1: "book_inv b1"
      and q1: "queue b1 (opposite ?s) = (if ?f = ?n then ms else maker_fill ?f m # ms)"
      and q1': "queue b1 ?s = queue b ?s" and mk: "ob_market_id b1 = ob_market_id b"
      and os: "ob_orders b1 = hm_insert (ord_order_id m) (maker_fill ?f m) (ob_orders b)"
      and loc: "\<And>j. hm_get (ob_locations b) j = None \<Longrightarrow> hm_get (ob_locations b1) j = None"
      using apply_maker_fill_front [OF inv q, of ?f] by fastforce
    have step: "match_loop clock t trades updates b =
        match_loop clock ?t (trades @ [?trade]) (updates @ [maker_fill ?f m]) b1"
      using pos cross best get ap by (subst match_loop.simps) (simp add: Let_def)
    show ?thesis
    proof (cases "?n \<le> ?r")
      case True
      then have f: "?f = ?n" by simp
      obtain fs' where mq: "match_queue ?s ?p (?r - ?n) ms = (fs', want, ms')" and fs: "fs = (m, ?n) # fs'"
        using Cons.prems(3) False True by (auto split: prod.splits)
      show ?thesis
        using Cons.IH [of b1 ?t fs' "trades @ [?trade]" "updates @ [maker_fill ?f m]"] inv1 q1 q1' f mq mk os loc
        by (simp add: step fs filled_makers_def store_makers_def) blast
    next
      case False
      then have f: "?f = ?r" by simp
      have fs: "fs = [(m, ?r)]" "want = 0" "ms' = maker_fill ?r m # ms"
        using Cons.prems(3) False nz cross by auto
      have "match_loop clock ?t (trades @ [?trade]) (updates @ [maker_fill ?f m]) b1 =
          Some (Ok (?t, trades @ [?trade], updates @ [maker_fill ?f m]), b1)"
        using f by (subst match_loop.simps) simp
      then show ?thesis
        using f fs inv1 q1 q1' mk os loc False
        by (simp add: step filled_makers_def store_makers_def)
    qed
  qed
qed

section \<open>Properties of the abstract matching\<close>

lemma match_queue_Cons_cases [consumes 1, case_names stop full partial]:
  assumes "match_queue s p want (m # ms) = (fs, want', ms')"
  obtains "want = 0 \<or> \<not> prices_cross s (ord_price_1e8 m) p" "fs = []" "want' = want" "ms' = m # ms"
  | fs' where "want \<noteq> 0" "prices_cross s (ord_price_1e8 m) p" "ord_remaining_size_1e8 m \<le> want"
      "match_queue s p (want - ord_remaining_size_1e8 m) ms = (fs', want', ms')"
      "fs = (m, ord_remaining_size_1e8 m) # fs'"
  | "want \<noteq> 0" "prices_cross s (ord_price_1e8 m) p" "want < ord_remaining_size_1e8 m"
      "fs = [(m, want)]" "want' = 0" "ms' = maker_fill want m # ms"
  using assms by (auto split: if_splits prod.splits)

lemma match_queue_conserves:
  "match_queue s p want ms = (fs, want', ms') \<Longrightarrow>
     unat want = sum_list (map (unat \<circ> snd) fs) + unat want'"
proof (induction ms arbitrary: want fs)
  case (Cons m ms)
  from Cons.prems show ?case
  proof (cases rule: match_queue_Cons_cases)
    case (full fs')
    have "unat (want - ord_remaining_size_1e8 m) = sum_list (map (unat \<circ> snd) fs') + unat want'"
      by (rule Cons.IH [OF full(4)])
    moreover have "unat want = unat (want - ord_remaining_size_1e8 m) + unat (ord_remaining_size_1e8 m)"
      using full(3) unat_sub_le [OF full(3)] by (simp add: word_le_nat_alt)
    ultimately show ?thesis using full(5) by (simp add: comp_def)
  qed auto
qed auto

lemma match_queue_prefix:
  "match_queue s p want ms = (fs, want', ms') \<Longrightarrow> map fst fs = take (length fs) ms"
proof (induction ms arbitrary: want fs)
  case (Cons m ms)
  from Cons.prems show ?case
    by (cases rule: match_queue_Cons_cases) (use Cons.IH in auto)
qed auto

lemma match_queue_fill:
  "match_queue s p want ms = (fs, want', ms') \<Longrightarrow> f \<in> set fs \<Longrightarrow>
     fst f \<in> set ms \<and> prices_cross s (ord_price_1e8 (fst f)) p \<and> snd f \<le> ord_remaining_size_1e8 (fst f)"
proof (induction ms arbitrary: want fs)
  case (Cons m ms)
  from Cons.prems(1) show ?case
  proof (cases rule: match_queue_Cons_cases)
    case (full fs')
    then show ?thesis using Cons.IH [OF full(4)] Cons.prems(2) by auto
  qed (use Cons.prems(2) in auto)
qed auto

lemma match_queue_exhausted:
  "match_queue s p want ms = (fs, want', ms') \<Longrightarrow> want' \<noteq> 0 \<Longrightarrow>
     ms' = drop (length fs) ms \<and> (\<forall>f \<in> set fs. snd f = ord_remaining_size_1e8 (fst f)) \<and>
     (case ms' of [] \<Rightarrow> True | m # _ \<Rightarrow> \<not> prices_cross s (ord_price_1e8 m) p)"
proof (induction ms arbitrary: want fs)
  case (Cons m ms)
  from Cons.prems(1) show ?case
  proof (cases rule: match_queue_Cons_cases)
    case (full fs')
    show ?thesis using Cons.IH [OF full(4) Cons.prems(2)] full(5) by (simp split: list.splits)
  qed (use Cons.prems(2) in auto)
qed auto

text \<open>Makers before the last one filled are used up completely.\<close>

lemma match_queue_butlast:
  "match_queue s p want ms = (fs, want', ms') \<Longrightarrow>
     \<forall>f \<in> set (butlast fs). snd f = ord_remaining_size_1e8 (fst f)"
proof (induction ms arbitrary: want fs)
  case (Cons m ms)
  from Cons.prems show ?case
    by (cases rule: match_queue_Cons_cases) (use Cons.IH in auto)
qed auto

lemma match_queue_nonzero:
  assumes "match_queue s p want ms = (fs, want', ms')" "\<And>m. m \<in> set ms \<Longrightarrow> 0 < ord_remaining_size_1e8 m"
  shows "\<forall>f \<in> set fs. 0 < snd f"
  using assms
proof (induction ms arbitrary: want fs)
  case (Cons m ms)
  from Cons.prems(1) show ?case
  proof (cases rule: match_queue_Cons_cases)
    case (full fs')
    then show ?thesis using Cons.IH [OF full(4)] Cons.prems(2) by auto
  qed (auto simp: word_neq_0_conv)
qed auto

text \<open>The size of a queue that a limit price reaches; on a sorted queue the matching trades as much of it as wanted.\<close>

definition crossing_depth :: "side \<Rightarrow> price_1e8 \<Rightarrow> order list \<Rightarrow> nat" where
  "crossing_depth s p ms = sum_list (map (unat \<circ> ord_remaining_size_1e8) (filter (\<lambda>m. prices_cross s (ord_price_1e8 m) p) ms))"

lemma match_queue_crossing_depth:
  assumes "sorted_wrt (\<lambda>x y. at_least_as_good (opposite s) (ord_price_1e8 x) (ord_price_1e8 y)) ms"
    and "match_queue s p want ms = (fs, want', ms')"
  shows "sum_list (map (unat \<circ> snd) fs) = min (unat want) (crossing_depth s p ms)"
  using assms
proof (induction ms arbitrary: want fs)
  case (Cons m ms)
  from Cons.prems(2) show ?case
  proof (cases rule: match_queue_Cons_cases)
    case stop
    have "filter (\<lambda>m. prices_cross s (ord_price_1e8 m) p) (m # ms) = []" if "\<not> prices_cross s (ord_price_1e8 m) p"
      using that Cons.prems(1) at_least_as_good_cross by (auto simp: filter_empty_conv)
    then show ?thesis using stop by (auto simp: crossing_depth_def)
  next
    case (full fs')
    have "sum_list (map (unat \<circ> snd) fs') = min (unat (want - ord_remaining_size_1e8 m)) (crossing_depth s p ms)"
      by (rule Cons.IH [OF _ full(4)]) (use Cons.prems(1) in simp)
    moreover have "unat want = unat (want - ord_remaining_size_1e8 m) + unat (ord_remaining_size_1e8 m)"
      using full(3) unat_sub_le [OF full(3)] by (simp add: word_le_nat_alt)
    ultimately show ?thesis using full(2,5) by (simp add: comp_def crossing_depth_def)
  next
    case partial
    then show ?thesis by (simp add: crossing_depth_def word_less_nat_alt)
  qed
qed (simp add: crossing_depth_def)

end
