(* ===== verification/Orderbook_Submit.thy ===== *)
theory Orderbook_Submit
  imports Orderbook_Match
begin

text \<open>
  What \<^verbatim>\<open>OrderBook::submit\<close> and \<^verbatim>\<open>OrderBook::cancel\<close> do to the book, in terms of the queues of its two
  sides, with the properties of the order book that follow from it.
\<close>

section \<open>Resting an order\<close>

definition level_at :: "price_1e8 \<Rightarrow> (price_1e8, price_level) btreemap \<Rightarrow> price_level" where
  "level_at p ls = (case bt_get ls p of Some l \<Rightarrow> l | None \<Rightarrow> [])"

text \<open>A sorted map splits at a key into the smaller keys, the key itself and the greater keys.\<close>

lemma bt_split_at:
  assumes "bt_ok (ls :: (price_1e8, price_level) btreemap)"
  shows "concat (map snd ls) = concat (map snd (takeWhile (\<lambda>kv. fst kv < p) ls)) @ level_at p ls @
           concat (map snd (dropWhile (\<lambda>kv. fst kv \<le> p) ls))"
    and "concat (map snd (rev ls)) = concat (map snd (rev (dropWhile (\<lambda>kv. fst kv \<le> p) ls))) @ level_at p ls @
           concat (map snd (rev (takeWhile (\<lambda>kv. fst kv < p) ls)))"
proof -
  have split: "ls = takeWhile (\<lambda>kv. fst kv < p) ls @
      (case bt_get ls p of Some l \<Rightarrow> [(p, l)] | None \<Rightarrow> []) @ dropWhile (\<lambda>kv. fst kv \<le> p) ls"
    using assms
  proof (induction ls)
    case (Cons kv ls)
    show ?case
    proof (cases "fst kv < p")
      case True
      then show ?thesis using Cons by (cases kv) (auto simp: bt_ok_Cons bt_get_def)
    next
      case False
      have none: "bt_get ls q = None" if "q \<le> fst kv" for q
        using that Cons.prems by (force simp: bt_ok_Cons bt_get_def map_of_eq_None_iff)
      have drop: "dropWhile (\<lambda>kv. fst kv \<le> q) ls = ls" if "q \<le> fst kv" for q
        using that Cons.prems by (cases ls) (auto simp: bt_ok_Cons)
      show ?thesis
        using False none drop by (cases kv) (auto simp: bt_get_def)
    qed
  qed simp
  have lv: "concat (map snd (case bt_get ls p of Some l \<Rightarrow> [(p, l)] | None \<Rightarrow> [])) = level_at p ls"
    by (simp add: level_at_def split: option.splits)
  have lv': "rev (case bt_get ls p of Some l \<Rightarrow> [(p, l)] | None \<Rightarrow> []) = (case bt_get ls p of Some l \<Rightarrow> [(p, l)] | None \<Rightarrow> [])"
    by (simp split: option.splits)
  show "concat (map snd ls) = concat (map snd (takeWhile (\<lambda>kv. fst kv < p) ls)) @ level_at p ls @
           concat (map snd (dropWhile (\<lambda>kv. fst kv \<le> p) ls))"
    by (subst split) (simp add: lv)
  show "concat (map snd (rev ls)) = concat (map snd (rev (dropWhile (\<lambda>kv. fst kv \<le> p) ls))) @ level_at p ls @
           concat (map snd (rev (takeWhile (\<lambda>kv. fst kv < p) ls)))"
    by (subst split) (simp add: lv lv')
qed

definition better_ids :: "side \<Rightarrow> price_1e8 \<Rightarrow> (price_1e8, price_level) btreemap \<Rightarrow> order_id list" where
  "better_ids s p ls = (case s of
       Buy \<Rightarrow> concat (map snd (rev (dropWhile (\<lambda>kv. fst kv \<le> p) ls))) @ level_at p ls
     | Sell \<Rightarrow> concat (map snd (takeWhile (\<lambda>kv. fst kv < p) ls)) @ level_at p ls)"

definition worse_ids :: "side \<Rightarrow> price_1e8 \<Rightarrow> (price_1e8, price_level) btreemap \<Rightarrow> order_id list" where
  "worse_ids s p ls = (case s of
       Buy \<Rightarrow> concat (map snd (rev (takeWhile (\<lambda>kv. fst kv < p) ls)))
     | Sell \<Rightarrow> concat (map snd (dropWhile (\<lambda>kv. fst kv \<le> p) ls)))"

lemma queue_ids_split:
  "book_inv b \<Longrightarrow> queue_ids b s = better_ids s p (book_levels b s) @ worse_ids s p (book_levels b s)"
  using bt_split_at [OF book_inv_bt_ok, of b s p]
  by (cases s) (simp_all add: queue_ids_def priority_levels_eq better_ids_def worse_ids_def)

lemma dropWhile_gt: "bt_ok ls \<Longrightarrow> x \<in> set (dropWhile (\<lambda>kv. fst kv \<le> p) ls) \<Longrightarrow> p < fst x"
  by (induction ls) (auto simp: bt_ok_Cons split: if_splits)

lemma concat_rev_set: "set (concat (map snd (rev ls))) = set (concat (map snd ls))"
  by simp

lemma split_prices:
  assumes "book_inv b"
  shows "i \<in> set (better_ids s p (book_levels b s)) \<Longrightarrow> at_least_as_good s (ord_price_1e8 (the_order b i)) p"
    and "i \<in> set (worse_ids s p (book_levels b s)) \<Longrightarrow> \<not> at_least_as_good s (ord_price_1e8 (the_order b i)) p"
proof -
  let ?ls = "book_levels b s"
  note ok = book_inv_bt_ok [OF assms, of s]
  have price: "ord_price_1e8 (the_order b i) = fst x" if "x \<in> set ?ls" "i \<in> set (snd x)" for x i
    using level_order_price [OF assms, of "fst x" "snd x" s i] that by simp
  have lo: "ord_price_1e8 (the_order b i) < p" if "i \<in> set (concat (map snd (takeWhile (\<lambda>kv. fst kv < p) ?ls)))"
    using that price by (auto dest!: set_takeWhileD)
  have hi: "p < ord_price_1e8 (the_order b i)" if "i \<in> set (concat (map snd (dropWhile (\<lambda>kv. fst kv \<le> p) ?ls)))"
  proof -
    from that obtain x where x: "x \<in> set (dropWhile (\<lambda>kv. fst kv \<le> p) ?ls)" "i \<in> set (snd x)" by auto
    then show ?thesis using price [OF set_dropWhileD [OF x(1)] x(2)] dropWhile_gt [OF ok x(1)] by simp
  qed
  have mid: "ord_price_1e8 (the_order b i) = p" if "i \<in> set (level_at p ?ls)"
  proof (cases "bt_get ?ls p")
    case (Some l)
    then have "(p, l) \<in> set ?ls" "i \<in> set l" using that ok by (simp_all add: level_at_def bt_get_iff [symmetric])
    then show ?thesis using price [of "(p, l)" i] by simp
  qed (use that in \<open>simp add: level_at_def\<close>)
  show "i \<in> set (better_ids s p ?ls) \<Longrightarrow> at_least_as_good s (ord_price_1e8 (the_order b i)) p"
    using less_imp_le [OF lo] less_imp_le [OF hi] mid
    by (cases s) (auto simp del: set_concat simp: better_ids_def at_least_as_good_def concat_rev_set)
  show "i \<in> set (worse_ids s p ?ls) \<Longrightarrow> \<not> at_least_as_good s (ord_price_1e8 (the_order b i)) p"
    using lo hi by (cases s) (auto simp del: set_concat simp: worse_ids_def at_least_as_good_def not_le concat_rev_set)
qed

lemma bt_insert_ids:
  "concat (map snd (bt_insert p l ls)) =
     concat (map snd (takeWhile (\<lambda>kv. fst kv < p) ls)) @ l @ concat (map snd (dropWhile (\<lambda>kv. fst kv \<le> p) ls))"
  "concat (map snd (rev (bt_insert p l ls))) =
     concat (map snd (rev (dropWhile (\<lambda>kv. fst kv \<le> p) ls))) @ l @ concat (map snd (rev (takeWhile (\<lambda>kv. fst kv < p) ls)))"
  by (simp_all add: bt_insert_def)

lemma rest_order_eq:
  "rest_order r b =
     set_book_levels (ord_side r)
       (bt_insert (ord_price_1e8 r) (level_at (ord_price_1e8 r) (book_levels b (ord_side r)) @ [ord_order_id r])
          (book_levels b (ord_side r)))
       (b\<lparr>ob_locations := hm_insert (ord_order_id r)
              \<lparr> loc_side = ord_side r, loc_price_1e8 = ord_price_1e8 r \<rparr> (ob_locations b)\<rparr>)"
  by (simp add: rest_order_def Let_def level_at_def pl_push_back_def)

lemma rest_order_queue_ids:
  assumes "book_inv b"
  shows "queue_ids (rest_order r b) s =
     (if s = ord_side r
      then better_ids s (ord_price_1e8 r) (book_levels b s) @ ord_order_id r # worse_ids s (ord_price_1e8 r) (book_levels b s)
      else queue_ids b s)"
proof (cases "s = ord_side r")
  case True
  then show ?thesis
    by (cases s) (simp_all add: rest_order_eq queue_ids_def better_ids_def worse_ids_def bt_insert_ids)
next
  case False
  then show ?thesis by (simp add: rest_order_eq queue_ids_def)
qed

lemma rest_order_inv:
  assumes inv: "book_inv b" and fresh: "hm_get (ob_locations b) (ord_order_id r) = None"
    and ok: "0 < ord_remaining_size_1e8 r" "ord_remaining_size_1e8 r \<le> ord_size_1e8 r"
      "ord_status r = Open \<or> ord_status r = PartiallyFilled" "ord_price_1e8 r \<noteq> 0"
    and nocross: "\<And>m. m \<in> set (queue b (opposite (ord_side r))) \<Longrightarrow>
        \<not> prices_cross (ord_side r) (ord_price_1e8 m) (ord_price_1e8 r)"
  shows "book_inv (put_order r (rest_order r b))"
proof -
  let ?b = "put_order r (rest_order r b)" and ?s = "ord_side r" and ?p = "ord_price_1e8 r" and ?i = "ord_order_id r"
  let ?l = "level_at ?p (book_levels b ?s)"
  note bok = book_inv_bt_ok [OF inv]
  have lv: "book_levels (rest_order r b) s =
      (if s = ?s then bt_insert ?p (?l @ [?i]) (book_levels b ?s) else book_levels b s)" for s
    by (simp add: rest_order_eq)
  have mem: "x = (?p, ?l @ [?i]) \<and> s = ?s \<or> (x \<in> set (book_levels b s) \<and> (s = ?s \<longrightarrow> fst x \<noteq> ?p))"
    if "x \<in> set (book_levels ?b s)" for x s
    using that bok [of ?s] by (auto simp: lv set_bt_insert split: if_splits)
  have loc: "hm_get (ob_locations (rest_order r b)) j =
      (if j = ?i then Some \<lparr> loc_side = ?s, loc_price_1e8 = ?p \<rparr> else hm_get (ob_locations b) j)" for j
    by (simp add: rest_order_eq)
  have ords: "ob_orders (rest_order r b) = ob_orders b"
    by (simp add: rest_order_eq)
  have self: "resting_ok ?b ?s ?p ?i" using ok by (simp add: resting_ok_def loc ords)
  have keep: "resting_ok ?b s p j" if "resting_ok b s p j" for s p j
    using that fresh by (auto simp: resting_ok_def loc ords)
  have old: "resting_ok b ?s ?p j" if "j \<in> set ?l" for j
  proof -
    have "(?p, ?l) \<in> set (book_levels b ?s)"
      using that bok [of ?s] by (auto simp: level_at_def bt_get_iff split: option.splits)
    then show ?thesis using that book_inv_levels [OF inv, of ?s] by (force simp: levels_ok_def)
  qed
  have "levels_ok ?b s" for s
  proof -
    have "bt_ok (book_levels ?b s)" using bok by (auto simp: lv)
    moreover have "snd x \<noteq> [] \<and> (\<forall>j \<in> set (snd x). resting_ok ?b s (fst x) j)"
      if "x \<in> set (book_levels ?b s)" for x
      using mem [OF that] self keep old book_inv_levels [OF inv, of s] by (auto simp: levels_ok_def)
    ultimately show ?thesis by (auto simp: levels_ok_def)
  qed
  moreover have maps: "hm_ok (ob_orders ?b)" "hm_ok (ob_locations ?b)"
    using book_inv_maps [OF inv] by (simp_all add: put_order_def rest_order_eq)
  moreover have "\<forall>ir \<in> set (ob_orders ?b). ord_order_id (snd ir) = fst ir"
    using book_inv_order_id [OF inv]
    by (subst hm_all_iff [OF maps(1), where P = "\<lambda>k v. ord_order_id v = k"]) (auto simp: ords split: if_splits)
  moreover have "distinct (queue_ids ?b s)" for s
  proof -
    have "distinct (queue_ids b s)" by (rule book_inv_distinct [OF inv])
    moreover have "?i \<notin> set (queue_ids b s)" by (rule not_located_not_queued [OF inv fresh])
    ultimately show ?thesis
      using queue_ids_split [OF inv, of s ?p] by (auto simp: rest_order_queue_ids [OF inv])
  qed
  moreover have "located ?b"
  proof -
    have "case book_level ?b (loc_side lc) (loc_price_1e8 lc) of None \<Rightarrow> False | Some m \<Rightarrow> j \<in> set m"
      if get: "hm_get (ob_locations ?b) j = Some lc" for j lc
    proof (cases "j = ?i")
      case True
      then show ?thesis using get loc bok [of ?s] by (auto simp: book_level_def lv)
    next
      case False
      obtain s q where lc: "lc = \<lparr> loc_side = s, loc_price_1e8 = q \<rparr>" by (cases lc) auto
      then obtain m where m: "(q, m) \<in> set (book_levels b s)" "j \<in> set m"
        using False get loc location_iff [OF inv, of j s q] by auto
      then have "bt_get (book_levels b s) q = Some m" using bok by (simp add: bt_get_iff)
      then show ?thesis using lc bok m by (cases "s = ?s") (auto simp: book_level_def lv level_at_def)
    qed
    then show ?thesis
      using hm_all_iff [OF maps(2), where P = "\<lambda>j lc. case book_level ?b (loc_side lc) (loc_price_1e8 lc) of None \<Rightarrow> False | Some m \<Rightarrow> j \<in> set m"]
      by (simp add: located_def)
  qed
  moreover have "uncrossed ?b"
  proof -
    have opp: "\<not> prices_cross ?s (fst x) ?p" if "x \<in> set (book_levels b (opposite ?s))" for x
    proof -
      have "snd x \<noteq> []" using that book_inv_levels [OF inv, of "opposite ?s"] by (auto simp: levels_ok_def)
      then obtain j where "j \<in> set (snd x)" by (meson list.set_sel(1))
      then have "the_order b j \<in> set (queue b (opposite ?s))" "ord_price_1e8 (the_order b j) = fst x"
        using that level_order_price [OF inv, of "fst x" "snd x"] by (auto simp: queue_def queue_ids_def)
      then show ?thesis using nocross by metis
    qed
    have "fst x < fst y" if xy: "x \<in> set (book_levels ?b Buy)" "y \<in> set (book_levels ?b Sell)" for x y
    proof -
      consider "x \<in> set (book_levels b Buy)" "y \<in> set (book_levels b Sell)"
        | "fst x = ?p" "?s = Buy" "y \<in> set (book_levels b Sell)"
        | "fst y = ?p" "?s = Sell" "x \<in> set (book_levels b Buy)"
        using mem [OF xy(1)] mem [OF xy(2)] by force
      then show ?thesis
      proof cases
        case 1
        then show ?thesis using inv by (auto simp: book_inv_def uncrossed_def book_levels_def)
      next
        case 2
        then show ?thesis using opp [of y] by (simp add: prices_cross_def)
      next
        case 3
        then show ?thesis using opp [of x] by (simp add: prices_cross_def)
      qed
    qed
    then show ?thesis by (auto simp: uncrossed_def book_levels_def)
  qed
  ultimately show ?thesis by (simp add: book_inv_def)
qed

text \<open>The rested order queues behind every order of an equal or better price.\<close>

lemma rest_order_queue:
  assumes inv: "book_inv b" and fresh: "hm_get (ob_locations b) (ord_order_id r) = None"
  shows "queue (put_order r (rest_order r b)) (ord_side r) =
       filter (\<lambda>x. at_least_as_good (ord_side r) (ord_price_1e8 x) (ord_price_1e8 r)) (queue b (ord_side r)) @
       r # filter (\<lambda>x. \<not> at_least_as_good (ord_side r) (ord_price_1e8 x) (ord_price_1e8 r)) (queue b (ord_side r))"
    and "queue (put_order r (rest_order r b)) (opposite (ord_side r)) = queue b (opposite (ord_side r))"
proof -
  let ?b = "put_order r (rest_order r b)" and ?s = "ord_side r" and ?p = "ord_price_1e8 r"
  let ?g = "better_ids ?s ?p (book_levels b ?s)" and ?w = "worse_ids ?s ?p (book_levels b ?s)"
  have nin: "ord_order_id r \<notin> set (queue_ids b s)" for s by (rule not_located_not_queued [OF inv fresh])
  have ords: "the_order ?b j = (if j = ord_order_id r then r else the_order b j)" for j
    by (simp add: the_order_def rest_order_eq)
  note split = queue_ids_split [OF inv, of ?s ?p]
  have same: "map (the_order ?b) xs = map (the_order b) xs" if "ord_order_id r \<notin> set xs" for xs
    using that by (auto simp: ords)
  have "queue ?b ?s = map (the_order b) ?g @ r # map (the_order b) ?w"
    using nin [of ?s] split by (simp add: queue_def rest_order_queue_ids [OF inv] same ords)
  moreover have "filter (\<lambda>x. at_least_as_good ?s (ord_price_1e8 x) ?p) (queue b ?s) = map (the_order b) ?g"
    "filter (\<lambda>x. \<not> at_least_as_good ?s (ord_price_1e8 x) ?p) (queue b ?s) = map (the_order b) ?w"
    using split_prices [OF inv, of _ ?s ?p] by (auto simp: queue_def split filter_map comp_def filter_empty_conv filter_id_conv)
  ultimately show "queue ?b ?s = filter (\<lambda>x. at_least_as_good ?s (ord_price_1e8 x) ?p) (queue b ?s) @
       r # filter (\<lambda>x. \<not> at_least_as_good ?s (ord_price_1e8 x) ?p) (queue b ?s)"
    by simp
  show "queue ?b (opposite ?s) = queue b (opposite ?s)"
    using nin [of "opposite ?s"] by (simp add: queue_def rest_order_queue_ids [OF inv] same)
qed


section \<open>What a submission does\<close>

text \<open>
  The taker as the loop leaves it, the trades, the updated makers and the book afterwards, in
  terms of the abstract matching.
\<close>

definition accepts :: "order_book \<Rightarrow> order \<Rightarrow> bool" where
  "accepts b r = (ord_price_1e8 r \<noteq> 0 \<and> ord_size_1e8 r \<noteq> 0 \<and> ord_remaining_size_1e8 r \<noteq> 0 \<and>
     ord_time_in_force r \<noteq> Fok \<and> \<not> (ord_post_only r \<and> would_match b r) \<and> \<not> would_self_trade b r)"

definition submittable :: "order_book \<Rightarrow> order \<Rightarrow> bool" where
  "submittable b r =
     (hm_get (ob_orders b) (ord_order_id r) = None \<and> ord_remaining_size_1e8 r = ord_size_1e8 r)"

lemma submit_rejects:
  assumes "\<not> accepts b r"
  shows "\<exists>e b'. submit clock r b = Some (Err e, b') \<and> (b' = b \<or> b' = put_order (r\<lparr>ord_status := Rejected\<rparr>) b)"
  using assms by (simp add: submit_def validate_order_def accepts_def) blast

lemma settle_taker_fields [simp]:
  "ord_order_id (settle_taker t x) = ord_order_id t" "ord_side (settle_taker t x) = ord_side t"
  "ord_price_1e8 (settle_taker t x) = ord_price_1e8 t" "ord_size_1e8 (settle_taker t x) = ord_size_1e8 t"
  "ord_account (settle_taker t x) = ord_account t"
  by (simp_all add: settle_taker_def Let_def)

lemma fresh_not_located:
  assumes "book_inv b" "hm_get (ob_orders b) i = None"
  shows "hm_get (ob_locations b) i = None"
proof (rule ccontr)
  assume "hm_get (ob_locations b) i \<noteq> None"
  then obtain loc where loc: "hm_get (ob_locations b) i = Some loc" by auto
  obtain s p where "loc = \<lparr> loc_side = s, loc_price_1e8 = p \<rparr>" by (cases loc) auto
  then obtain l where "(p, l) \<in> set (book_levels b s)" "i \<in> set l"
    using loc location_iff [OF assms(1), of i s p] by auto
  then show False using queued_order [OF assms(1)] assms(2) by (metis option.distinct(1))
qed

lemma store_makers_get_other:
  "(\<And>m. m \<in> set ms \<Longrightarrow> ord_order_id m \<noteq> i) \<Longrightarrow> hm_get (store_makers ms os) i = hm_get os i"
  by (induction ms arbitrary: os) (auto simp: store_makers_def)

text \<open>The central refinement: an accepted submission behaves like the abstract matching.\<close>

lemma submit_accepted:
  assumes inv: "book_inv b" and acc: "accepts b r" and sub: "submittable b r"
    and mq: "match_queue (ord_side r) (ord_price_1e8 r) (ord_size_1e8 r) (queue b (opposite (ord_side r))) = (fs, want, ms)"
  shows "\<exists>b'. submit clock r b =
        Some (Ok \<lparr> sr_order = settle_taker (r\<lparr>ord_status := Open, ord_remaining_size_1e8 := want\<rparr>) (fs = []),
                   sr_trades = fills_to_trades (ob_market_id b) clock r 0 fs,
                   sr_maker_order_updates = filled_makers fs \<rparr>, b') \<and>
      book_inv b' \<and> queue b' (opposite (ord_side r)) = ms \<and>
      queue b' (ord_side r) =
        (if want \<noteq> 0 \<and> ord_time_in_force r = Gtc
         then let t = settle_taker (r\<lparr>ord_status := Open, ord_remaining_size_1e8 := want\<rparr>) (fs = []) in
              filter (\<lambda>x. at_least_as_good (ord_side r) (ord_price_1e8 x) (ord_price_1e8 r)) (queue b (ord_side r)) @
              t # filter (\<lambda>x. \<not> at_least_as_good (ord_side r) (ord_price_1e8 x) (ord_price_1e8 r)) (queue b (ord_side r))
         else queue b (ord_side r)) \<and>
      ob_market_id b' = ob_market_id b"
proof -
  let ?s = "ord_side r" and ?i = "ord_order_id r"
  define t0 where "t0 = r\<lparr>ord_status := Open\<rparr>"
  define t1 where "t1 = t0\<lparr>ord_remaining_size_1e8 := want\<rparr>"
  define t2 where "t2 = settle_taker t1 (fs = [])"
  have t2_eq: "settle_taker (r\<lparr>ord_status := Open, ord_remaining_size_1e8 := want\<rparr>) (fs = []) = t2"
    by (simp add: t2_def t1_def t0_def)
  have rem: "ord_remaining_size_1e8 r = ord_size_1e8 r" and fresh: "hm_get (ob_orders b) ?i = None"
    using sub by (auto simp: submittable_def)
  have loc0: "hm_get (ob_locations b) ?i = None" by (rule fresh_not_located [OF inv fresh])
  have ids: "?i \<notin> set (queue_ids b s)" for s by (rule not_located_not_queued [OF inv loc0])
  have tid: "ord_order_id t0 = ?i" "ord_side t0 = ?s" "ord_remaining_size_1e8 t0 = ord_size_1e8 r" "ord_price_1e8 t0 = ord_price_1e8 r"
    using rem by (simp_all add: t0_def)
  have inv0: "book_inv (put_order t0 b)" using put_order_inv [OF inv] loc0 tid by simp
  have q0: "queue (put_order t0 b) s = queue b s" for s using queue_put_order ids tid by metis
  have mq0: "match_queue (ord_side t0) (ord_price_1e8 t0) (ord_remaining_size_1e8 t0) (queue (put_order t0 b) (opposite (ord_side t0))) = (fs, want, ms)"
    using mq q0 tid by simp
  obtain b1 where loop: "match_loop clock t0 [] [] (put_order t0 b) =
        Some (Ok (t1, fills_to_trades (ob_market_id b) clock t0 0 fs, filled_makers fs), b1)"
      and inv1: "book_inv b1" and q1: "queue b1 (opposite ?s) = ms" "queue b1 ?s = queue b ?s"
      and mk: "ob_market_id b1 = ob_market_id b" and loc1: "hm_get (ob_locations b1) ?i = None"
    using match_loop_refines [OF inv0 refl mq0, of clock "[]" "[]"] q0 tid loc0 by (auto simp: t1_def)
  have trades: "fills_to_trades (ob_market_id b) clock t0 0 fs = fills_to_trades (ob_market_id b) clock r 0 fs"
  proof -
    have "make_trade mkt t0 m n c = make_trade mkt r m n c" for mkt m n c
      by (cases ?s) (simp_all add: make_trade_def t0_def)
    then have "fills_to_trades mkt clock t0 k fs = fills_to_trades mkt clock r k fs" for mkt k
      by (induction fs arbitrary: k) auto
    then show ?thesis .
  qed
  have empty: "fills_to_trades (ob_market_id b) clock r 0 fs = [] \<longleftrightarrow> fs = []" by (cases fs) auto
  define b2 where "b2 = put_order t2 (if want > 0 \<and> ord_time_in_force r = Gtc then rest_order t2 b1 else b1)"
  have sub_eq: "submit clock r b = Some (Ok \<lparr> sr_order = t2,
        sr_trades = fills_to_trades (ob_market_id b) clock r 0 fs,
        sr_maker_order_updates = filled_makers fs \<rparr>, b2)"
    using acc loop trades empty
    by (simp add: submit_def validate_order_def accepts_def finish_submit_def Let_def
        t0_def [symmetric] t2_def [symmetric] b2_def) (auto simp: t1_def t0_def)
  have t2f: "ord_order_id t2 = ?i" "ord_side t2 = ?s" "ord_price_1e8 t2 = ord_price_1e8 r" by (simp_all add: t2_def t1_def t0_def)
  show ?thesis
  proof (cases "want \<noteq> 0 \<and> ord_time_in_force r = Gtc")
    case True
    then have pos: "want > 0" and gtc: "ord_time_in_force r = Gtc" by (auto simp: word_neq_0_conv)
    have "unat want \<le> unat (ord_size_1e8 r)" using match_queue_conserves [OF mq] by simp
    then have le: "want \<le> ord_size_1e8 r" by (simp add: word_le_nat_alt)
    have good: "0 < ord_remaining_size_1e8 t2" "ord_remaining_size_1e8 t2 \<le> ord_size_1e8 t2"
        "ord_status t2 = Open \<or> ord_status t2 = PartiallyFilled" "ord_price_1e8 t2 \<noteq> 0"
      using pos le gtc True acc by (auto simp: t2_def t1_def t0_def settle_taker_def accepts_def Let_def)
    have nocross: "\<not> prices_cross ?s (ord_price_1e8 m) (ord_price_1e8 r)" if "m \<in> set ms" for m
    proof (cases ms)
      case (Cons m0 ms0)
      have sorted: "sorted_wrt (\<lambda>x y. at_least_as_good (opposite ?s) (ord_price_1e8 x) (ord_price_1e8 y)) ms"
        using queue_sorted [OF inv1, of "opposite ?s"] q1 by simp
      have "\<not> prices_cross ?s (ord_price_1e8 m0) (ord_price_1e8 r)"
        using match_queue_exhausted [OF mq] True Cons by auto
      then show ?thesis using that Cons sorted at_least_as_good_cross by auto
    qed (use that in simp)
    have b2: "b2 = put_order t2 (rest_order t2 b1)" using pos gtc by (simp add: b2_def)
    have "book_inv b2" unfolding b2
      by (rule rest_order_inv [OF inv1]) (use loc1 t2f good nocross q1 in auto)
    moreover have "queue b2 ?s = filter (\<lambda>x. at_least_as_good ?s (ord_price_1e8 x) (ord_price_1e8 r)) (queue b ?s) @
          t2 # filter (\<lambda>x. \<not> at_least_as_good ?s (ord_price_1e8 x) (ord_price_1e8 r)) (queue b ?s)"
      and "queue b2 (opposite ?s) = ms"
      using rest_order_queue [OF inv1, of t2] loc1 t2f q1 by (simp_all add: b2)
    moreover have "ob_market_id b2 = ob_market_id b" by (simp add: b2 rest_order_eq mk)
    ultimately show ?thesis using sub_eq True unfolding t2_eq Let_def by simp
  next
    case False
    then have b2: "b2 = put_order t2 b1" by (auto simp: b2_def word_neq_0_conv)
    have "?i \<notin> set (queue_ids b1 s)" for s by (rule not_located_not_queued [OF inv1 loc1])
    then have "queue b2 s = queue b1 s" for s unfolding b2 using t2f queue_put_order by metis
    moreover have "book_inv b2" unfolding b2 by (rule put_order_inv [OF inv1]) (use loc1 t2f in simp)
    moreover have "ob_market_id b2 = ob_market_id b" by (simp add: b2 mk)
    ultimately show ?thesis using sub_eq False q1 unfolding t2_eq by auto
  qed
qed

lemma cancel_resting:
  assumes inv: "book_inv b" and loc: "hm_get (ob_locations b) i = Some loc"
  shows "\<exists>r b'. hm_get (ob_orders b) i = Some r \<and>
      cancel i b = (Ok (r\<lparr>ord_status := Cancelled, ord_remaining_size_1e8 := 0\<rparr>), b') \<and> book_inv b' \<and>
      (\<forall>s. queue b' s = filter (\<lambda>x. ord_order_id x \<noteq> i) (queue b s)) \<and>
      hm_get (ob_locations b') i = None \<and>
      hm_get (ob_orders b') i = Some (r\<lparr>ord_status := Cancelled, ord_remaining_size_1e8 := 0\<rparr>)"
proof -
  obtain s p where lc: "loc = \<lparr> loc_side = s, loc_price_1e8 = p \<rparr>" by (cases loc) auto
  then obtain l where mem: "(p, l) \<in> set (book_levels b s)" "i \<in> set l"
    using loc location_iff [OF inv, of i s p] by auto
  obtain r where r: "hm_get (ob_orders b) i = Some r" "ord_order_id r = i"
    using queued_order [OF inv mem] by metis
  let ?r = "r\<lparr>ord_status := Cancelled, ord_remaining_size_1e8 := 0\<rparr>"
  define b' where "b' = (unrest i s p b)\<lparr>ob_orders := hm_insert i ?r (ob_orders b)\<rparr>"
  have rm: "(snd \<circ> pl_remove i) l' = remove1 i l'" for l'
    by (simp add: pl_remove_def remove1_idem)
  have "cancel i b = (Ok ?r, b')"
    using loc lc r remove_empty_level_unrest(2) [of p b s "snd \<circ> pl_remove i" i, OF rm]
    by (simp add: cancel_def Let_def b'_def)
  moreover have "book_inv b'"
    using put_order_inv [OF unrest_inv [OF inv mem], of ?r] r by (simp add: b'_def put_order_def)
  moreover have "queue b' s' = filter (\<lambda>x. ord_order_id x \<noteq> i) (queue b s')" for s'
  proof -
    have id: "ord_order_id (the_order b j) = j" if "j \<in> set (queue_ids b s')" for j
      using that queued_order [OF inv] by (metis in_queue_ids option.sel the_order_def)
    have "queue b' s' = map (the_order b) (filter (\<lambda>j. j \<noteq> i) (queue_ids b s'))"
      by (auto simp: queue_def b'_def unrest_queue_ids [OF inv mem] the_order_def)
    also have "filter (\<lambda>j. j \<noteq> i) (queue_ids b s') = filter (\<lambda>j. ord_order_id (the_order b j) \<noteq> i) (queue_ids b s')"
      by (rule filter_cong) (auto simp: id)
    also have "map (the_order b) \<dots> = filter (\<lambda>x. ord_order_id x \<noteq> i) (queue b s')"
      by (simp add: queue_def filter_map comp_def)
    finally show ?thesis .
  qed
  ultimately show ?thesis using r by (auto simp: b'_def)
qed


section \<open>Trades of a list of fills\<close>

lemma fills_to_trades_nth:
  "k < length fs \<Longrightarrow> fills_to_trades mkt clock t k0 fs ! k = make_trade mkt t (fst (fs ! k)) (snd (fs ! k)) (clock (k0 + k))"
  by (induction fs arbitrary: k k0) (auto simp: nth_Cons split: nat.splits)

lemma make_trade_fields [simp]:
  "tm_market_id (make_trade mkt t m n c) = mkt"
  "tm_maker_order_id (make_trade mkt t m n c) = ord_order_id m" "tm_taker_order_id (make_trade mkt t m n c) = ord_order_id t"
  "tm_maker_account (make_trade mkt t m n c) = ord_account m" "tm_taker_account (make_trade mkt t m n c) = ord_account t"
  "tm_price_1e8 (make_trade mkt t m n c) = ord_price_1e8 m" "tm_size_1e8 (make_trade mkt t m n c) = n"
  "tm_buyer (make_trade mkt t m n c) = (case ord_side t of Buy \<Rightarrow> ord_account t | Sell \<Rightarrow> ord_account m)"
  "tm_seller (make_trade mkt t m n c) = (case ord_side t of Buy \<Rightarrow> ord_account m | Sell \<Rightarrow> ord_account t)"
  by (cases "ord_side t"; simp add: make_trade_def)+

lemma fills_to_trades_maps [simp]:
  "map tm_size_1e8 (fills_to_trades mkt clock t k fs) = map snd fs"
  "map tm_price_1e8 (fills_to_trades mkt clock t k fs) = map (ord_price_1e8 \<circ> fst) fs"
  "map tm_maker_order_id (fills_to_trades mkt clock t k fs) = map (ord_order_id \<circ> fst) fs"
  by (induction fs arbitrary: k) auto

lemma in_fills_to_trades:
  "x \<in> set (fills_to_trades mkt clock t k fs) \<Longrightarrow> \<exists>f \<in> set fs. \<exists>c. x = make_trade mkt t (fst f) (snd f) c"
  by (induction fs arbitrary: k) auto

lemma match_queue_depth:
  "match_queue s p want ms = (fs, want', ms') \<Longrightarrow>
     sum_list (map (unat \<circ> ord_remaining_size_1e8) ms) =
     sum_list (map (unat \<circ> snd) fs) + sum_list (map (unat \<circ> ord_remaining_size_1e8) ms')"
proof (induction ms arbitrary: want fs)
  case (Cons m ms)
  from Cons.prems show ?case
  proof (cases rule: match_queue_Cons_cases)
    case (full fs')
    then show ?thesis using Cons.IH [OF full(4)] by simp
  next
    case partial
    then show ?thesis using unat_sub_le [of want "ord_remaining_size_1e8 m"]
      by (simp add: maker_fill_def word_le_nat_alt word_less_nat_alt Let_def)
  qed auto
qed auto

lemma match_queue_nocross:
  "\<forall>m \<in> set ms. \<not> prices_cross s (ord_price_1e8 m) p \<Longrightarrow> match_queue s p want ms = ([], want, ms)"
  by (cases ms) auto

section \<open>What an accepted submission returns\<close>

lemma submit_ok:
  assumes "book_inv b" "submittable b r" "submit clock r b = Some (Ok res, b')"
  obtains fs want where
    "accepts b r"
    "match_queue (ord_side r) (ord_price_1e8 r) (ord_size_1e8 r) (queue b (opposite (ord_side r))) =
       (fs, want, queue b' (opposite (ord_side r)))"
    "sr_order res = settle_taker (r\<lparr>ord_status := Open, ord_remaining_size_1e8 := want\<rparr>) (fs = [])"
    "sr_trades res = fills_to_trades (ob_market_id b) clock r 0 fs"
    "sr_maker_order_updates res = filled_makers fs"
    "book_inv b'" "ob_market_id b' = ob_market_id b"
    "queue b' (ord_side r) =
        (if want \<noteq> 0 \<and> ord_time_in_force r = Gtc
         then filter (\<lambda>x. at_least_as_good (ord_side r) (ord_price_1e8 x) (ord_price_1e8 r)) (queue b (ord_side r)) @
              sr_order res # filter (\<lambda>x. \<not> at_least_as_good (ord_side r) (ord_price_1e8 x) (ord_price_1e8 r)) (queue b (ord_side r))
         else queue b (ord_side r))"
proof -
  have acc: "accepts b r" using submit_rejects [of b r clock] assms(3) by auto
  obtain fs want ms where mq: "match_queue (ord_side r) (ord_price_1e8 r) (ord_size_1e8 r) (queue b (opposite (ord_side r))) = (fs, want, ms)"
    by (metis prod_cases3)
  show ?thesis
    using submit_accepted [OF assms(1) acc assms(2) mq, of clock] assms(3) acc mq that [of fs want]
    by (auto simp: Let_def)
qed

lemma settle_taker_Gtc:
  "ord_time_in_force t = Gtc \<Longrightarrow> ord_remaining_size_1e8 (settle_taker t x) = ord_remaining_size_1e8 t"
  by (simp add: settle_taker_def Let_def)

lemma accepts_tif: "accepts b r \<Longrightarrow> ord_time_in_force r = Gtc \<or> ord_time_in_force r = Ioc"
  by (cases "ord_time_in_force r") (auto simp: accepts_def)


section \<open>Depth\<close>

definition side_depth :: "order_book \<Rightarrow> side \<Rightarrow> book_side_snapshot list" where
  "side_depth b s = (case s of Buy \<Rightarrow> snap_bids (snapshot b) | Sell \<Rightarrow> snap_asks (snapshot b))"

lemma side_depth_eq: "side_depth b s = List.map_filter (\<lambda>(p, l). snapshot_level b p l) (priority_levels b s)"
  by (cases s) (simp_all add: side_depth_def snapshot_def priority_levels_def)

lemma unat_sum_list:
  "sum_list (map unat (ws :: u128 list)) < 2 ^ 128 \<Longrightarrow> unat (sum_list ws) = sum_list (map unat ws)"
proof (induction ws)
  case (Cons w ws)
  then have "unat (sum_list ws) = sum_list (map unat ws)" by simp
  moreover have "unat (w + sum_list ws) = unat w + unat (sum_list ws)"
    using Cons.prems calculation by (subst unat_add_lem [THEN iffD1]) auto
  ultimately show ?case by simp
qed simp

lemma filter_level:
  assumes "\<And>x i. x \<in> set ls \<Longrightarrow> i \<in> set (snd x) \<Longrightarrow> f i = fst x" "distinct (map fst ls)" "(p, l) \<in> set ls"
  shows "filter (\<lambda>i. f i = p) (concat (map snd ls)) = l"
  using assms
proof (induction ls)
  case (Cons x ls)
  have "f i \<noteq> fst x" if "i \<in> set (concat (map snd ls))" for i
  proof -
    from that obtain y where y: "y \<in> set ls" "i \<in> set (snd y)" by auto
    then have "f i = fst y" using Cons.prems(1) [of y i] by simp
    moreover have "fst y \<in> fst ` set ls" using y(1) by simp
    moreover have "fst x \<notin> fst ` set ls" using Cons.prems(2) by simp
    ultimately show ?thesis by metis
  qed
  then have none: "filter (\<lambda>i. f i = fst x) (concat (map snd ls)) = []" by (simp only: filter_empty_conv) blast
  show ?case
  proof (cases "x = (p, l)")
    case True
    moreover have "filter (\<lambda>i. f i = p) l = l" using Cons.prems(1) [of x] True by (simp add: filter_id_conv)
    ultimately show ?thesis using none by simp
  next
    case False
    then have mem: "(p, l) \<in> set ls" using Cons.prems(3) by simp
    moreover have "fst x \<notin> fst ` set ls" using Cons.prems(2) by simp
    ultimately have "fst x \<noteq> p" using imageI [of "(p, l)" "set ls" fst] by auto
    moreover have "filter (\<lambda>i. f i = p) (snd x) = []" using Cons.prems(1) [of x] calculation by (simp add: filter_empty_conv)
    moreover have "filter (\<lambda>i. f i = p) (concat (map snd ls)) = l"
      by (rule Cons.IH) (use Cons.prems mem in auto)
    ultimately show ?thesis by simp
  qed
qed simp

lemma priority_levels_distinct: "book_inv b \<Longrightarrow> distinct (map fst (priority_levels b s))"
  using bt_ok_distinct [OF book_inv_bt_ok, of b s] by (cases s) (simp_all add: priority_levels_def book_levels_def rev_map [symmetric])

lemma queue_at_price:
  assumes "book_inv b" "(p, l) \<in> set (priority_levels b s)"
  shows "filter (\<lambda>x. ord_price_1e8 x = p) (queue b s) = map (the_order b) l"
proof -
  have "distinct (map fst (priority_levels b s))" by (rule priority_levels_distinct [OF assms(1)])
  then have "filter (\<lambda>i. ord_price_1e8 (the_order b i) = p) (queue_ids b s) = l"
    unfolding queue_ids_def
    by (rule filter_level [rotated 1]) (use assms level_order_price in auto)
  then show ?thesis by (simp add: queue_def filter_map comp_def)
qed

lemma sum_list_filter_le: "sum_list (map f (filter P xs)) \<le> sum_list (map (f :: 'a \<Rightarrow> nat) xs)"
  by (induction xs) auto

lemma snapshot_level_total:
  assumes inv: "book_inv b" and mem: "(p, l) \<in> set (priority_levels b s)"
    and small: "sum_list (map (unat \<circ> ord_remaining_size_1e8) (queue b s)) < 2 ^ 128"
  obtains t where "snapshot_level b p l = Some \<lparr> bs_price_1e8 = p, bs_total_size_1e8 = t \<rparr>" "0 < t"
    "unat t = sum_list (map (unat \<circ> ord_remaining_size_1e8) (filter (\<lambda>x. ord_price_1e8 x = p) (queue b s)))"
proof -
  let ?rem = "\<lambda>i. case hm_get (ob_orders b) i of Some r \<Rightarrow> ord_remaining_size_1e8 r | None \<Rightarrow> 0"
  let ?at = "filter (\<lambda>x. ord_price_1e8 x = p) (queue b s)"
  have lv: "snd x \<noteq> [] \<and> (\<forall>i \<in> set (snd x). resting_ok b s (fst x) i)" if "x \<in> set (book_levels b s)" for x
    using that book_inv_levels [OF inv, of s] by (auto simp: levels_ok_def)
  have rem: "?rem i = ord_remaining_size_1e8 (the_order b i) \<and> 0 < ?rem i" if "i \<in> set l" for i
  proof -
    have "resting_ok b s p i" using lv [of "(p, l)"] mem that by simp
    then show ?thesis by (simp add: resting_ok_def the_order_def split: option.splits)
  qed
  have at: "?at = map (the_order b) l" by (rule queue_at_price [OF inv mem])
  have eq: "sum_list (map (unat \<circ> ord_remaining_size_1e8) ?at) = sum_list (map unat (map ?rem l))"
    unfolding at map_map by (intro arg_cong [where f = sum_list] map_cong refl) (simp add: rem)
  define t where "t = pl_total_size_1e8 ?rem l"
  have "sum_list (map unat (map ?rem l)) < 2 ^ 128"
    unfolding eq [symmetric] by (rule le_less_trans [OF sum_list_filter_le small])
  then have ut: "unat t = sum_list (map (unat \<circ> ord_remaining_size_1e8) ?at)"
    unfolding eq t_def pl_total_size_1e8_def by (rule unat_sum_list)
  have "l \<noteq> []" using lv [of "(p, l)"] mem by simp
  then obtain i where i: "i \<in> set l" by (meson list.set_sel(1))
  have "0 < ?rem i" using rem [OF i] by blast
  then have "0 < unat (?rem i)" by (simp only: word_less_nat_alt unat_0)
  also have "unat (?rem i) \<le> unat t" unfolding ut eq by (rule member_le_sum_list) (use i in simp_all)
  finally have pos: "0 < t" by (simp add: word_less_nat_alt)
  then show ?thesis using that [of t] ut by (simp add: snapshot_level_def t_def [symmetric] Let_def)
qed

lemma map_filter_map: "(\<And>x. x \<in> set xs \<Longrightarrow> f x = Some (g x)) \<Longrightarrow> List.map_filter f xs = map g xs"
  by (induction xs) (auto simp: List.map_filter_simps)

lemma snapshot_depth_facts:
  assumes inv: "book_inv b" and small: "sum_list (map (unat \<circ> ord_remaining_size_1e8) (queue b s)) < 2 ^ 128"
  shows "map bs_price_1e8 (side_depth b s) = map fst (priority_levels b s)"
    and "\<forall>x \<in> set (side_depth b s). unat (bs_total_size_1e8 x) =
            sum_list (map (unat \<circ> ord_remaining_size_1e8) (filter (\<lambda>r. ord_price_1e8 r = bs_price_1e8 x) (queue b s)))"
proof -
  define g where "g = (\<lambda>x. the (snapshot_level b (fst x) (snd x)))"
  have g: "snapshot_level b (fst x) (snd x) = Some (g x) \<and> bs_price_1e8 (g x) = fst x \<and>
      unat (bs_total_size_1e8 (g x)) = sum_list (map (unat \<circ> ord_remaining_size_1e8) (filter (\<lambda>r. ord_price_1e8 r = fst x) (queue b s)))"
    if "x \<in> set (priority_levels b s)" for x
  proof -
    have "(fst x, snd x) \<in> set (priority_levels b s)" using that by simp
    then obtain t where "snapshot_level b (fst x) (snd x) = Some \<lparr> bs_price_1e8 = fst x, bs_total_size_1e8 = t \<rparr>"
      "unat t = sum_list (map (unat \<circ> ord_remaining_size_1e8) (filter (\<lambda>r. ord_price_1e8 r = fst x) (queue b s)))"
      by (rule snapshot_level_total [OF inv _ small])
    then show ?thesis by (simp add: g_def)
  qed
  have eq: "side_depth b s = map g (priority_levels b s)"
    unfolding side_depth_eq by (rule map_filter_map) (simp add: case_prod_beta g del: set_priority_levels)
  show "map bs_price_1e8 (side_depth b s) = map fst (priority_levels b s)"
     "\<forall>x \<in> set (side_depth b s). unat (bs_total_size_1e8 x) =
            sum_list (map (unat \<circ> ord_remaining_size_1e8) (filter (\<lambda>r. ord_price_1e8 r = bs_price_1e8 x) (queue b s)))"
    unfolding eq by (simp_all add: g del: set_priority_levels)
qed

lemma cancel_inv: "book_inv b \<Longrightarrow> book_inv (snd (cancel i b))"
proof (cases "hm_get (ob_locations b) i")
  case (Some loc)
  assume "book_inv b"
  then obtain r b' where "cancel i b = (Ok r, b')" "book_inv b'" using cancel_resting [OF _ Some] by blast
  then show ?thesis by simp
qed (simp add: cancel_def)

lemma prices_of_queue: "book_inv b \<Longrightarrow> set (map fst (priority_levels b s)) = ord_price_1e8 ` set (queue b s)"
proof -
  assume inv: "book_inv b"
  have ex: "\<exists>i. i \<in> set (snd x)" if "x \<in> set (book_levels b s)" for x
    using that book_inv_levels [OF inv, of s] by (metis levels_ok_def list.set_sel(1))
  have pr: "ord_price_1e8 (the_order b i) = fst x" if "x \<in> set (book_levels b s)" "i \<in> set (snd x)" for x i
    using level_order_price [OF inv, of "fst x" "snd x" s i] that by simp
  have "set (map fst (priority_levels b s)) = fst ` set (book_levels b s)" by simp
  also have "\<dots> = (\<Union>x \<in> set (book_levels b s). (\<lambda>i. ord_price_1e8 (the_order b i)) ` set (snd x))"
    using ex pr by (auto simp: image_iff)
  also have "\<dots> = ord_price_1e8 ` set (queue b s)"
    by (simp add: queue_def queue_ids_def image_UN image_image)
  finally show ?thesis .
qed


section \<open>Consequences for a submission\<close>

lemma submit_defined:
  assumes "book_inv b" "submittable b r"
  shows "\<exists>res b'. submit clock r b = Some (res, b') \<and> book_inv b' \<and> ob_market_id b' = ob_market_id b"
proof (cases "accepts b r")
  case True
  obtain fs want ms where mq: "match_queue (ord_side r) (ord_price_1e8 r) (ord_size_1e8 r) (queue b (opposite (ord_side r))) = (fs, want, ms)"
    by (metis prod_cases3)
  show ?thesis using submit_accepted [OF assms(1) True assms(2) mq, of clock] by blast
next
  case False
  have "hm_get (ob_locations b) (ord_order_id r) = None"
    using fresh_not_located [OF assms(1)] assms(2) by (auto simp: submittable_def)
  then have "book_inv (put_order (r\<lparr>ord_status := Rejected\<rparr>) b)" using put_order_inv [OF assms(1)] by simp
  then show ?thesis using submit_rejects [OF False, of clock] assms(1) by force
qed

lemma sum_list_filter_split:
  "sum_list (map f (filter P xs)) + sum_list (map f (filter (\<lambda>x. \<not> P x) xs)) = (sum_list (map f xs) :: nat)"
  by (induction xs) auto

lemma settle_taker_remaining:
  assumes "ord_time_in_force r \<noteq> Fok"
  shows "ord_remaining_size_1e8 (settle_taker (r\<lparr>ord_status := Open, ord_remaining_size_1e8 := want\<rparr>) e) =
           (if ord_time_in_force r = Gtc then want else 0)"
  using assms by (cases "ord_time_in_force r"; cases "want = 0") (auto simp: settle_taker_def Let_def word_neq_0_conv)

lemma submit_sizes:
  assumes "book_inv b" "submittable b r" "submit clock r b = Some (Ok res, b')"
    and traded: "traded = sum_list (map (unat \<circ> tm_size_1e8) (sr_trades res))"
  shows "sum_list (map (unat \<circ> ord_remaining_size_1e8) (queue b (opposite (ord_side r)))) =
           sum_list (map (unat \<circ> ord_remaining_size_1e8) (queue b' (opposite (ord_side r)))) + traded"
    and "traded = min (unat (ord_size_1e8 r)) (crossing_depth (ord_side r) (ord_price_1e8 r) (queue b (opposite (ord_side r))))"
    and "unat (ord_remaining_size_1e8 (sr_order res)) = (if ord_time_in_force r = Gtc then unat (ord_size_1e8 r) - traded else 0)"
    and "sum_list (map (unat \<circ> ord_remaining_size_1e8) (queue b' (ord_side r))) =
           sum_list (map (unat \<circ> ord_remaining_size_1e8) (queue b (ord_side r))) + unat (ord_remaining_size_1e8 (sr_order res))"
proof -
  obtain fs want where f: "accepts b r" "match_queue (ord_side r) (ord_price_1e8 r) (ord_size_1e8 r) (queue b (opposite (ord_side r))) =
       (fs, want, queue b' (opposite (ord_side r)))"
    "sr_order res = settle_taker (r\<lparr>ord_status := Open, ord_remaining_size_1e8 := want\<rparr>) (fs = [])"
    "sr_trades res = fills_to_trades (ob_market_id b) clock r 0 fs"
    "queue b' (ord_side r) =
        (if want \<noteq> 0 \<and> ord_time_in_force r = Gtc
         then filter (\<lambda>x. at_least_as_good (ord_side r) (ord_price_1e8 x) (ord_price_1e8 r)) (queue b (ord_side r)) @
              sr_order res # filter (\<lambda>x. \<not> at_least_as_good (ord_side r) (ord_price_1e8 x) (ord_price_1e8 r)) (queue b (ord_side r))
         else queue b (ord_side r))"
    by (rule submit_ok [OF assms(1-3)])
  have tot: "traded = sum_list (map (unat \<circ> snd) fs)"
    using fills_to_trades_maps(1) [of "ob_market_id b" clock r 0 fs] unfolding f(4) traded by (metis map_map)
  have rem: "ord_remaining_size_1e8 (sr_order res) = (if ord_time_in_force r = Gtc then want else 0)"
    unfolding f(3) by (rule settle_taker_remaining) (use f(1) in \<open>auto simp: accepts_def\<close>)
  show "sum_list (map (unat \<circ> ord_remaining_size_1e8) (queue b (opposite (ord_side r)))) =
           sum_list (map (unat \<circ> ord_remaining_size_1e8) (queue b' (opposite (ord_side r)))) + traded"
    using match_queue_depth [OF f(2)] by (simp only: tot)
  show "traded = min (unat (ord_size_1e8 r)) (crossing_depth (ord_side r) (ord_price_1e8 r) (queue b (opposite (ord_side r))))"
    unfolding tot by (rule match_queue_crossing_depth [OF queue_sorted [OF assms(1)] f(2)])
  show "unat (ord_remaining_size_1e8 (sr_order res)) = (if ord_time_in_force r = Gtc then unat (ord_size_1e8 r) - traded else 0)"
    using match_queue_conserves [OF f(2)] by (simp add: tot rem)
  show "sum_list (map (unat \<circ> ord_remaining_size_1e8) (queue b' (ord_side r))) =
           sum_list (map (unat \<circ> ord_remaining_size_1e8) (queue b (ord_side r))) + unat (ord_remaining_size_1e8 (sr_order res))"
    using sum_list_filter_split by (auto simp: f(5) rem)
qed

lemma submit_priority:
  assumes "book_inv b" "submittable b r" "submit clock r b = Some (Ok res, b')"
    and q: "q = queue b (opposite (ord_side r))" and n: "n = length (sr_trades res)"
  shows "map tm_maker_order_id (sr_trades res) = map ord_order_id (take n q)"
    and "map tm_price_1e8 (sr_trades res) = map ord_price_1e8 (take n q)"
    and "\<forall>t \<in> set (sr_trades res). prices_cross (ord_side r) (tm_price_1e8 t) (ord_price_1e8 r) \<and> 0 < tm_size_1e8 t"
    and "\<forall>k. Suc k < n \<longrightarrow> tm_size_1e8 (sr_trades res ! k) = ord_remaining_size_1e8 (q ! k)"
    and "ord_remaining_size_1e8 (sr_order res) \<noteq> 0 \<Longrightarrow>
           \<forall>m \<in> set (queue b' (opposite (ord_side r))). \<not> prices_cross (ord_side r) (ord_price_1e8 m) (ord_price_1e8 r)"
proof -
  obtain fs want where f: "accepts b r" "match_queue (ord_side r) (ord_price_1e8 r) (ord_size_1e8 r) q =
       (fs, want, queue b' (opposite (ord_side r)))"
    "sr_order res = settle_taker (r\<lparr>ord_status := Open, ord_remaining_size_1e8 := want\<rparr>) (fs = [])"
    "sr_trades res = fills_to_trades (ob_market_id b) clock r 0 fs" "book_inv b'"
    unfolding q by (rule submit_ok [OF assms(1-3)])
  have len: "n = length fs" by (simp add: n f(4))
  have pre: "map fst fs = take n q" using match_queue_prefix [OF f(2)] by (simp add: len)
  show "map tm_maker_order_id (sr_trades res) = map ord_order_id (take n q)"
    "map tm_price_1e8 (sr_trades res) = map ord_price_1e8 (take n q)"
    by (simp_all add: f(4) pre [symmetric])
  have rem: "0 < ord_remaining_size_1e8 m" if "m \<in> set q" for m
    using in_queue [OF assms(1), of m] that q by blast
  show "\<forall>t \<in> set (sr_trades res). prices_cross (ord_side r) (tm_price_1e8 t) (ord_price_1e8 r) \<and> 0 < tm_size_1e8 t"
    using match_queue_fill [OF f(2)] match_queue_nonzero [OF f(2) rem] by (auto simp: f(4) dest!: in_fills_to_trades)
  show "\<forall>k. Suc k < n \<longrightarrow> tm_size_1e8 (sr_trades res ! k) = ord_remaining_size_1e8 (q ! k)"
  proof (intro allI impI)
    fix k assume k: "Suc k < n"
    then have "fs ! k \<in> set (butlast fs)" by (metis len in_set_conv_nth length_butlast less_diff_conv nth_butlast Suc_eq_plus1)
    then have "snd (fs ! k) = ord_remaining_size_1e8 (fst (fs ! k))" using match_queue_butlast [OF f(2)] by blast
    moreover have "fst (fs ! k) = q ! k" using k pre len by (metis Suc_lessD nth_map nth_take)
    ultimately show "tm_size_1e8 (sr_trades res ! k) = ord_remaining_size_1e8 (q ! k)"
      using k len by (simp add: f(4) fills_to_trades_nth)
  qed
  assume nz: "ord_remaining_size_1e8 (sr_order res) \<noteq> 0"
  then have "want \<noteq> 0" using f(3) by (auto simp: settle_taker_def Let_def split: if_splits)
  then have "case queue b' (opposite (ord_side r)) of [] \<Rightarrow> True | m # _ \<Rightarrow> \<not> prices_cross (ord_side r) (ord_price_1e8 m) (ord_price_1e8 r)"
    using match_queue_exhausted [OF f(2)] by blast
  then show "\<forall>m \<in> set (queue b' (opposite (ord_side r))). \<not> prices_cross (ord_side r) (ord_price_1e8 m) (ord_price_1e8 r)"
    using queue_sorted [OF f(5), of "opposite (ord_side r)"] at_least_as_good_cross
    by (auto split: list.splits)
qed

lemma submit_counterparties:
  assumes "book_inv b" "submittable b r" "submit clock r b = Some (Ok res, b')" "t \<in> set (sr_trades res)"
  shows "tm_taker_account t = ord_account r \<and> tm_maker_account t \<noteq> ord_account r \<and> tm_buyer t \<noteq> tm_seller t"
proof -
  obtain fs want where f: "accepts b r" "match_queue (ord_side r) (ord_price_1e8 r) (ord_size_1e8 r) (queue b (opposite (ord_side r))) =
       (fs, want, queue b' (opposite (ord_side r)))"
    "sr_trades res = fills_to_trades (ob_market_id b) clock r 0 fs"
    by (rule submit_ok [OF assms(1-3)])
  obtain x c where x: "x \<in> set fs" and t: "t = make_trade (ob_market_id b) r (fst x) (snd x) c"
    using in_fills_to_trades assms(4) f(3) by metis
  have "ord_account (fst x) \<noteq> ord_account r"
    using match_queue_fill [OF f(2) x] f(1) would_self_trade_queue [OF assms(1), of r] by (auto simp: accepts_def)
  then show ?thesis by (cases "ord_side r") (auto simp: t)
qed

lemma submit_post_only_rests:
  assumes "book_inv b" "submittable b r" "ord_post_only r" "submit clock r b = Some (res, b')"
  shows "(\<exists>e. res = Err e) \<or> (\<exists>out. res = Ok out \<and> sr_trades out = [] \<and> queue b' (opposite (ord_side r)) = queue b (opposite (ord_side r)))"
proof (cases res)
  case (Inr out)
  obtain fs want where f: "accepts b r" "match_queue (ord_side r) (ord_price_1e8 r) (ord_size_1e8 r) (queue b (opposite (ord_side r))) =
       (fs, want, queue b' (opposite (ord_side r)))"
    "sr_trades out = fills_to_trades (ob_market_id b) clock r 0 fs"
    by (rule submit_ok [OF assms(1-2) assms(4) [unfolded Inr]])
  have "\<not> would_match b r" using f(1) assms(3) by (simp add: accepts_def)
  then have "fs = []" "queue b' (opposite (ord_side r)) = queue b (opposite (ord_side r))"
    using f(2) would_match_queue [OF assms(1), of r] match_queue_nocross by auto
  then show ?thesis using Inr f(3) by simp
qed simp

section \<open>Books reached by the operations\<close>

inductive book_reachable :: "market_id \<Rightarrow> order_book \<Rightarrow> bool" for m where
  reach_new: "book_reachable m (new_order_book m)"
| reach_submit: "book_reachable m b \<Longrightarrow> submittable b r \<Longrightarrow> submit clock r b = Some (res, b') \<Longrightarrow> book_reachable m b'"
| reach_cancel: "book_reachable m b \<Longrightarrow> cancel i b = (res, b') \<Longrightarrow> book_reachable m b'"

lemma cancel_market_id: "ob_market_id (snd (cancel i b)) = ob_market_id b"
  by (simp add: cancel_def level_mut_def remove_empty_level_def Let_def split: option.splits)

lemma reachable_inv: "book_reachable m b \<Longrightarrow> book_inv b \<and> ob_market_id b = m"
proof (induction rule: book_reachable.induct)
  case reach_new
  then show ?case by (simp add: new_order_book_inv) (simp add: new_order_book_def)
next
  case (reach_submit b r clock res b')
  then show ?case using submit_defined [of b r clock] by auto
next
  case (reach_cancel b i res b')
  then show ?case using cancel_inv [of b i] cancel_market_id [of i b] by simp
qed

lemma queue_uncrossed:
  assumes "book_inv b" "x \<in> set (queue b Buy)" "y \<in> set (queue b Sell)"
  shows "ord_price_1e8 x < ord_price_1e8 y"
proof -
  have "ord_price_1e8 x \<in> fst ` set (ob_bids b)" "ord_price_1e8 y \<in> fst ` set (ob_asks b)"
    using assms prices_of_queue [OF assms(1), of Buy] prices_of_queue [OF assms(1), of Sell]
    by (auto simp: book_levels_def)
  moreover have "\<forall>u \<in> set (ob_bids b). \<forall>v \<in> set (ob_asks b). fst u < fst v"
    using assms(1) by (simp add: book_inv_def uncrossed_def)
  ultimately show ?thesis by force
qed


section \<open>The interface other components use\<close>

text \<open>
  What a client that keeps one book per market relies on: a new book is well formed, a
  submission of a fresh order ends and keeps the book well formed, so does a cancellation.
\<close>

locale matching_book =
  fixes new_book :: "market_id \<Rightarrow> 'b"
    and submit_to :: "(nat \<Rightarrow> timestamp_ms) \<Rightarrow> order \<Rightarrow> 'b \<Rightarrow> ((backend_error + order_submit_result) \<times> 'b) option"
    and cancel_in :: "order_id \<Rightarrow> 'b \<Rightarrow> (backend_error + order) \<times> 'b"
    and fresh_in :: "'b \<Rightarrow> order \<Rightarrow> bool"
    and inv :: "market_id \<Rightarrow> 'b \<Rightarrow> bool"
  assumes new_book_inv: "inv m (new_book m)"
    and submit_inv: "inv m b \<Longrightarrow> fresh_in b r \<Longrightarrow> \<exists>res b'. submit_to clock r b = Some (res, b') \<and> inv m b'"
    and cancel_keeps: "inv m b \<Longrightarrow> inv m (snd (cancel_in i b))"
begin

definition books_inv :: "(market_id, 'b) hashmap \<Rightarrow> bool" where
  "books_inv bs = (hm_ok bs \<and> (\<forall>m b. hm_get bs m = Some b \<longrightarrow> inv m b))"

lemma books_new: "books_inv (fold (\<lambda>m. hm_insert m (new_book m)) ms [])"
proof -
  have step: "books_inv (fold (\<lambda>m. hm_insert m (new_book m)) ms bs)" if "books_inv bs" for bs
    using that
  proof (induction ms arbitrary: bs)
    case (Cons m ms)
    have "books_inv (hm_insert m (new_book m) bs)"
      using Cons.prems by (auto simp: books_inv_def new_book_inv)
    then show ?case using Cons.IH by simp
  qed simp
  show ?thesis by (rule step) (simp add: books_inv_def hm.ok_emp hm.get_emp)
qed

lemma books_submit:
  assumes "books_inv bs" "hm_get bs m = Some b" "fresh_in b r"
  shows "\<exists>res b'. submit_to clock r b = Some (res, b') \<and> books_inv (hm_insert m b' bs)"
proof -
  obtain res b' where "submit_to clock r b = Some (res, b')" "inv m b'"
    using submit_inv [of m b r clock] assms by (auto simp: books_inv_def)
  then show ?thesis using assms(1) by (auto simp: books_inv_def)
qed

lemma books_cancel:
  assumes "books_inv bs" "hm_get bs m = Some b"
  shows "books_inv (hm_insert m (snd (cancel_in i b)) bs)"
  using assms cancel_keeps by (auto simp: books_inv_def)

end

interpretation ob: matching_book new_order_book submit cancel submittable "\<lambda>m b. book_inv b \<and> ob_market_id b = m"
proof unfold_locales
  show "book_inv (new_order_book m) \<and> ob_market_id (new_order_book m) = m" for m
    by (rule reachable_inv [OF reach_new])
  show "\<exists>res b'. submit clock r b = Some (res, b') \<and> book_inv b' \<and> ob_market_id b' = m"
    if "book_inv b \<and> ob_market_id b = m" "submittable b r" for m b r clock
    using that submit_defined [of b r clock] by simp
  show "book_inv (snd (cancel i b)) \<and> ob_market_id (snd (cancel i b)) = m"
    if "book_inv b \<and> ob_market_id b = m" for m b i
    using that cancel_inv cancel_market_id by simp
qed

end
