(* ===== verification/Orderbook_Props.thy ===== *)
theory Orderbook_Props
  imports Orderbook_Submit
begin

text \<open>
  The properties of the order book: totality and invariance of the operations, refinement of the
  reference matching, conservation of size, price-time priority, self-trade prevention, post-only,
  the position of a rested order, refusals, cancellation and the depth snapshot.
\<close>


section \<open>Example orders and a book with two price levels of asks and a bid\<close>

declare match_loop.simps [code]

definition ex_order :: "order_id \<Rightarrow> account_id \<Rightarrow> side \<Rightarrow> price_1e8 \<Rightarrow> size_1e8 \<Rightarrow> order" where
  "ex_order i a s p n =
     into_order \<lparr> no_market_id = 1, no_account = a, no_side = s, no_price_1e8 = p, no_size_1e8 = n,
       no_time_in_force = Gtc, no_reduce_only = False, no_post_only = False, no_client_order_id = None,
       no_signed_nonce = None, no_signed_deadline_ms = None \<rparr> i 0"

definition ex_rest :: "order_id \<Rightarrow> account_id \<Rightarrow> side \<Rightarrow> price_1e8 \<Rightarrow> size_1e8 \<Rightarrow> order" where
  "ex_rest i a s p n = (ex_order i a s p n)\<lparr>ord_status := Open\<rparr>"

definition ex_book :: order_book where
  "ex_book =
     \<lparr> ob_market_id = 1,
       ob_bids = [(99, [4])],
       ob_asks = [(101, [2, 3]), (105, [1])],
       ob_locations = [(1, \<lparr> loc_side = Sell, loc_price_1e8 = 105 \<rparr>), (2, \<lparr> loc_side = Sell, loc_price_1e8 = 101 \<rparr>),
                       (3, \<lparr> loc_side = Sell, loc_price_1e8 = 101 \<rparr>), (4, \<lparr> loc_side = Buy, loc_price_1e8 = 99 \<rparr>)],
       ob_orders = [(1, ex_rest 1 ''ann'' Sell 105 4), (2, ex_rest 2 ''bob'' Sell 101 3),
                    (3, ex_rest 3 ''cyd'' Sell 101 6), (4, ex_rest 4 ''dan'' Buy 99 5)] \<rparr>"

text \<open>A buyer who takes both asks at 101 and rests the remainder at 103.\<close>

definition ex_taker :: order where
  "ex_taker = ex_order 5 ''eve'' Buy 103 12"

definition ex_result :: order_submit_result where
  "ex_result = (case the (submit (\<lambda>_. 7) ex_taker ex_book) of (Inr out, _) \<Rightarrow> out)"

definition ex_after :: order_book where
  "ex_after = snd (the (submit (\<lambda>_. 7) ex_taker ex_book))"

lemma ex_book_inv: "book_inv ex_book" by code_simp

lemma ex_taker_submittable: "submittable ex_book ex_taker" by code_simp

lemma ex_submit: "submit (\<lambda>_. 7) ex_taker ex_book = Some (Ok ex_result, ex_after)" by code_simp

lemmas ex_submission = ex_book_inv ex_taker_submittable ex_submit


section \<open>Properties\<close>

text \<open>
  C1: Submitting an order with a fresh id to a well-formed book always ends, whatever the outcome,
  and leaves a well-formed book of the same market: the matching loop cannot run forever, no
  level is left empty, the location index and the levels agree and the book is not crossed.
\<close>

theorem submit_total_inv:
  assumes "book_inv b" "submittable b r"
  shows "\<exists>res b'. submit clock r b = Some (res, b') \<and> book_inv b' \<and> ob_market_id b' = ob_market_id b"
  by (rule submit_defined [OF assms])

theorem submit_total_inv_witness:
  "book_inv ex_book \<and> submittable ex_book ex_taker \<and>
   (\<exists>res b'. submit (\<lambda>_. 7) ex_taker ex_book = Some (res, b') \<and> book_inv b' \<and> ob_market_id b' = ob_market_id ex_book)"
  using submit_total_inv [OF ex_book_inv ex_taker_submittable, of "\<lambda>_. 7"] ex_submission by simp

text \<open>
  C2: An accepted submission returns exactly what the reference matching computes: walking the
  opposite side in price-time order, it gives one trade per maker touched, in that order, the
  makers with the fill taken off, and the taker with the unmatched size.
\<close>

theorem submit_refines_reference:
  assumes "book_inv b" "submittable b r" "accepts b r"
    and "match_queue (ord_side r) (ord_price_1e8 r) (ord_size_1e8 r) (queue b (opposite (ord_side r))) = (fs, want, ms)"
  shows "\<exists>b'. submit clock r b =
        Some (Ok \<lparr> sr_order = settle_taker (r\<lparr>ord_status := Open, ord_remaining_size_1e8 := want\<rparr>) (fs = []),
                   sr_trades = fills_to_trades (ob_market_id b) clock r 0 fs,
                   sr_maker_order_updates = filled_makers fs \<rparr>, b') \<and>
      queue b' (opposite (ord_side r)) = ms"
  using submit_accepted [OF assms(1,3,2,4), of clock] by blast

theorem submit_refines_reference_witness:
  "\<exists>b'. submit (\<lambda>_. 7) ex_taker ex_book =
        Some (Ok \<lparr> sr_order = settle_taker (ex_taker\<lparr>ord_status := Open, ord_remaining_size_1e8 := 3\<rparr>) False,
                   sr_trades = fills_to_trades 1 (\<lambda>_. 7) ex_taker 0 (zip (take 2 (queue ex_book Sell)) [3, 6]),
                   sr_maker_order_updates = filled_makers (zip (take 2 (queue ex_book Sell)) [3, 6]) \<rparr>, b') \<and>
      queue b' Sell = drop 2 (queue ex_book Sell)"
proof -
  have acc: "accepts ex_book ex_taker" by code_simp
  have mq: "match_queue (ord_side ex_taker) (ord_price_1e8 ex_taker) (ord_size_1e8 ex_taker) (queue ex_book (opposite (ord_side ex_taker)))
      = (zip (take 2 (queue ex_book Sell)) [3, 6], 3, drop 2 (queue ex_book Sell))" by code_simp
  have eqs: "ob_market_id ex_book = 1" "opposite (ord_side ex_taker) = Sell" "(zip (take 2 (queue ex_book Sell)) [3::size_1e8, 6] = []) = False"
    by code_simp+
  show ?thesis
    using submit_refines_reference [OF ex_book_inv ex_taker_submittable acc mq, of "\<lambda>_. 7"] unfolding eqs .
qed

text \<open>
  C4: Matching conserves size.  The traded size is the order size or the size of the opposite side
  its limit price reaches, whichever is smaller, and leaves the opposite side exactly.  What is
  left of a good-till-cancelled order is its size less the traded size and joins its own side;
  nothing is left of an immediate-or-cancel order.
\<close>

theorem submit_conserves_size:
  assumes "book_inv b" "submittable b r" "submit clock r b = Some (Ok res, b')"
    and "traded = sum_list (map (unat \<circ> tm_size_1e8) (sr_trades res))"
  shows "sum_list (map (unat \<circ> ord_remaining_size_1e8) (queue b (opposite (ord_side r)))) =
           sum_list (map (unat \<circ> ord_remaining_size_1e8) (queue b' (opposite (ord_side r)))) + traded \<and>
         traded = min (unat (ord_size_1e8 r)) (crossing_depth (ord_side r) (ord_price_1e8 r) (queue b (opposite (ord_side r)))) \<and>
         unat (ord_remaining_size_1e8 (sr_order res)) = (if ord_time_in_force r = Gtc then unat (ord_size_1e8 r) - traded else 0) \<and>
         sum_list (map (unat \<circ> ord_remaining_size_1e8) (queue b' (ord_side r))) =
           sum_list (map (unat \<circ> ord_remaining_size_1e8) (queue b (ord_side r))) + unat (ord_remaining_size_1e8 (sr_order res))"
  using submit_sizes [OF assms] by blast

theorem submit_conserves_size_witness:
  "sum_list (map (unat \<circ> tm_size_1e8) (sr_trades ex_result)) = 9 \<and> unat (ord_remaining_size_1e8 (sr_order ex_result)) = 3 \<and>
   crossing_depth Buy 103 (queue ex_book Sell) = 9"
proof -
  have ex: "ord_time_in_force ex_taker = Gtc" "unat (ord_size_1e8 ex_taker) = 12" "ord_side ex_taker = Buy"
    "ord_price_1e8 ex_taker = 103" "opposite Buy = Sell" "crossing_depth Buy 103 (queue ex_book Sell) = 9" by code_simp+
  then show ?thesis using submit_conserves_size [OF ex_submission refl] by simp
qed

text \<open>
  C3: Price-time priority.  The makers of the trades are the first resting orders of the opposite
  side in priority order, each trade is at its maker's price, which is no worse than the taker's
  limit, every maker but the last is used up, and when part of the order is left over no resting
  order it could still trade with remains.
\<close>

theorem submit_price_time_priority:
  assumes "book_inv b" "submittable b r" "submit clock r b = Some (Ok res, b')"
    and "q = queue b (opposite (ord_side r))" "n = length (sr_trades res)"
  shows "map tm_maker_order_id (sr_trades res) = map ord_order_id (take n q) \<and>
         map tm_price_1e8 (sr_trades res) = map ord_price_1e8 (take n q) \<and>
         (\<forall>t \<in> set (sr_trades res). prices_cross (ord_side r) (tm_price_1e8 t) (ord_price_1e8 r) \<and> 0 < tm_size_1e8 t) \<and>
         (\<forall>k. Suc k < n \<longrightarrow> tm_size_1e8 (sr_trades res ! k) = ord_remaining_size_1e8 (q ! k)) \<and>
         (ord_remaining_size_1e8 (sr_order res) \<noteq> 0 \<longrightarrow>
           (\<forall>m \<in> set (queue b' (opposite (ord_side r))). \<not> prices_cross (ord_side r) (ord_price_1e8 m) (ord_price_1e8 r)))"
  using submit_priority [OF assms] by blast

theorem submit_price_time_priority_witness:
  "map tm_maker_order_id (sr_trades ex_result) = map ord_order_id (take 2 (queue ex_book Sell)) \<and>
   map tm_maker_order_id (sr_trades ex_result) = [2, 3]"
proof -
  have "2 = length (sr_trades ex_result)" by code_simp
  moreover have "queue ex_book Sell = queue ex_book (opposite (ord_side ex_taker))" by code_simp
  ultimately show ?thesis
    using submit_price_time_priority [OF ex_submission, of "queue ex_book Sell" 2] by simp code_simp
qed

text \<open>
  C7: No trade of a submission has the same account on both sides.
\<close>

theorem submit_no_self_trade:
  assumes "book_inv b" "submittable b r" "submit clock r b = Some (Ok res, b')" "t \<in> set (sr_trades res)"
  shows "tm_taker_account t = ord_account r \<and> tm_maker_account t \<noteq> ord_account r \<and> tm_buyer t \<noteq> tm_seller t"
  by (rule submit_counterparties [OF assms])

theorem submit_no_self_trade_witness:
  "tm_taker_account (hd (sr_trades ex_result)) = ''eve'' \<and> tm_maker_account (hd (sr_trades ex_result)) \<noteq> ''eve''"
proof -
  have "hd (sr_trades ex_result) \<in> set (sr_trades ex_result)" "ord_account ex_taker = ''eve''" by code_simp+
  then show ?thesis using submit_no_self_trade [OF ex_submission, of "hd (sr_trades ex_result)"] by simp
qed

text \<open>
  A post-only order never trades: it is refused, or it is accepted without a trade and leaves
  the opposite side as it was.
\<close>

theorem submit_post_only:
  assumes "book_inv b" "submittable b r" "ord_post_only r" "submit clock r b = Some (res, b')"
  shows "(\<exists>e. res = Err e) \<or> (\<exists>out. res = Ok out \<and> sr_trades out = [] \<and> queue b' (opposite (ord_side r)) = queue b (opposite (ord_side r)))"
  by (rule submit_post_only_rests [OF assms])

theorem submit_post_only_witness:
  "\<exists>res b'. submit (\<lambda>_. 7) ((ex_order 5 ''eve'' Buy 100 12)\<lparr>ord_post_only := True\<rparr>) ex_book = Some (res, b') \<and>
     ((\<exists>e. res = Err e) \<or> (\<exists>out. res = Ok out \<and> sr_trades out = [] \<and> queue b' Sell = queue ex_book Sell))"
proof -
  let ?r = "(ex_order 5 ''eve'' Buy 100 12)\<lparr>ord_post_only := True\<rparr>"
  have s: "submittable ex_book ?r" "ord_post_only ?r" "opposite (ord_side ?r) = Sell" by code_simp+
  obtain res b' where "submit (\<lambda>_. 7) ?r ex_book = Some (res, b')"
    using submit_defined [OF ex_book_inv s(1), of "\<lambda>_. 7"] by blast
  then show ?thesis using submit_post_only [OF ex_book_inv s(1,2)] unfolding s(3) by blast
qed

text \<open>
  C8: What a submission does to its own side.  The unmatched part of a good-till-cancelled order
  rests behind every order of an equal or better price and before every order of a worse one; an
  immediate-or-cancel order never rests.
\<close>

theorem submit_rests_in_priority:
  assumes "book_inv b" "submittable b r" "submit clock r b = Some (Ok res, b')"
  shows "queue b' (ord_side r) =
        (if ord_remaining_size_1e8 (sr_order res) \<noteq> 0
         then filter (\<lambda>x. at_least_as_good (ord_side r) (ord_price_1e8 x) (ord_price_1e8 r)) (queue b (ord_side r)) @
              sr_order res # filter (\<lambda>x. \<not> at_least_as_good (ord_side r) (ord_price_1e8 x) (ord_price_1e8 r)) (queue b (ord_side r))
         else queue b (ord_side r)) \<and>
      (ord_time_in_force r = Ioc \<longrightarrow> ord_remaining_size_1e8 (sr_order res) = 0)"
proof -
  obtain fs :: "(order \<times> size_1e8) list" and want where f: "accepts b r"
    "sr_order res = settle_taker (r\<lparr>ord_status := Open, ord_remaining_size_1e8 := want\<rparr>) (fs = [])"
    "queue b' (ord_side r) =
        (if want \<noteq> 0 \<and> ord_time_in_force r = Gtc
         then filter (\<lambda>x. at_least_as_good (ord_side r) (ord_price_1e8 x) (ord_price_1e8 r)) (queue b (ord_side r)) @
              sr_order res # filter (\<lambda>x. \<not> at_least_as_good (ord_side r) (ord_price_1e8 x) (ord_price_1e8 r)) (queue b (ord_side r))
         else queue b (ord_side r))"
    by (rule submit_ok [OF assms])
  have "ord_remaining_size_1e8 (sr_order res) = (if ord_time_in_force r = Gtc then want else 0)"
    using accepts_tif [OF f(1)] by (cases "want = 0") (auto simp: f(2) settle_taker_def Let_def word_neq_0_conv)
  then show ?thesis using f(3) by auto
qed

theorem submit_rests_in_priority_witness:
  "queue ex_after Buy = sr_order ex_result # queue ex_book Buy"
proof -
  let ?old = "queue ex_book Buy" and ?good = "\<lambda>x. at_least_as_good Buy (ord_price_1e8 x) (ord_price_1e8 ex_taker)"
  have "ord_side ex_taker = Buy" "(ord_remaining_size_1e8 (sr_order ex_result) \<noteq> 0) = True"
    "filter ?good ?old = []" "filter (\<lambda>x. \<not> ?good x) ?old = ?old" by code_simp+
  then show ?thesis using submit_rests_in_priority [OF ex_submission] by simp
qed

text \<open>
  C9: A submission is refused with an error exactly when the guard the code tests for that error, in
  its order, holds.  A refusal leaves both sides of the book as they were: the book is unchanged
  after a zero price or size, and otherwise only records the order as rejected.
\<close>

theorem submit_error_iff:
  assumes "book_inv b" "submittable b r"
  shows "((\<exists>b'. submit clock r b = Some (Err e, b')) \<longleftrightarrow>
     (if ord_price_1e8 r = 0 then e = ZeroPrice
      else if ord_size_1e8 r = 0 then e = ZeroSize
      else if ord_time_in_force r = Fok then e = UnsupportedTimeInForce ''fok''
      else if ord_post_only r \<and>
        (\<exists>m \<in> set (queue b (opposite (ord_side r))). prices_cross (ord_side r) (ord_price_1e8 m) (ord_price_1e8 r))
      then e = PostOnlyWouldMatch
      else (\<exists>m \<in> set (queue b (opposite (ord_side r))).
              prices_cross (ord_side r) (ord_price_1e8 m) (ord_price_1e8 r) \<and> ord_account m = ord_account r) \<and> e = SelfTrade)) \<and>
     (\<forall>b'. submit clock r b = Some (Err e, b') \<longrightarrow>
        b' = (if e = ZeroPrice \<or> e = ZeroSize then b else put_order (r\<lparr>ord_status := Rejected\<rparr>) b) \<and>
        (\<forall>s. queue b' s = queue b s))"
proof -
  have "hm_get (ob_locations b) (ord_order_id r) = None"
    using fresh_not_located [OF assms(1)] assms(2) by (auto simp: submittable_def)
  then have "ord_order_id r \<notin> set (queue_ids b s)" for s by (rule not_located_not_queued [OF assms(1)])
  then have q: "queue (put_order (r\<lparr>ord_status := Rejected\<rparr>) b) s = queue b s" for s
    using queue_put_order by simp
  have rem: "ord_remaining_size_1e8 r = ord_size_1e8 r" using assms(2) by (simp add: submittable_def)
  show ?thesis
  proof (cases "accepts b r")
    case True
    obtain fs want ms where "match_queue (ord_side r) (ord_price_1e8 r) (ord_size_1e8 r) (queue b (opposite (ord_side r))) = (fs, want, ms)"
      by (metis prod_cases3)
    from submit_accepted [OF assms(1) True assms(2) this, of clock]
    show ?thesis using True would_match_queue [OF assms(1), of r] would_self_trade_queue [OF assms(1), of r]
      by (auto simp: accepts_def)
  next
    case False
    then show ?thesis
      unfolding submit_def validate_order_def would_match_queue [OF assms(1), symmetric] would_self_trade_queue [OF assms(1), symmetric]
      using q by (auto simp: rem accepts_def)
  qed
qed

theorem submit_error_iff_witness:
  "\<exists>b'. submit (\<lambda>_. 7) (ex_order 5 ''bob'' Buy 103 12) ex_book = Some (Err SelfTrade, b') \<and> (\<forall>s. queue b' s = queue ex_book s)"
proof -
  let ?r = "ex_order 5 ''bob'' Buy 103 12"
  have "submittable ex_book ?r" "ord_price_1e8 ?r \<noteq> 0" "ord_size_1e8 ?r \<noteq> 0" "ord_time_in_force ?r \<noteq> Fok" "\<not> ord_post_only ?r"
    "\<exists>m \<in> set (queue ex_book (opposite (ord_side ?r))). prices_cross (ord_side ?r) (ord_price_1e8 m) (ord_price_1e8 ?r) \<and> ord_account m = ord_account ?r"
    by code_simp+
  note r = this
  note th = submit_error_iff [OF ex_book_inv r(1), of "\<lambda>_. 7" SelfTrade]
  have "\<exists>b'. submit (\<lambda>_. 7) ?r ex_book = Some (Err SelfTrade, b')"
    using conjunct1 [OF th] r(2-6) by simp
  then show ?thesis using conjunct2 [OF th] by blast
qed

text \<open>
  C10: Cancelling a resting order removes it from its side and nothing else, marks it cancelled with
  nothing remaining, and keeps the book well formed; cancelling anything else is an error that
  changes nothing.
\<close>

theorem cancel_exact:
  assumes "book_inv b"
  shows "if hm_get (ob_locations b) i = None then cancel i b = (Err (OrderNotOpen i), b)
         else \<exists>r b'. hm_get (ob_orders b) i = Some r \<and>
           cancel i b = (Ok (r\<lparr>ord_status := Cancelled, ord_remaining_size_1e8 := 0\<rparr>), b') \<and> book_inv b' \<and>
           (\<forall>s. queue b' s = filter (\<lambda>x. ord_order_id x \<noteq> i) (queue b s)) \<and>
           hm_get (ob_locations b') i = None"
  using cancel_resting [OF assms, of i] by (auto simp: cancel_def)

theorem cancel_exact_witness:
  "\<exists>r b'. hm_get (ob_orders ex_book) 3 = Some r \<and>
     cancel 3 ex_book = (Ok (r\<lparr>ord_status := Cancelled, ord_remaining_size_1e8 := 0\<rparr>), b') \<and> book_inv b' \<and>
     (\<forall>s. queue b' s = filter (\<lambda>x. ord_order_id x \<noteq> 3) (queue ex_book s)) \<and> hm_get (ob_locations b') 3 = None"
proof -
  have loc: "(hm_get (ob_locations ex_book) 3 = None) = False" by code_simp
  from cancel_exact [OF ex_book_inv, of 3] show ?thesis by (simp only: loc if_False)
qed

text \<open>
  A book reached from a new one by submissions and cancellations is never crossed or locked:
  every resting bid is strictly below every resting ask.
\<close>

theorem reachable_never_crossed:
  assumes "book_reachable m b" "bid \<in> set (queue b Buy)" "ask \<in> set (queue b Sell)"
  shows "ord_price_1e8 bid < ord_price_1e8 ask"
  using queue_uncrossed assms reachable_inv by blast

theorem reachable_never_crossed_witness:
  "\<exists>b. book_reachable 1 b \<and> ord_price_1e8 (hd (queue b Buy)) < ord_price_1e8 (hd (queue b Sell))"
proof -
  let ?r1 = "ex_order 1 ''ann'' Sell 105 4" and ?r2 = "ex_order 2 ''bob'' Buy 101 3"
  let ?b1 = "snd (the (submit (\<lambda>_. 0) ?r1 (new_order_book 1)))"
  let ?b2 = "snd (the (submit (\<lambda>_. 0) ?r2 ?b1))"
  have step: "book_reachable 1 (snd (the (submit clock r b)))" if reach: "book_reachable 1 b" and sub: "submittable b r" for clock r b
  proof -
    obtain res b' where "submit clock r b = Some (res, b')"
      using submit_defined [OF conjunct1 [OF reachable_inv [OF reach]] sub] by blast
    then show ?thesis using reach_submit [OF reach sub] by simp
  qed
  have "submittable (new_order_book 1) ?r1" "submittable ?b1 ?r2" by code_simp+
  then have "book_reachable 1 ?b2" by (intro step reach_new)
  moreover have "hd (queue ?b2 Buy) \<in> set (queue ?b2 Buy)" "hd (queue ?b2 Sell) \<in> set (queue ?b2 Sell)"
    by code_simp+
  ultimately show ?thesis using reachable_never_crossed [of 1 ?b2 "hd (queue ?b2 Buy)" "hd (queue ?b2 Sell)"] by blast
qed

text \<open>
  The depth snapshot of a side lists exactly the prices with resting orders, best first and
  each once, with the total remaining size at each price, as long as the depth of the side fits
  128 bits.
\<close>

theorem snapshot_depth:
  assumes "book_inv b" "sum_list (map (unat \<circ> ord_remaining_size_1e8) (queue b s)) < 2 ^ 128"
  shows "sorted_wrt (at_least_as_good s) (map bs_price_1e8 (side_depth b s)) \<and>
     distinct (map bs_price_1e8 (side_depth b s)) \<and>
     set (map bs_price_1e8 (side_depth b s)) = ord_price_1e8 ` set (queue b s) \<and>
     (\<forall>x \<in> set (side_depth b s). unat (bs_total_size_1e8 x) =
        sum_list (map (unat \<circ> ord_remaining_size_1e8) (filter (\<lambda>r. ord_price_1e8 r = bs_price_1e8 x) (queue b s))))"
proof (intro conjI)
  note d = snapshot_depth_facts [OF assms]
  show "sorted_wrt (at_least_as_good s) (map bs_price_1e8 (side_depth b s))"
    using priority_levels_sorted [OF assms(1), of s] by (simp add: d(1) sorted_wrt_map)
  show "distinct (map bs_price_1e8 (side_depth b s))"
    using priority_levels_distinct [OF assms(1), of s] by (simp add: d(1))
  show "set (map bs_price_1e8 (side_depth b s)) = ord_price_1e8 ` set (queue b s)"
    unfolding d(1) by (rule prices_of_queue [OF assms(1)])
qed (rule snapshot_depth_facts(2) [OF assms])

theorem snapshot_depth_witness:
  "set (map bs_price_1e8 (side_depth ex_book Sell)) = ord_price_1e8 ` set (queue ex_book Sell) \<and>
   map (\<lambda>x. (bs_price_1e8 x, bs_total_size_1e8 x)) (side_depth ex_book Sell) = [(101, 9), (105, 4)]"
proof -
  have "sum_list (map (unat \<circ> ord_remaining_size_1e8) (queue ex_book Sell)) = 13" by code_simp
  then have "sum_list (map (unat \<circ> ord_remaining_size_1e8) (queue ex_book Sell)) < 2 ^ 128" by simp
  then have "set (map bs_price_1e8 (side_depth ex_book Sell)) = ord_price_1e8 ` set (queue ex_book Sell)"
    using snapshot_depth [OF ex_book_inv, of Sell] by blast
  moreover have "map (\<lambda>x. (bs_price_1e8 x, bs_total_size_1e8 x)) (side_depth ex_book Sell) = [(101, 9), (105, 4)]" by code_simp
  ultimately show ?thesis by blast
qed

end
