(* ===== verification/Engine.thy ===== *)
theory Engine
  imports Orderbook_Props "HOL-Library.Product_Lexorder"
begin

text \<open>
  The matching engine: \<^verbatim>\<open>src/engine/{commands,events,state}.rs\<close> with the execution intents of
  \<^verbatim>\<open>src/execution/{intent,queue}.rs\<close>.  An engine keeps one order book per market and queues one
  execution intent per trade.  Fresh ids (\<^verbatim>\<open>Uuid::new_v4\<close>) and the clock are arguments.
\<close>


section \<open>Execution intents\<close>

datatype execution_intent_status =
    Pending | DryRun | CalldataReady | SimulationOk | SimulationFailed
  | Prepared | Submitted | Confirmed | Failed | Abandoned

fun is_retire_eligible :: "execution_intent_status \<Rightarrow> bool" where
  "is_retire_eligible Pending = True"
| "is_retire_eligible DryRun = True"
| "is_retire_eligible CalldataReady = True"
| "is_retire_eligible SimulationOk = True"
| "is_retire_eligible SimulationFailed = True"
| "is_retire_eligible _ = False"

datatype perps_protocol_version = V1 | V2

record execution_intent =
  in_intent_id :: uuid
  in_market_id :: market_id
  in_buyer :: account_id
  in_seller :: account_id
  in_price_1e8 :: price_1e8
  in_size_1e8 :: size_1e8
  in_buy_order_id :: order_id
  in_sell_order_id :: order_id
  in_buyer_is_maker :: "bool option"
  in_buyer_nonce :: "u64 option"
  in_seller_nonce :: "u64 option"
  in_deadline_ms :: "timestamp_ms option"
  in_created_at_ms :: timestamp_ms
  in_status :: execution_intent_status
  in_protocol_version :: perps_protocol_version
  in_max_execution_price_1e8 :: u128
  in_min_execution_price_1e8 :: u128

record execution_queue =
  eq_intents :: "execution_intent list"

definition new_execution_queue :: execution_queue where
  "new_execution_queue = \<lparr> eq_intents = [] \<rparr>"

definition queue_push :: "execution_intent \<Rightarrow> execution_queue \<Rightarrow> execution_queue" where
  "queue_push x q = q\<lparr>eq_intents := eq_intents q @ [x]\<rparr>"

fun update_first :: "('a \<Rightarrow> bool) \<Rightarrow> ('a \<Rightarrow> 'a) \<Rightarrow> 'a list \<Rightarrow> bool \<times> 'a list" where
  "update_first P f [] = (False, [])"
| "update_first P f (x # xs) =
     (if P x then (True, f x # xs) else let (found, ys) = update_first P f xs in (found, x # ys))"

definition update_status :: "uuid \<Rightarrow> execution_intent_status \<Rightarrow> execution_queue \<Rightarrow> bool \<times> execution_queue" where
  "update_status i st q =
     (let (found, xs) = update_first (\<lambda>x. in_intent_id x = i) (\<lambda>x. x\<lparr>in_status := st\<rparr>) (eq_intents q)
      in (found, q\<lparr>eq_intents := xs\<rparr>))"


section \<open>Commands, events and the state\<close>

datatype engine_command =
    SubmitOrder new_order
  | CancelOrder order_id
  | ReplaceOrder order_id new_order

datatype reject_reason = UnknownMarket market_id | BookRefused backend_error

datatype engine_event =
    OrderAccepted order
  | OrderRejected order_id reject_reason
  | OrderCancelled order
  | OrderPartiallyFilled order
  | OrderFilled order
  | TradeMatched trade_match
  | ExecutionIntentCreated execution_intent

record engine_state =
  es_markets :: "market list"
  es_orderbooks :: "(market_id, order_book) hashmap"
  es_execution_queue :: execution_queue

definition new_engine_state :: "market list \<Rightarrow> engine_state" where
  "new_engine_state ms =
     \<lparr> es_markets = ms,
       es_orderbooks = fold (\<lambda>m. hm_insert (mkt_market_id m) (new_order_book (mkt_market_id m))) ms [],
       es_execution_queue = new_execution_queue \<rparr>"

definition default_markets :: "market list" where
  "default_markets =
     [\<lparr> mkt_market_id = 1, mkt_symbol = ''ETH-PERP'', mkt_kind = ''perp'' \<rparr>,
      \<lparr> mkt_market_id = 2, mkt_symbol = ''BTC-PERP'', mkt_kind = ''perp'' \<rparr>]"

definition has_market :: "engine_state \<Rightarrow> market_id \<Rightarrow> bool" where
  "has_market st m = hm_contains_key (es_orderbooks st) m"

definition execution_intents :: "engine_state \<Rightarrow> execution_intent list" where
  "execution_intents st = eq_intents (es_execution_queue st)"

definition push_execution_intent :: "execution_intent \<Rightarrow> engine_state \<Rightarrow> engine_state" where
  "push_execution_intent x st = st\<lparr>es_execution_queue := queue_push x (es_execution_queue st)\<rparr>"

definition update_execution_intent_status ::
  "uuid \<Rightarrow> execution_intent_status \<Rightarrow> engine_state \<Rightarrow> bool \<times> engine_state" where
  "update_execution_intent_status i s st =
     (let (found, q) = update_status i s (es_execution_queue st) in (found, st\<lparr>es_execution_queue := q\<rparr>))"

definition orderbook_snapshot :: "engine_state \<Rightarrow> market_id \<Rightarrow> order_book_snapshot" where
  "orderbook_snapshot st m =
     (case hm_get (es_orderbooks st) m of
        Some b \<Rightarrow> snapshot b
      | None \<Rightarrow> snapshot (new_order_book m))"

fun find_map :: "('a \<Rightarrow> 'b option) \<Rightarrow> 'a list \<Rightarrow> 'b option" where
  "find_map f [] = None"
| "find_map f (x # xs) = (case f x of Some y \<Rightarrow> Some y | None \<Rightarrow> find_map f xs)"

definition engine_order :: "engine_state \<Rightarrow> order_id \<Rightarrow> order option" where
  "engine_order st i = find_map (\<lambda>b. get_order b i) (hm_values (es_orderbooks st))"

definition engine_resting_orders :: "engine_state \<Rightarrow> order list" where
  "engine_resting_orders st =
     sort_key (\<lambda>r. (ord_created_at_ms r, ord_order_id r)) (concat (map resting_orders (hm_values (es_orderbooks st))))"

definition push_order_fill_event :: "engine_event list \<Rightarrow> order \<Rightarrow> engine_event list" where
  "push_order_fill_event events r =
     (case ord_status r of
        PartiallyFilled \<Rightarrow> events @ [OrderPartiallyFilled r]
      | Filled \<Rightarrow> events @ [OrderFilled r]
      | _ \<Rightarrow> events)"

definition intent_from_trade :: "uuid \<Rightarrow> trade_match \<Rightarrow> execution_intent" where
  "intent_from_trade intent_id t =
     (let taker_is_buyer = (tm_buyer t = tm_taker_account t);
          (buy_order_id, sell_order_id) =
            (if taker_is_buyer then (tm_taker_order_id t, tm_maker_order_id t)
             else (tm_maker_order_id t, tm_taker_order_id t));
          buyer_is_maker = (tm_buyer t = tm_maker_account t);
          (buyer_nonce, seller_nonce) =
            (if buyer_is_maker then (tm_maker_nonce t, tm_taker_nonce t)
             else (tm_taker_nonce t, tm_maker_nonce t));
          deadline_ms =
            (case (tm_maker_deadline_ms t, tm_taker_deadline_ms t) of
               (Some maker_deadline, Some taker_deadline) \<Rightarrow> Some (min maker_deadline taker_deadline)
             | _ \<Rightarrow> None)
      in \<lparr> in_intent_id = intent_id,
           in_market_id = tm_market_id t,
           in_buyer = tm_buyer t,
           in_seller = tm_seller t,
           in_price_1e8 = tm_price_1e8 t,
           in_size_1e8 = tm_size_1e8 t,
           in_buy_order_id = buy_order_id,
           in_sell_order_id = sell_order_id,
           in_buyer_is_maker = Some buyer_is_maker,
           in_buyer_nonce = buyer_nonce,
           in_seller_nonce = seller_nonce,
           in_deadline_ms = deadline_ms,
           in_created_at_ms = tm_created_at_ms t,
           in_status = Pending,
           in_protocol_version = V1,
           in_max_execution_price_1e8 = 0,
           in_min_execution_price_1e8 = 0 \<rparr>)"

text \<open>
  The last loop of \<^verbatim>\<open>append_fill_events\<close>; \<open>ids k\<close> is the id drawn for the \<open>k\<close>-th trade.
\<close>

fun append_trade_events ::
  "(nat \<Rightarrow> uuid) \<Rightarrow> nat \<Rightarrow> trade_match list \<Rightarrow> engine_event list \<Rightarrow> execution_queue \<Rightarrow> engine_event list \<times> execution_queue" where
  "append_trade_events ids k [] events q = (events, q)"
| "append_trade_events ids k (t # ts) events q =
     (let i = intent_from_trade (ids k) t
      in append_trade_events ids (Suc k) ts (events @ [TradeMatched t, ExecutionIntentCreated i]) (queue_push i q))"

definition append_fill_events ::
  "(nat \<Rightarrow> uuid) \<Rightarrow> engine_event list \<Rightarrow> order_submit_result \<Rightarrow> execution_queue \<Rightarrow> engine_event list \<times> execution_queue" where
  "append_fill_events ids events res q =
     (let events1 = foldl push_order_fill_event events (sr_maker_order_updates res);
          events2 = push_order_fill_event events1 (sr_order res)
      in append_trade_events ids 0 (sr_trades res) events2 q)"

definition submit_order ::
  "(nat \<Rightarrow> timestamp_ms) \<Rightarrow> (nat \<Rightarrow> uuid) \<Rightarrow> order_id \<Rightarrow> timestamp_ms \<Rightarrow> new_order \<Rightarrow> engine_state
     \<Rightarrow> ((backend_error + engine_event list) \<times> engine_state) option" where
  "submit_order clock ids order_id created_at_ms n st =
     (let m = no_market_id n;
          r = into_order n order_id created_at_ms
      in case hm_get (es_orderbooks st) m of
           None \<Rightarrow> Some (Ok [OrderRejected order_id (UnknownMarket m)], st)
         | Some b \<Rightarrow>
             (case submit clock r b of
                None \<Rightarrow> None
              | Some (res, b') \<Rightarrow>
                  let st' = st\<lparr>es_orderbooks := hm_insert m b' (es_orderbooks st)\<rparr>
                  in (case res of
                        Ok out \<Rightarrow>
                          let (events, q) = append_fill_events ids [OrderAccepted (sr_order out)] out (es_execution_queue st')
                          in Some (Ok events, st'\<lparr>es_execution_queue := q\<rparr>)
                      | Err e \<Rightarrow> Some (Ok [OrderRejected order_id (BookRefused e)], st'))))"

text \<open>
  \<^verbatim>\<open>cancel_order\<close> walks the books in map order and cancels in the first that knows the id.
\<close>

fun cancel_in_books ::
  "order_id \<Rightarrow> (market_id \<times> order_book) list \<Rightarrow> (backend_error + engine_event list) \<times> (market_id \<times> order_book) list" where
  "cancel_in_books i [] = (Err (OrderNotFound i), [])"
| "cancel_in_books i ((m, b) # bs) =
     (if get_order b i \<noteq> None
      then (case cancel i b of
              (Ok r, b') \<Rightarrow> (Ok [OrderCancelled r], (m, b') # bs)
            | (Err e, b') \<Rightarrow> (Err e, (m, b') # bs))
      else let (res, bs') = cancel_in_books i bs in (res, (m, b) # bs'))"

definition cancel_order :: "order_id \<Rightarrow> engine_state \<Rightarrow> (backend_error + engine_event list) \<times> engine_state" where
  "cancel_order i st =
     (let (res, bs) = cancel_in_books i (es_orderbooks st) in (res, st\<lparr>es_orderbooks := bs\<rparr>))"

definition process ::
  "(nat \<Rightarrow> timestamp_ms) \<Rightarrow> (nat \<Rightarrow> uuid) \<Rightarrow> order_id \<Rightarrow> timestamp_ms \<Rightarrow> engine_command \<Rightarrow> engine_state
     \<Rightarrow> ((backend_error + engine_event list) \<times> engine_state) option" where
  "process clock ids order_id created_at_ms cmd st =
     (case cmd of
        SubmitOrder n \<Rightarrow> submit_order clock ids order_id created_at_ms n st
      | CancelOrder i \<Rightarrow> Some (cancel_order i st)
      | ReplaceOrder _ _ \<Rightarrow> Some (Err (UnsupportedCommand ''replace_order_scaffold''), st))"


section \<open>The engine invariant\<close>

definition engine_inv :: "engine_state \<Rightarrow> bool" where
  "engine_inv st = ob.books_inv (es_orderbooks st)"

definition fresh_id :: "engine_state \<Rightarrow> order_id \<Rightarrow> bool" where
  "fresh_id st i = (engine_order st i = None)"

lemma find_map_None: "find_map f xs = None \<longleftrightarrow> (\<forall>x \<in> set xs. f x = None)"
  by (induction xs) (auto split: option.splits)

lemma fresh_submittable:
  assumes "engine_inv st" "fresh_id st i" "hm_get (es_orderbooks st) m = Some b"
  shows "submittable b (into_order n i t)"
proof -
  have "b \<in> set (hm_values (es_orderbooks st))"
    using assms(1,3) by (auto simp: engine_inv_def ob.books_inv_def set_hm_values)
  then show ?thesis
    using assms(2) by (auto simp: submittable_def into_order_def fresh_id_def engine_order_def find_map_None get_order_def)
qed

lemma engine_book_inv: "engine_inv st \<Longrightarrow> hm_get (es_orderbooks st) m = Some b \<Longrightarrow> book_inv b \<and> ob_market_id b = m"
  by (simp add: engine_inv_def ob.books_inv_def)

lemma new_engine_inv: "engine_inv (new_engine_state ms)"
proof -
  have "fold (\<lambda>m. hm_insert (mkt_market_id m) (new_order_book (mkt_market_id m))) ms [] =
      fold (\<lambda>m. hm_insert m (new_order_book m)) (map mkt_market_id ms) []"
    by (simp add: fold_map comp_def)
  then show ?thesis using ob.books_new by (simp add: engine_inv_def new_engine_state_def)
qed

lemma engine_inv_queue [simp]: "engine_inv (st\<lparr>es_execution_queue := q\<rparr>) = engine_inv st"
  by (simp add: engine_inv_def)

lemma cancel_in_books_cases:
  assumes "hm_ok bs"
  obtains "\<forall>m b. hm_get bs m = Some b \<longrightarrow> get_order b i = None" "cancel_in_books i bs = (Err (OrderNotFound i), bs)"
  | m b where "hm_get bs m = Some b" "get_order b i \<noteq> None"
      "cancel_in_books i bs =
         ((case fst (cancel i b) of Ok r \<Rightarrow> Ok [OrderCancelled r] | Err e \<Rightarrow> Err e), hm_insert m (snd (cancel i b)) bs)"
  using assms
proof (induction bs arbitrary: thesis)
  case Nil
  then show ?case by simp
next
  case (Cons x bs)
  obtain m0 b0 where x: "x = (m0, b0)" by force
  have ok: "hm_ok bs" and m0: "hm_get bs m0 = None"
    using Cons.prems(3) by (auto simp: hm_ok_def hm_get_def x map_of_eq_None_iff)
  have get: "hm_get (x # bs) m = (if m = m0 then Some b0 else hm_get bs m)" for m
    by (simp add: hm_get_def x)
  have upd: "hm_insert m v (x # bs) = (if m = m0 then (m0, v) # bs else x # hm_insert m v bs)" for m v
    by (simp add: hm_insert_def x)
  show ?case
  proof (cases "get_order b0 i = None")
    case False
    then show ?thesis
      by (intro Cons.prems(2) [of m0 b0]) (auto simp: get [unfolded x] upd [unfolded x] x split: prod.splits sum.splits)
  next
    case True
    show ?thesis
    proof (rule Cons.IH [OF _ _ ok])
      assume "\<forall>m b. hm_get bs m = Some b \<longrightarrow> get_order b i = None" "cancel_in_books i bs = (Err (OrderNotFound i), bs)"
      then show thesis using True by (intro Cons.prems(1)) (auto simp: get [unfolded x] x)
    next
      fix m b assume f: "hm_get bs m = Some b" "get_order b i \<noteq> None" "cancel_in_books i bs =
         ((case fst (cancel i b) of Ok r \<Rightarrow> Ok [OrderCancelled r] | Err e \<Rightarrow> Err e), hm_insert m (snd (cancel i b)) bs)"
      then have "m \<noteq> m0" using m0 by auto
      then show thesis using True f by (intro Cons.prems(2) [of m b]) (auto simp: get [unfolded x] upd [unfolded x] x)
    qed
  qed
qed

lemma cancel_order_inv: "engine_inv st \<Longrightarrow> engine_inv (snd (cancel_order i st))"
proof -
  assume inv: "engine_inv st"
  then have ok: "hm_ok (es_orderbooks st)" by (simp add: engine_inv_def ob.books_inv_def)
  show ?thesis
  proof (rule cancel_in_books_cases [OF ok, of i])
    fix m b assume f: "hm_get (es_orderbooks st) m = Some b" "cancel_in_books i (es_orderbooks st) =
       ((case fst (cancel i b) of Ok r \<Rightarrow> Ok [OrderCancelled r] | Err e \<Rightarrow> Err e), hm_insert m (snd (cancel i b)) (es_orderbooks st))"
    then show ?thesis using ob.books_cancel [OF _ f(1), of i] inv by (simp add: cancel_order_def engine_inv_def)
  qed (use inv in \<open>simp add: cancel_order_def\<close>)
qed

lemma submit_order_inv:
  assumes "engine_inv st" "fresh_id st i"
  shows "\<exists>res st'. submit_order clock ids i now n st = Some (res, st') \<and> engine_inv st'"
proof (cases "hm_get (es_orderbooks st) (no_market_id n)")
  case None
  then show ?thesis using assms by (simp add: submit_order_def)
next
  case (Some b)
  obtain res b' where "submit clock (into_order n i now) b = Some (res, b')"
      "ob.books_inv (hm_insert (no_market_id n) b' (es_orderbooks st))"
    using ob.books_submit [OF _ Some fresh_submittable [OF assms Some], of clock n now] assms(1) by (auto simp: engine_inv_def)
  then show ?thesis using Some
    by (cases res) (auto simp: submit_order_def Let_def engine_inv_def split: prod.splits)
qed


section \<open>Intents of a submission\<close>

definition trade_intents :: "(nat \<Rightarrow> uuid) \<Rightarrow> nat \<Rightarrow> trade_match list \<Rightarrow> execution_intent list" where
  "trade_intents ids k ts = map (\<lambda>x. intent_from_trade (ids (fst x)) (snd x)) (enumerate k ts)"

lemma trade_intents_simps [simp]:
  "trade_intents ids k [] = []"
  "trade_intents ids k (t # ts) = intent_from_trade (ids k) t # trade_intents ids (Suc k) ts"
  by (simp_all add: trade_intents_def)

lemma append_trade_events_eq:
  "append_trade_events ids k ts ev q =
     (ev @ concat (map2 (\<lambda>t i. [TradeMatched t, ExecutionIntentCreated i]) ts (trade_intents ids k ts)),
      q\<lparr>eq_intents := eq_intents q @ trade_intents ids k ts\<rparr>)"
  by (induction ts arbitrary: k ev q) (simp_all add: queue_push_def Let_def)

lemma intent_from_trade_fields [simp]:
  "in_size_1e8 (intent_from_trade i t) = tm_size_1e8 t" "in_price_1e8 (intent_from_trade i t) = tm_price_1e8 t"
  "in_market_id (intent_from_trade i t) = tm_market_id t" "in_intent_id (intent_from_trade i t) = i"
  "in_status (intent_from_trade i t) = Pending" "in_buyer (intent_from_trade i t) = tm_buyer t"
  "in_seller (intent_from_trade i t) = tm_seller t" "in_protocol_version (intent_from_trade i t) = V1"
  "in_max_execution_price_1e8 (intent_from_trade i t) = 0" "in_min_execution_price_1e8 (intent_from_trade i t) = 0"
  by (simp_all add: intent_from_trade_def Let_def split: prod.splits)

lemma map_trade_intents [simp]: "map in_size_1e8 (trade_intents ids k ts) = map tm_size_1e8 ts"
  by (induction ts arbitrary: k) auto

lemma in_trade_intents: "x \<in> set (trade_intents ids k ts) \<Longrightarrow> \<exists>t \<in> set ts. \<exists>i. x = intent_from_trade i t"
  by (induction ts arbitrary: k) auto

text \<open>An intent names the orders, accounts and nonces of the right sides of its trade.\<close>

definition intent_links :: "execution_intent \<Rightarrow> order \<Rightarrow> order \<Rightarrow> bool" where
  "intent_links x buy sell =
     (in_buyer x = ord_account buy \<and> in_seller x = ord_account sell \<and>
      in_buy_order_id x = ord_order_id buy \<and> in_sell_order_id x = ord_order_id sell \<and>
      in_buyer_nonce x = ord_signed_nonce buy \<and> in_seller_nonce x = ord_signed_nonce sell \<and>
      in_deadline_ms x = (case (ord_signed_deadline_ms buy, ord_signed_deadline_ms sell) of
                            (Some d, Some e) \<Rightarrow> Some (min d e) | _ \<Rightarrow> None))"

lemma intent_links_trade:
  assumes "ord_account m \<noteq> ord_account r"
  shows "(case ord_side r of Buy \<Rightarrow> intent_links (intent_from_trade i (make_trade mkt r m n c)) r m
                            | Sell \<Rightarrow> intent_links (intent_from_trade i (make_trade mkt r m n c)) m r)"
    and "in_buyer_is_maker (intent_from_trade i (make_trade mkt r m n c)) = Some (ord_side r = Sell)"
  using assms
  by (cases "ord_side r"; auto simp: intent_links_def intent_from_trade_def make_trade_def min.commute split: option.splits)+

lemma submit_order_accepted:
  assumes "submit_order clock ids i now n st = Some (Ok (OrderAccepted t # evs), st')"
  obtains b b' out where "hm_get (es_orderbooks st) (no_market_id n) = Some b"
    "submit clock (into_order n i now) b = Some (Ok out, b')" "t = sr_order out"
    "es_orderbooks st' = hm_insert (no_market_id n) b' (es_orderbooks st)"
    "execution_intents st' = execution_intents st @ trade_intents ids 0 (sr_trades out)"
proof -
  obtain b where b: "hm_get (es_orderbooks st) (no_market_id n) = Some b"
    using assms by (auto simp: submit_order_def Let_def split: option.splits)
  obtain res b' where s: "submit clock (into_order n i now) b = Some (res, b')"
    using assms b by (auto simp: submit_order_def Let_def split: option.splits)
  obtain out where out: "res = Ok out" using assms b s by (cases res) (auto simp: submit_order_def Let_def)
  have hd: "hd (fst (append_fill_events ids [OrderAccepted o'] r q)) = OrderAccepted o'" for o' r q
  proof -
    have "\<exists>zs. foldl push_order_fill_event (e # es) xs = e # zs" for e es xs
      by (induction xs arbitrary: es) (auto simp: push_order_fill_event_def split: order_status.splits)
    then obtain zs where "foldl push_order_fill_event [OrderAccepted o'] (sr_maker_order_updates r) = OrderAccepted o' # zs" by blast
    then show ?thesis
      by (simp add: append_fill_events_def Let_def append_trade_events_eq push_order_fill_event_def split: order_status.splits)
  qed
  show ?thesis
  proof (rule that [OF b])
    show "submit clock (into_order n i now) b = Some (Ok out, b')" using s out by simp
    show "t = sr_order out" using assms b s out hd [of "sr_order out" out "es_execution_queue st"]
      by (auto simp: submit_order_def Let_def split: prod.splits)
    show "es_orderbooks st' = hm_insert (no_market_id n) b' (es_orderbooks st)"
      using assms b s out by (auto simp: submit_order_def Let_def split: prod.splits)
    show "execution_intents st' = execution_intents st @ trade_intents ids 0 (sr_trades out)"
      using assms b s out
      by (auto simp: submit_order_def Let_def execution_intents_def append_fill_events_def append_trade_events_eq)
  qed
qed


section \<open>Properties\<close>

definition ex_new :: "account_id \<Rightarrow> side \<Rightarrow> price_1e8 \<Rightarrow> size_1e8 \<Rightarrow> new_order" where
  "ex_new a s p n =
     \<lparr> no_market_id = 1, no_account = a, no_side = s, no_price_1e8 = p, no_size_1e8 = n,
       no_time_in_force = Gtc, no_reduce_only = False, no_post_only = False, no_client_order_id = None,
       no_signed_nonce = Some 7, no_signed_deadline_ms = Some 9000 \<rparr>"

definition ex_engine :: engine_state where
  "ex_engine = \<lparr> es_markets = default_markets, es_orderbooks = [(1, ex_book), (2, new_order_book 2)],
                 es_execution_queue = new_execution_queue \<rparr>"

definition ex_ids :: "nat \<Rightarrow> uuid" where
  "ex_ids k = 100 + of_nat k"

lemma ex_engine_inv: "engine_inv ex_engine"
proof -
  have "ob_market_id ex_book = 1" by (simp add: ex_book_def)
  then show ?thesis
    using ex_book_inv ob.new_book_inv [of 2]
    by (auto simp: engine_inv_def ex_engine_def ob.books_inv_def hm_ok_def hm_get_def split: if_splits)
qed

lemma ex_engine_fresh: "fresh_id ex_engine 5" by code_simp

text \<open>
  C5: The engine processes every command without running forever, and keeps every book well formed
  and filed under its own market, as long as the id it draws for an order is not already in use.
\<close>

theorem process_total_inv:
  assumes "engine_inv st" "fresh_id st i"
  shows "\<exists>res st'. process clock ids i now cmd st = Some (res, st') \<and> engine_inv st'"
proof (cases cmd)
  case (SubmitOrder n)
  then show ?thesis using submit_order_inv [OF assms] by (simp add: process_def)
next
  case (CancelOrder j)
  then show ?thesis using cancel_order_inv [OF assms(1), of j]
    by (cases "cancel_order j st") (simp add: process_def)
qed (use assms in \<open>simp add: process_def\<close>)

theorem process_total_inv_witness:
  "engine_inv ex_engine \<and> fresh_id ex_engine 5 \<and>
   (\<exists>res st'. process (\<lambda>_. 7) ex_ids 5 1 (SubmitOrder (ex_new ''eve'' Buy 103 12)) ex_engine = Some (res, st') \<and> engine_inv st')"
  using process_total_inv [OF ex_engine_inv ex_engine_fresh] ex_engine_inv ex_engine_fresh by blast

text \<open>The intent of a match of a new order with a resting one.\<close>

definition intent_settles :: "new_order \<Rightarrow> order \<Rightarrow> execution_intent \<Rightarrow> order \<Rightarrow> bool" where
  "intent_settles n r x m =
     (in_status x = Pending \<and> in_market_id x = no_market_id n \<and> 0 < in_size_1e8 x \<and>
      in_size_1e8 x \<le> ord_remaining_size_1e8 m \<and> in_price_1e8 x = ord_price_1e8 m \<and>
      in_buyer_is_maker x = Some (no_side n = Sell) \<and>
      (case no_side n of Buy \<Rightarrow> intent_links x r m | Sell \<Rightarrow> intent_links x m r))"

lemma length_trade_intents [simp]: "length (trade_intents ids k ts) = length ts"
  by (simp add: trade_intents_def)

lemma trade_intents_nth:
  "j < length ts \<Longrightarrow> trade_intents ids k ts ! j = intent_from_trade (ids (k + j)) (ts ! j)"
  by (simp add: trade_intents_def nth_enumerate_eq)

lemma submit_order_new_intents:
  assumes "engine_inv st" "fresh_id st i"
    and "submit_order clock ids i now n st = Some (Ok (OrderAccepted t # evs), st')"
  shows "\<exists>b xs. hm_get (es_orderbooks st) (no_market_id n) = Some b \<and>
      execution_intents st' = execution_intents st @ xs \<and>
      list_all2 (intent_settles n (into_order n i now)) xs (take (length xs) (queue b (opposite (no_side n)))) \<and>
      sum_list (map (unat \<circ> in_size_1e8) xs) =
        min (unat (no_size_1e8 n)) (crossing_depth (no_side n) (no_price_1e8 n) (queue b (opposite (no_side n)))) \<and>
      unat (ord_remaining_size_1e8 t) =
        (if no_time_in_force n = Gtc then unat (no_size_1e8 n) - sum_list (map (unat \<circ> in_size_1e8) xs) else 0)"
proof -
  let ?r = "into_order n i now"
  have r: "ord_side ?r = no_side n" "ord_size_1e8 ?r = no_size_1e8 n" "ord_time_in_force ?r = no_time_in_force n"
    "ord_price_1e8 ?r = no_price_1e8 n"
    by (simp_all add: into_order_def)
  obtain b b' out where b: "hm_get (es_orderbooks st) (no_market_id n) = Some b"
    and sub: "submit clock ?r b = Some (Ok out, b')" and t: "t = sr_order out"
    and xs: "execution_intents st' = execution_intents st @ trade_intents ids 0 (sr_trades out)"
    by (rule submit_order_accepted [OF assms(3)])
  have inv: "book_inv b" "ob_market_id b = no_market_id n" using engine_book_inv [OF assms(1) b] by auto
  note args = inv(1) fresh_submittable [OF assms(1,2) b] sub
  obtain fs want where f: "match_queue (ord_side ?r) (ord_price_1e8 ?r) (ord_size_1e8 ?r) (queue b (opposite (ord_side ?r))) =
       (fs, want, queue b' (opposite (ord_side ?r)))" "sr_trades out = fills_to_trades (ob_market_id b) clock ?r 0 fs"
    by (rule submit_ok [OF args])
  let ?xs = "trade_intents ids 0 (sr_trades out)"
  have tot: "map (unat \<circ> in_size_1e8) ?xs = map (unat \<circ> tm_size_1e8) (sr_trades out)"
    using map_trade_intents [of ids 0 "sr_trades out"] by (metis map_map)
  have "intent_settles n ?r (?xs ! k) (fst (fs ! k))" if k: "k < length fs" for k
  proof -
    have tr: "sr_trades out ! k \<in> set (sr_trades out)" by (rule nth_mem) (simp add: f(2) k)
    have eq: "sr_trades out ! k = make_trade (no_market_id n) ?r (fst (fs ! k)) (snd (fs ! k)) (clock k)"
      using fills_to_trades_nth [OF k, of "ob_market_id b" clock ?r 0] by (simp add: f(2) inv(2))
    have "ord_account (fst (fs ! k)) \<noteq> ord_account ?r" using submit_counterparties [OF args tr] eq by simp
    note intent_links_trade [OF this, of "ids k" "no_market_id n" "snd (fs ! k)" "clock k"]
    moreover have "0 < tm_size_1e8 (sr_trades out ! k)" using submit_priority(3) [OF args refl refl] tr by blast
    moreover have "snd (fs ! k) \<le> ord_remaining_size_1e8 (fst (fs ! k))" using match_queue_fill [OF f(1), of "fs ! k"] k by simp
    moreover have "?xs ! k = intent_from_trade (ids k) (sr_trades out ! k)" using k by (simp add: trade_intents_nth f(2))
    ultimately show ?thesis unfolding r eq intent_settles_def by (cases "no_side n") auto
  qed
  then have "list_all2 (intent_settles n ?r) ?xs (map fst fs)" by (simp add: list_all2_conv_all_nth f(2))
  moreover have "map fst fs = take (length ?xs) (queue b (opposite (no_side n)))"
    using match_queue_prefix [OF f(1)] by (simp add: f(2) r)
  ultimately show ?thesis
    using b xs submit_sizes(2,3) [OF args refl] unfolding t r tot [symmetric] by auto
qed

text \<open>
  C6: The intents an accepted order adds to the execution queue settle, one by one and in order,
  its matches with the first resting orders of the opposite side of its market: each names the
  right buyer and seller, their order ids, nonces and earlier deadline, marks the resting side
  as maker, carries the maker's price and takes no more than the maker has.  Whatever the time
  in force, their sizes add up to the order size or the size the limit price reaches, whichever
  is smaller; a good-till-cancelled order keeps the rest.  Earlier intents stay.
\<close>

theorem submit_order_intents:
  assumes "engine_inv st" "fresh_id st i"
    and "submit_order clock ids i now n st = Some (Ok (OrderAccepted t # evs), st')"
  shows "\<exists>b xs. hm_get (es_orderbooks st) (no_market_id n) = Some b \<and>
      execution_intents st' = execution_intents st @ xs \<and>
      list_all2 (intent_settles n (into_order n i now)) xs (take (length xs) (queue b (opposite (no_side n)))) \<and>
      sum_list (map (unat \<circ> in_size_1e8) xs) =
        min (unat (no_size_1e8 n)) (crossing_depth (no_side n) (no_price_1e8 n) (queue b (opposite (no_side n)))) \<and>
      unat (ord_remaining_size_1e8 t) =
        (if no_time_in_force n = Gtc then unat (no_size_1e8 n) - sum_list (map (unat \<circ> in_size_1e8) xs) else 0)"
  by (rule submit_order_new_intents [OF assms])

theorem submit_order_intents_witness:
  "\<exists>evs st' t. submit_order (\<lambda>_. 7) ex_ids 5 1 (ex_new ''eve'' Buy 103 12) ex_engine = Some (Ok (OrderAccepted t # evs), st') \<and>
     unat (ord_remaining_size_1e8 t) = 3 \<and>
     (\<exists>xs. execution_intents st' = execution_intents ex_engine @ xs \<and> sum_list (map (unat \<circ> in_size_1e8) xs) = 9)"
proof -
  let ?n = "ex_new ''eve'' Buy 103 12"
  have "case submit_order (\<lambda>_. 7) ex_ids 5 1 ?n ex_engine of Some (Ok (OrderAccepted t # evs), st') \<Rightarrow> True | _ \<Rightarrow> False"
    by code_simp
  then obtain t evs st' where s: "submit_order (\<lambda>_. 7) ex_ids 5 1 ?n ex_engine = Some (Ok (OrderAccepted t # evs), st')"
    by (auto split: option.splits prod.splits sum.splits list.splits engine_event.splits)
  have n: "no_time_in_force ?n = Gtc" "unat (no_size_1e8 ?n) = 12" "opposite (no_side ?n) = Sell" "no_side ?n = Buy" "no_price_1e8 ?n = 103"
    "hm_get (es_orderbooks ex_engine) (no_market_id ?n) = Some ex_book" "crossing_depth Buy 103 (queue ex_book Sell) = 9" by code_simp+
  obtain b xs where x: "hm_get (es_orderbooks ex_engine) (no_market_id ?n) = Some b"
      "execution_intents st' = execution_intents ex_engine @ xs"
      "sum_list (map (unat \<circ> in_size_1e8) xs) =
        min (unat (no_size_1e8 ?n)) (crossing_depth (no_side ?n) (no_price_1e8 ?n) (queue b (opposite (no_side ?n))))"
      "unat (ord_remaining_size_1e8 t) =
        (if no_time_in_force ?n = Gtc then unat (no_size_1e8 ?n) - sum_list (map (unat \<circ> in_size_1e8) xs) else 0)"
    using submit_order_intents [OF ex_engine_inv ex_engine_fresh s] by blast
  have "b = ex_book" using x(1) n(6) by simp
  then have "sum_list (map (unat \<circ> in_size_1e8) xs) = 9" using x(3) n by simp
  then show ?thesis using s x(2,4) n(1,2) by auto
qed

lemma fst_update_first: "fst (update_first P f xs) = (\<exists>x \<in> set xs. P x)"
  by (induction xs) (auto split: prod.splits)

lemma update_status_distinct:
  assumes "distinct (map in_intent_id xs)"
  shows "snd (update_first (\<lambda>x. in_intent_id x = i) f xs) = map (\<lambda>x. if in_intent_id x = i then f x else x) xs"
  using assms
proof (induction xs)
  case (Cons x xs)
  have "in_intent_id y \<noteq> in_intent_id x" if "y \<in> set xs" for y
    using that Cons.prems by (metis distinct.simps(2) imageI list.set_map list.simps(9))
  then have "map (\<lambda>x. if in_intent_id x = i then f x else x) xs = xs" if "in_intent_id x = i"
    using that by (intro map_idI) simp
  then show ?case using Cons by (auto split: prod.splits)
qed simp

text \<open>
  Updating the status of an intent changes the status of the first intent with that id and
  nothing else in the engine, and reports whether there was one.
\<close>

theorem update_intent_status_exact:
  assumes "update_execution_intent_status i s st = (found, st')"
  shows "found = (\<exists>x \<in> set (execution_intents st). in_intent_id x = i) \<and>
     es_orderbooks st' = es_orderbooks st \<and> es_markets st' = es_markets st \<and>
     map in_intent_id (execution_intents st') = map in_intent_id (execution_intents st) \<and>
     (distinct (map in_intent_id (execution_intents st)) \<longrightarrow>
        execution_intents st' = map (\<lambda>x. if in_intent_id x = i then x\<lparr>in_status := s\<rparr> else x) (execution_intents st))"
proof -
  let ?P = "\<lambda>x. in_intent_id x = i" and ?f = "\<lambda>x. x\<lparr>in_status := s\<rparr>"
  have st': "found = fst (update_first ?P ?f (execution_intents st))" "execution_intents st' = snd (update_first ?P ?f (execution_intents st))"
    "es_orderbooks st' = es_orderbooks st" "es_markets st' = es_markets st"
    using assms by (auto simp: update_execution_intent_status_def update_status_def execution_intents_def Let_def split: prod.splits)
  have "map in_intent_id (snd (update_first ?P ?f xs)) = map in_intent_id xs" for xs
    by (induction xs) (auto split: prod.splits)
  then show ?thesis using st' update_status_distinct [of "execution_intents st" i ?f] by (simp add: fst_update_first)
qed

theorem update_intent_status_exact_witness:
  "fst (update_execution_intent_status 3 Confirmed (push_execution_intent
      (intent_from_trade 3 (make_trade 1 ex_taker (ex_rest 2 ''bob'' Sell 101 3) 3 7)) ex_engine)) = True"
proof -
  let ?st = "push_execution_intent (intent_from_trade 3 (make_trade 1 ex_taker (ex_rest 2 ''bob'' Sell 101 3) 3 7)) ex_engine"
  have "\<exists>x \<in> set (execution_intents ?st). in_intent_id x = 3" by code_simp
  moreover obtain found st' where u: "update_execution_intent_status 3 Confirmed ?st = (found, st')" by force
  ultimately show ?thesis using update_intent_status_exact [OF u] by simp
qed

end
