(* ===== verification/Nonce_Store.thy ===== *)
theory Nonce_Store
  imports Types
begin

text \<open>
  The replay protection of signed orders, \<^verbatim>\<open>src/signing/nonce.rs\<close>: the nonces every account has used.
  A \<^verbatim>\<open>HashSet\<close> is a list without duplicates.
\<close>

record nonce_store =
  ns_used :: "(account_id, u64 list) hashmap"

definition new_nonce_store :: nonce_store where
  "new_nonce_store = \<lparr> ns_used = [] \<rparr>"

definition used_nonces :: "nonce_store \<Rightarrow> account_id \<Rightarrow> u64 list" where
  "used_nonces st a = (case hm_get (ns_used st) a of Some s \<Rightarrow> s | None \<Rightarrow> [])"

text \<open>
  \<^verbatim>\<open>entry(account).or_default()\<close> creates the entry before the nonce is tested, so it exists also
  when the nonce is refused.
\<close>

definition reserve :: "account_id \<Rightarrow> u64 \<Rightarrow> nonce_store \<Rightarrow> (backend_error + unit) \<times> nonce_store" where
  "reserve a nonce st =
     (if nonce = 0 then (Err InvalidNonce, st)
      else let s = used_nonces st a;
               st' = st\<lparr>ns_used := hm_insert a (List.insert nonce s) (ns_used st)\<rparr>
           in if nonce \<in> set s then (Err NonceAlreadyUsed, st') else (Ok (), st'))"

text \<open>The search of \<^verbatim>\<open>reserve_next\<close>; \<open>None\<close> would be a search that never ends.\<close>

partial_function (option) search_nonce :: "u64 list \<Rightarrow> u64 \<Rightarrow> (backend_error + u64) option" where
  "search_nonce s nonce =
     (if nonce \<in> set s
      then (if nonce = - 1 then Some (Err InvalidNonce) else search_nonce s (nonce + 1))
      else Some (Ok nonce))"

definition reserve_next :: "account_id \<Rightarrow> nonce_store \<Rightarrow> ((backend_error + u64) \<times> nonce_store) option" where
  "reserve_next a st =
     (let s = used_nonces st a
      in map_option
           (\<lambda>res. case res of
                Err e \<Rightarrow> (Err e, st\<lparr>ns_used := hm_insert a s (ns_used st)\<rparr>)
              | Ok nonce \<Rightarrow> (Ok nonce, st\<lparr>ns_used := hm_insert a (List.insert nonce s) (ns_used st)\<rparr>))
           (search_nonce s 1))"

declare search_nonce.simps [code]


section \<open>The search ends at the first free nonce\<close>

lemma search_nonce_spec:
  assumes "unat n + k = 2 ^ 64 - 1"
  shows "\<exists>r. search_nonce s n = Some r \<and>
     (case r of
        Ok m \<Rightarrow> n \<le> m \<and> m \<notin> set s \<and> (\<forall>j. n \<le> j \<and> j < m \<longrightarrow> j \<in> set s)
      | Err e \<Rightarrow> e = InvalidNonce \<and> (\<forall>j. n \<le> j \<longrightarrow> j \<in> set s))"
  using assms
proof (induction k arbitrary: n)
  case 0
  then have "unat n = unat (- 1 :: u64)" by (simp add: unsigned_minus_1_eq_mask mask_eq_exp_minus_1)
  then have n: "n = - 1" by (rule unsigned_word_eqI)
  have "j = n" if "n \<le> j" for j using that n by (simp add: word_order.extremum_unique)
  then show ?case by (subst search_nonce.simps) (auto simp: n)
next
  case (Suc k)
  have lt: "unat n + 1 < 2 ^ 64" using Suc.prems by simp
  then have u: "unat (n + 1) = unat n + 1" by (simp add: unat_word_ariths)
  have n: "n \<noteq> - 1" using lt by (auto simp: unsigned_minus_1_eq_mask mask_eq_exp_minus_1)
  have step: "n \<le> j \<longleftrightarrow> j = n \<or> n + 1 \<le> j" for j
    using u by (auto simp: word_le_nat_alt) (metis le_antisym not_less_eq_eq unsigned_word_eqI)
  obtain r where r: "search_nonce s (n + 1) = Some r" and
      sp: "case r of
        Ok m \<Rightarrow> n + 1 \<le> m \<and> m \<notin> set s \<and> (\<forall>j. n + 1 \<le> j \<and> j < m \<longrightarrow> j \<in> set s)
      | Err e \<Rightarrow> e = InvalidNonce \<and> (\<forall>j. n + 1 \<le> j \<longrightarrow> j \<in> set s)"
    using Suc.IH [of "n + 1"] Suc.prems u by auto
  show ?case
  proof (cases "n \<in> set s")
    case True
    then have "search_nonce s n = Some r" using n r by (subst search_nonce.simps) simp
    then show ?thesis using sp True by (cases r) (auto simp: step)
  next
    case False
    then have "search_nonce s n = Some (Ok n)" by (subst search_nonce.simps) simp
    then show ?thesis using False by auto
  qed
qed

lemma search_nonce_from_1:
  obtains r where "search_nonce s 1 = Some r"
    "case r of
        Ok m \<Rightarrow> 1 \<le> m \<and> m \<notin> set s \<and> (\<forall>j. 1 \<le> j \<and> j < m \<longrightarrow> j \<in> set s)
      | Err e \<Rightarrow> e = InvalidNonce \<and> (\<forall>j. 1 \<le> j \<longrightarrow> j \<in> set s)"
  using search_nonce_spec [of 1 "2 ^ 64 - 2" s] by auto


section \<open>Properties\<close>

definition ex_nonces :: nonce_store where
  "ex_nonces = \<lparr> ns_used = [(''ann'', [1, 2, 4])] \<rparr>"

text \<open>
  A nonce is accepted exactly when it is not zero and the account has not used it, it counts as
  used from then on, and no other account's nonces change: an order cannot be replayed.
\<close>

theorem reserve_exact:
  "fst (reserve a n st) = (if n = 0 then Err InvalidNonce else if n \<in> set (used_nonces st a) then Err NonceAlreadyUsed else Ok ()) \<and>
   set (used_nonces (snd (reserve a n st)) a') =
     (if a' = a \<and> n \<noteq> 0 then insert n (set (used_nonces st a)) else set (used_nonces st a'))"
  by (auto simp: reserve_def Let_def used_nonces_def split: option.splits)

text \<open>
  C14: \<open>reserve_next\<close> always ends: it takes the smallest nonce above zero the account has not used,
  which is then used, or fails only when every nonce above zero is taken.
\<close>

theorem reserve_next_least:
  "\<exists>res st'. reserve_next a st = Some (res, st') \<and>
     (case res of
        Ok m \<Rightarrow> m \<noteq> 0 \<and> m \<notin> set (used_nonces st a) \<and> (\<forall>j. j \<noteq> 0 \<and> j < m \<longrightarrow> j \<in> set (used_nonces st a)) \<and>
               set (used_nonces st' a) = insert m (set (used_nonces st a))
      | Err e \<Rightarrow> e = InvalidNonce \<and> (\<forall>j. j \<noteq> 0 \<longrightarrow> j \<in> set (used_nonces st a)) \<and>
               set (used_nonces st' a) = set (used_nonces st a)) \<and>
     (\<forall>a'. a' \<noteq> a \<longrightarrow> used_nonces st' a' = used_nonces st a')"
proof -
  have one: "1 \<le> j \<longleftrightarrow> j \<noteq> 0" for j :: u64 by (metis word_gt_0 inc_le linorder_not_le word_less_1)
  obtain r where "search_nonce (used_nonces st a) 1 = Some r"
    "case r of
        Ok m \<Rightarrow> 1 \<le> m \<and> m \<notin> set (used_nonces st a) \<and> (\<forall>j. 1 \<le> j \<and> j < m \<longrightarrow> j \<in> set (used_nonces st a))
      | Err e \<Rightarrow> e = InvalidNonce \<and> (\<forall>j. 1 \<le> j \<longrightarrow> j \<in> set (used_nonces st a))"
    by (rule search_nonce_from_1)
  then show ?thesis unfolding one
    by (cases r) (auto simp: reserve_next_def Let_def used_nonces_def)
qed

theorem reserve_next_least_witness:
  "\<exists>st'. reserve_next ''ann'' ex_nonces = Some (Ok 3, st') \<and> set (used_nonces st' ''ann'') = {1, 2, 3, 4}"
proof -
  have fst: "map_option fst (reserve_next ''ann'' ex_nonces) = Some (Ok 3)" by code_simp
  then obtain st' where st': "reserve_next ''ann'' ex_nonces = Some (Ok 3, st')" by auto
  then have "set (used_nonces st' ''ann'') = insert 3 (set (used_nonces ex_nonces ''ann''))"
    using reserve_next_least [of "''ann''" ex_nonces] by simp
  moreover have "set (used_nonces ex_nonces ''ann'') = {1, 2, 4}" by code_simp
  ultimately show ?thesis using st' by auto
qed

end
