(* ===== verification/Signing.thy ===== *)
theory Signing
  imports Engine
begin

unbundle bit_operations_syntax

text \<open>
  Signed payloads: \<^verbatim>\<open>src/signing/{eip712,signature,nonce}.rs\<close>, \<^verbatim>\<open>src/execution/perp_trade.rs\<close> and the
  payload reconstruction of \<^verbatim>\<open>src/execution/intent.rs\<close>.  A Rust string is its UTF-8 byte sequence, a
  byte array a list of bytes.  The hash function (\<^verbatim>\<open>sha3::Keccak256\<close>), the key recovery
  (\<^verbatim>\<open>k256::ecdsa\<close>) and the text form of a uuid are library code and appear as arguments.
\<close>


section \<open>Bytes and hexadecimal\<close>

type_synonym u8 = "8 word"
type_synonym bytes = "u8 list"

definition as_bytes :: "string \<Rightarrow> bytes" where
  "as_bytes s = map of_char s"

definition strip_prefix :: "string \<Rightarrow> string \<Rightarrow> string option" where
  "strip_prefix p s = (if take (length p) s = p then Some (drop (length p) s) else None)"

definition is_ascii_hexdigit :: "u8 \<Rightarrow> bool" where
  "is_ascii_hexdigit b = (48 \<le> b \<and> b \<le> 57 \<or> 97 \<le> b \<and> b \<le> 102 \<or> 65 \<le> b \<and> b \<le> 70)"

definition decode_hex_nibble :: "u8 \<Rightarrow> u8 option" where
  "decode_hex_nibble b =
     (if 48 \<le> b \<and> b \<le> 57 then Some (b - 48)
      else if 97 \<le> b \<and> b \<le> 102 then Some (b - 97 + 10)
      else if 65 \<le> b \<and> b \<le> 70 then Some (b - 65 + 10)
      else None)"

fun decode_hex_pairs :: "bytes \<Rightarrow> bytes option" where
  "decode_hex_pairs [] = Some []"
| "decode_hex_pairs [_] = None"
| "decode_hex_pairs (h # l # rest) =
     (case decode_hex_nibble h of
        None \<Rightarrow> None
      | Some high \<Rightarrow>
          (case decode_hex_nibble l of
             None \<Rightarrow> None
           | Some low \<Rightarrow> map_option (Cons (push_bit 4 high OR low)) (decode_hex_pairs rest)))"

definition decode_hex_to_slice :: "string \<Rightarrow> nat \<Rightarrow> bytes option" where
  "decode_hex_to_slice hex n = (if length hex \<noteq> n * 2 then None else decode_hex_pairs (as_bytes hex))"

definition hex_digit :: "u8 \<Rightarrow> char" where
  "hex_digit n = ''0123456789abcdef'' ! unat n"

definition hex_0x :: "bytes \<Rightarrow> string" where
  "hex_0x bs = ''0x'' @ concat (map (\<lambda>b. [hex_digit (drop_bit 4 b), hex_digit (b AND 15)]) bs)"

definition parse_evm_address :: "account_id \<Rightarrow> backend_error + bytes" where
  "parse_evm_address v =
     (case strip_prefix ''0x'' v of
        None \<Rightarrow> Err MalformedAccountAddress
      | Some hex \<Rightarrow>
          if length hex \<noteq> 40 \<or> \<not> list_all is_ascii_hexdigit (as_bytes hex)
          then Err MalformedAccountAddress
          else ok_or (decode_hex_to_slice hex 20) MalformedAccountAddress)"


section \<open>Encoding of fields as 32-byte words\<close>

text \<open>The big-endian bytes of a number, most significant first.\<close>

fun be_bytes :: "nat \<Rightarrow> int \<Rightarrow> bytes" where
  "be_bytes 0 v = []"
| "be_bytes (Suc n) v = be_bytes n (v div 256) @ [word_of_int v]"

definition encode_address :: "bytes \<Rightarrow> bytes" where
  "encode_address a = replicate 12 0 @ a"

definition encode_u8 :: "u8 \<Rightarrow> bytes" where
  "encode_u8 v = replicate 31 0 @ [v]"

definition encode_bool :: "bool \<Rightarrow> bytes" where
  "encode_bool v = encode_u8 (if v then 1 else 0)"

definition encode_u64 :: "u64 \<Rightarrow> bytes" where
  "encode_u64 v = replicate 24 0 @ be_bytes 8 (uint v)"

definition encode_u128 :: "u128 \<Rightarrow> bytes" where
  "encode_u128 v = replicate 16 0 @ be_bytes 16 (uint v)"

definition side_value :: "side \<Rightarrow> u8" where
  "side_value s = (case s of Buy \<Rightarrow> 0 | Sell \<Rightarrow> 1)"

definition time_in_force_value :: "time_in_force \<Rightarrow> u8" where
  "time_in_force_value t = (case t of Gtc \<Rightarrow> 0 | Ioc \<Rightarrow> 1 | Fok \<Rightarrow> 2)"


section \<open>The digest of a signed order\<close>

definition EIP712_DOMAIN_TYPE :: string where
  "EIP712_DOMAIN_TYPE = ''EIP712Domain(string name,string version,uint256 chainId,address verifyingContract)''"

definition EIP712_ORDER_TYPE :: string where
  "EIP712_ORDER_TYPE =
     ''DeOptOrder(address account,uint64 marketId,uint8 side,uint128 price1e8,uint128 size1e8,'' @
     ''uint8 timeInForce,bool reduceOnly,bool postOnly,string clientOrderId,uint64 nonce,uint64 deadlineMs)''"

record eip712_domain =
  dom_name :: string
  dom_version :: string
  dom_chain_id :: u64
  dom_verifying_contract :: account_id

definition default_eip712_domain :: eip712_domain where
  "default_eip712_domain =
     \<lparr> dom_name = ''DeOptV2'', dom_version = ''1'', dom_chain_id = 84532,
       dom_verifying_contract = ''0x0000000000000000000000000000000000000000'' \<rparr>"

record signed_order =
  so_account :: account_id
  so_market_id :: market_id
  so_side :: side
  so_price_1e8 :: u128
  so_size_1e8 :: u128
  so_time_in_force :: time_in_force
  so_reduce_only :: bool
  so_post_only :: bool
  so_client_order_id :: "string option"
  so_nonce :: u64
  so_deadline_ms :: timestamp_ms
  so_signature :: string

definition domain_preimage :: "(bytes \<Rightarrow> bytes) \<Rightarrow> string \<Rightarrow> string \<Rightarrow> u64 \<Rightarrow> bytes \<Rightarrow> bytes" where
  "domain_preimage keccak name version chain_id verifying_contract =
     keccak (as_bytes EIP712_DOMAIN_TYPE) @ keccak (as_bytes name) @ keccak (as_bytes version) @
     encode_u64 chain_id @ encode_address verifying_contract"

definition domain_separator :: "(bytes \<Rightarrow> bytes) \<Rightarrow> eip712_domain \<Rightarrow> backend_error + bytes" where
  "domain_separator keccak d =
     and_then (parse_evm_address (dom_verifying_contract d)) (\<lambda>vc.
       Ok (keccak (domain_preimage keccak (dom_name d) (dom_version d) (dom_chain_id d) vc)))"

definition order_preimage :: "(bytes \<Rightarrow> bytes) \<Rightarrow> signed_order \<Rightarrow> bytes \<Rightarrow> u64 \<Rightarrow> bytes" where
  "order_preimage keccak r account deadline_ms =
     keccak (as_bytes EIP712_ORDER_TYPE) @ encode_address account @ encode_u64 (so_market_id r) @
     encode_u8 (side_value (so_side r)) @ encode_u128 (so_price_1e8 r) @ encode_u128 (so_size_1e8 r) @
     encode_u8 (time_in_force_value (so_time_in_force r)) @ encode_bool (so_reduce_only r) @
     encode_bool (so_post_only r) @
     keccak (as_bytes (case so_client_order_id r of Some c \<Rightarrow> c | None \<Rightarrow> [])) @
     encode_u64 (so_nonce r) @ encode_u64 deadline_ms"

text \<open>\<^verbatim>\<open>u64::try_from\<close> of a millisecond timestamp.\<close>

definition u64_try_from :: "i64 \<Rightarrow> u64 option" where
  "u64_try_from x = (if 0 \<le> x then Some (word_of_int x) else None)"

definition order_hash :: "(bytes \<Rightarrow> bytes) \<Rightarrow> signed_order \<Rightarrow> backend_error + bytes" where
  "order_hash keccak r =
     and_then (parse_evm_address (so_account r)) (\<lambda>account.
     and_then (ok_or (u64_try_from (so_deadline_ms r)) DeadlineExpired) (\<lambda>deadline_ms.
       Ok (keccak (order_preimage keccak r account deadline_ms))))"

definition eip712_digest :: "(bytes \<Rightarrow> bytes) \<Rightarrow> signed_order \<Rightarrow> eip712_domain \<Rightarrow> backend_error + bytes" where
  "eip712_digest keccak r d =
     and_then (domain_separator keccak d) (\<lambda>ds.
     and_then (order_hash keccak r) (\<lambda>oh.
       Ok (keccak ([0x19, 0x01] @ ds @ oh))))"


section \<open>Signature verification\<close>

datatype signature_verification_mode = Disabled | Strict

definition validate_signature_shape :: "string \<Rightarrow> backend_error + unit" where
  "validate_signature_shape s =
     (case strip_prefix ''0x'' s of
        None \<Rightarrow> Err MalformedSignature
      | Some hex \<Rightarrow>
          if length hex \<noteq> 130 then Err MalformedSignature
          else if \<not> list_all is_ascii_hexdigit (as_bytes hex) then Err MalformedSignature
          else Ok ())"

record parsed_signature =
  ps_rs :: bytes
  ps_v :: u8

definition parse_signature :: "string \<Rightarrow> backend_error + parsed_signature" where
  "parse_signature s =
     and_then (ok_or (strip_prefix ''0x'' s) MalformedSignature) (\<lambda>hex.
     and_then (ok_or (decode_hex_to_slice hex 65) MalformedSignature) (\<lambda>bs.
       Ok \<lparr> ps_rs = take 64 bs, ps_v = bs ! 64 \<rparr>))"

definition signature_v_to_recovery_id :: "u8 \<Rightarrow> backend_error + u8" where
  "signature_v_to_recovery_id v =
     (if v = 0 \<or> v = 1 then Ok v
      else if v = 27 \<or> v = 28 then Ok (v - 27)
      else Err UnsupportedSignatureV)"

text \<open>
  The elliptic-curve library as two functions: \<open>ec_sig\<close> accepts the 64 bytes of a
  signature or not, \<open>ec_recover\<close> gives the uncompressed public key, a tag byte and 64
  bytes, for a digest, a signature and a recovery id.  A recovery id of 0 or 1 is always one the
  library accepts.
\<close>

definition address_from_verifying_key :: "(bytes \<Rightarrow> bytes) \<Rightarrow> bytes \<Rightarrow> bytes" where
  "address_from_verifying_key keccak public_key = drop 12 (keccak (drop 1 public_key))"

definition recover_signer ::
  "(bytes \<Rightarrow> bytes) \<Rightarrow> (bytes \<Rightarrow> 's option) \<Rightarrow> (bytes \<Rightarrow> 's \<Rightarrow> u8 \<Rightarrow> bytes option) \<Rightarrow> bytes \<Rightarrow> parsed_signature
     \<Rightarrow> backend_error + bytes" where
  "recover_signer keccak ec_sig ec_recover digest s =
     and_then (ok_or (ec_sig (ps_rs s)) MalformedSignature) (\<lambda>k256_signature.
     and_then (signature_v_to_recovery_id (ps_v s)) (\<lambda>recovery_id.
     and_then (ok_or (ec_recover digest k256_signature recovery_id) SignatureRecoveryFailed) (\<lambda>key.
       Ok (address_from_verifying_key keccak key))))"

definition verify_strict ::
  "(bytes \<Rightarrow> bytes) \<Rightarrow> (bytes \<Rightarrow> 's option) \<Rightarrow> (bytes \<Rightarrow> 's \<Rightarrow> u8 \<Rightarrow> bytes option) \<Rightarrow> signed_order \<Rightarrow> eip712_domain
     \<Rightarrow> backend_error + unit" where
  "verify_strict keccak ec_sig ec_recover r d =
     and_then (parse_evm_address (so_account r)) (\<lambda>expected_account.
     and_then (parse_signature (so_signature r)) (\<lambda>s.
     and_then (eip712_digest keccak r d) (\<lambda>digest.
     and_then (recover_signer keccak ec_sig ec_recover digest s) (\<lambda>recovered_account.
       if recovered_account \<noteq> expected_account then Err SignatureSignerMismatch else Ok ()))))"

definition verify ::
  "(bytes \<Rightarrow> bytes) \<Rightarrow> (bytes \<Rightarrow> 's option) \<Rightarrow> (bytes \<Rightarrow> 's \<Rightarrow> u8 \<Rightarrow> bytes option) \<Rightarrow> signed_order
     \<Rightarrow> signature_verification_mode \<Rightarrow> eip712_domain \<Rightarrow> backend_error + unit" where
  "verify keccak ec_sig ec_recover r mode d =
     and_then (validate_signature_shape (so_signature r)) (\<lambda>_.
       case mode of
         Disabled \<Rightarrow> Ok ()
       | Strict \<Rightarrow> verify_strict keccak ec_sig ec_recover r d)"

definition recover_eip712_signer ::
  "(bytes \<Rightarrow> bytes) \<Rightarrow> (bytes \<Rightarrow> 's option) \<Rightarrow> (bytes \<Rightarrow> 's \<Rightarrow> u8 \<Rightarrow> bytes option) \<Rightarrow> bytes \<Rightarrow> string
     \<Rightarrow> backend_error + account_id" where
  "recover_eip712_signer keccak ec_sig ec_recover digest signature =
     and_then (validate_signature_shape signature) (\<lambda>_.
     and_then (parse_signature signature) (\<lambda>s.
     and_then (recover_signer keccak ec_sig ec_recover digest s) (\<lambda>a.
       Ok (hex_0x a))))"


section \<open>Encodings have fixed length and are injective\<close>

lemma length_be_bytes [simp]: "length (be_bytes n v) = n"
  by (induction n arbitrary: v) auto

lemma be_bytes_inj:
  "be_bytes n v = be_bytes n w \<Longrightarrow> 0 \<le> v \<Longrightarrow> v < 256 ^ n \<Longrightarrow> 0 \<le> w \<Longrightarrow> w < 256 ^ n \<Longrightarrow> v = w"
proof (induction n arbitrary: v w)
  case (Suc n)
  have "(word_of_int v :: u8) = word_of_int w" using Suc.prems(1) by simp
  then have "v mod 256 = w mod 256" by (simp add: word_of_int_eq_iff take_bit_eq_mod)
  moreover have "v div 256 = w div 256"
  proof (rule Suc.IH)
    have lt: "a div 256 < p" if "a < 256 * p" for a p :: int using that by linarith
    show "v div 256 < 256 ^ n" "w div 256 < 256 ^ n" by (rule lt; use Suc.prems in simp)+
  qed (use Suc.prems in auto)
  ultimately show ?case by (metis div_mult_mod_eq)
qed auto

lemma length_encode [simp]:
  "length (encode_address a) = 12 + length a" "length (encode_u8 x) = 32" "length (encode_bool y) = 32"
  "length (encode_u64 z) = 32" "length (encode_u128 w) = 32"
  by (simp_all add: encode_address_def encode_u8_def encode_bool_def encode_u64_def encode_u128_def)

lemma encode_inj [simp]:
  "encode_address a = encode_address b \<longleftrightarrow> a = b"
  "encode_u8 x = encode_u8 y \<longleftrightarrow> x = y"
  "encode_bool p = encode_bool q \<longleftrightarrow> p = q"
  by (auto simp: encode_address_def encode_u8_def encode_bool_def split: if_splits)

lemma encode_u64_inj [simp]: "encode_u64 v = encode_u64 w \<longleftrightarrow> v = w"
proof
  assume "encode_u64 v = encode_u64 w"
  then have "be_bytes 8 (uint v) = be_bytes 8 (uint w)" by (simp add: encode_u64_def)
  then have "uint v = uint w" using uint_lt2p [of v] uint_lt2p [of w] by (intro be_bytes_inj) auto
  then show "v = w" by (rule word_uint_eqI)
qed simp

lemma encode_u128_inj [simp]: "encode_u128 v = encode_u128 w \<longleftrightarrow> v = w"
proof
  assume "encode_u128 v = encode_u128 w"
  then have "be_bytes 16 (uint v) = be_bytes 16 (uint w)" by (simp add: encode_u128_def)
  then have "uint v = uint w" using uint_lt2p [of v] uint_lt2p [of w] by (intro be_bytes_inj) auto
  then show "v = w" by (rule word_uint_eqI)
qed simp

lemma side_value_inj [simp]: "side_value s = side_value t \<longleftrightarrow> s = t"
  by (cases s; cases t) (simp_all add: side_value_def)

lemma time_in_force_value_inj [simp]: "time_in_force_value s = time_in_force_value t \<longleftrightarrow> s = t"
  by (cases s; cases t) (simp_all add: time_in_force_value_def)

lemma as_bytes_inj [simp]: "as_bytes s = as_bytes t \<longleftrightarrow> s = t"
proof -
  have "x = y" if eq: "(of_char x :: u8) = of_char y" for x y :: char
  proof -
    have "unat (of_nat (of_char c :: nat) :: u8) = (of_char c :: nat)" for c :: char
      unfolding unat_of_nat by simp
    then have "(of_char x :: nat) = of_char y" using eq by (metis of_nat_of_char)
    then show ?thesis by (metis char_of_char)
  qed
  then have "inj (of_char :: char \<Rightarrow> u8)" by (rule injI)
  then show ?thesis by (simp add: as_bytes_def inj_map_eq_map)
qed


section \<open>Hexadecimal round trip\<close>

lemma nibble_cases:
  assumes "(n :: u8) < 16"
  shows "n \<in> set [0, 1, 2, 3, 4, 5, 6, 7, 8, 9, 10, 11, 12, 13, 14, 15]"
proof -
  have "unat n \<in> set [0..<16]" using assms by (simp add: word_less_nat_alt)
  then have "n \<in> set (map of_nat [0..<16])" using image_eqI [of n of_nat "unat n" "set [0..<16]"] by simp
  moreover have "map of_nat [0..<16] = [0 :: u8, 1, 2, 3, 4, 5, 6, 7, 8, 9, 10, 11, 12, 13, 14, 15]" by code_simp
  ultimately show ?thesis by (simp only:)
qed

lemma decode_hex_digit:
  assumes "n < 16"
  shows "decode_hex_nibble (of_char (hex_digit n)) = Some n" "is_ascii_hexdigit (of_char (hex_digit n))"
proof -
  have "\<forall>n \<in> set [0, 1, 2, 3, 4, 5, 6, 7, 8, 9, 10, 11, 12, 13, 14, 15].
      decode_hex_nibble (of_char (hex_digit n)) = Some n \<and> is_ascii_hexdigit (of_char (hex_digit n))"
    by code_simp
  then show "decode_hex_nibble (of_char (hex_digit n)) = Some n" "is_ascii_hexdigit (of_char (hex_digit n))"
    using nibble_cases [OF assms] by blast+
qed

lemma nibbles_of_byte: "drop_bit 4 (b :: u8) < 16" "b AND 15 < 16" "push_bit 4 (drop_bit 4 b) OR (b AND 15) = b"
proof -
  show "drop_bit 4 b < 16"
  proof -
    have "unat b < 256" using unsigned_less [of b] by simp
    then have "unat b div 16 < 16" by linarith
    then show ?thesis by (simp add: word_less_nat_alt drop_bit_eq_div unat_div)
  qed
  have mask: "(15 :: u8) = mask 4" by (simp add: mask_eq_exp_minus_1)
  show "b AND 15 < 16"
  proof -
    have "b AND 15 = b mod 2 ^ 4" unfolding mask by (simp add: take_bit_eq_mask [symmetric] take_bit_eq_mod)
    also have "\<dots> < 2 ^ 4" by (rule word_mod_less_divisor) simp
    finally show ?thesis by simp
  qed
  show "push_bit 4 (drop_bit 4 b) OR (b AND 15) = b"
    unfolding mask by (rule bit_word_eqI) (auto simp: bit_or_iff bit_and_iff bit_push_bit_iff bit_drop_bit_eq bit_mask_iff)
qed

lemma decode_hex_encoded:
  "decode_hex_pairs (as_bytes (concat (map (\<lambda>b. [hex_digit (drop_bit 4 b), hex_digit (b AND 15)]) bs))) = Some bs"
  "list_all is_ascii_hexdigit (as_bytes (concat (map (\<lambda>b. [hex_digit (drop_bit 4 b), hex_digit (b AND 15)]) bs)))"
  "length (concat (map (\<lambda>b. [hex_digit (drop_bit 4 b), hex_digit (b AND 15)]) bs)) = 2 * length bs"
  by (induction bs) (auto simp: as_bytes_def decode_hex_digit nibbles_of_byte)

lemma parse_hex_address: "length a = 20 \<Longrightarrow> parse_evm_address (hex_0x a) = Ok a"
  using decode_hex_encoded [of a]
  by (simp add: parse_evm_address_def hex_0x_def strip_prefix_def decode_hex_to_slice_def)

lemma length_decode_hex: "decode_hex_pairs xs = Some bs \<Longrightarrow> length xs = 2 * length bs"
  by (induction xs arbitrary: bs rule: decode_hex_pairs.induct) (auto split: option.splits)

lemma parse_evm_address_length: "parse_evm_address v = Ok a \<Longrightarrow> length a = 20"
  by (auto simp: parse_evm_address_def decode_hex_to_slice_def ok_or_Ok_iff as_bytes_def
      split: option.splits if_splits dest: length_decode_hex)


section \<open>Hash inputs\<close>

definition collision_free :: "(bytes \<Rightarrow> bytes) \<Rightarrow> bytes list \<Rightarrow> bool" where
  "collision_free keccak xs = (\<forall>x \<in> set xs. \<forall>y \<in> set xs. keccak x = keccak y \<longrightarrow> x = y)"

lemma collision_free_code [code]:
  "collision_free keccak xs =
     (let hs = map (\<lambda>x. (keccak x, x)) xs
      in list_all (\<lambda>p. list_all (\<lambda>q. fst p = fst q \<longrightarrow> snd p = snd q) hs) hs)"
  by (simp add: collision_free_def Let_def list_all_iff)

lemma collision_freeD: "collision_free keccak xs \<Longrightarrow> keccak x = keccak y \<Longrightarrow> x \<in> set xs \<Longrightarrow> y \<in> set xs \<Longrightarrow> x = y"
  by (simp add: collision_free_def)

definition client_id_bytes :: "signed_order \<Rightarrow> bytes" where
  "client_id_bytes r = as_bytes (case so_client_order_id r of Some c \<Rightarrow> c | None \<Rightarrow> [])"

text \<open>Everything hashed on the way to the digest of an order.\<close>

definition order_hash_inputs :: "(bytes \<Rightarrow> bytes) \<Rightarrow> signed_order \<Rightarrow> eip712_domain \<Rightarrow> bytes list" where
  "order_hash_inputs keccak r d =
     (case (parse_evm_address (dom_verifying_contract d), parse_evm_address (so_account r), u64_try_from (so_deadline_ms r)) of
        (Ok vc, Ok a, Some dl) \<Rightarrow>
          let dp = domain_preimage keccak (dom_name d) (dom_version d) (dom_chain_id d) vc;
              op = order_preimage keccak r a dl
          in [as_bytes (dom_name d), as_bytes (dom_version d), client_id_bytes r, dp, op, [0x19, 0x01] @ keccak dp @ keccak op]
      | _ \<Rightarrow> [])"

lemma domain_preimage_inj:
  assumes "\<And>x. length (keccak x) = 32" "length vc = 20" "length vc' = 20"
    and "domain_preimage keccak n v c vc = domain_preimage keccak n' v' c' vc'"
  shows "keccak (as_bytes n) = keccak (as_bytes n') \<and> keccak (as_bytes v) = keccak (as_bytes v') \<and> c = c' \<and> vc = vc'"
  using assms(4) by (simp add: domain_preimage_def assms(1-3))

lemma order_preimage_inj:
  assumes "\<And>x. length (keccak x) = 32" "length a = 20" "length a' = 20"
    and "order_preimage keccak r a dl = order_preimage keccak r' a' dl'"
  shows "a = a' \<and> so_market_id r = so_market_id r' \<and> so_side r = so_side r' \<and> so_price_1e8 r = so_price_1e8 r' \<and>
    so_size_1e8 r = so_size_1e8 r' \<and> so_time_in_force r = so_time_in_force r' \<and> so_reduce_only r = so_reduce_only r' \<and>
    so_post_only r = so_post_only r' \<and> keccak (client_id_bytes r) = keccak (client_id_bytes r') \<and>
    so_nonce r = so_nonce r' \<and> dl = dl'"
  using assms(4) by (simp add: order_preimage_def client_id_bytes_def assms(1-3))

lemma eip712_digest_Ok:
  assumes "eip712_digest keccak r d = Ok h"
  obtains vc a dl where "parse_evm_address (dom_verifying_contract d) = Ok vc" "parse_evm_address (so_account r) = Ok a"
    "u64_try_from (so_deadline_ms r) = Some dl"
    "h = keccak ([0x19, 0x01] @ keccak (domain_preimage keccak (dom_name d) (dom_version d) (dom_chain_id d) vc) @
                 keccak (order_preimage keccak r a dl))"
  using assms by (auto simp: eip712_digest_def domain_separator_def order_hash_def and_then_Ok_iff ok_or_Ok_iff)

text \<open>The fields two signed orders agree on.\<close>

definition same_order :: "signed_order \<Rightarrow> signed_order \<Rightarrow> bool" where
  "same_order r r' =
     (parse_evm_address (so_account r) = parse_evm_address (so_account r') \<and>
      so_market_id r = so_market_id r' \<and> so_side r = so_side r' \<and> so_price_1e8 r = so_price_1e8 r' \<and>
      so_size_1e8 r = so_size_1e8 r' \<and> so_time_in_force r = so_time_in_force r' \<and>
      so_reduce_only r = so_reduce_only r' \<and> so_post_only r = so_post_only r' \<and>
      client_id_bytes r = client_id_bytes r' \<and> so_nonce r = so_nonce r' \<and>
      u64_try_from (so_deadline_ms r) = u64_try_from (so_deadline_ms r'))"

definition same_domain :: "eip712_domain \<Rightarrow> eip712_domain \<Rightarrow> bool" where
  "same_domain d d' =
     (dom_name d = dom_name d' \<and> dom_version d = dom_version d' \<and> dom_chain_id d = dom_chain_id d' \<and>
      parse_evm_address (dom_verifying_contract d) = parse_evm_address (dom_verifying_contract d'))"

lemma digest_determines_order:
  assumes len: "\<And>x. length (keccak x) = 32"
    and h: "eip712_digest keccak r d = Ok h" "eip712_digest keccak r' d' = Ok h"
    and cf: "collision_free keccak (order_hash_inputs keccak r d @ order_hash_inputs keccak r' d')"
  shows "same_order r r' \<and> same_domain d d'"
proof -
  obtain vc a dl where r: "parse_evm_address (dom_verifying_contract d) = Ok vc" "parse_evm_address (so_account r) = Ok a"
    "u64_try_from (so_deadline_ms r) = Some dl" and
    hr: "h = keccak ([0x19, 0x01] @ keccak (domain_preimage keccak (dom_name d) (dom_version d) (dom_chain_id d) vc) @
                 keccak (order_preimage keccak r a dl))" by (rule eip712_digest_Ok [OF h(1)])
  obtain vc' a' dl' where r': "parse_evm_address (dom_verifying_contract d') = Ok vc'" "parse_evm_address (so_account r') = Ok a'"
    "u64_try_from (so_deadline_ms r') = Some dl'" and
    hr': "h = keccak ([0x19, 0x01] @ keccak (domain_preimage keccak (dom_name d') (dom_version d') (dom_chain_id d') vc') @
                 keccak (order_preimage keccak r' a' dl'))" by (rule eip712_digest_Ok [OF h(2)])
  let ?dp = "domain_preimage keccak (dom_name d) (dom_version d) (dom_chain_id d) vc"
  let ?dp' = "domain_preimage keccak (dom_name d') (dom_version d') (dom_chain_id d') vc'"
  let ?op = "order_preimage keccak r a dl" and ?op' = "order_preimage keccak r' a' dl'"
  note lens = parse_evm_address_length [OF r(1)] parse_evm_address_length [OF r'(1)]
    parse_evm_address_length [OF r(2)] parse_evm_address_length [OF r'(2)]
  have inputs: "order_hash_inputs keccak r d = [as_bytes (dom_name d), as_bytes (dom_version d), client_id_bytes r, ?dp, ?op, [0x19, 0x01] @ keccak ?dp @ keccak ?op]"
    "order_hash_inputs keccak r' d' = [as_bytes (dom_name d'), as_bytes (dom_version d'), client_id_bytes r', ?dp', ?op', [0x19, 0x01] @ keccak ?dp' @ keccak ?op']"
    by (simp_all add: order_hash_inputs_def r r' Let_def)
  note inj = collision_freeD [OF cf [unfolded inputs]]
  have "[0x19, 0x01] @ keccak ?dp @ keccak ?op = [0x19, 0x01] @ keccak ?dp' @ keccak ?op'"
    by (rule inj) (use hr hr' in auto)
  then have "keccak ?dp = keccak ?dp'" "keccak ?op = keccak ?op'" by (simp_all add: len)
  then have "?dp = ?dp'" "?op = ?op'" using inj [of ?dp ?dp'] inj [of ?op ?op'] by simp_all
  then have dom: "keccak (as_bytes (dom_name d)) = keccak (as_bytes (dom_name d'))"
      "keccak (as_bytes (dom_version d)) = keccak (as_bytes (dom_version d'))" "dom_chain_id d = dom_chain_id d'" "vc = vc'"
    and ord: "a = a'" "so_market_id r = so_market_id r'" "so_side r = so_side r'" "so_price_1e8 r = so_price_1e8 r'"
      "so_size_1e8 r = so_size_1e8 r'" "so_time_in_force r = so_time_in_force r'" "so_reduce_only r = so_reduce_only r'"
      "so_post_only r = so_post_only r'" "keccak (client_id_bytes r) = keccak (client_id_bytes r')" "so_nonce r = so_nonce r'" "dl = dl'"
    using domain_preimage_inj [where keccak = keccak, OF len lens(1,2)]
      order_preimage_inj [where keccak = keccak, OF len lens(3,4)] by blast+
  have "as_bytes (dom_name d) = as_bytes (dom_name d')" "as_bytes (dom_version d) = as_bytes (dom_version d')"
    "client_id_bytes r = client_id_bytes r'"
    by (rule inj; use dom(1,2) ord(9) in simp)+
  then show ?thesis using dom ord r r' by (simp add: same_order_def same_domain_def)
qed


section \<open>Properties\<close>

text \<open>A small hash function for the examples: 31 bytes of the input and its length.\<close>

definition ex_hash :: "nat \<Rightarrow> bytes \<Rightarrow> bytes" where
  "ex_hash k bs =
     (let n = length bs
      in take 31 (drop (if 150 < n then k else if 60 < n then 35 else 0) bs @ replicate 31 0) @ [of_nat n])"

lemma length_ex_hash: "length (ex_hash k x) = 32"
  by (auto simp: ex_hash_def Let_def)

definition ex_signed :: "u128 \<Rightarrow> signed_order" where
  "ex_signed price =
     \<lparr> so_account = ''0x00000000000000000000000000000000000000Aa'', so_market_id = 1, so_side = Buy,
       so_price_1e8 = price, so_size_1e8 = 5, so_time_in_force = Gtc, so_reduce_only = False,
       so_post_only = False, so_client_order_id = None, so_nonce = 3, so_deadline_ms = 1000,
       so_signature = hex_0x (replicate 64 1 @ [27]) \<rparr>"

lemma ex_addresses:
  "parse_evm_address (so_account (ex_signed p)) = Ok (replicate 19 0 @ [0xAA])"
  "parse_evm_address (dom_verifying_contract default_eip712_domain) = Ok (replicate 20 0)"
proof -
  have "parse_evm_address ''0x00000000000000000000000000000000000000Aa'' = Ok (replicate 19 0 @ [0xAA])" by code_simp
  then show "parse_evm_address (so_account (ex_signed p)) = Ok (replicate 19 0 @ [0xAA])" by (simp add: ex_signed_def)
qed code_simp

text \<open>
  C12: The digest a trader signs binds the order and the domain.  Two orders with the same digest,
  under a hash of 32 bytes that does not collide on what is hashed for them, agree in every
  field (accounts as addresses, a missing client id as an empty one) and in the domain.
\<close>

theorem order_digest_binds:
  assumes "\<And>x. length (keccak x) = 32"
    and "eip712_digest keccak r d = Ok h" "eip712_digest keccak r' d' = Ok h"
    and "collision_free keccak (order_hash_inputs keccak r d @ order_hash_inputs keccak r' d')"
  shows "same_order r r' \<and> same_domain d d'"
  by (rule digest_determines_order [OF assms])

theorem order_digest_binds_witness:
  "\<exists>h h'. eip712_digest (ex_hash 129) (ex_signed 7) default_eip712_domain = Ok h \<and>
          eip712_digest (ex_hash 129) (ex_signed 8) default_eip712_domain = Ok h' \<and> h \<noteq> h'"
proof -
  let ?d = "default_eip712_domain"
  have "so_deadline_ms (ex_signed p) = 1000" for p by (simp add: ex_signed_def)
  then have ok: "is_ok (eip712_digest (ex_hash 129) (ex_signed p) ?d)" for p
    using ex_addresses by (simp add: eip712_digest_def domain_separator_def order_hash_def u64_try_from_def)
  have cf: "collision_free (ex_hash 129) (order_hash_inputs (ex_hash 129) (ex_signed 7) ?d @ order_hash_inputs (ex_hash 129) (ex_signed 8) ?d)" by code_simp
  obtain h h' where h: "eip712_digest (ex_hash 129) (ex_signed 7) ?d = Ok h" "eip712_digest (ex_hash 129) (ex_signed 8) ?d = Ok h'"
    using ok [of 7] ok [of 8] by (auto elim!: is_okE)
  have "h \<noteq> h'"
  proof
    assume "h = h'"
    then have "same_order (ex_signed 7) (ex_signed 8)"
      using order_digest_binds [OF length_ex_hash h(1) _ cf] h(2) by simp
    then show False by (simp add: same_order_def ex_signed_def)
  qed
  then show ?thesis using h by blast
qed

text \<open>
  Printing a 20-byte address in hexadecimal and parsing it gives the address back, and every
  address that parses has 20 bytes.
\<close>

theorem address_hex_round_trip:
  "(length a = 20 \<longrightarrow> parse_evm_address (hex_0x a) = Ok a) \<and> (parse_evm_address v = Ok a' \<longrightarrow> length a' = 20)"
  using parse_hex_address parse_evm_address_length by blast

theorem address_hex_round_trip_witness:
  "parse_evm_address (hex_0x (replicate 19 0 @ [0xAB])) = Ok (replicate 19 0 @ [0xAB])"
  using address_hex_round_trip [of "replicate 19 0 @ [0xAB]"] by simp

text \<open>
  C11: Strict verification accepts an order only if its signature is well formed and the key
  recovered from the order's own digest has the address of the order's account.
\<close>

theorem verify_strict_sound:
  assumes "verify keccak ec_sig ec_recover r Strict d = Ok ()"
  shows "\<exists>s digest sig v key a. parse_signature (so_signature r) = Ok s \<and> eip712_digest keccak r d = Ok digest \<and>
     ec_sig (ps_rs s) = Some sig \<and> signature_v_to_recovery_id (ps_v s) = Ok v \<and> v \<in> {0, 1} \<and>
     ec_recover digest sig v = Some key \<and> parse_evm_address (so_account r) = Ok a \<and>
     address_from_verifying_key keccak key = a"
proof -
  have v: "v \<in> {0, 1}" if "signature_v_to_recovery_id x = Ok v" for x v
    using that by (auto simp: signature_v_to_recovery_id_def split: if_splits)
  have "verify_strict keccak ec_sig ec_recover r d = Ok ()"
    using assms by (auto simp: verify_def and_then_Ok_iff)
  then obtain a s digest b where *: "parse_evm_address (so_account r) = Ok a" "parse_signature (so_signature r) = Ok s"
    "eip712_digest keccak r d = Ok digest" "recover_signer keccak ec_sig ec_recover digest s = Ok b" "b = a"
    by (auto simp: verify_strict_def and_then_Ok_iff split: if_splits)
  obtain sig w key where "ec_sig (ps_rs s) = Some sig" "signature_v_to_recovery_id (ps_v s) = Ok w"
    "ec_recover digest sig w = Some key" "b = address_from_verifying_key keccak key"
    using *(4) by (auto simp: recover_signer_def and_then_Ok_iff ok_or_Ok_iff)
  then show ?thesis using * v by blast
qed

theorem verify_strict_sound_witness:
  "\<exists>s digest key. parse_signature (so_signature (ex_signed 7)) = Ok s \<and>
     eip712_digest (\<lambda>_. replicate 31 0 @ [0xAA]) (ex_signed 7) default_eip712_domain = Ok digest \<and>
     address_from_verifying_key (\<lambda>_. replicate 31 0 @ [0xAA]) key = replicate 19 0 @ [0xAA]"
proof -
  let ?k = "\<lambda>_ :: bytes. replicate 31 (0 :: u8) @ [0xAA]" and ?d = "default_eip712_domain"
  have "verify ?k Some (\<lambda>_ s _. Some (4 # s)) (ex_signed 7) Strict ?d = Ok ()" by code_simp
  then obtain s digest key a where "parse_signature (so_signature (ex_signed 7)) = Ok s"
      "eip712_digest ?k (ex_signed 7) ?d = Ok digest" "parse_evm_address (so_account (ex_signed 7)) = Ok a"
      "address_from_verifying_key ?k key = a"
    using verify_strict_sound [of ?k Some "\<lambda>_ s _. Some (4 # s)" "ex_signed 7" ?d] by blast
  then show ?thesis using ex_addresses(1) by auto
qed

end
