(* ===== verification/Perp_Trade.thy ===== *)
theory Perp_Trade
  imports Signing
begin

text \<open>
  The perp trade two traders co-sign: \<^verbatim>\<open>src/execution/perp_trade.rs\<close>, with the reconstruction of the
  payload from a stored intent in \<^verbatim>\<open>src/execution/intent.rs\<close>.
\<close>


section \<open>Payload\<close>

record perp_trade_payload =
  pt_intent_id :: bytes
  pt_buyer :: account_id
  pt_seller :: account_id
  pt_market_id :: u128
  pt_size_delta_1e8 :: u128
  pt_execution_price_1e8 :: u128
  pt_max_execution_price_1e8 :: u128
  pt_min_execution_price_1e8 :: u128
  pt_buyer_is_maker :: bool
  pt_buyer_nonce :: u128
  pt_seller_nonce :: u128
  pt_deadline :: u128

definition b256_zero :: bytes where
  "b256_zero = replicate 32 0"

definition validate_payload :: "perp_trade_payload \<Rightarrow> backend_error + unit" where
  "validate_payload p =
     (if pt_intent_id p = b256_zero then Err InvalidPerpTradeIntentId
      else and_then (parse_evm_address (pt_buyer p)) (\<lambda>_.
           and_then (parse_evm_address (pt_seller p)) (\<lambda>_.
             if pt_size_delta_1e8 p = 0 then Err ZeroSize
             else if pt_execution_price_1e8 p = 0 then Err ZeroPrice
             else if pt_max_execution_price_1e8 p \<noteq> 0 \<and> pt_execution_price_1e8 p > pt_max_execution_price_1e8 p
             then Err PerpsUserBoundAboveLimit
             else if pt_min_execution_price_1e8 p \<noteq> 0 \<and> pt_execution_price_1e8 p < pt_min_execution_price_1e8 p
             then Err PerpsUserBoundBelowLimit
             else Ok ())))"

definition new_payload :: "perp_trade_payload \<Rightarrow> backend_error + perp_trade_payload" where
  "new_payload p = and_then (validate_payload p) (\<lambda>_. Ok p)"

definition intent_id_to_b256 :: "(bytes \<Rightarrow> bytes) \<Rightarrow> string \<Rightarrow> backend_error + bytes" where
  "intent_id_to_b256 keccak intent_id =
     (let mapped = keccak (as_bytes intent_id)
      in if mapped = b256_zero then Err InvalidPerpTradeIntentId else Ok mapped)"

definition intent_id_to_hex_bytes32 :: "(bytes \<Rightarrow> bytes) \<Rightarrow> string \<Rightarrow> backend_error + string" where
  "intent_id_to_hex_bytes32 keccak intent_id = and_then (intent_id_to_b256 keccak intent_id) (\<lambda>b. Ok (hex_0x b))"


section \<open>Reconstruction from an intent\<close>

definition validate_version_invariants :: "execution_intent \<Rightarrow> backend_error + unit" where
  "validate_version_invariants x =
     (if in_protocol_version x = V1 \<and> (in_max_execution_price_1e8 x \<noteq> 0 \<or> in_min_execution_price_1e8 x \<noteq> 0)
      then Err Config else Ok ())"

definition perp_trade_payload_of ::
  "(bytes \<Rightarrow> bytes) \<Rightarrow> (uuid \<Rightarrow> string) \<Rightarrow> execution_intent \<Rightarrow> backend_error + perp_trade_payload" where
  "perp_trade_payload_of keccak uuid_to_string x =
     and_then (validate_version_invariants x) (\<lambda>_.
     and_then (ok_or (in_buyer_is_maker x) (MissingExecutionMetadata ''buyer_is_maker'')) (\<lambda>buyer_is_maker.
     and_then (ok_or (in_buyer_nonce x) (MissingExecutionMetadata ''buyer_nonce'')) (\<lambda>buyer_nonce.
     and_then (ok_or (in_seller_nonce x) (MissingExecutionMetadata ''seller_nonce'')) (\<lambda>seller_nonce.
     and_then (ok_or (in_deadline_ms x) (MissingExecutionMetadata ''deadline'')) (\<lambda>deadline_ms.
       if deadline_ms mod 1000 \<noteq> 0
       then Err (MissingExecutionMetadata ''deadline_ms is not a whole-second multiple; cannot reconstruct deployed V1 PerpTrade.deadline unambiguously'')
       else if deadline_ms < 0 then Err (MissingExecutionMetadata ''deadline'')
       else
         and_then (intent_id_to_b256 keccak (uuid_to_string (in_intent_id x))) (\<lambda>intent_id.
         new_payload
           \<lparr> pt_intent_id = intent_id,
             pt_buyer = in_buyer x,
             pt_seller = in_seller x,
             pt_market_id = ucast (in_market_id x),
             pt_size_delta_1e8 = in_size_1e8 x,
             pt_execution_price_1e8 = in_price_1e8 x,
             pt_max_execution_price_1e8 = in_max_execution_price_1e8 x,
             pt_min_execution_price_1e8 = in_min_execution_price_1e8 x,
             pt_buyer_is_maker = buyer_is_maker,
             pt_buyer_nonce = ucast buyer_nonce,
             pt_seller_nonce = ucast seller_nonce,
             pt_deadline = word_of_int (deadline_ms div 1000) \<rparr>))))))"


section \<open>Signatures of the two traders\<close>

definition decode_signature :: "string \<Rightarrow> backend_error + bytes" where
  "decode_signature s =
     (case strip_prefix ''0x'' s of
        None \<Rightarrow> Err MalformedSignature
      | Some hex \<Rightarrow>
          if length hex \<noteq> 130 \<or> \<not> list_all is_ascii_hexdigit (as_bytes hex) then Err MalformedSignature
          else ok_or (decode_hex_to_slice hex 65) MalformedSignature)"

definition validate_signature_hex :: "string \<Rightarrow> backend_error + unit" where
  "validate_signature_hex s = and_then (decode_signature s) (\<lambda>_. Ok ())"

record signature_bundle =
  sb_buyer_sig :: bytes
  sb_seller_sig :: bytes

definition new_signature_bundle :: "string \<Rightarrow> string \<Rightarrow> backend_error + signature_bundle" where
  "new_signature_bundle buyer_sig seller_sig =
     and_then (decode_signature buyer_sig) (\<lambda>b.
     and_then (decode_signature seller_sig) (\<lambda>s.
       Ok \<lparr> sb_buyer_sig = b, sb_seller_sig = s \<rparr>))"

record stored_trade_signatures =
  ts_buyer_sig :: "string option"
  ts_seller_sig :: "string option"

text \<open>
  The two halves of an update are applied one after the other: a malformed seller signature is
  reported after the buyer signature has been stored.
\<close>

definition upsert ::
  "string option \<Rightarrow> string option \<Rightarrow> stored_trade_signatures \<Rightarrow> (backend_error + unit) \<times> stored_trade_signatures" where
  "upsert buyer_sig seller_sig st =
     (let (res1, st1) =
        (case buyer_sig of
           None \<Rightarrow> (Ok (), st)
         | Some s \<Rightarrow> (case validate_signature_hex s of
                       Err e \<Rightarrow> (Err e, st)
                     | Ok _ \<Rightarrow> (Ok (), st\<lparr>ts_buyer_sig := Some s\<rparr>)))
      in case res1 of
           Err e \<Rightarrow> (Err e, st1)
         | Ok _ \<Rightarrow>
             (case seller_sig of
                None \<Rightarrow> (Ok (), st1)
              | Some s \<Rightarrow> (case validate_signature_hex s of
                            Err e \<Rightarrow> (Err e, st1)
                          | Ok _ \<Rightarrow> (Ok (), st1\<lparr>ts_seller_sig := Some s\<rparr>))))"

definition calldata_ready :: "stored_trade_signatures \<Rightarrow> bool" where
  "calldata_ready st = (ts_buyer_sig st \<noteq> None \<and> ts_seller_sig st \<noteq> None)"

definition signature_bundle_of :: "stored_trade_signatures \<Rightarrow> backend_error + signature_bundle option" where
  "signature_bundle_of st =
     (case ts_buyer_sig st of
        None \<Rightarrow> Ok None
      | Some b \<Rightarrow>
          (case ts_seller_sig st of
             None \<Rightarrow> Ok None
           | Some s \<Rightarrow> and_then (new_signature_bundle b s) (\<lambda>x. Ok (Some x))))"


section \<open>Protocol versions and digests\<close>

definition as_persisted_str :: "perps_protocol_version \<Rightarrow> string" where
  "as_persisted_str v = (case v of V1 \<Rightarrow> ''perp_v1'' | V2 \<Rightarrow> ''perp_v2'')"

definition domain_version_str :: "perps_protocol_version \<Rightarrow> string" where
  "domain_version_str v = (case v of V1 \<Rightarrow> ''1'' | V2 \<Rightarrow> ''2'')"

definition parse_version :: "string \<Rightarrow> backend_error + perps_protocol_version" where
  "parse_version raw =
     (let s = to_lowercase (trim raw)
      in if s = ''perp_v1'' \<or> s = ''v1'' \<or> s = ''1'' then Ok V1
         else if s = ''perp_v2'' \<or> s = ''v2'' \<or> s = ''2'' then Ok V2
         else Err Config)"

record perp_trade_domain =
  ptd_name :: string
  ptd_version :: string
  ptd_chain_id :: u64
  ptd_verifying_contract :: account_id

definition new_v1 :: "u64 \<Rightarrow> account_id \<Rightarrow> perp_trade_domain" where
  "new_v1 chain_id vc =
     \<lparr> ptd_name = ''DeOptV2-PerpMatchingEngine'', ptd_version = ''1'', ptd_chain_id = chain_id, ptd_verifying_contract = vc \<rparr>"

definition new_v2 :: "u64 \<Rightarrow> account_id \<Rightarrow> perp_trade_domain" where
  "new_v2 chain_id vc =
     \<lparr> ptd_name = ''DeOptV2-PerpMatchingEngine'', ptd_version = ''2'', ptd_chain_id = chain_id, ptd_verifying_contract = vc \<rparr>"

definition for_version :: "perps_protocol_version \<Rightarrow> u64 \<Rightarrow> account_id \<Rightarrow> perp_trade_domain" where
  "for_version v chain_id vc = (case v of V1 \<Rightarrow> new_v1 chain_id vc | V2 \<Rightarrow> new_v2 chain_id vc)"

definition PERP_TRADE_TYPE :: string where
  "PERP_TRADE_TYPE =
     ''PerpTrade(bytes32 intentId,address buyer,address seller,uint256 marketId,uint128 sizeDelta1e8,'' @
     ''uint128 executionPrice1e8,uint128 maxExecutionPrice1e8,uint128 minExecutionPrice1e8,'' @
     ''bool buyerIsMaker,uint256 buyerNonce,uint256 sellerNonce,uint256 deadline)''"

definition PERP_TRADE_V1_TYPE :: string where
  "PERP_TRADE_V1_TYPE =
     ''PerpTrade(bytes32 intentId,address buyer,address seller,uint256 marketId,uint128 sizeDelta1e8,'' @
     ''uint128 executionPrice1e8,bool buyerIsMaker,uint256 buyerNonce,uint256 sellerNonce,uint256 deadline)''"

definition trade_domain_separator :: "(bytes \<Rightarrow> bytes) \<Rightarrow> perp_trade_domain \<Rightarrow> backend_error + bytes" where
  "trade_domain_separator keccak d =
     and_then (parse_evm_address (ptd_verifying_contract d)) (\<lambda>vc.
       Ok (keccak (domain_preimage keccak (ptd_name d) (ptd_version d) (ptd_chain_id d) vc)))"

definition trade_preimage :: "(bytes \<Rightarrow> bytes) \<Rightarrow> perp_trade_payload \<Rightarrow> bytes \<Rightarrow> bytes \<Rightarrow> bytes" where
  "trade_preimage keccak p buyer seller =
     keccak (as_bytes PERP_TRADE_TYPE) @ pt_intent_id p @ encode_address buyer @ encode_address seller @
     encode_u128 (pt_market_id p) @ encode_u128 (pt_size_delta_1e8 p) @ encode_u128 (pt_execution_price_1e8 p) @
     encode_u128 (pt_max_execution_price_1e8 p) @ encode_u128 (pt_min_execution_price_1e8 p) @
     encode_bool (pt_buyer_is_maker p) @ encode_u128 (pt_buyer_nonce p) @ encode_u128 (pt_seller_nonce p) @
     encode_u128 (pt_deadline p)"

definition trade_v1_preimage :: "(bytes \<Rightarrow> bytes) \<Rightarrow> perp_trade_payload \<Rightarrow> bytes \<Rightarrow> bytes \<Rightarrow> bytes" where
  "trade_v1_preimage keccak p buyer seller =
     keccak (as_bytes PERP_TRADE_V1_TYPE) @ pt_intent_id p @ encode_address buyer @ encode_address seller @
     encode_u128 (pt_market_id p) @ encode_u128 (pt_size_delta_1e8 p) @ encode_u128 (pt_execution_price_1e8 p) @
     encode_bool (pt_buyer_is_maker p) @ encode_u128 (pt_buyer_nonce p) @ encode_u128 (pt_seller_nonce p) @
     encode_u128 (pt_deadline p)"

definition perp_trade_hash :: "(bytes \<Rightarrow> bytes) \<Rightarrow> perp_trade_payload \<Rightarrow> backend_error + bytes" where
  "perp_trade_hash keccak p =
     and_then (validate_payload p) (\<lambda>_.
     and_then (parse_evm_address (pt_buyer p)) (\<lambda>buyer.
     and_then (parse_evm_address (pt_seller p)) (\<lambda>seller.
       Ok (keccak (trade_preimage keccak p buyer seller)))))"

definition perp_trade_v1_hash :: "(bytes \<Rightarrow> bytes) \<Rightarrow> perp_trade_payload \<Rightarrow> backend_error + bytes" where
  "perp_trade_v1_hash keccak p =
     and_then (validate_payload p) (\<lambda>_.
     and_then (parse_evm_address (pt_buyer p)) (\<lambda>buyer.
     and_then (parse_evm_address (pt_seller p)) (\<lambda>seller.
       Ok (keccak (trade_v1_preimage keccak p buyer seller)))))"

definition perp_trade_v1_digest_bytes ::
  "(bytes \<Rightarrow> bytes) \<Rightarrow> perp_trade_payload \<Rightarrow> perp_trade_domain \<Rightarrow> backend_error + bytes" where
  "perp_trade_v1_digest_bytes keccak p d =
     and_then (trade_domain_separator keccak d) (\<lambda>ds.
     and_then (perp_trade_v1_hash keccak p) (\<lambda>th.
       Ok (keccak ([0x19, 0x01] @ ds @ th))))"

definition perp_trade_v2_digest_bytes ::
  "(bytes \<Rightarrow> bytes) \<Rightarrow> perp_trade_payload \<Rightarrow> perp_trade_domain \<Rightarrow> backend_error + bytes" where
  "perp_trade_v2_digest_bytes keccak p d =
     (if ptd_version d \<noteq> domain_version_str V2 then Err Config
      else and_then (trade_domain_separator keccak d) (\<lambda>ds.
           and_then (perp_trade_hash keccak p) (\<lambda>th.
             Ok (keccak ([0x19, 0x01] @ ds @ th)))))"

definition perp_trade_digest_bytes_for_version ::
  "(bytes \<Rightarrow> bytes) \<Rightarrow> perp_trade_payload \<Rightarrow> perp_trade_domain \<Rightarrow> perps_protocol_version \<Rightarrow> backend_error + bytes" where
  "perp_trade_digest_bytes_for_version keccak p d v =
     (if ptd_version d \<noteq> domain_version_str v then Err Config
      else case v of
             V1 \<Rightarrow> perp_trade_v1_digest_bytes keccak p d
           | V2 \<Rightarrow> perp_trade_v2_digest_bytes keccak p d)"

definition perp_trade_digest_for_version ::
  "(bytes \<Rightarrow> bytes) \<Rightarrow> perp_trade_payload \<Rightarrow> perp_trade_domain \<Rightarrow> perps_protocol_version \<Rightarrow> backend_error + string" where
  "perp_trade_digest_for_version keccak p d v =
     (if ptd_version d \<noteq> domain_version_str v then Err Config
      else case v of
             V1 \<Rightarrow> and_then (perp_trade_v1_digest_bytes keccak p d) (\<lambda>b. Ok (hex_0x b))
           | V2 \<Rightarrow> and_then (perp_trade_v2_digest_bytes keccak p d) (\<lambda>b. Ok (hex_0x b)))"


section \<open>What a digest determines\<close>

definition version_preimage :: "(bytes \<Rightarrow> bytes) \<Rightarrow> perps_protocol_version \<Rightarrow> perp_trade_payload \<Rightarrow> bytes \<Rightarrow> bytes \<Rightarrow> bytes" where
  "version_preimage keccak v = (case v of V1 \<Rightarrow> trade_v1_preimage keccak | V2 \<Rightarrow> trade_preimage keccak)"

definition trade_hash_inputs ::
  "(bytes \<Rightarrow> bytes) \<Rightarrow> perp_trade_payload \<Rightarrow> perp_trade_domain \<Rightarrow> perps_protocol_version \<Rightarrow> bytes list" where
  "trade_hash_inputs keccak p d v =
     (case (parse_evm_address (ptd_verifying_contract d), parse_evm_address (pt_buyer p), parse_evm_address (pt_seller p)) of
        (Ok vc, Ok buyer, Ok seller) \<Rightarrow>
          let dp = domain_preimage keccak (ptd_name d) (ptd_version d) (ptd_chain_id d) vc;
              tp = version_preimage keccak v p buyer seller
          in [as_bytes (ptd_name d), as_bytes (ptd_version d), dp, tp, [0x19, 0x01] @ keccak dp @ keccak tp]
      | _ \<Rightarrow> [])"

lemma digest_for_version_Ok:
  assumes "perp_trade_digest_bytes_for_version keccak p d v = Ok h"
  obtains vc b s where "ptd_version d = domain_version_str v" "parse_evm_address (ptd_verifying_contract d) = Ok vc"
    "parse_evm_address (pt_buyer p) = Ok b" "parse_evm_address (pt_seller p) = Ok s" "validate_payload p = Ok ()"
    "h = keccak ([0x19, 0x01] @ keccak (domain_preimage keccak (ptd_name d) (ptd_version d) (ptd_chain_id d) vc) @
                 keccak (version_preimage keccak v p b s))"
proof -
  have ver: "ptd_version d = domain_version_str v"
    using assms by (simp add: perp_trade_digest_bytes_for_version_def split: if_splits)
  show ?thesis
    using assms ver that
    by (cases v) (auto simp: perp_trade_digest_bytes_for_version_def perp_trade_v1_digest_bytes_def perp_trade_v2_digest_bytes_def
        trade_domain_separator_def perp_trade_v1_hash_def perp_trade_hash_def and_then_Ok_iff version_preimage_def)
qed

definition same_trade :: "perps_protocol_version \<Rightarrow> perp_trade_payload \<Rightarrow> perp_trade_payload \<Rightarrow> bool" where
  "same_trade v p p' =
     (pt_intent_id p = pt_intent_id p' \<and>
      parse_evm_address (pt_buyer p) = parse_evm_address (pt_buyer p') \<and>
      parse_evm_address (pt_seller p) = parse_evm_address (pt_seller p') \<and>
      pt_market_id p = pt_market_id p' \<and> pt_size_delta_1e8 p = pt_size_delta_1e8 p' \<and>
      pt_execution_price_1e8 p = pt_execution_price_1e8 p' \<and> pt_buyer_is_maker p = pt_buyer_is_maker p' \<and>
      pt_buyer_nonce p = pt_buyer_nonce p' \<and> pt_seller_nonce p = pt_seller_nonce p' \<and> pt_deadline p = pt_deadline p' \<and>
      (v = V2 \<longrightarrow> pt_max_execution_price_1e8 p = pt_max_execution_price_1e8 p' \<and>
                 pt_min_execution_price_1e8 p = pt_min_execution_price_1e8 p'))"

definition same_trade_domain :: "perp_trade_domain \<Rightarrow> perp_trade_domain \<Rightarrow> bool" where
  "same_trade_domain d d' =
     (ptd_name d = ptd_name d' \<and> ptd_version d = ptd_version d' \<and> ptd_chain_id d = ptd_chain_id d' \<and>
      parse_evm_address (ptd_verifying_contract d) = parse_evm_address (ptd_verifying_contract d'))"

lemma version_preimage_inj:
  assumes "\<And>x. length (keccak x) = 32" "length b = 20" "length b' = 20" "length s = 20" "length s' = 20"
    "length (pt_intent_id p) = 32" "length (pt_intent_id p') = 32"
    and "version_preimage keccak v p b s = version_preimage keccak v p' b' s'"
  shows "pt_intent_id p = pt_intent_id p' \<and> b = b' \<and> s = s' \<and>
      pt_market_id p = pt_market_id p' \<and> pt_size_delta_1e8 p = pt_size_delta_1e8 p' \<and>
      pt_execution_price_1e8 p = pt_execution_price_1e8 p' \<and> pt_buyer_is_maker p = pt_buyer_is_maker p' \<and>
      pt_buyer_nonce p = pt_buyer_nonce p' \<and> pt_seller_nonce p = pt_seller_nonce p' \<and> pt_deadline p = pt_deadline p' \<and>
      (v = V2 \<longrightarrow> pt_max_execution_price_1e8 p = pt_max_execution_price_1e8 p' \<and>
                 pt_min_execution_price_1e8 p = pt_min_execution_price_1e8 p')"
  using assms(8) by (cases v) (simp_all add: version_preimage_def trade_v1_preimage_def trade_preimage_def assms(1-7))

lemma digest_determines_trade:
  assumes len: "\<And>x. length (keccak x) = 32" "length (pt_intent_id p) = 32" "length (pt_intent_id p') = 32"
    and h: "perp_trade_digest_bytes_for_version keccak p d v = Ok h" "perp_trade_digest_bytes_for_version keccak p' d' v' = Ok h"
    and cf: "collision_free keccak (trade_hash_inputs keccak p d v @ trade_hash_inputs keccak p' d' v')"
  shows "v = v' \<and> same_trade v p p' \<and> same_trade_domain d d'"
proof -
  obtain vc b s where r: "ptd_version d = domain_version_str v" "parse_evm_address (ptd_verifying_contract d) = Ok vc"
    "parse_evm_address (pt_buyer p) = Ok b" "parse_evm_address (pt_seller p) = Ok s"
    and hr: "h = keccak ([0x19, 0x01] @ keccak (domain_preimage keccak (ptd_name d) (ptd_version d) (ptd_chain_id d) vc) @
                 keccak (version_preimage keccak v p b s))" by (rule digest_for_version_Ok [OF h(1)])
  obtain vc' b' s' where r': "ptd_version d' = domain_version_str v'" "parse_evm_address (ptd_verifying_contract d') = Ok vc'"
    "parse_evm_address (pt_buyer p') = Ok b'" "parse_evm_address (pt_seller p') = Ok s'"
    and hr': "h = keccak ([0x19, 0x01] @ keccak (domain_preimage keccak (ptd_name d') (ptd_version d') (ptd_chain_id d') vc') @
                 keccak (version_preimage keccak v' p' b' s'))" by (rule digest_for_version_Ok [OF h(2)])
  let ?dp = "domain_preimage keccak (ptd_name d) (ptd_version d) (ptd_chain_id d) vc"
  let ?dp' = "domain_preimage keccak (ptd_name d') (ptd_version d') (ptd_chain_id d') vc'"
  let ?tp = "version_preimage keccak v p b s" and ?tp' = "version_preimage keccak v' p' b' s'"
  have inputs: "trade_hash_inputs keccak p d v = [as_bytes (ptd_name d), as_bytes (ptd_version d), ?dp, ?tp, [0x19, 0x01] @ keccak ?dp @ keccak ?tp]"
    "trade_hash_inputs keccak p' d' v' = [as_bytes (ptd_name d'), as_bytes (ptd_version d'), ?dp', ?tp', [0x19, 0x01] @ keccak ?dp' @ keccak ?tp']"
    by (simp_all add: trade_hash_inputs_def r r' Let_def)
  note inj = collision_freeD [OF cf [unfolded inputs]]
  note lens = r(2-4) [THEN parse_evm_address_length] r'(2-4) [THEN parse_evm_address_length]
  have "[0x19, 0x01] @ keccak ?dp @ keccak ?tp = [0x19, 0x01] @ keccak ?dp' @ keccak ?tp'"
    by (rule inj) (use hr hr' in auto)
  then have "keccak ?dp = keccak ?dp'" "keccak ?tp = keccak ?tp'" by (simp_all add: len)
  then have eq: "?dp = ?dp'" "?tp = ?tp'" using inj [of ?dp ?dp'] inj [of ?tp ?tp'] by simp_all
  have dom: "keccak (as_bytes (ptd_name d)) = keccak (as_bytes (ptd_name d'))"
      "keccak (as_bytes (ptd_version d)) = keccak (as_bytes (ptd_version d'))" "ptd_chain_id d = ptd_chain_id d'" "vc = vc'"
    using domain_preimage_inj [where keccak = keccak, OF len(1) lens(1,4) eq(1)] by blast+
  have ver: "as_bytes (ptd_name d) = as_bytes (ptd_name d')" "as_bytes (ptd_version d) = as_bytes (ptd_version d')"
    by (rule inj; use dom(1,2) in simp)+
  then have v: "v = v'" using r(1) r'(1) by (cases v; cases v') (simp_all add: domain_version_str_def)
  have "same_trade v p p'"
    using version_preimage_inj [where keccak = keccak, OF len(1) lens(2,5,3,6) len(2,3) eq(2) [folded v]] r r'
    by (simp add: same_trade_def)
  then show ?thesis using v dom ver r r' by (simp add: same_trade_domain_def)
qed


section \<open>Stored signatures\<close>

definition signatures_ok :: "stored_trade_signatures \<Rightarrow> bool" where
  "signatures_ok st =
     (pred_option (\<lambda>s. is_ok (decode_signature s)) (ts_buyer_sig st) \<and>
      pred_option (\<lambda>s. is_ok (decode_signature s)) (ts_seller_sig st))"

lemma validate_signature_hex_Ok: "validate_signature_hex s = Ok u \<longleftrightarrow> is_ok (decode_signature s)"
  by (cases "decode_signature s") (auto simp: validate_signature_hex_def)

lemma upsert_ok: "signatures_ok st \<Longrightarrow> signatures_ok (snd (upsert b s st))"
  by (auto simp: upsert_def signatures_ok_def Let_def validate_signature_hex_Ok split: option.splits sum.splits)

lemma bundle_of_ok:
  assumes "signatures_ok st"
  shows "\<exists>x. signature_bundle_of st = Ok x \<and> (x \<noteq> None \<longleftrightarrow> calldata_ready st)"
  using assms
  by (auto simp: signatures_ok_def signature_bundle_of_def new_signature_bundle_def calldata_ready_def
      split: option.splits elim!: is_okE)


section \<open>Payloads of intents\<close>

definition whole_second_deadline :: "execution_intent \<Rightarrow> bool" where
  "whole_second_deadline x =
     (case in_deadline_ms x of Some d \<Rightarrow> 0 \<le> d \<and> d \<le> i64_MAX \<and> d mod 1000 = 0 | None \<Rightarrow> False)"

definition settleable :: "execution_intent \<Rightarrow> bool" where
  "settleable x =
     (whole_second_deadline x \<and> in_buyer_is_maker x \<noteq> None \<and> in_buyer_nonce x \<noteq> None \<and> in_seller_nonce x \<noteq> None \<and>
      is_ok (parse_evm_address (in_buyer x)) \<and> is_ok (parse_evm_address (in_seller x)) \<and>
      in_size_1e8 x \<noteq> 0 \<and> in_price_1e8 x \<noteq> 0 \<and>
      (in_protocol_version x = V1 \<longrightarrow> in_max_execution_price_1e8 x = 0 \<and> in_min_execution_price_1e8 x = 0) \<and>
      (in_max_execution_price_1e8 x = 0 \<or> in_price_1e8 x \<le> in_max_execution_price_1e8 x) \<and>
      (in_min_execution_price_1e8 x = 0 \<or> in_min_execution_price_1e8 x \<le> in_price_1e8 x))"

lemma uint_seconds: "0 \<le> d \<Longrightarrow> d \<le> i64_MAX \<Longrightarrow> uint (word_of_int (d div 1000) :: u128) = d div 1000"
proof -
  assume d: "0 \<le> d" "d \<le> i64_MAX"
  have "0 \<le> d div 1000" "d div 1000 \<le> d" using d(1) by linarith+
  moreover have "d < 2 ^ 128" using d(2) by (simp add: i64_MAX_def)
  ultimately show ?thesis by (simp add: uint_word_of_int)
qed

lemma validate_payload_Ok:
  "is_ok (validate_payload p) \<longleftrightarrow>
     pt_intent_id p \<noteq> b256_zero \<and> is_ok (parse_evm_address (pt_buyer p)) \<and> is_ok (parse_evm_address (pt_seller p)) \<and>
     pt_size_delta_1e8 p \<noteq> 0 \<and> pt_execution_price_1e8 p \<noteq> 0 \<and>
     (pt_max_execution_price_1e8 p = 0 \<or> pt_execution_price_1e8 p \<le> pt_max_execution_price_1e8 p) \<and>
     (pt_min_execution_price_1e8 p = 0 \<or> pt_min_execution_price_1e8 p \<le> pt_execution_price_1e8 p)"
  by (cases "parse_evm_address (pt_buyer p)"; cases "parse_evm_address (pt_seller p)")
     (auto simp: validate_payload_def not_less)

lemma payload_of_intent_cases:
  assumes "keccak (as_bytes (us (in_intent_id x))) \<noteq> b256_zero" "pred_option (\<lambda>d. d \<le> i64_MAX) (in_deadline_ms x)"
  shows "is_ok (perp_trade_payload_of keccak us x) = settleable x"
    and "perp_trade_payload_of keccak us x = Ok p \<Longrightarrow>
      pt_intent_id p = keccak (as_bytes (us (in_intent_id x))) \<and> pt_buyer p = in_buyer x \<and> pt_seller p = in_seller x \<and>
      uint (pt_market_id p) = uint (in_market_id x) \<and> pt_size_delta_1e8 p = in_size_1e8 x \<and>
      pt_execution_price_1e8 p = in_price_1e8 x \<and> Some (pt_buyer_is_maker p) = in_buyer_is_maker x \<and>
      pt_max_execution_price_1e8 p = in_max_execution_price_1e8 x \<and> pt_min_execution_price_1e8 p = in_min_execution_price_1e8 x \<and>
      map_option uint (in_buyer_nonce x) = Some (uint (pt_buyer_nonce p)) \<and>
      map_option uint (in_seller_nonce x) = Some (uint (pt_seller_nonce p)) \<and>
      in_deadline_ms x = Some (1000 * uint (pt_deadline p))"
proof -
  have np: "is_ok (new_payload q) = is_ok (validate_payload q)" for q
    by (cases "validate_payload q") (auto simp: new_payload_def)
  show "is_ok (perp_trade_payload_of keccak us x) = settleable x"
    using assms
    by (auto simp: perp_trade_payload_of_def validate_version_invariants_def intent_id_to_b256_def Let_def np validate_payload_Ok
        settleable_def whole_second_deadline_def ok_or_def and_then_def split: option.splits)
  assume ok: "perp_trade_payload_of keccak us x = Ok p"
  then obtain d where d: "in_deadline_ms x = Some d" "0 \<le> d" "d mod 1000 = 0"
    by (auto simp: perp_trade_payload_of_def and_then_Ok_iff ok_or_Ok_iff split: if_splits)
  have "d = 1000 * (d div 1000)" using d(3) by (simp add: mod_eq_0_iff_dvd)
  then have sec: "d = 1000 * uint (word_of_int (d div 1000) :: u128)" using uint_seconds [of d] d assms(2) by simp
  have u: "uint (ucast w :: u128) = uint w" for w :: u64 by (simp add: uint_up_ucast is_up)
  show "pt_intent_id p = keccak (as_bytes (us (in_intent_id x))) \<and> pt_buyer p = in_buyer x \<and> pt_seller p = in_seller x \<and>
      uint (pt_market_id p) = uint (in_market_id x) \<and> pt_size_delta_1e8 p = in_size_1e8 x \<and>
      pt_execution_price_1e8 p = in_price_1e8 x \<and> Some (pt_buyer_is_maker p) = in_buyer_is_maker x \<and>
      pt_max_execution_price_1e8 p = in_max_execution_price_1e8 x \<and> pt_min_execution_price_1e8 p = in_min_execution_price_1e8 x \<and>
      map_option uint (in_buyer_nonce x) = Some (uint (pt_buyer_nonce p)) \<and>
      map_option uint (in_seller_nonce x) = Some (uint (pt_seller_nonce p)) \<and>
      in_deadline_ms x = Some (1000 * uint (pt_deadline p))"
    using ok d(1) sec
    by (auto simp: perp_trade_payload_of_def and_then_Ok_iff ok_or_Ok_iff intent_id_to_b256_def Let_def new_payload_def u split: if_splits)
qed


section \<open>Properties\<close>

definition ex_trade :: "u128 \<Rightarrow> perp_trade_payload" where
  "ex_trade price =
     \<lparr> pt_intent_id = replicate 31 0 @ [1], pt_buyer = so_account (ex_signed 1),
       pt_seller = dom_verifying_contract default_eip712_domain,
       pt_market_id = 1, pt_size_delta_1e8 = 10, pt_execution_price_1e8 = price,
       pt_max_execution_price_1e8 = 0, pt_min_execution_price_1e8 = 0, pt_buyer_is_maker = True,
       pt_buyer_nonce = 11, pt_seller_nonce = 12, pt_deadline = 123 \<rparr>"

definition ex_domain :: "perps_protocol_version \<Rightarrow> perp_trade_domain" where
  "ex_domain v = for_version v 84532 (dom_verifying_contract default_eip712_domain)"

text \<open>
  C13: A trade digest binds the protocol version, the domain and the trade: two trades with the same
  digest, under a 32-byte hash that does not collide on what is hashed for them, have the same
  version, chain and contract and agree in all ten fields of the first version, and for the
  second version in the two price bounds as well.  A signature for one version is never one
  for the other.
\<close>

theorem trade_digest_binds:
  assumes "\<And>x. length (keccak x) = 32" "length (pt_intent_id p) = 32" "length (pt_intent_id p') = 32"
    and "perp_trade_digest_bytes_for_version keccak p d v = Ok h" "perp_trade_digest_bytes_for_version keccak p' d' v' = Ok h"
    and "collision_free keccak (trade_hash_inputs keccak p d v @ trade_hash_inputs keccak p' d' v')"
  shows "v = v' \<and> same_trade v p p' \<and> same_trade_domain d d'"
  by (rule digest_determines_trade [OF assms])

theorem trade_digest_binds_witness:
  "\<exists>h h'. perp_trade_digest_bytes_for_version (ex_hash 64) (ex_trade 5) (ex_domain V1) V1 = Ok h \<and>
          perp_trade_digest_bytes_for_version (ex_hash 64) (ex_trade 5) (ex_domain V2) V2 = Ok h' \<and> h \<noteq> h'"
proof -
  have "replicate 31 0 @ [1] \<noteq> replicate 32 (0 :: u8)" by code_simp
  then have ok: "is_ok (perp_trade_digest_bytes_for_version (ex_hash 64) (ex_trade 5) (ex_domain v) v)" for v
    using ex_addresses
    by (cases v) (simp_all add: perp_trade_digest_bytes_for_version_def perp_trade_v1_digest_bytes_def perp_trade_v2_digest_bytes_def
        trade_domain_separator_def perp_trade_v1_hash_def perp_trade_hash_def validate_payload_def ex_domain_def for_version_def
        new_v1_def new_v2_def ex_trade_def b256_zero_def domain_version_str_def)
  then obtain h h' where h: "perp_trade_digest_bytes_for_version (ex_hash 64) (ex_trade 5) (ex_domain V1) V1 = Ok h"
      "perp_trade_digest_bytes_for_version (ex_hash 64) (ex_trade 5) (ex_domain V2) V2 = Ok h'"
    by (meson is_okE)
  have cf: "collision_free (ex_hash 64)
      (trade_hash_inputs (ex_hash 64) (ex_trade 5) (ex_domain V1) V1 @ trade_hash_inputs (ex_hash 64) (ex_trade 5) (ex_domain V2) V2)"
    by code_simp
  have len: "length (pt_intent_id (ex_trade 5)) = 32" by (simp add: ex_trade_def)
  have "h \<noteq> h'" using trade_digest_binds [OF length_ex_hash len len h(1) _ cf] h(2) by auto
  then show ?thesis using h by blast
qed

text \<open>
  Stored signatures stay decodable: whatever is offered to an update, well-formed stored
  signatures stay well formed, and then building the bundle never fails and gives one exactly
  when both sides have signed.
\<close>

theorem stored_signatures_stay_decodable:
  assumes "signatures_ok st"
  shows "signatures_ok (snd (upsert b s st)) \<and>
    (\<exists>x. signature_bundle_of (snd (upsert b s st)) = Ok x \<and> (x \<noteq> None \<longleftrightarrow> calldata_ready (snd (upsert b s st))))"
  using upsert_ok [OF assms] bundle_of_ok by blast

theorem stored_signatures_stay_decodable_witness:
  "\<exists>x. signature_bundle_of (snd (upsert (Some ''0x12'') None \<lparr> ts_buyer_sig = None, ts_seller_sig = None \<rparr>)) = Ok x"
proof -
  have "signatures_ok \<lparr> ts_buyer_sig = None, ts_seller_sig = None \<rparr>" by (simp add: signatures_ok_def)
  from stored_signatures_stay_decodable [OF this, of "Some ''0x12''" None] show ?thesis by blast
qed


text \<open>
  A stored intent turns into a payload exactly when it carries its metadata, has a whole-second
  deadline, parseable parties, non-zero size and price and consistent price bounds (none at all
  in the first protocol version); the payload then has the intent's own values, with the deadline
  in seconds exactly a thousandth of the milliseconds stored.
\<close>

theorem payload_of_intent_exact:
  assumes "keccak (as_bytes (us (in_intent_id x))) \<noteq> b256_zero" "pred_option (\<lambda>d. d \<le> i64_MAX) (in_deadline_ms x)"
  shows "is_ok (perp_trade_payload_of keccak us x) = settleable x \<and>
    (\<forall>p. perp_trade_payload_of keccak us x = Ok p \<longrightarrow>
      pt_buyer p = in_buyer x \<and> pt_seller p = in_seller x \<and>
      uint (pt_market_id p) = uint (in_market_id x) \<and> pt_size_delta_1e8 p = in_size_1e8 x \<and>
      pt_execution_price_1e8 p = in_price_1e8 x \<and> Some (pt_buyer_is_maker p) = in_buyer_is_maker x \<and>
      map_option uint (in_buyer_nonce x) = Some (uint (pt_buyer_nonce p)) \<and>
      map_option uint (in_seller_nonce x) = Some (uint (pt_seller_nonce p)) \<and>
      in_deadline_ms x = Some (1000 * uint (pt_deadline p)))"
  using payload_of_intent_cases [where keccak = keccak and us = us, OF assms] by blast

definition ex_intent :: execution_intent where
  "ex_intent =
     \<lparr> in_intent_id = 9, in_market_id = 1, in_buyer = so_account (ex_signed 1),
       in_seller = dom_verifying_contract default_eip712_domain, in_price_1e8 = 100, in_size_1e8 = 5,
       in_buy_order_id = 1, in_sell_order_id = 2, in_buyer_is_maker = Some False, in_buyer_nonce = Some 7,
       in_seller_nonce = Some 8, in_deadline_ms = Some 9000, in_created_at_ms = 0, in_status = Pending,
       in_protocol_version = V1, in_max_execution_price_1e8 = 0, in_min_execution_price_1e8 = 0 \<rparr>"

theorem payload_of_intent_exact_witness:
  "\<exists>p. perp_trade_payload_of (ex_hash 0) (\<lambda>_. ''id'') ex_intent = Ok p \<and> 9000 = 1000 * uint (pt_deadline p)"
proof -
  have k: "ex_hash 0 (as_bytes ''id'') \<noteq> b256_zero" by code_simp
  have d: "pred_option (\<lambda>d. d \<le> i64_MAX) (in_deadline_ms ex_intent)" by (simp add: ex_intent_def i64_MAX_def)
  have "settleable ex_intent"
    using ex_addresses by (simp add: settleable_def whole_second_deadline_def ex_intent_def i64_MAX_def)
  then show ?thesis
    using payload_of_intent_exact [where keccak = "ex_hash 0" and us = "\<lambda>_. ''id''", OF k d]
    by (auto simp: ex_intent_def elim!: is_okE)
qed

end
