(* ===== verification/Indexed_Store.thy ===== *)
theory Indexed_Store
  imports Maps
begin

text \<open>
  A pattern several in-memory stores share: rows by id, and an index that maps the key of each
  live row to its id.  The invariant and the three ways it is maintained are proved here once,
  over the lookup functions of the two maps.
\<close>

definition index_ok ::
  "('r \<Rightarrow> 'i) \<Rightarrow> ('r \<Rightarrow> 'k) \<Rightarrow> ('r \<Rightarrow> bool) \<Rightarrow> ('i \<Rightarrow> 'r option) \<Rightarrow> ('k \<Rightarrow> 'i option) \<Rightarrow> bool" where
  "index_ok id_of key_of live rows index =
     ((\<forall>i r. rows i = Some r \<longrightarrow> id_of r = i \<and> (live r \<longrightarrow> index (key_of r) = Some i)) \<and>
      (\<forall>k i. index k = Some i \<longrightarrow> (\<exists>r. rows i = Some r \<and> live r \<and> key_of r = k)))"

lemma index_okD:
  assumes "index_ok id_of key_of live rows index"
  shows "rows i = Some r \<Longrightarrow> id_of r = i"
    and "rows i = Some r \<Longrightarrow> live r \<Longrightarrow> index (key_of r) = Some i"
    and "index k = Some i \<Longrightarrow> \<exists>r. rows i = Some r \<and> live r \<and> key_of r = k"
  using assms unfolding index_ok_def by blast+

lemma index_ok_empty: "index_ok id_of key_of live (\<lambda>_. None) (\<lambda>_. None)"
  by (simp add: index_ok_def)

lemma index_ok_unique:
  assumes "index_ok id_of key_of live rows index" "rows i = Some r" "live r" "rows j = Some r'" "live r'" "key_of r = key_of r'"
  shows "i = j"
  using index_okD(2) [OF assms(1,2,3)] index_okD(2) [OF assms(1,4,5)] assms(6) by simp

text \<open>A new live row under a free key.\<close>

lemma index_ok_add:
  assumes ok: "index_ok id_of key_of live rows index"
    and fresh: "rows (id_of r) = None" "index (key_of r) = None" and live: "live r"
  shows "index_ok id_of key_of live (rows(id_of r := Some r)) (index(key_of r := Some (id_of r)))"
  unfolding index_ok_def
proof (intro conjI allI impI)
  fix i r' assume "(rows(id_of r := Some r)) i = Some r'"
  then consider "i = id_of r" "r' = r" | "i \<noteq> id_of r" "rows i = Some r'" by (auto split: if_splits)
  note c = this
  from c show "id_of r' = i" using index_okD(1) [OF ok] by cases auto
  assume "live r'"
  from c show "(index(key_of r := Some (id_of r))) (key_of r') = Some i"
  proof cases
    case 2
    then have "index (key_of r') = Some i" using index_okD(2) [OF ok] \<open>live r'\<close> by blast
    then show ?thesis using fresh(2) by auto
  qed simp
next
  fix k i assume "(index(key_of r := Some (id_of r))) k = Some i"
  then consider "k = key_of r" "i = id_of r" | "k \<noteq> key_of r" "index k = Some i" by (auto split: if_splits)
  then show "\<exists>r'. (rows(id_of r := Some r)) i = Some r' \<and> live r' \<and> key_of r' = k"
  proof cases
    case 2
    then show ?thesis using index_okD(3) [OF ok 2(2)] fresh(1) by auto
  qed (use live in auto)
qed

text \<open>A row replaced by one with the same id, key and liveness.\<close>

lemma index_ok_replace:
  assumes ok: "index_ok id_of key_of live rows index" and row: "rows i = Some r"
    and same: "id_of r' = i" "key_of r' = key_of r" "live r' = live r"
  shows "index_ok id_of key_of live (rows(i := Some r')) index"
  unfolding index_ok_def
proof (intro conjI allI impI)
  fix j q assume "(rows(i := Some r')) j = Some q"
  then consider "j = i" "q = r'" | "j \<noteq> i" "rows j = Some q" by (auto split: if_splits)
  note c = this
  from c show "id_of q = j" using index_okD(1) [OF ok] same(1) by cases auto
  assume "live q"
  from c show "index (key_of q) = Some j"
    using index_okD(2) [OF ok] row same \<open>live q\<close> by cases auto
next
  fix k j assume "index k = Some j"
  then obtain q where q: "rows j = Some q" "live q" "key_of q = k" using index_okD(3) [OF ok] by blast
  show "\<exists>q. (rows(i := Some r')) j = Some q \<and> live q \<and> key_of q = k"
    using q row same by (cases "j = i") auto
qed

text \<open>A live row that leaves the index and stops being live.\<close>

lemma index_ok_retire:
  assumes ok: "index_ok id_of key_of live rows index" and k: "index k = Some i"
    and dead: "id_of r' = i" "\<not> live r'"
  shows "index_ok id_of key_of live (rows(i := Some r')) (index(k := None))"
  unfolding index_ok_def
proof (intro conjI allI impI)
  obtain r where r: "rows i = Some r" "live r" "key_of r = k" using index_okD(3) [OF ok k] by blast
  fix j q assume q: "(rows(i := Some r')) j = Some q"
  then show "id_of q = j" using index_okD(1) [OF ok] dead by (auto split: if_splits)
  assume live: "live q"
  then have j: "j \<noteq> i" "rows j = Some q" using q dead by (auto split: if_splits)
  then have "index (key_of q) = Some j" using index_okD(2) [OF ok] live by blast
  moreover have "key_of q \<noteq> k" using index_ok_unique [OF ok r(1,2) j(2) live] r(3) j(1) by auto
  ultimately show "(index(k := None)) (key_of q) = Some j" by simp
next
  obtain r where r: "rows i = Some r" "live r" "key_of r = k" using index_okD(3) [OF ok k] by blast
  fix k' j assume "(index(k := None)) k' = Some j"
  then have k': "k' \<noteq> k" "index k' = Some j" by (auto split: if_splits)
  then obtain q where q: "rows j = Some q" "live q" "key_of q = k'" using index_okD(3) [OF ok] by blast
  then have "j \<noteq> i" using r k'(1) by auto
  then show "\<exists>q. (rows(i := Some r')) j = Some q \<and> live q \<and> key_of q = k'" using q by auto
qed

text \<open>The lookup functions of the map models are updated pointwise.\<close>

lemma hm_get_insert_fun: "hm_get (hm_insert k v m) = (hm_get m)(k := Some v)"
  by (rule ext) simp

lemma hm_get_remove_fun: "hm_get (hm_remove k m) = (hm_get m)(k := None)"
  by (rule ext) simp

lemma hm_get_empty_fun: "hm_get [] = (\<lambda>_. None)"
  by (rule ext) simp

lemmas hm_fun_simps = hm_get_insert_fun hm_get_remove_fun hm_get_empty_fun

end
