(* ===== verification/Perp_Positions.thy ===== *)
theory Perp_Positions
  imports Types Indexed_Store
begin

text \<open>
  Perpetual positions: \<^verbatim>\<open>src/perps/positions.rs\<close>.  The store keeps every position by id and an index
  of the open ones by account (in lower case), subaccount and market.
\<close>


section \<open>Positions\<close>

datatype perp_side = PerpLong | PerpShort

definition perp_side_as_str :: "perp_side \<Rightarrow> string" where
  "perp_side_as_str s = (case s of PerpLong \<Rightarrow> ''long'' | PerpShort \<Rightarrow> ''short'')"

definition perp_side_parse :: "string \<Rightarrow> backend_error + perp_side" where
  "perp_side_parse v =
     (if v = ''long'' then Ok PerpLong else if v = ''short'' then Ok PerpShort else Err Persistence)"

definition perp_side_opposite :: "perp_side \<Rightarrow> perp_side" where
  "perp_side_opposite s = (case s of PerpLong \<Rightarrow> PerpShort | PerpShort \<Rightarrow> PerpLong)"

datatype perp_position_status = PosOpen | PosClosed | PosLiquidated

definition position_status_as_str :: "perp_position_status \<Rightarrow> string" where
  "position_status_as_str s =
     (case s of PosOpen \<Rightarrow> ''open'' | PosClosed \<Rightarrow> ''closed'' | PosLiquidated \<Rightarrow> ''liquidated'')"

definition position_status_parse :: "string \<Rightarrow> backend_error + perp_position_status" where
  "position_status_parse v =
     (if v = ''open'' then Ok PosOpen
      else if v = ''closed'' then Ok PosClosed
      else if v = ''liquidated'' then Ok PosLiquidated
      else Err Persistence)"

record perp_position =
  pp_id :: uuid
  pp_account :: account_id
  pp_subaccount_id :: u32
  pp_market_id :: string
  pp_side :: perp_side
  pp_size_1e8 :: u128
  pp_entry_price_1e8 :: u128
  pp_margin_1e8 :: u128
  pp_realized_pnl_1e8 :: i128
  pp_status :: perp_position_status
  pp_opened_at_ms :: timestamp_ms
  pp_updated_at_ms :: timestamp_ms
  pp_closed_at_ms :: "timestamp_ms option"
  pp_version :: u64
  pp_last_funding_index_1e18 :: i128
  pp_cumulative_funding_payment_1e8 :: i128

definition pp_is_open :: "perp_position \<Rightarrow> bool" where
  "pp_is_open p = (pp_status p = PosOpen)"

definition pp_notional_1e8 :: "perp_position \<Rightarrow> u128" where
  "pp_notional_1e8 p = saturating_mul (pp_size_1e8 p) (pp_entry_price_1e8 p) div 100000000"

definition new_position_skeleton ::
  "uuid \<Rightarrow> timestamp_ms \<Rightarrow> account_id \<Rightarrow> u32 \<Rightarrow> string \<Rightarrow> perp_side \<Rightarrow> u128 \<Rightarrow> u128 \<Rightarrow> u128 \<Rightarrow> perp_position" where
  "new_position_skeleton i now account subaccount_id market_id s size_1e8 entry_price_1e8 margin_1e8 =
     \<lparr> pp_id = i, pp_account = account, pp_subaccount_id = subaccount_id, pp_market_id = market_id,
       pp_side = s, pp_size_1e8 = size_1e8, pp_entry_price_1e8 = entry_price_1e8,
       pp_margin_1e8 = margin_1e8, pp_realized_pnl_1e8 = 0, pp_status = PosOpen,
       pp_opened_at_ms = now, pp_updated_at_ms = now, pp_closed_at_ms = None, pp_version = 1,
       pp_last_funding_index_1e18 = 0, pp_cumulative_funding_payment_1e8 = 0 \<rparr>"

definition apply_funding_payment_to_margin :: "u128 \<Rightarrow> i128 \<Rightarrow> u128 \<times> u128" where
  "apply_funding_payment_to_margin margin_1e8 payment_1e8 =
     (if payment_1e8 = 0 then (margin_1e8, 0)
      else if payment_1e8 > 0
      then (let payment_abs = i128_as_u128 payment_1e8
            in if payment_abs > margin_1e8 then (0, payment_abs - margin_1e8)
               else (margin_1e8 - payment_abs, 0))
      else (let credit = i128_as_u128 (i128_wrap (- payment_1e8))
            in (saturating_add margin_1e8 credit, 0)))"


section \<open>The store\<close>

type_synonym position_key = "string \<times> u32 \<times> string"

definition index_key :: "account_id \<Rightarrow> u32 \<Rightarrow> string \<Rightarrow> position_key" where
  "index_key account subaccount_id market_id = (to_lowercase account, subaccount_id, market_id)"

definition pp_key :: "perp_position \<Rightarrow> position_key" where
  "pp_key p = index_key (pp_account p) (pp_subaccount_id p) (pp_market_id p)"

record perp_positions_store =
  ps_by_id :: "(uuid, perp_position) hashmap"
  ps_active :: "(position_key, uuid) hashmap"

definition new_positions_store :: perp_positions_store where
  "new_positions_store = \<lparr> ps_by_id = [], ps_active = [] \<rparr>"

definition insert_open ::
  "perp_position \<Rightarrow> perp_positions_store \<Rightarrow> (backend_error + perp_position) \<times> perp_positions_store" where
  "insert_open p st =
     (if pp_status p \<noteq> PosOpen then (Err Config, st)
      else let key = index_key (pp_account p) (pp_subaccount_id p) (pp_market_id p)
           in if hm_contains_key (ps_active st) key then (Err PerpMarketPaused, st)
              else (Ok p, st\<lparr>ps_active := hm_insert key (pp_id p) (ps_active st),
                             ps_by_id := hm_insert (pp_id p) p (ps_by_id st)\<rparr>))"

definition get_active :: "perp_positions_store \<Rightarrow> account_id \<Rightarrow> u32 \<Rightarrow> string \<Rightarrow> perp_position option" where
  "get_active st account subaccount_id market_id =
     (case hm_get (ps_active st) (index_key account subaccount_id market_id) of
        None \<Rightarrow> None
      | Some i \<Rightarrow> hm_get (ps_by_id st) i)"

text \<open>The mutator of \<^verbatim>\<open>update_active\<close> changes the row in place and may report an error.\<close>

definition update_active ::
  "account_id \<Rightarrow> u32 \<Rightarrow> string \<Rightarrow> timestamp_ms \<Rightarrow> (perp_position \<Rightarrow> (backend_error + unit) \<times> perp_position)
     \<Rightarrow> perp_positions_store \<Rightarrow> (backend_error + perp_position) \<times> perp_positions_store" where
  "update_active account subaccount_id market_id now mutator st =
     (case hm_get (ps_active st) (index_key account subaccount_id market_id) of
        None \<Rightarrow> (Err PerpPositionNotFound, st)
      | Some i \<Rightarrow>
          (case hm_get (ps_by_id st) i of
             None \<Rightarrow> (Err Persistence, st)
           | Some p \<Rightarrow>
               (case mutator p of
                  (Err e, p') \<Rightarrow> (Err e, st\<lparr>ps_by_id := hm_insert i p' (ps_by_id st)\<rparr>)
                | (Ok _, p') \<Rightarrow>
                    let p'' = p'\<lparr>pp_updated_at_ms := now, pp_version := u64_saturating_add (pp_version p') 1\<rparr>
                    in (Ok p'', st\<lparr>ps_by_id := hm_insert i p'' (ps_by_id st)\<rparr>))))"

definition liquidate_active ::
  "account_id \<Rightarrow> u32 \<Rightarrow> string \<Rightarrow> i128 \<Rightarrow> timestamp_ms \<Rightarrow> perp_positions_store
     \<Rightarrow> (backend_error + perp_position) \<times> perp_positions_store" where
  "liquidate_active account subaccount_id market_id realized_pnl_delta_1e8 now st =
     (let key = index_key account subaccount_id market_id
      in case hm_get (ps_active st) key of
           None \<Rightarrow> (Err PerpPositionNotFound, st)
         | Some i \<Rightarrow>
             let st' = st\<lparr>ps_active := hm_remove key (ps_active st)\<rparr>
             in (case hm_get (ps_by_id st') i of
                   None \<Rightarrow> (Err Persistence, st')
                 | Some p \<Rightarrow>
                     let p' = p\<lparr>pp_status := PosLiquidated,
                               pp_realized_pnl_1e8 := i128_saturating_add (pp_realized_pnl_1e8 p) realized_pnl_delta_1e8,
                               pp_updated_at_ms := now, pp_closed_at_ms := Some now,
                               pp_version := u64_saturating_add (pp_version p) 1\<rparr>
                     in (Ok p', st'\<lparr>ps_by_id := hm_insert i p' (ps_by_id st')\<rparr>)))"

definition close_active ::
  "account_id \<Rightarrow> u32 \<Rightarrow> string \<Rightarrow> timestamp_ms \<Rightarrow> perp_positions_store
     \<Rightarrow> (backend_error + perp_position) \<times> perp_positions_store" where
  "close_active account subaccount_id market_id now st =
     (let key = index_key account subaccount_id market_id
      in case hm_get (ps_active st) key of
           None \<Rightarrow> (Err PerpPositionNotFound, st)
         | Some i \<Rightarrow>
             let st' = st\<lparr>ps_active := hm_remove key (ps_active st)\<rparr>
             in (case hm_get (ps_by_id st') i of
                   None \<Rightarrow> (Err Persistence, st')
                 | Some p \<Rightarrow>
                     let p' = p\<lparr>pp_status := PosClosed, pp_updated_at_ms := now, pp_closed_at_ms := Some now,
                               pp_version := u64_saturating_add (pp_version p) 1\<rparr>
                     in (Ok p', st'\<lparr>ps_by_id := hm_insert i p' (ps_by_id st')\<rparr>)))"

definition update_closed_realized_pnl ::
  "uuid \<Rightarrow> i128 \<Rightarrow> timestamp_ms \<Rightarrow> perp_positions_store \<Rightarrow> (backend_error + perp_position) \<times> perp_positions_store" where
  "update_closed_realized_pnl i realized_delta_1e8 now st =
     (case hm_get (ps_by_id st) i of
        None \<Rightarrow> (Err PerpPositionNotFound, st)
      | Some p \<Rightarrow>
          if pp_status p \<noteq> PosClosed then (Err Config, st)
          else let p' = p\<lparr>pp_realized_pnl_1e8 := i128_saturating_add (pp_realized_pnl_1e8 p) realized_delta_1e8,
                          pp_updated_at_ms := now\<rparr>
               in (Ok p', st\<lparr>ps_by_id := hm_insert i p' (ps_by_id st)\<rparr>))"

definition list_for_account :: "perp_positions_store \<Rightarrow> account_id \<Rightarrow> perp_position list" where
  "list_for_account st account =
     sort_key (\<lambda>p. - pp_updated_at_ms p)
       (filter (\<lambda>p. to_lowercase (pp_account p) = to_lowercase account) (hm_values (ps_by_id st)))"

definition list_for_account_and_subaccount :: "perp_positions_store \<Rightarrow> account_id \<Rightarrow> u32 \<Rightarrow> perp_position list" where
  "list_for_account_and_subaccount st account subaccount_id =
     sort_key (\<lambda>p. - pp_updated_at_ms p)
       (filter (\<lambda>p. to_lowercase (pp_account p) = to_lowercase account \<and> pp_subaccount_id p = subaccount_id)
          (hm_values (ps_by_id st)))"


section \<open>The invariant of the store\<close>

text \<open>
  The index lists exactly the open positions, each under its own key; rows are filed under their
  own id.
\<close>

definition positions_inv :: "perp_positions_store \<Rightarrow> bool" where
  "positions_inv st =
     (hm_ok (ps_by_id st) \<and> hm_ok (ps_active st) \<and>
      index_ok pp_id pp_key pp_is_open (hm_get (ps_by_id st)) (hm_get (ps_active st)))"

lemma new_positions_inv: "positions_inv new_positions_store"
  by (simp add: positions_inv_def new_positions_store_def hm_fun_simps index_ok_empty)

lemma insert_open_inv:
  assumes "positions_inv st" "hm_get (ps_by_id st) (pp_id p) = None"
  shows "positions_inv (snd (insert_open p st))"
  using assms index_ok_add [of pp_id pp_key pp_is_open _ _ p]
  by (simp add: positions_inv_def insert_open_def Let_def hm_contains_key_def hm_fun_simps
      pp_key_def [symmetric] pp_is_open_def)

lemma replace_open_inv:
  assumes "positions_inv st" "hm_get (ps_by_id st) i = Some p" "pp_id p' = i" "pp_key p' = pp_key p" "pp_status p' = pp_status p"
  shows "positions_inv (st\<lparr>ps_by_id := hm_insert i p' (ps_by_id st)\<rparr>)"
  using assms index_ok_replace [of pp_id pp_key pp_is_open "hm_get (ps_by_id st)" _ i p p']
  by (simp add: positions_inv_def hm_fun_simps pp_is_open_def)

lemma retire_inv:
  assumes "positions_inv st" "hm_get (ps_active st) k = Some i" "pp_id p' = i" "pp_status p' \<noteq> PosOpen"
  shows "positions_inv (st\<lparr>ps_active := hm_remove k (ps_active st), ps_by_id := hm_insert i p' (ps_by_id st)\<rparr>)"
  using assms index_ok_retire [of pp_id pp_key pp_is_open "hm_get (ps_by_id st)" _ k i p']
  by (simp add: positions_inv_def hm_fun_simps pp_is_open_def)


section \<open>The open positions as a function of the key\<close>

text \<open>
  What the clients of the store see of it: the open position of every key.  Each operation
  changes this function at one key only.
\<close>

definition active_at :: "perp_positions_store \<Rightarrow> position_key \<Rightarrow> perp_position option" where
  "active_at st k = (case hm_get (ps_active st) k of None \<Rightarrow> None | Some i \<Rightarrow> hm_get (ps_by_id st) i)"

lemma get_active_at: "get_active st a s m = active_at st (index_key a s m)"
  by (simp add: get_active_def active_at_def)

lemma active_at_new: "active_at new_positions_store = (\<lambda>_. None)"
  by (rule ext) (simp add: active_at_def new_positions_store_def)

lemma positions_index_ok:
  "positions_inv st \<Longrightarrow> index_ok pp_id pp_key pp_is_open (hm_get (ps_by_id st)) (hm_get (ps_active st))"
  by (simp add: positions_inv_def)

lemma active_at_SomeD:
  assumes "positions_inv st" "active_at st k = Some p"
  shows "hm_get (ps_active st) k = Some (pp_id p)" "hm_get (ps_by_id st) (pp_id p) = Some p" "pp_is_open p" "pp_key p = k"
proof -
  note ok = positions_index_ok [OF assms(1)]
  obtain i where i: "hm_get (ps_active st) k = Some i" "hm_get (ps_by_id st) i = Some p"
    using assms(2) by (auto simp: active_at_def split: option.splits)
  then have "pp_id p = i" using index_okD(1) [OF ok] by blast
  then show "hm_get (ps_active st) k = Some (pp_id p)" "hm_get (ps_by_id st) (pp_id p) = Some p" using i by auto
  show "pp_is_open p" "pp_key p = k" using index_okD(3) [OF ok i(1)] i(2) by auto
qed

lemma active_at_None:
  assumes "positions_inv st"
  shows "active_at st k = None \<longleftrightarrow> hm_get (ps_active st) k = None"
proof (cases "hm_get (ps_active st) k")
  case (Some i)
  then obtain p where "hm_get (ps_by_id st) i = Some p"
    using index_okD(3) [OF positions_index_ok [OF assms]] by blast
  then show ?thesis using Some by (simp add: active_at_def)
qed (simp add: active_at_def)

lemma active_at_iff:
  assumes "positions_inv st"
  shows "active_at st k = Some p \<longleftrightarrow> hm_get (ps_by_id st) (pp_id p) = Some p \<and> pp_is_open p \<and> pp_key p = k"
proof
  assume "hm_get (ps_by_id st) (pp_id p) = Some p \<and> pp_is_open p \<and> pp_key p = k"
  moreover from this have "hm_get (ps_active st) k = Some (pp_id p)"
    using index_okD(2) [OF positions_index_ok [OF assms]] by blast
  ultimately show "active_at st k = Some p" by (simp add: active_at_def)
qed (use active_at_SomeD [OF assms] in blast)

lemma active_at_other:
  assumes "positions_inv st" "hm_get (ps_active st) k = Some i" "k' \<noteq> k"
  shows "hm_get (ps_active st) k' \<noteq> Some i"
proof
  assume k': "hm_get (ps_active st) k' = Some i"
  show False
    using index_okD(3) [OF positions_index_ok [OF assms(1)] k']
      index_okD(3) [OF positions_index_ok [OF assms(1)] assms(2)] assms(3) by auto
qed

lemma active_at_replace:
  assumes "positions_inv st" "hm_get (ps_active st) k = Some i"
  shows "active_at (st\<lparr>ps_by_id := hm_insert i p' (ps_by_id st)\<rparr>) = (active_at st)(k := Some p')"
proof
  fix k' show "active_at (st\<lparr>ps_by_id := hm_insert i p' (ps_by_id st)\<rparr>) k' = ((active_at st)(k := Some p')) k'"
    using active_at_other [OF assms, of k'] assms(2)
    by (cases "k' = k") (auto simp: active_at_def split: option.splits)
qed

lemma active_at_retire:
  assumes "positions_inv st" "hm_get (ps_active st) k = Some i"
  shows "active_at (st\<lparr>ps_active := hm_remove k (ps_active st), ps_by_id := hm_insert i p' (ps_by_id st)\<rparr>)
     = (active_at st)(k := None)"
proof
  fix k'
  show "active_at (st\<lparr>ps_active := hm_remove k (ps_active st), ps_by_id := hm_insert i p' (ps_by_id st)\<rparr>) k'
     = ((active_at st)(k := None)) k'"
    using active_at_other [OF assms, of k']
    by (cases "k' = k") (auto simp: active_at_def split: option.splits)
qed

lemma insert_open_active:
  assumes inv: "positions_inv st" and fresh: "hm_get (ps_by_id st) (pp_id p) = None"
    and ok: "fst (insert_open p st) = Ok q"
  shows "q = p" "active_at st (pp_key p) = None"
    "active_at (snd (insert_open p st)) = (active_at st)(pp_key p \<mapsto> p)"
proof -
  have *: "pp_status p = PosOpen" "hm_get (ps_active st) (pp_key p) = None" "q = p"
    using ok by (auto simp: insert_open_def Let_def hm_contains_key_def pp_key_def split: if_splits)
  then show "q = p" "active_at st (pp_key p) = None" by (simp_all add: active_at_None [OF inv])
  have st': "snd (insert_open p st) = st\<lparr>ps_active := hm_insert (pp_key p) (pp_id p) (ps_active st),
      ps_by_id := hm_insert (pp_id p) p (ps_by_id st)\<rparr>"
    using * by (simp add: insert_open_def Let_def hm_contains_key_def pp_key_def)
  have other: "hm_get (ps_active st) k \<noteq> Some (pp_id p)" for k
    using index_okD(3) [OF positions_index_ok [OF inv], of k "pp_id p"] fresh by auto
  show "active_at (snd (insert_open p st)) = (active_at st)(pp_key p \<mapsto> p)"
  proof
    fix k show "active_at (snd (insert_open p st)) k = ((active_at st)(pp_key p \<mapsto> p)) k"
      using other [of k] by (cases "k = pp_key p") (auto simp: st' active_at_def split: option.splits)
  qed
qed

text \<open>A mutator that leaves the identity of the row alone, as all those of the sources do.\<close>

definition keeps_identity :: "(perp_position \<Rightarrow> (backend_error + unit) \<times> perp_position) \<Rightarrow> bool" where
  "keeps_identity f = (\<forall>p. pp_id (snd (f p)) = pp_id p \<and> pp_key (snd (f p)) = pp_key p \<and> pp_status (snd (f p)) = pp_status p)"

definition touch :: "timestamp_ms \<Rightarrow> perp_position \<Rightarrow> perp_position" where
  "touch now p = p\<lparr>pp_updated_at_ms := now, pp_version := u64_saturating_add (pp_version p) 1\<rparr>"

lemma pp_key_simps [simp]:
  "pp_key (p\<lparr>pp_updated_at_ms := t\<rparr>) = pp_key p" "pp_key (p\<lparr>pp_version := v\<rparr>) = pp_key p"
  "pp_key (p\<lparr>pp_size_1e8 := x\<rparr>) = pp_key p" "pp_key (p\<lparr>pp_entry_price_1e8 := x\<rparr>) = pp_key p"
  "pp_key (p\<lparr>pp_margin_1e8 := x\<rparr>) = pp_key p" "pp_key (p\<lparr>pp_realized_pnl_1e8 := y\<rparr>) = pp_key p"
  "pp_key (p\<lparr>pp_status := s\<rparr>) = pp_key p" "pp_key (p\<lparr>pp_closed_at_ms := c\<rparr>) = pp_key p"
  "pp_key (p\<lparr>pp_last_funding_index_1e18 := y\<rparr>) = pp_key p"
  "pp_key (p\<lparr>pp_cumulative_funding_payment_1e8 := y\<rparr>) = pp_key p"
  by (simp_all add: pp_key_def)

lemma update_active_Ok:
  assumes inv: "positions_inv st" and act: "active_at st (index_key a s m) = Some p"
    and f: "f p = (Ok (), p')" and id: "pp_id p' = pp_id p" "pp_key p' = pp_key p" "pp_status p' = pp_status p"
  shows "fst (update_active a s m now f st) = Ok (touch now p')"
    "active_at (snd (update_active a s m now f st)) = (active_at st)(index_key a s m \<mapsto> touch now p')"
    "positions_inv (snd (update_active a s m now f st))"
    "hm_get (ps_by_id (snd (update_active a s m now f st))) = (hm_get (ps_by_id st))(pp_id p \<mapsto> touch now p')"
proof -
  note row = active_at_SomeD [OF inv act]
  have u: "update_active a s m now f st = (Ok (touch now p'), st\<lparr>ps_by_id := hm_insert (pp_id p) (touch now p') (ps_by_id st)\<rparr>)"
    using row(1,2) f by (simp add: update_active_def touch_def Let_def)
  show "fst (update_active a s m now f st) = Ok (touch now p')" by (simp add: u)
  show "active_at (snd (update_active a s m now f st)) = (active_at st)(index_key a s m \<mapsto> touch now p')"
    using active_at_replace [OF inv row(1)] by (simp add: u)
  show "positions_inv (snd (update_active a s m now f st))"
    using replace_open_inv [OF inv row(2), of "touch now p'"] id by (simp add: u touch_def)
  show "hm_get (ps_by_id (snd (update_active a s m now f st))) = (hm_get (ps_by_id st))(pp_id p \<mapsto> touch now p')"
    by (simp add: u hm_fun_simps)
qed

lemma update_active_inv:
  assumes inv: "positions_inv st" and f: "keeps_identity f"
  shows "positions_inv (snd (update_active a s m now f st))"
proof (cases "active_at st (index_key a s m)")
  case None
  then have "hm_get (ps_active st) (index_key a s m) = None" by (simp add: active_at_None [OF inv])
  then show ?thesis using inv by (simp add: update_active_def)
next
  case (Some p)
  note row = active_at_SomeD [OF inv Some]
  have id: "pp_id (snd (f p)) = pp_id p" "pp_key (snd (f p)) = pp_key p" "pp_status (snd (f p)) = pp_status p"
    using f by (auto simp: keeps_identity_def)
  show ?thesis
  proof (cases "fst (f p)")
    case (Inl e)
    then obtain p' where p': "f p = (Err e, p')" by (metis prod.collapse)
    then have "snd (update_active a s m now f st) = st\<lparr>ps_by_id := hm_insert (pp_id p) (snd (f p)) (ps_by_id st)\<rparr>"
      using row(1,2) by (simp add: update_active_def)
    then show ?thesis using replace_open_inv [OF inv row(2), of "snd (f p)"] id by simp
  next
    case (Inr u)
    then have "f p = (Ok (), snd (f p))" by (metis prod.collapse unit.exhaust)
    then show ?thesis using update_active_Ok(3) [OF inv Some] id by blast
  qed
qed

lemma update_active_None:
  "positions_inv st \<Longrightarrow> active_at st (index_key a s m) = None
     \<Longrightarrow> update_active a s m now f st = (Err PerpPositionNotFound, st)"
  using active_at_None [of st "index_key a s m"] by (simp add: update_active_def)

definition closed_row :: "timestamp_ms \<Rightarrow> perp_position \<Rightarrow> perp_position" where
  "closed_row now p = p\<lparr>pp_status := PosClosed, pp_updated_at_ms := now, pp_closed_at_ms := Some now,
     pp_version := u64_saturating_add (pp_version p) 1\<rparr>"

definition liquidated_row :: "i128 \<Rightarrow> timestamp_ms \<Rightarrow> perp_position \<Rightarrow> perp_position" where
  "liquidated_row d now p = p\<lparr>pp_status := PosLiquidated,
     pp_realized_pnl_1e8 := i128_saturating_add (pp_realized_pnl_1e8 p) d,
     pp_updated_at_ms := now, pp_closed_at_ms := Some now, pp_version := u64_saturating_add (pp_version p) 1\<rparr>"

lemma close_active_Some:
  assumes inv: "positions_inv st" and act: "active_at st (index_key a s m) = Some p"
  shows "fst (close_active a s m now st) = Ok (closed_row now p)"
    "active_at (snd (close_active a s m now st)) = (active_at st)(index_key a s m := None)"
    "positions_inv (snd (close_active a s m now st))"
    "hm_get (ps_by_id (snd (close_active a s m now st))) = (hm_get (ps_by_id st))(pp_id p \<mapsto> closed_row now p)"
proof -
  note row = active_at_SomeD [OF inv act]
  have u: "close_active a s m now st = (Ok (closed_row now p),
      st\<lparr>ps_active := hm_remove (index_key a s m) (ps_active st), ps_by_id := hm_insert (pp_id p) (closed_row now p) (ps_by_id st)\<rparr>)"
    using row(1,2) by (simp add: close_active_def closed_row_def Let_def)
  show "fst (close_active a s m now st) = Ok (closed_row now p)" by (simp add: u)
  show "active_at (snd (close_active a s m now st)) = (active_at st)(index_key a s m := None)"
    using active_at_retire [OF inv row(1)] by (simp add: u)
  show "positions_inv (snd (close_active a s m now st))"
    using retire_inv [OF inv row(1), of "closed_row now p"] by (simp add: u closed_row_def)
  show "hm_get (ps_by_id (snd (close_active a s m now st))) = (hm_get (ps_by_id st))(pp_id p \<mapsto> closed_row now p)"
    by (simp add: u hm_fun_simps)
qed

lemma liquidate_active_Some:
  assumes inv: "positions_inv st" and act: "active_at st (index_key a s m) = Some p"
  shows "fst (liquidate_active a s m d now st) = Ok (liquidated_row d now p)"
    "active_at (snd (liquidate_active a s m d now st)) = (active_at st)(index_key a s m := None)"
    "positions_inv (snd (liquidate_active a s m d now st))"
    "hm_get (ps_by_id (snd (liquidate_active a s m d now st))) = (hm_get (ps_by_id st))(pp_id p \<mapsto> liquidated_row d now p)"
proof -
  note row = active_at_SomeD [OF inv act]
  have u: "liquidate_active a s m d now st = (Ok (liquidated_row d now p),
      st\<lparr>ps_active := hm_remove (index_key a s m) (ps_active st), ps_by_id := hm_insert (pp_id p) (liquidated_row d now p) (ps_by_id st)\<rparr>)"
    using row(1,2) by (simp add: liquidate_active_def liquidated_row_def Let_def)
  show "fst (liquidate_active a s m d now st) = Ok (liquidated_row d now p)" by (simp add: u)
  show "active_at (snd (liquidate_active a s m d now st)) = (active_at st)(index_key a s m := None)"
    using active_at_retire [OF inv row(1)] by (simp add: u)
  show "positions_inv (snd (liquidate_active a s m d now st))"
    using retire_inv [OF inv row(1), of "liquidated_row d now p"] by (simp add: u liquidated_row_def)
  show "hm_get (ps_by_id (snd (liquidate_active a s m d now st))) = (hm_get (ps_by_id st))(pp_id p \<mapsto> liquidated_row d now p)"
    by (simp add: u hm_fun_simps)
qed

lemma retire_None:
  assumes "positions_inv st" "active_at st (index_key a s m) = None"
  shows "close_active a s m now st = (Err PerpPositionNotFound, st)"
    "liquidate_active a s m d now st = (Err PerpPositionNotFound, st)"
  using assms active_at_None [of st "index_key a s m"]
  by (simp_all add: close_active_def liquidate_active_def)

lemma update_closed_Some:
  assumes inv: "positions_inv st" and row: "hm_get (ps_by_id st) i = Some p" "pp_status p = PosClosed"
  shows "fst (update_closed_realized_pnl i d now st)
       = Ok (p\<lparr>pp_realized_pnl_1e8 := i128_saturating_add (pp_realized_pnl_1e8 p) d, pp_updated_at_ms := now\<rparr>)"
    "active_at (snd (update_closed_realized_pnl i d now st)) = active_at st"
    "positions_inv (snd (update_closed_realized_pnl i d now st))"
proof -
  let ?p = "p\<lparr>pp_realized_pnl_1e8 := i128_saturating_add (pp_realized_pnl_1e8 p) d, pp_updated_at_ms := now\<rparr>"
  have u: "update_closed_realized_pnl i d now st = (Ok ?p, st\<lparr>ps_by_id := hm_insert i ?p (ps_by_id st)\<rparr>)"
    using row by (simp add: update_closed_realized_pnl_def Let_def)
  have other: "hm_get (ps_active st) k \<noteq> Some i" for k
    using index_okD(3) [OF positions_index_ok [OF inv], of k i] row by (auto simp: pp_is_open_def)
  have id: "pp_id p = i" using index_okD(1) [OF positions_index_ok [OF inv] row(1)] .
  show "fst (update_closed_realized_pnl i d now st) = Ok ?p" by (simp add: u)
  show "active_at (snd (update_closed_realized_pnl i d now st)) = active_at st"
  proof
    fix k show "active_at (snd (update_closed_realized_pnl i d now st)) k = active_at st k"
      using other [of k] by (auto simp: u active_at_def split: option.splits)
  qed
  show "positions_inv (snd (update_closed_realized_pnl i d now st))"
    using replace_open_inv [OF inv row(1), of ?p] id by (simp add: u)
qed

lemma insert_open_Err: "fst (insert_open p st) = Err e \<Longrightarrow> snd (insert_open p st) = st"
  by (auto simp: insert_open_def Let_def split: if_splits)

lemma update_closed_Err: "fst (update_closed_realized_pnl i d now st) = Err e \<Longrightarrow> snd (update_closed_realized_pnl i d now st) = st"
  by (auto simp: update_closed_realized_pnl_def Let_def split: option.splits if_splits)

lemma close_active_inv: "positions_inv st \<Longrightarrow> positions_inv (snd (close_active a s m now st))"
  by (cases "active_at st (index_key a s m)") (simp_all add: retire_None close_active_Some(3))

lemma liquidate_active_inv: "positions_inv st \<Longrightarrow> positions_inv (snd (liquidate_active a s m d now st))"
  by (cases "active_at st (index_key a s m)") (simp_all add: retire_None liquidate_active_Some(3))

lemma update_closed_inv:
  assumes "positions_inv st"
  shows "positions_inv (snd (update_closed_realized_pnl i d now st))"
proof (cases "fst (update_closed_realized_pnl i d now st)")
  case (Inl e)
  then show ?thesis using update_closed_Err assms by metis
next
  case (Inr q)
  then obtain p where "hm_get (ps_by_id st) i = Some p" "pp_status p = PosClosed"
    by (auto simp: update_closed_realized_pnl_def Let_def split: option.splits if_splits)
  then show ?thesis using update_closed_Some(3) [OF assms] by blast
qed


section \<open>Reachable stores\<close>

text \<open>The operations of the store in any order; ids are drawn fresh.\<close>

inductive positions_reachable :: "perp_positions_store \<Rightarrow> bool" where
  reach_new: "positions_reachable new_positions_store"
| reach_open: "positions_reachable st \<Longrightarrow> hm_get (ps_by_id st) (pp_id p) = None
     \<Longrightarrow> positions_reachable (snd (insert_open p st))"
| reach_update: "positions_reachable st \<Longrightarrow> keeps_identity f
     \<Longrightarrow> positions_reachable (snd (update_active a s m now f st))"
| reach_close: "positions_reachable st \<Longrightarrow> positions_reachable (snd (close_active a s m now st))"
| reach_patch: "positions_reachable st \<Longrightarrow> positions_reachable (snd (update_closed_realized_pnl i d now st))"
| reach_liquidate: "positions_reachable st \<Longrightarrow> positions_reachable (snd (liquidate_active a s m d now st))"

lemma positions_reachable_inv: "positions_reachable st \<Longrightarrow> positions_inv st"
  by (induction rule: positions_reachable.induct)
    (simp_all add: new_positions_inv insert_open_inv update_active_inv close_active_inv
      update_closed_inv liquidate_active_inv)

text \<open>
  C26: In every store reached from the empty one by opening, updating, closing, patching and
  liquidating positions, the lookup of an account, subaccount and market finds a position exactly
  if it is the open position stored for that key; two different open positions never have the same
  key, so there is at most one per account, subaccount and market, whatever the case the account
  is written in.
\<close>

theorem one_open_position_per_key:
  assumes "positions_reachable st"
  shows "(\<forall>a s m p. get_active st a s m = Some p \<longleftrightarrow>
       hm_get (ps_by_id st) (pp_id p) = Some p \<and> pp_is_open p \<and>
       to_lowercase (pp_account p) = to_lowercase a \<and> pp_subaccount_id p = s \<and> pp_market_id p = m) \<and>
     (\<forall>i j p q. hm_get (ps_by_id st) i = Some p \<and> hm_get (ps_by_id st) j = Some q \<and> pp_is_open p \<and> pp_is_open q \<and>
       to_lowercase (pp_account p) = to_lowercase (pp_account q) \<and> pp_subaccount_id p = pp_subaccount_id q \<and>
       pp_market_id p = pp_market_id q \<longrightarrow> i = j)"
proof (intro conjI allI impI)
  note inv = positions_reachable_inv [OF assms]
  fix a s m p
  show "get_active st a s m = Some p \<longleftrightarrow>
       hm_get (ps_by_id st) (pp_id p) = Some p \<and> pp_is_open p \<and>
       to_lowercase (pp_account p) = to_lowercase a \<and> pp_subaccount_id p = s \<and> pp_market_id p = m"
    by (simp add: get_active_at active_at_iff [OF inv] pp_key_def index_key_def)
next
  note ok = positions_index_ok [OF positions_reachable_inv [OF assms]]
  fix i j p q
  assume "hm_get (ps_by_id st) i = Some p \<and> hm_get (ps_by_id st) j = Some q \<and> pp_is_open p \<and> pp_is_open q \<and>
       to_lowercase (pp_account p) = to_lowercase (pp_account q) \<and> pp_subaccount_id p = pp_subaccount_id q \<and>
       pp_market_id p = pp_market_id q"
  then show "i = j" using index_ok_unique [OF ok, of i p j q] by (simp add: pp_key_def index_key_def)
qed

definition ex_position :: perp_position where
  "ex_position = new_position_skeleton 1 10 ''0xAb'' 1 ''ETH-PERP'' PerpLong 100000000 300000000000 30000000000"

definition ex_positions :: perp_positions_store where
  "ex_positions = snd (insert_open ex_position new_positions_store)"

lemma ex_positions_reachable: "positions_reachable ex_positions"
  unfolding ex_positions_def by (rule reach_open [OF reach_new]) (simp add: new_positions_store_def)

lemma ex_positions_row: "hm_get (ps_by_id ex_positions) 1 = Some ex_position"
  by (simp add: ex_positions_def insert_open_def ex_position_def new_position_skeleton_def new_positions_store_def
      hm_contains_key_def Let_def)

theorem one_open_position_per_key_witness: "get_active ex_positions ''0xaB'' 1 ''ETH-PERP'' = Some ex_position"
proof -
  have "pp_id ex_position = 1" "pp_is_open ex_position" "to_lowercase (pp_account ex_position) = to_lowercase ''0xaB''"
    "pp_subaccount_id ex_position = 1" "pp_market_id ex_position = ''ETH-PERP''"
    by code_simp+
  then show ?thesis
    using one_open_position_per_key [OF ex_positions_reachable] ex_positions_row by simp
qed

text \<open>
  Settling a funding payment conserves money: the margin and the bad debt change by the
  payment together, bad debt only arises once the margin is used up, and a credit is lost only
  beyond the 128-bit range.
\<close>

theorem funding_payment_conserved:
  assumes "in_i128 payment" "int (unat margin) - payment < 2 ^ 128" "payment \<noteq> i128_MIN"
    "apply_funding_payment_to_margin margin payment = (margin', bad_debt)"
  shows "int (unat margin') - int (unat bad_debt) = int (unat margin) - payment \<and>
     (bad_debt \<noteq> 0 \<longrightarrow> margin' = 0) \<and> (payment \<le> 0 \<longrightarrow> bad_debt = 0)"
proof -
  consider "payment = 0" | "0 < payment" | "payment < 0" by linarith
  then show ?thesis
  proof cases
    case 2
    have p: "unat (i128_as_u128 payment) = nat payment"
      using 2 assms(1) by (simp add: unat_i128_as_u128)
    show ?thesis
    proof (cases "i128_as_u128 payment > margin")
      case True
      then have le: "unat margin \<le> nat payment" by (simp add: p [symmetric] word_less_nat_alt)
      have "margin' = 0" "bad_debt = i128_as_u128 payment - margin"
        using True 2 assms(4) by (simp_all add: apply_funding_payment_to_margin_def Let_def)
      moreover from this have "unat bad_debt = nat payment - unat margin"
        using True p by (simp add: unat_sub_le [OF less_imp_le])
      moreover have "int (unat margin') - int (unat bad_debt) = int (unat margin) - payment"
        using calculation le 2 by (simp only: unat_0 of_nat_0 of_nat_diff; linarith)
      ultimately show ?thesis using 2 by simp
    next
      case False
      then have le: "nat payment \<le> unat margin" by (simp add: p [symmetric] word_less_nat_alt)
      have "margin' = margin - i128_as_u128 payment" "bad_debt = 0"
        using False 2 assms(4) by (simp_all add: apply_funding_payment_to_margin_def Let_def)
      moreover from this have "unat margin' = unat margin - nat payment"
        using False p by (simp add: unat_sub_le)
      moreover have "int (unat margin') - int (unat bad_debt) = int (unat margin) - payment"
        using calculation le 2 by (simp only: unat_0 of_nat_0 of_nat_diff; linarith)
      ultimately show ?thesis using 2 by simp
    qed
  next
    case 3
    have r: "in_i128 (- payment)" using 3 assms(1,3) by (auto simp: in_i128_def i128_bounds)
    then have w: "i128_wrap (- payment) = - payment" by (rule i128_wrap_id)
    have p: "unat (i128_as_u128 (- payment)) = nat (- payment)"
      using 3 r by (simp add: unat_i128_as_u128)
    have "int (unat margin + nat (- payment)) < int (2 ^ 128)" using assms(2) 3 by simp
    then have fit: "unat margin + nat (- payment) < 2 ^ 128" by (simp only: of_nat_less_iff)
    have "margin' = saturating_add margin (i128_as_u128 (- payment))" "bad_debt = 0"
      using assms(4) 3 w by (auto simp: apply_funding_payment_to_margin_def Let_def)
    then show ?thesis using fit 3 by (simp add: unat_saturating_add p)
  qed (use assms(4) in \<open>auto simp: apply_funding_payment_to_margin_def\<close>)
qed

theorem funding_payment_conserved_witness:
  "int (unat (0 :: u128)) - int (unat (5 :: u128)) = int (unat (10 :: u128)) - 15"
  using funding_payment_conserved [of 15 10 0 5]
  by (simp add: apply_funding_payment_to_margin_def i128_as_u128_def in_i128_def i128_bounds)

end
