(* ===== verification/Perp_Config.thy ===== *)
theory Perp_Config
  imports Types
begin

text \<open>
  The perpetuals configuration, \<^verbatim>\<open>src/perps/config.rs\<close>: market rows with their risk parameters, the
  startup checks, and the market risk status derived from an oracle reading and the operator flags.
\<close>


section \<open>Market rows\<close>

record perps_read_market =
  pm_symbol :: string
  pm_onchain_market_id :: u64
  pm_base_asset_label :: string
  pm_quote_asset_label :: string
  pm_base_asset_address :: account_id
  pm_quote_asset_address :: account_id
  pm_max_leverage :: u32
  pm_maintenance_margin_bps :: u32
  pm_max_order_size_1e8 :: "u128 option"
  pm_max_order_notional_1e8 :: "u128 option"
  pm_max_subaccount_notional_1e8 :: "u128 option"
  pm_max_open_interest_1e8 :: "u128 option"

text \<open>\<^verbatim>\<open>u32 as u128\<close> keeps the value.\<close>

definition u32_as_u128 :: "u32 \<Rightarrow> u128" where
  "u32_as_u128 x = ucast x"

lemma unat_u32_as_u128 [u128_simps]: "unat (u32_as_u128 x) = unat x"
proof -
  have "unat x < 2 ^ 32" using unsigned_less [of x] by simp
  then have "unat x < 2 ^ 128" by (rule order_less_trans) simp
  then show ?thesis by (simp only: u32_as_u128_def unsigned_ucast_eq) (simp add: take_bit_nat_eq_self)
qed

lemma u32_as_u128_eq_0 [simp]: "u32_as_u128 x = 0 \<longleftrightarrow> x = 0"
  using unat_u32_as_u128 [of x] by (metis unat_eq_zero)

definition BPS :: u128 where "BPS = 10000"

definition PRICE_SCALE_1E8 :: u128 where "PRICE_SCALE_1E8 = 100000000"

lemma unat_scales [simp]: "unat BPS = 10000" "unat PRICE_SCALE_1E8 = 100000000" "BPS \<noteq> 0" "PRICE_SCALE_1E8 \<noteq> 0"
  by (simp_all add: BPS_def PRICE_SCALE_1E8_def)

definition market_validate_startup :: "perps_read_market \<Rightarrow> backend_error + unit" where
  "market_validate_startup m =
     (if pm_max_leverage m = 0 then Err Config
      else if pm_maintenance_margin_bps m = 0 \<or> pm_maintenance_margin_bps m \<ge> 10000 then Err Config
      else let initial_bps = BPS div u32_as_u128 (pm_max_leverage m)
           in if u32_as_u128 (pm_maintenance_margin_bps m) \<ge> initial_bps then Err Config
              else if Some 0 \<in> set [pm_max_order_size_1e8 m, pm_max_order_notional_1e8 m,
                                   pm_max_subaccount_notional_1e8 m, pm_max_open_interest_1e8 m]
              then Err Config
              else Ok ())"


section \<open>The configuration\<close>

definition DEFAULT_BASE_SEPOLIA_CHAIN_ID :: u64 where "DEFAULT_BASE_SEPOLIA_CHAIN_ID = 84532"
definition DEFAULT_STALE_AFTER_SEC :: u64 where "DEFAULT_STALE_AFTER_SEC = 60"
definition DEFAULT_MAX_DEVIATION_BPS :: u32 where "DEFAULT_MAX_DEVIATION_BPS = 500"
definition MAX_ALLOWED_DEVIATION_BPS :: u32 where "MAX_ALLOWED_DEVIATION_BPS = 5000"
definition MIN_STALE_AFTER_SEC :: u64 where "MIN_STALE_AFTER_SEC = 1"
definition MAX_STALE_AFTER_SEC :: u64 where "MAX_STALE_AFTER_SEC = 3600"

record perps_read_config =
  pc_enabled :: bool
  pc_chain_id :: u64
  pc_rpc_url :: "string option"
  pc_market_registry_address :: "account_id option"
  pc_oracle_router_address :: "account_id option"
  pc_markets :: "perps_read_market list"
  pc_stale_after_sec :: u64
  pc_oracle_max_deviation_bps :: u32

definition disabled_config :: perps_read_config where
  "disabled_config =
     \<lparr> pc_enabled = False, pc_chain_id = DEFAULT_BASE_SEPOLIA_CHAIN_ID, pc_rpc_url = None,
       pc_market_registry_address = None, pc_oracle_router_address = None, pc_markets = [],
       pc_stale_after_sec = DEFAULT_STALE_AFTER_SEC, pc_oracle_max_deviation_bps = DEFAULT_MAX_DEVIATION_BPS \<rparr>"

definition eth_perp_market :: perps_read_market where
  "eth_perp_market =
     \<lparr> pm_symbol = ''ETH-PERP'', pm_onchain_market_id = 1, pm_base_asset_label = ''ETH'',
       pm_quote_asset_label = ''mUSDC'',
       pm_base_asset_address = ''0x4deebc5f537f3b8ba0e3393807b4d699d72bdd02'',
       pm_quote_asset_address = ''0x6eae407f5640b006fac9965182e238582a3b412e'',
       pm_max_leverage = 10, pm_maintenance_margin_bps = 500,
       pm_max_order_size_1e8 = Some (10 * 100000000),
       pm_max_order_notional_1e8 = Some (100000 * 100000000),
       pm_max_subaccount_notional_1e8 = Some (500000 * 100000000),
       pm_max_open_interest_1e8 = Some (50 * 100000000) \<rparr>"

definition btc_perp_market :: perps_read_market where
  "btc_perp_market =
     \<lparr> pm_symbol = ''BTC-PERP'', pm_onchain_market_id = 2, pm_base_asset_label = ''BTC'',
       pm_quote_asset_label = ''mUSDC'',
       pm_base_asset_address = ''0x9d871ac7595e8da271e866608e5145252047967c'',
       pm_quote_asset_address = ''0x6eae407f5640b006fac9965182e238582a3b412e'',
       pm_max_leverage = 5, pm_maintenance_margin_bps = 750,
       pm_max_order_size_1e8 = Some 100000000,
       pm_max_order_notional_1e8 = Some (100000 * 100000000),
       pm_max_subaccount_notional_1e8 = Some (500000 * 100000000),
       pm_max_open_interest_1e8 = Some (5 * 100000000) \<rparr>"

definition enabled_in_memory_for_tests :: perps_read_config where
  "enabled_in_memory_for_tests =
     \<lparr> pc_enabled = True, pc_chain_id = DEFAULT_BASE_SEPOLIA_CHAIN_ID, pc_rpc_url = None,
       pc_market_registry_address = Some ''0xb4fcf45e57b93274441def8f0f68bd30f6d677ec'',
       pc_oracle_router_address = Some ''0xb416406f200b2ef3d7a86a5d5877ed41d9b1a581'',
       pc_markets = [eth_perp_market, btc_perp_market],
       pc_stale_after_sec = DEFAULT_STALE_AFTER_SEC, pc_oracle_max_deviation_bps = DEFAULT_MAX_DEVIATION_BPS \<rparr>"

fun validate_markets :: "perps_read_market list \<Rightarrow> backend_error + unit" where
  "validate_markets [] = Ok ()"
| "validate_markets (m # ms) = and_then (market_validate_startup m) (\<lambda>_. validate_markets ms)"

definition validate_startup :: "perps_read_config \<Rightarrow> backend_error + unit" where
  "validate_startup cfg =
     (if pc_oracle_max_deviation_bps cfg = 0 \<or> pc_oracle_max_deviation_bps cfg > MAX_ALLOWED_DEVIATION_BPS
      then Err Config
      else if pc_stale_after_sec cfg < MIN_STALE_AFTER_SEC \<or> pc_stale_after_sec cfg > MAX_STALE_AFTER_SEC
      then Err Config
      else if \<not> pc_enabled cfg then Ok ()
      else if pc_chain_id cfg = 1 \<or> pc_chain_id cfg = 8453 then Err Config
      else if pc_rpc_url cfg = None then Err Config
      else if pc_market_registry_address cfg = None then Err Config
      else if pc_oracle_router_address cfg = None then Err Config
      else if pc_markets cfg = [] then Err Config
      else validate_markets (pc_markets cfg))"

definition market_by_symbol :: "perps_read_config \<Rightarrow> string \<Rightarrow> perps_read_market option" where
  "market_by_symbol cfg symbol = List.find (\<lambda>m. pm_symbol m = symbol) (pc_markets cfg)"


section \<open>Market risk status\<close>

datatype perps_market_risk_status =
    Active
  | StaleOracle string
  | DeviationExceeded u32 u32
  | Paused

definition allows_new_risk :: "perps_market_risk_status \<Rightarrow> bool" where
  "allows_new_risk s = (s = Active)"

definition reason_code :: "perps_market_risk_status \<Rightarrow> string" where
  "reason_code s =
     (case s of
        Active \<Rightarrow> ''active''
      | StaleOracle _ \<Rightarrow> ''stale_oracle''
      | DeviationExceeded _ _ \<Rightarrow> ''deviation_exceeded''
      | Paused \<Rightarrow> ''paused'')"

record perps_market_oracle_snapshot =
  os_index_price_1e8 :: u128
  os_mark_price_1e8 :: u128
  os_updated_at_ms :: timestamp_ms
  os_is_stale :: bool

record perps_market_admin_override =
  ao_paused :: bool
  ao_cancel_only :: bool
  ao_disabled :: bool

record perps_market_risk_status_view =
  sv_status :: string
  sv_reason_code :: string
  sv_allows_new_risk :: bool
  sv_allows_reduce_only :: bool
  sv_allows_cancel :: bool
  sv_oracle_stale_after_sec :: u64
  sv_oracle_max_deviation_bps :: u32
  sv_last_checked_at_ms :: timestamp_ms

definition u32_try_from :: "u128 \<Rightarrow> u32 option" where
  "u32_try_from x = (if x < 4294967296 then Some (ucast x) else None)"

definition compute_deviation_bps :: "u128 \<Rightarrow> u128 \<Rightarrow> u32" where
  "compute_deviation_bps index_1e8 mark_1e8 =
     (if index_1e8 = 0 then 0
      else let diff = (if mark_1e8 \<ge> index_1e8 then mark_1e8 - index_1e8 else index_1e8 - mark_1e8);
               bps = saturating_mul diff 10000 div index_1e8
           in case u32_try_from bps of Some b \<Rightarrow> b | None \<Rightarrow> - 1)"

definition compute_status ::
  "perps_read_config \<Rightarrow> perps_market_oracle_snapshot option \<Rightarrow> perps_market_admin_override
     \<Rightarrow> perps_market_risk_status" where
  "compute_status cfg oracle admin =
     (if ao_disabled admin then Paused
      else if ao_paused admin then Paused
      else if ao_cancel_only admin then Paused
      else case oracle of
             None \<Rightarrow> StaleOracle ''oracle_read_unavailable''
           | Some snapshot \<Rightarrow>
               if os_is_stale snapshot then StaleOracle ''oracle_stale''
               else let observed = compute_deviation_bps (os_index_price_1e8 snapshot) (os_mark_price_1e8 snapshot)
                    in if os_index_price_1e8 snapshot \<noteq> 0 \<and> observed > pc_oracle_max_deviation_bps cfg
                       then DeviationExceeded observed (pc_oracle_max_deviation_bps cfg)
                       else Active)"

definition status_wire :: "perps_market_risk_status \<Rightarrow> string \<times> string" where
  "status_wire s =
     (case s of
        Active \<Rightarrow> (''active'', ''active'')
      | StaleOracle reason \<Rightarrow> (''stale_oracle'', ''stale_oracle:'' @ reason)
      | DeviationExceeded observed_bps threshold_bps \<Rightarrow>
          (''deviation_exceeded'',
           ''deviation_exceeded:observed='' @ decimal (unat observed_bps) @ '',threshold='' @ decimal (unat threshold_bps))
      | Paused \<Rightarrow> (''paused'', ''paused''))"

definition compute_perps_market_risk_status_view ::
  "perps_read_config \<Rightarrow> perps_market_oracle_snapshot option \<Rightarrow> perps_market_admin_override \<Rightarrow> timestamp_ms
     \<Rightarrow> perps_market_risk_status_view" where
  "compute_perps_market_risk_status_view cfg oracle admin now =
     (let status = compute_status cfg oracle admin;
          (status_str, reason) =
            (if ao_disabled admin then (''disabled'', ''disabled'')
             else if ao_paused admin then (''paused'', ''paused'')
             else if ao_cancel_only admin then (''cancel_only'', ''cancel_only'')
             else status_wire status)
      in \<lparr> sv_status = status_str, sv_reason_code = reason,
           sv_allows_new_risk =
             (status = Active \<and> \<not> ao_disabled admin \<and> \<not> ao_paused admin \<and> \<not> ao_cancel_only admin),
           sv_allows_reduce_only = (\<not> ao_disabled admin),
           sv_allows_cancel = (\<not> ao_disabled admin),
           sv_oracle_stale_after_sec = pc_stale_after_sec cfg,
           sv_oracle_max_deviation_bps = pc_oracle_max_deviation_bps cfg,
           sv_last_checked_at_ms = now \<rparr>)"


section \<open>What the checks guarantee\<close>

lemma market_by_symbol_Some:
  "market_by_symbol cfg s = Some m \<Longrightarrow> m \<in> set (pc_markets cfg) \<and> pm_symbol m = s"
  by (auto simp: market_by_symbol_def find_Some_iff)

lemma validate_markets_Ok: "validate_markets ms = Ok () \<longleftrightarrow> (\<forall>m\<in>set ms. market_validate_startup m = Ok ())"
  by (induction ms) (auto simp: and_then_Ok_iff)

lemma market_validate_Ok:
  assumes "market_validate_startup m = Ok ()"
  shows "0 < unat (pm_max_leverage m)" "0 < unat (pm_maintenance_margin_bps m)"
    "unat (pm_maintenance_margin_bps m) * unat (pm_max_leverage m) < 10000"
    "\<forall>c \<in> set [pm_max_order_size_1e8 m, pm_max_order_notional_1e8 m, pm_max_subaccount_notional_1e8 m,
        pm_max_open_interest_1e8 m]. c \<noteq> Some 0"
proof -
  let ?l = "unat (pm_max_leverage m)" and ?b = "unat (pm_maintenance_margin_bps m)"
  have l: "pm_max_leverage m \<noteq> 0" and b: "pm_maintenance_margin_bps m \<noteq> 0"
    and lt: "u32_as_u128 (pm_maintenance_margin_bps m) < BPS div u32_as_u128 (pm_max_leverage m)"
    and caps: "Some 0 \<notin> set [pm_max_order_size_1e8 m, pm_max_order_notional_1e8 m,
        pm_max_subaccount_notional_1e8 m, pm_max_open_interest_1e8 m]"
    using assms unfolding market_validate_startup_def Let_def not_le [symmetric] by (metis Inl_Inr_False)+
  show l': "0 < ?l" "0 < ?b" using l b by (simp_all add: unat_gt_0)
  have "?b < 10000 div ?l" using lt by (simp add: word_less_nat_alt u128_simps)
  then have "(?b + 1) * ?l \<le> 10000 div ?l * ?l" by (intro mult_le_mono1) simp
  also have "\<dots> \<le> 10000" by simp
  finally show "?b * ?l < 10000" using l' by simp
  show "\<forall>c \<in> set [pm_max_order_size_1e8 m, pm_max_order_notional_1e8 m, pm_max_subaccount_notional_1e8 m,
        pm_max_open_interest_1e8 m]. c \<noteq> Some 0" using caps by metis
qed

lemma unat_compute_deviation_bps:
  assumes "i \<noteq> 0"
  shows "unat (compute_deviation_bps i k) =
     min (min (nat \<bar>int (unat k) - int (unat i)\<bar> * 10000) (2 ^ 128 - 1) div unat i) (2 ^ 32 - 1)"
proof -
  let ?d = "if k \<ge> i then k - i else i - k"
  have d: "unat ?d = nat \<bar>int (unat k) - int (unat i)\<bar>"
    unfolding word_le_nat_alt by (auto simp: unat_sub_if' nat_abs_int_diff simp del: of_nat_unat)
  have cap: "unat (case u32_try_from x of Some b \<Rightarrow> b | None \<Rightarrow> - 1) = min (unat x) (2 ^ 32 - 1)" for x
    by (auto simp: u32_try_from_def word_less_nat_alt unsigned_ucast_eq take_bit_eq_mod unsigned_minus_1_eq_mask mask_eq_exp_minus_1)
  show ?thesis
    using assms by (simp add: compute_deviation_bps_def Let_def cap u128_simps d)
qed

end
