(* ===== verification/Perp_Margin.thy ===== *)
theory Perp_Margin
  imports Perp_Positions Perp_Config
begin

text \<open>
  Margin and profit arithmetic of the perpetuals engine, \<^verbatim>\<open>src/perps/margin.rs\<close>.  The lemmas give
  the exact mathematical meaning of each formula, with the range in which it holds.
\<close>


section \<open>Definitions\<close>

definition ceil_div :: "u128 \<Rightarrow> u128 \<Rightarrow> u128" where
  "ceil_div a b = (if b = 0 then u128_MAX else div_ceil a b)"

definition mul_div_floor :: "u128 \<Rightarrow> u128 \<Rightarrow> u128 \<Rightarrow> u128" where
  "mul_div_floor a b denom =
     (if denom = 0 then 0
      else case checked_mul a b of Some product \<Rightarrow> product div denom | None \<Rightarrow> u128_MAX div denom)"

definition notional_1e8 :: "u128 \<Rightarrow> u128 \<Rightarrow> u128" where
  "notional_1e8 size_1e8 price_1e8 =
     (if size_1e8 = 0 \<or> price_1e8 = 0 then 0 else mul_div_floor size_1e8 price_1e8 PRICE_SCALE_1E8)"

definition initial_margin_requirement_1e8 :: "u128 \<Rightarrow> u128 \<Rightarrow> u32 \<Rightarrow> u128" where
  "initial_margin_requirement_1e8 size_1e8 price_1e8 max_leverage =
     (if max_leverage = 0 then u128_MAX
      else ceil_div (notional_1e8 size_1e8 price_1e8) (u32_as_u128 max_leverage))"

definition maintenance_margin_requirement_1e8 :: "u128 \<Rightarrow> u128 \<Rightarrow> u32 \<Rightarrow> u128" where
  "maintenance_margin_requirement_1e8 size_1e8 price_1e8 maintenance_bps =
     (let notional = notional_1e8 size_1e8 price_1e8
      in if maintenance_bps = 0 \<or> notional = 0 then 0
         else ceil_div (saturating_mul notional (u32_as_u128 maintenance_bps)) BPS)"

definition unrealized_pnl_1e8 :: "perp_position \<Rightarrow> u128 \<Rightarrow> i128" where
  "unrealized_pnl_1e8 p mark_price_1e8 =
     (if pp_size_1e8 p = 0 \<or> mark_price_1e8 = 0 then 0
      else let entry = u128_as_i128 (pp_entry_price_1e8 p);
               mark = u128_as_i128 mark_price_1e8;
               size = u128_as_i128 (pp_size_1e8 p);
               scale = u128_as_i128 PRICE_SCALE_1E8;
               delta_price = (case pp_side p of
                                PerpLong \<Rightarrow> i128_saturating_sub mark entry
                              | PerpShort \<Rightarrow> i128_saturating_sub entry mark)
           in trunc_div (i128_saturating_mul delta_price size) scale)"

definition equity_1e8 :: "perp_position \<Rightarrow> u128 \<Rightarrow> i128" where
  "equity_1e8 p mark_price_1e8 =
     i128_saturating_add (u128_as_i128 (pp_margin_1e8 p)) (unrealized_pnl_1e8 p mark_price_1e8)"

definition realized_pnl_1e8 :: "u128 \<Rightarrow> u128 \<Rightarrow> u128 \<Rightarrow> perp_side \<Rightarrow> i128" where
  "realized_pnl_1e8 entry_price_1e8 close_price_1e8 close_size_1e8 s =
     (if close_size_1e8 = 0 \<or> close_price_1e8 = 0 \<or> entry_price_1e8 = 0 then 0
      else let entry = u128_as_i128 entry_price_1e8;
               close = u128_as_i128 close_price_1e8;
               size = u128_as_i128 close_size_1e8;
               scale = u128_as_i128 PRICE_SCALE_1E8;
               delta = (case s of
                          PerpLong \<Rightarrow> i128_saturating_sub close entry
                        | PerpShort \<Rightarrow> i128_saturating_sub entry close)
           in trunc_div (i128_saturating_mul delta size) scale)"

definition weighted_average_entry_1e8 :: "u128 \<Rightarrow> u128 \<Rightarrow> u128 \<Rightarrow> u128 \<Rightarrow> u128" where
  "weighted_average_entry_1e8 existing_size_1e8 existing_entry_1e8 add_size_1e8 add_price_1e8 =
     (let total_size = saturating_add existing_size_1e8 add_size_1e8
      in if total_size = 0 then 0
         else let existing_notional = saturating_mul existing_size_1e8 existing_entry_1e8;
                  add_notional = saturating_mul add_size_1e8 add_price_1e8
              in saturating_add existing_notional add_notional div total_size)"

definition margin_ratio_bps :: "perp_position \<Rightarrow> u128 \<Rightarrow> u128" where
  "margin_ratio_bps p mark_price_1e8 =
     (let notional = notional_1e8 (pp_size_1e8 p) mark_price_1e8
      in if notional = 0 then 0
         else let equity = equity_1e8 p mark_price_1e8
              in if equity \<le> 0 then 0 else mul_div_floor (i128_as_u128 equity) BPS notional)"

text \<open>The early returns of \<^verbatim>\<open>?\<close> on an option.\<close>

definition estimated_liquidation_price_1e8 :: "perp_position \<Rightarrow> u32 \<Rightarrow> u128 option" where
  "estimated_liquidation_price_1e8 p maintenance_bps =
     (if pp_size_1e8 p = 0 \<or> pp_entry_price_1e8 p = 0 then None
      else let mm = u32_as_u128 maintenance_bps
           in if mm \<ge> BPS then None
              else let size = pp_size_1e8 p; entry = pp_entry_price_1e8 p; margin = pp_margin_1e8 p
                   in Option.bind (Option.bind (checked_mul entry size) (\<lambda>x. checked_mul x BPS)) (\<lambda>entry_notional_bps.
                      Option.bind (Option.bind (checked_mul margin PRICE_SCALE_1E8) (\<lambda>x. checked_mul x BPS)) (\<lambda>margin_bps.
                      case pp_side p of
                        PerpLong \<Rightarrow>
                          Option.bind (checked_sub entry_notional_bps margin_bps) (\<lambda>num.
                          Option.bind (checked_mul size (BPS - mm)) (\<lambda>denom.
                            if denom = 0 then None else Some (num div denom)))
                      | PerpShort \<Rightarrow>
                          Option.bind (checked_add entry_notional_bps margin_bps) (\<lambda>num.
                          Option.bind (checked_mul size (BPS + mm)) (\<lambda>denom.
                            if denom = 0 then None else Some (num div denom))))))"


section \<open>Meaning of the unsigned formulas\<close>

lemma unat_mul_div_floor:
  "unat (mul_div_floor a b d) = (if d = 0 then 0 else min (unat a * unat b) (2 ^ 128 - 1) div unat d)"
  by (auto simp: mul_div_floor_def checked_mul_def unat_div_u128 unat_word_ariths min_def)

lemma unat_notional:
  "unat (notional_1e8 s p) = min (unat s * unat p) (2 ^ 128 - 1) div 100000000"
  by (auto simp: notional_1e8_def unat_mul_div_floor)

lemma unat_notional_exact:
  "unat s * unat p < 2 ^ 128 \<Longrightarrow> unat (notional_1e8 s p) = unat s * unat p div 100000000"
  by (simp add: unat_notional min_def)

text \<open>A quotient rounded up is at most a bound exactly if the bound covers the dividend.\<close>

lemma ceil_le_iff:
  fixes n k c :: nat
  assumes "0 < k"
  shows "(n + k - 1) div k \<le> c \<longleftrightarrow> n \<le> c * k"
proof -
  have "(n + k - 1) div k \<le> c \<longleftrightarrow> n + k - 1 < (c + 1) * k"
    using div_less_iff_less_mult [OF assms, of "n + k - 1" "c + 1"] by (simp add: less_Suc_eq_le)
  also have "\<dots> \<longleftrightarrow> n \<le> c * k" using assms by (auto simp: algebra_simps)
  finally show ?thesis .
qed

lemma ceil_div_le_iff: "b \<noteq> 0 \<Longrightarrow> ceil_div a b \<le> c \<longleftrightarrow> unat a \<le> unat c * unat b"
  using ceil_le_iff [of "unat b" "unat a" "unat c"]
  by (simp add: ceil_div_def word_le_nat_alt unat_div_ceil unat_gt_0)

lemma initial_margin_le_iff:
  assumes "l \<noteq> 0"
  shows "initial_margin_requirement_1e8 s p l \<le> margin \<longleftrightarrow> unat (notional_1e8 s p) \<le> unat margin * unat l"
  using assms by (simp add: initial_margin_requirement_1e8_def ceil_div_le_iff unat_u32_as_u128)

lemma maintenance_margin_le_iff:
  assumes "unat (notional_1e8 s p) * unat b < 2 ^ 128"
  shows "maintenance_margin_requirement_1e8 s p b \<le> margin
     \<longleftrightarrow> unat (notional_1e8 s p) * unat b \<le> unat margin * 10000"
  using assms
  by (simp add: maintenance_margin_requirement_1e8_def Let_def ceil_div_le_iff unat_saturating_mul unat_u32_as_u128
      min_def unat_eq_0)

lemma maintenance_below_initial_margin:
  assumes "market_validate_startup m = Ok ()" and fit: "unat s * unat p < 2 ^ 114"
    and size: "10000 * unat (pm_max_leverage m) \<le> unat (notional_1e8 s p)"
  shows "maintenance_margin_requirement_1e8 s p (pm_maintenance_margin_bps m)
     < initial_margin_requirement_1e8 s p (pm_max_leverage m)"
proof -
  let ?l = "unat (pm_max_leverage m)" and ?b = "unat (pm_maintenance_margin_bps m)" and ?n = "unat (notional_1e8 s p)"
  let ?i = "initial_margin_requirement_1e8 s p (pm_max_leverage m)"
  note ok = market_validate_Ok [OF assms(1)]
  have l: "pm_max_leverage m \<noteq> 0" using ok(1) by (simp add: unat_gt_0)
  have i: "?n \<le> unat ?i * ?l" using initial_margin_le_iff [OF l, of s p ?i] by simp
  have "?b < 10000" using ok(1,3) by (metis Suc_leI less_one linorder_not_less mult.commute mult_le_mono1 nat_mult_1 One_nat_def order_less_le_trans)
  moreover have "?n \<le> unat s * unat p" by (simp add: unat_notional div_le_dividend [THEN order_trans])
  ultimately have "?n * ?b \<le> 2 ^ 114 * 10000" using fit by (intro mult_le_mono) auto
  then have nb: "?n * ?b < 2 ^ 128" by simp
  have "?n * ?b * ?l + ?n \<le> ?n * 10000"
    using mult_le_mono2 [of "?b * ?l + 1" 10000 ?n] ok(3) by (simp add: algebra_simps)
  then have "?n * ?b * ?l + 10000 * ?l \<le> ?n * 10000" using size by linarith
  also have "\<dots> \<le> unat ?i * ?l * 10000" using i by simp
  finally have "(?n * ?b + 10000) * ?l \<le> (unat ?i * 10000) * ?l" by (simp add: algebra_simps)
  then have *: "?n * ?b + 10000 \<le> unat ?i * 10000" using ok(1) by simp
  then have pos: "0 < unat ?i" by linarith
  define c where "c = ?i - 1"
  have c: "unat c = unat ?i - 1" using pos unfolding c_def by (subst unat_sub_le) (auto simp: word_le_nat_alt)
  have "maintenance_margin_requirement_1e8 s p (pm_maintenance_margin_bps m) \<le> c"
    unfolding maintenance_margin_le_iff [OF nb] c using * by (simp add: diff_mult_distrib)
  then show ?thesis using c pos by (simp add: word_le_nat_alt word_less_nat_alt)
qed


section \<open>Meaning of the signed formulas\<close>

definition side_sign :: "perp_side \<Rightarrow> int" where
  "side_sign s = (case s of PerpLong \<Rightarrow> 1 | PerpShort \<Rightarrow> - 1)"

lemma side_sign_simps [simp]: "side_sign PerpLong = 1" "side_sign PerpShort = - 1"
  by (simp_all add: side_sign_def)

lemma price_scale_cast [simp]: "u128_as_i128 PRICE_SCALE_1E8 = 100000000"
  by (simp add: u128_as_i128_small)

text \<open>Both values of the position fit a signed 128-bit integer.\<close>

definition pnl_fits :: "u128 \<Rightarrow> u128 \<Rightarrow> u128 \<Rightarrow> bool" where
  "pnl_fits s entry mark =
     (s \<noteq> 0 \<and> mark \<noteq> 0 \<and> uint entry * uint s < 2 ^ 127 \<and> uint mark * uint s < 2 ^ 127)"

lemma uint_ge_1: "x \<noteq> 0 \<Longrightarrow> 1 \<le> uint (x :: 'a::len word)"
proof -
  assume "x \<noteq> 0"
  then have "uint x \<noteq> 0" by (simp add: uint_0_iff)
  moreover have "0 \<le> uint x" by simp
  ultimately show ?thesis by linarith
qed

lemma pnl_fitsD:
  assumes "pnl_fits s e k"
  shows "u128_as_i128 s = uint s" "u128_as_i128 e = uint e" "u128_as_i128 k = uint k"
    "in_i128 (uint k - uint e)" "in_i128 ((uint k - uint e) * uint s)"
proof -
  have s1: "1 \<le> uint s" and k1: "1 \<le> uint k" and nn: "0 \<le> uint e"
    using assms by (simp_all add: pnl_fits_def uint_ge_1)
  have es: "uint e * uint s < 2 ^ 127" and ks: "uint k * uint s < 2 ^ 127" using assms by (simp_all add: pnl_fits_def)
  have "1 * uint s \<le> uint k * uint s" "uint k * 1 \<le> uint k * uint s" "uint e * 1 \<le> uint e * uint s"
    using s1 k1 nn by (intro mult_right_mono mult_left_mono; linarith)+
  then have lt: "uint s < 2 ^ 127" "uint k < 2 ^ 127" "uint e < 2 ^ 127" using es ks by linarith+
  have cast: "u128_as_i128 x = uint x" if "uint x < 2 ^ 127" for x
  proof -
    have "unat x < 2 ^ 127" using that by (metis uint_nat of_nat_less_iff of_nat_numeral of_nat_power)
    then show ?thesis by (simp only: u128_as_i128_small uint_nat)
  qed
  show "u128_as_i128 s = uint s" "u128_as_i128 e = uint e" "u128_as_i128 k = uint k"
    by (rule cast [OF lt(1)], rule cast [OF lt(3)], rule cast [OF lt(2)])
  show "in_i128 (uint k - uint e)"
    unfolding in_i128_def i128_bounds using lt nn k1 by (intro conjI) linarith+
  have "0 \<le> uint e * uint s" "0 \<le> uint k * uint s" using s1 k1 nn by (intro mult_nonneg_nonneg; linarith)+
  then show "in_i128 ((uint k - uint e) * uint s)"
    unfolding in_i128_def i128_bounds left_diff_distrib using es ks by (intro conjI) linarith+
qed

lemma in_i128_uminus: "in_i128 x \<Longrightarrow> x \<noteq> i128_MIN \<Longrightarrow> in_i128 (- x)"
  by (auto simp: in_i128_def i128_bounds)

lemma pnl_fits_neg:
  assumes "pnl_fits s e k"
  shows "in_i128 (uint e - uint k)" "in_i128 ((uint e - uint k) * uint s)"
proof -
  have "0 \<le> uint k" "0 \<le> uint e" "0 \<le> uint s" by simp_all
  then have "0 \<le> uint e * uint s" "0 \<le> uint k * uint s" by simp_all
  moreover have "uint e * uint s < 2 ^ 127" "uint k * uint s < 2 ^ 127" using assms by (simp_all add: pnl_fits_def)
  ultimately show "in_i128 ((uint e - uint k) * uint s)"
    unfolding in_i128_def i128_bounds left_diff_distrib by (intro conjI) linarith+
  show "in_i128 (uint e - uint k)"
    using pnl_fitsD(2,3) [OF assms] in_i128_cast [of e] in_i128_cast [of k] \<open>0 \<le> uint k\<close> \<open>0 \<le> uint e\<close>
    unfolding in_i128_def i128_bounds by (intro conjI) linarith+
qed

definition pnl_exact :: "perp_side \<Rightarrow> u128 \<Rightarrow> u128 \<Rightarrow> u128 \<Rightarrow> int" where
  "pnl_exact sd s e k = trunc_div (side_sign sd * ((uint k - uint e) * uint s)) 100000000"

lemma pnl_formula:
  assumes "pnl_fits s e k"
  shows "trunc_div (i128_saturating_mul
     (case sd of PerpLong \<Rightarrow> i128_saturating_sub (u128_as_i128 k) (u128_as_i128 e)
       | PerpShort \<Rightarrow> i128_saturating_sub (u128_as_i128 e) (u128_as_i128 k)) (u128_as_i128 s)) 100000000
     = pnl_exact sd s e k"
proof -
  have neg: "(uint e - uint k) * uint s = - ((uint k - uint e) * uint s)" by (simp add: algebra_simps)
  show ?thesis
    using pnl_fitsD [OF assms] pnl_fits_neg [OF assms] neg
    by (cases sd) (simp_all add: pnl_exact_def i128_saturating_sub_def i128_saturating_mul_def i128_sat_id)
qed

lemma unrealized_exact:
  "pnl_fits (pp_size_1e8 p) (pp_entry_price_1e8 p) k
     \<Longrightarrow> unrealized_pnl_1e8 p k = pnl_exact (pp_side p) (pp_size_1e8 p) (pp_entry_price_1e8 p) k"
  using pnl_formula by (simp add: unrealized_pnl_1e8_def Let_def pnl_fits_def)

lemma realized_exact:
  "pnl_fits s e k \<Longrightarrow> e \<noteq> 0 \<Longrightarrow> realized_pnl_1e8 e k s sd = pnl_exact sd s e k"
  using pnl_formula by (simp add: realized_pnl_1e8_def Let_def pnl_fits_def)

lemma pnl_exact_opposite: "pnl_exact (perp_side_opposite sd) s e k = - pnl_exact sd s e k"
  by (cases sd) (simp_all add: pnl_exact_def perp_side_opposite_def trunc_div_neg)

lemma realized_unrealized:
  "pp_entry_price_1e8 p \<noteq> 0
     \<Longrightarrow> realized_pnl_1e8 (pp_entry_price_1e8 p) k (pp_size_1e8 p) (pp_side p) = unrealized_pnl_1e8 p k"
  by (simp add: realized_pnl_1e8_def unrealized_pnl_1e8_def)

lemma trunc_div_near:
  assumes "0 < b"
  shows "\<bar>trunc_div a b * b - a\<bar> < b"
proof (cases "0 \<le> a")
  case True
  then have "trunc_div a b * b - a = - (a mod b)" using assms by (simp add: trunc_div_def minus_mod_eq_div_mult [symmetric] sgn_if)
  then show ?thesis using assms by simp
next
  case False
  then have "trunc_div a b * b - a = (- a) mod b"
    using assms by (simp add: trunc_div_def minus_mod_eq_div_mult [symmetric] sgn_if)
  then show ?thesis using assms by simp
qed

lemma trunc_div_bounds:
  assumes "0 < b"
  shows "\<bar>trunc_div a b\<bar> * b \<le> \<bar>a\<bar>" "\<bar>a\<bar> < (\<bar>trunc_div a b\<bar> + 1) * b"
proof -
  have t: "\<bar>trunc_div a b\<bar> = \<bar>a\<bar> div b"
    using assms by (cases "a = 0") (auto simp: trunc_div_def abs_mult pos_imp_zdiv_nonneg_iff)
  show "\<bar>trunc_div a b\<bar> * b \<le> \<bar>a\<bar>" unfolding t using assms
    by (metis add.commute div_mult_mod_eq le_add_same_cancel2 pos_mod_sign)
  show "\<bar>a\<bar> < (\<bar>trunc_div a b\<bar> + 1) * b" unfolding t using assms
    by (metis add.commute add_less_cancel_left distrib_right div_mult_mod_eq mult_1 pos_mod_bound)
qed


lemma weighted_average_bounds:
  assumes "unat s + unat t < 2 ^ 128" "unat s * unat e + unat t * unat p < 2 ^ 128" "s \<noteq> 0"
  shows "min (unat e) (unat p) \<le> unat (weighted_average_entry_1e8 s e t p)"
    "unat (weighted_average_entry_1e8 s e t p) \<le> max (unat e) (unat p)"
    "(unat s + unat t) * unat (weighted_average_entry_1e8 s e t p) \<le> unat s * unat e + unat t * unat p"
    "unat s * unat e + unat t * unat p < (unat s + unat t) * (unat (weighted_average_entry_1e8 s e t p) + 1)"
proof -
  let ?n = "unat s + unat t" and ?c = "unat s * unat e + unat t * unat p"
  have n: "0 < ?n" using assms(3) by (simp add: unat_gt_0)
  have sum: "unat (saturating_add s t) = ?n"
    using assms(1) by (simp add: unat_saturating_add min_def)
  then have nz: "saturating_add s t \<noteq> 0" using n by (metis less_not_refl unat_0)
  have "unat s * unat e < 2 ^ 128" "unat t * unat p < 2 ^ 128" using assms(2) by linarith+
  then have w: "unat (weighted_average_entry_1e8 s e t p) = ?c div ?n"
    using assms(2) nz sum
    by (simp add: weighted_average_entry_1e8_def Let_def unat_div_u128 unat_saturating_add unat_saturating_mul min_def)
  have "?c \<le> ?n * max (unat e) (unat p)"
    unfolding add_mult_distrib by (intro add_mono mult_le_mono2) auto
  then have "?c div ?n \<le> ?n * max (unat e) (unat p) div ?n" by (rule div_le_mono)
  then have hi: "?c div ?n \<le> max (unat e) (unat p)" using n by (simp only: nonzero_mult_div_cancel_left [of ?n])
  have "?n * min (unat e) (unat p) \<le> ?c"
    unfolding add_mult_distrib by (intro add_mono mult_le_mono2) auto
  then have lo: "min (unat e) (unat p) \<le> ?c div ?n" using n by (simp add: less_eq_div_iff_mult_less_eq mult.commute)
  have "?n * (?c div ?n) \<le> ?c" "?c < ?n * (?c div ?n + 1)"
    using n by (simp_all add: dividend_less_times_div [of ?n ?c, simplified])
  then show "min (unat e) (unat p) \<le> unat (weighted_average_entry_1e8 s e t p)"
    "unat (weighted_average_entry_1e8 s e t p) \<le> max (unat e) (unat p)"
    "(unat s + unat t) * unat (weighted_average_entry_1e8 s e t p) \<le> unat s * unat e + unat t * unat p"
    "unat s * unat e + unat t * unat p < (unat s + unat t) * (unat (weighted_average_entry_1e8 s e t p) + 1)"
    using lo hi unfolding w by blast+
qed

section \<open>Properties\<close>

text \<open>
  For two positions of the same size and entry on opposite sides, what one gains the other
  loses, at every mark price; the profit is the price difference times the size rounded towards
  zero; and closing a position at the mark price realises exactly its unrealised profit.
\<close>

theorem pnl_zero_sum:
  assumes fits: "pnl_fits (pp_size_1e8 p) (pp_entry_price_1e8 p) k" and entry: "pp_entry_price_1e8 p \<noteq> 0"
    and q: "pp_size_1e8 q = pp_size_1e8 p" "pp_entry_price_1e8 q = pp_entry_price_1e8 p"
      "pp_side q = perp_side_opposite (pp_side p)"
  shows "unrealized_pnl_1e8 p k + unrealized_pnl_1e8 q k = 0 \<and>
     realized_pnl_1e8 (pp_entry_price_1e8 p) k (pp_size_1e8 p) (pp_side p) = unrealized_pnl_1e8 p k \<and>
     \<bar>unrealized_pnl_1e8 p k\<bar> * 10 ^ 8 \<le> \<bar>uint k - uint (pp_entry_price_1e8 p)\<bar> * uint (pp_size_1e8 p) \<and>
     \<bar>uint k - uint (pp_entry_price_1e8 p)\<bar> * uint (pp_size_1e8 p) < (\<bar>unrealized_pnl_1e8 p k\<bar> + 1) * 10 ^ 8"
proof -
  let ?a = "side_sign (pp_side p) * ((uint k - uint (pp_entry_price_1e8 p)) * uint (pp_size_1e8 p))"
  have up: "unrealized_pnl_1e8 p k = trunc_div ?a 100000000"
    using unrealized_exact [OF fits] by (simp add: pnl_exact_def)
  have uq: "unrealized_pnl_1e8 q k = - unrealized_pnl_1e8 p k"
    using unrealized_exact [OF fits] unrealized_exact [of q k] fits q by (simp add: pnl_exact_opposite)
  have abs: "\<bar>?a\<bar> = \<bar>uint k - uint (pp_entry_price_1e8 p)\<bar> * uint (pp_size_1e8 p)"
    by (cases "pp_side p") (simp_all add: abs_mult)
  show ?thesis
    using uq realized_unrealized [OF entry, of k] trunc_div_bounds [of 100000000 ?a] unfolding abs by (simp add: up)
qed

definition ex_long :: "perp_side \<Rightarrow> perp_position" where
  "ex_long sd = new_position_skeleton 1 10 ''0xab'' 1 ''ETH-PERP'' sd 100000000 300000000000 30000000000"

theorem pnl_zero_sum_witness:
  "unrealized_pnl_1e8 (ex_long PerpLong) 290000000000 + unrealized_pnl_1e8 (ex_long PerpShort) 290000000000 = 0"
  using pnl_zero_sum [of "ex_long PerpLong" 290000000000 "ex_long PerpShort"]
  by (simp add: ex_long_def new_position_skeleton_def pnl_fits_def perp_side_opposite_def)

text \<open>
  The margin checks are exact in spite of the rounding: a margin meets the initial
  requirement exactly if the notional is at most the margin times the maximal leverage, and the
  maintenance requirement exactly if it is at least the stated fraction of the notional.
\<close>

theorem margin_requirements_exact:
  assumes "l \<noteq> 0" "unat (notional_1e8 s p) * unat b < 2 ^ 128"
  shows "(initial_margin_requirement_1e8 s p l \<le> margin \<longleftrightarrow> unat (notional_1e8 s p) \<le> unat margin * unat l) \<and>
     (maintenance_margin_requirement_1e8 s p b \<le> margin \<longleftrightarrow> unat (notional_1e8 s p) * unat b \<le> unat margin * 10000)"
  using initial_margin_le_iff [OF assms(1)] maintenance_margin_le_iff [OF assms(2)] by blast

theorem margin_requirements_exact_witness:
  "\<not> initial_margin_requirement_1e8 100000000 300000000001 10 \<le> 30000000000"
  using margin_requirements_exact [of 10 100000000 300000000001 500 30000000000]
  by (simp add: unat_notional)

text \<open>
  The entry price after an increase is the volume-weighted average of the two prices rounded
  down: it lies between them, and the value of the enlarged position at the new entry falls short
  of what was paid by less than one unit of price per unit of size.
\<close>

theorem weighted_average_exact:
  assumes "unat s + unat t < 2 ^ 128" "unat s * unat e + unat t * unat p < 2 ^ 128" "s \<noteq> 0"
  shows "min (unat e) (unat p) \<le> unat (weighted_average_entry_1e8 s e t p) \<and>
     unat (weighted_average_entry_1e8 s e t p) \<le> max (unat e) (unat p) \<and>
     (unat s + unat t) * unat (weighted_average_entry_1e8 s e t p) \<le> unat s * unat e + unat t * unat p \<and>
     unat s * unat e + unat t * unat p < (unat s + unat t) * (unat (weighted_average_entry_1e8 s e t p) + 1)"
  using weighted_average_bounds [OF assms] by blast

theorem weighted_average_exact_witness:
  "unat (weighted_average_entry_1e8 100000000 300000000000 100000000 310000000001) \<le> max 300000000000 310000000001"
  using weighted_average_exact [of 100000000 100000000 300000000000 310000000001] by simp

text \<open>
  The closed form of the estimate: numerator and denominator as exact integers.
\<close>

lemma liquidation_price_num:
  assumes "estimated_liquidation_price_1e8 p b = Some P"
  defines "S \<equiv> unat (pp_size_1e8 p)" and "E \<equiv> unat (pp_entry_price_1e8 p)" and "M \<equiv> unat (pp_margin_1e8 p)"
  shows "0 < S" "unat b < 10000"
    "pp_side p = PerpLong \<Longrightarrow> M * 10 ^ 8 * 10000 \<le> E * S * 10000 \<and>
        unat P = (E * S * 10000 - M * 10 ^ 8 * 10000) div (S * (10000 - unat b))"
    "pp_side p = PerpShort \<Longrightarrow> unat P = (E * S * 10000 + M * 10 ^ 8 * 10000) div (S * (10000 + unat b))"
proof -
  note e = assms(1) [unfolded estimated_liquidation_price_1e8_def Let_def]
  show S: "0 < S" using e by (auto simp: S_def unat_gt_0 split: if_splits)
  have mm: "u32_as_u128 b < BPS" using e by (auto split: if_splits simp: not_le)
  then show b: "unat b < 10000" by (simp add: word_less_nat_alt unat_u32_as_u128)
  have bps: "unat (BPS - u32_as_u128 b) = 10000 - unat b" "unat (BPS + u32_as_u128 b) = 10000 + unat b"
    using b mm by (simp_all add: unat_sub_le less_imp_le unat_u32_as_u128 unat_word_ariths)
  obtain x y where x: "unat x = E * S * 10000" and y: "unat y = M * 10 ^ 8 * 10000"
    and r: "(case pp_side p of PerpLong \<Rightarrow> Option.bind (checked_sub x y) (\<lambda>num.
                Option.bind (checked_mul (pp_size_1e8 p) (BPS - u32_as_u128 b)) (\<lambda>denom.
                  if denom = 0 then None else Some (num div denom)))
             | PerpShort \<Rightarrow> Option.bind (checked_add x y) (\<lambda>num.
                Option.bind (checked_mul (pp_size_1e8 p) (BPS + u32_as_u128 b)) (\<lambda>denom.
                  if denom = 0 then None else Some (num div denom)))) = Some P"
    using e by (auto simp: bind_eq_Some_conv E_def S_def M_def dest!: checked_mul_Some split: if_splits)
  show "pp_side p = PerpLong \<Longrightarrow> M * 10 ^ 8 * 10000 \<le> E * S * 10000 \<and>
        unat P = (E * S * 10000 - M * 10 ^ 8 * 10000) div (S * (10000 - unat b))"
    using r x y bps by (auto simp: bind_eq_Some_conv S_def unat_div_u128
        dest!: checked_mul_Some checked_sub_Some intro!: arg_cong2 [of _ _ _ _ "(div)"] split: if_splits)
  show "pp_side p = PerpShort \<Longrightarrow> unat P = (E * S * 10000 + M * 10 ^ 8 * 10000) div (S * (10000 + unat b))"
    using r x y bps by (auto simp: bind_eq_Some_conv S_def unat_div_u128
        dest!: checked_mul_Some checked_add_Some split: if_splits)
qed

lemma liquidation_price_fits:
  assumes "estimated_liquidation_price_1e8 p b = Some P"
  shows "unat (pp_entry_price_1e8 p) * unat (pp_size_1e8 p) * 10000 < 2 ^ 128"
    "unat (pp_margin_1e8 p) * 10 ^ 8 * 10000 < 2 ^ 128" "pp_size_1e8 p \<noteq> 0"
proof -
  note e = assms [unfolded estimated_liquidation_price_1e8_def Let_def]
  obtain x y where x: "unat (x :: u128) = unat (pp_entry_price_1e8 p) * unat (pp_size_1e8 p) * 10000"
    and y: "unat (y :: u128) = unat (pp_margin_1e8 p) * 10 ^ 8 * 10000"
    using e by (auto simp: bind_eq_Some_conv dest!: checked_mul_Some split: if_splits)
  show "unat (pp_entry_price_1e8 p) * unat (pp_size_1e8 p) * 10000 < 2 ^ 128"
    unfolding x [symmetric] using unsigned_less [where ?'a = nat and w = x] by simp
  show "unat (pp_margin_1e8 p) * 10 ^ 8 * 10000 < 2 ^ 128"
    unfolding y [symmetric] using unsigned_less [where ?'a = nat and w = y] by simp
  show "pp_size_1e8 p \<noteq> 0" using e by (auto split: if_splits)
qed

text \<open>The requirement, between the exact product and one unit above it.\<close>

lemma requirement_bounds:
  assumes fit: "unat s * unat k < 2 ^ 127" and b: "unat b < 10000"
  defines "R \<equiv> unat (maintenance_margin_requirement_1e8 s k b)"
  shows "unat s * unat k * unat b < (R + 1) * 10 ^ 12" "R * 10 ^ 12 < unat s * unat k * unat b + 10 ^ 12" "R < 2 ^ 126"
proof -
  define N where "N = unat s * unat k div 100000000"
  have n: "unat (notional_1e8 s k) = N" using fit by (simp add: N_def unat_notional_exact)
  have N: "N * 100000000 \<le> unat s * unat k" "unat s * unat k < (N + 1) * 100000000"
    unfolding N_def by (simp_all add: dividend_less_div_times)
  have "N * unat b \<le> N * 10000" using b by simp
  also have "\<dots> < 2 ^ 123" using N(1) fit by simp
  finally have Nb: "N * unat b < 2 ^ 123" .
  have le: "R \<le> unat (c :: u128) \<longleftrightarrow> N * unat b \<le> unat c * 10000" for c
    unfolding R_def using maintenance_margin_le_iff [of s k b c] Nb by (simp add: n word_le_nat_alt)
  have lo: "N * unat b \<le> R * 10000"
    using le [of "maintenance_margin_requirement_1e8 s k b"] by (simp add: R_def)
  have hi: "R * 10000 < N * unat b + 10000"
  proof (cases R)
    case (Suc r)
    have "unat (of_nat r :: u128) = r"
      using Suc unsigned_less [where ?'a = nat and w = "maintenance_margin_requirement_1e8 s k b"]
      by (simp add: unat_of_nat R_def)
    then show ?thesis using le [of "of_nat r"] Suc by simp
  qed simp
  show "R < 2 ^ 126" using hi Nb by simp
  have "(N + 1) * 100000000 * unat b = N * unat b * 100000000 + unat b * 100000000" by (simp add: algebra_simps)
  moreover have "unat s * unat k * unat b \<le> (N + 1) * 100000000 * unat b" using N(2) by (intro mult_right_mono) simp_all
  ultimately show "unat s * unat k * unat b < (R + 1) * 10 ^ 12" using lo b by simp
  have "N * unat b * 100000000 \<le> unat s * unat k * unat b"
    using mult_right_mono [OF N(1), of "unat b"] by (simp only: ac_simps)
  then have "R * 1000000000000 < unat s * unat k * unat b + 1000000000000" using hi by linarith
  then show "R * 10 ^ 12 < unat s * unat k * unat b + 10 ^ 12" by simp
qed

text \<open>Equity less requirement, scaled by \<open>10^12\<close>, is within two units of the exact difference.\<close>

definition exact_health :: "perp_position \<Rightarrow> nat \<Rightarrow> nat \<Rightarrow> int" where
  "exact_health p b k =
     int (unat (pp_margin_1e8 p)) * 10 ^ 12 +
     side_sign (pp_side p) * ((int k - int (unat (pp_entry_price_1e8 p))) * int (unat (pp_size_1e8 p))) * 10 ^ 4 -
     int (unat (pp_size_1e8 p) * k * b)"

lemma equity_bounds:
  assumes fits: "pnl_fits (pp_size_1e8 p) (pp_entry_price_1e8 p) k" and m: "unat (pp_margin_1e8 p) < 2 ^ 126"
  defines "G \<equiv> side_sign (pp_side p) * ((int (unat k) - int (unat (pp_entry_price_1e8 p))) * int (unat (pp_size_1e8 p)))"
  shows "\<bar>(equity_1e8 p k - int (unat (pp_margin_1e8 p))) * 10 ^ 8 - G\<bar> < 10 ^ 8"
proof -
  let ?u = "pnl_exact (pp_side p) (pp_size_1e8 p) (pp_entry_price_1e8 p) k"
  have u: "?u = trunc_div G 100000000" by (simp add: pnl_exact_def G_def uint_nat del: of_nat_unat)
  have "\<bar>G\<bar> \<le> 2 ^ 127"
    using pnl_fitsD(5) [OF fits] by (cases "pp_side p") (auto simp: G_def in_i128_def i128_bounds uint_nat simp del: of_nat_unat)
  then have small: "\<bar>?u\<bar> \<le> 2 ^ 126" using trunc_div_bounds(1) [of 100000000 G] unfolding u by simp
  have "u128_as_i128 (pp_margin_1e8 p) = int (unat (pp_margin_1e8 p))" using m by (intro u128_as_i128_small) simp
  moreover have "in_i128 (int (unat (pp_margin_1e8 p)) + ?u)"
    using small m unfolding in_i128_def i128_bounds by (simp del: of_nat_unat) linarith
  ultimately have "equity_1e8 p k - int (unat (pp_margin_1e8 p)) = trunc_div G 100000000"
    unfolding equity_1e8_def i128_saturating_add_def unrealized_exact [OF fits] by (simp add: i128_sat_id u del: of_nat_unat)
  moreover have "\<bar>trunc_div G 100000000 * 100000000 - G\<bar> < 100000000"
    by (rule trunc_div_near) simp
  ultimately show ?thesis by simp
qed

lemma health_arith:
  fixes e M G Q R :: int
  assumes "\<bar>(e - M) * 100000000 - G\<bar> < 100000000" "Q < (R + 1) * 1000000000000" "R * 1000000000000 < Q + 1000000000000"
  shows "\<bar>(e - R) * 10 ^ 12 - (M * 1000000000000 + G * 10000 - Q)\<bar> < 2 * 10 ^ 12"
proof -
  have "\<bar>(e - R) * 1000000000000 - (M * 1000000000000 + G * 10000 - Q)\<bar> < 2000000000000"
    using assms by (auto simp: abs_if split: if_splits)
  then show ?thesis by simp
qed

lemma health_bounds:
  assumes fits: "pnl_fits (pp_size_1e8 p) (pp_entry_price_1e8 p) k" and m: "unat (pp_margin_1e8 p) < 2 ^ 126"
    and b: "unat b < 10000"
  defines "H \<equiv> equity_1e8 p k - u128_as_i128 (maintenance_margin_requirement_1e8 (pp_size_1e8 p) k b)"
  shows "\<bar>H * 10 ^ 12 - exact_health p (unat b) (unat k)\<bar> < 2 * 10 ^ 12"
proof -
  let ?R = "unat (maintenance_margin_requirement_1e8 (pp_size_1e8 p) k b)"
  define M where "M = int (unat (pp_margin_1e8 p))"
  define Q where "Q = int (unat (pp_size_1e8 p) * unat k * unat b)"
  define G where "G = side_sign (pp_side p) * ((int (unat k) - int (unat (pp_entry_price_1e8 p))) * int (unat (pp_size_1e8 p)))"
  have "int (unat (pp_size_1e8 p) * unat k) < int (2 ^ 127)"
    using fits by (simp add: pnl_fits_def uint_nat mult.commute del: of_nat_unat)
  then have "unat (pp_size_1e8 p) * unat k < 2 ^ 127" by (simp only: of_nat_less_iff)
  note r = requirement_bounds [OF this b]
  have "int (unat (pp_size_1e8 p) * unat k * unat b) < int ((?R + 1) * 10 ^ 12)" using r(1) by (simp only: of_nat_less_iff)
  moreover have "int (?R * 10 ^ 12) < int (unat (pp_size_1e8 p) * unat k * unat b + 10 ^ 12)" using r(2) by (simp only: of_nat_less_iff)
  ultimately have R: "Q < (int ?R + 1) * 1000000000000" "int ?R * 1000000000000 < Q + 1000000000000"
    unfolding Q_def by (simp_all del: of_nat_unat of_nat_mult add: of_nat_add) 
  have "u128_as_i128 (maintenance_margin_requirement_1e8 (pp_size_1e8 p) k b) = int ?R"
    using r(3) by (intro u128_as_i128_small) simp
  then have H: "H = equity_1e8 p k - int ?R" by (simp add: H_def)
  have x: "exact_health p (unat b) (unat k) = M * 1000000000000 + G * 10000 - Q"
    unfolding exact_health_def M_def G_def Q_def by (simp del: of_nat_unat)
  have e: "\<bar>(equity_1e8 p k - M) * 100000000 - G\<bar> < 100000000"
    using equity_bounds [OF fits m] unfolding M_def G_def by (simp del: of_nat_unat)
  show ?thesis unfolding H x by (rule health_arith [OF e R])
qed

lemma div_line:
  fixes n d :: nat and k :: int
  assumes "0 < d" "P = n div d"
  shows "(k - int P - 1) * int d < k * int d - int n \<and> k * int d - int n \<le> (k - int P) * int d"
    and "(int P - k) * int d \<le> int n - k * int d \<and> int n - k * int d < (int P + 1 - k) * int d"
proof -
  have "P * d \<le> n" "n < (P + 1) * d" using assms by (simp_all add: dividend_less_div_times)
  then have "int (P * d) \<le> int n" "int n < int ((P + 1) * d)" by (simp_all only: of_nat_le_iff of_nat_less_iff)
  then show "(k - int P - 1) * int d < k * int d - int n \<and> k * int d - int n \<le> (k - int P) * int d"
    "(int P - k) * int d \<le> int n - k * int d \<and> int n - k * int d < (int P + 1 - k) * int d"
    by (simp_all add: algebra_simps)
qed

lemma exact_health_price:
  assumes "estimated_liquidation_price_1e8 p b = Some P"
  defines "S \<equiv> int (unat (pp_size_1e8 p))"
  shows "pp_side p = PerpLong \<Longrightarrow>
      (int k - int (unat P) - 1) * (S * (10000 - int (unat b))) < exact_health p (unat b) k \<and>
      exact_health p (unat b) k \<le> (int k - int (unat P)) * (S * (10000 - int (unat b)))"
    and "pp_side p = PerpShort \<Longrightarrow>
      (int (unat P) - int k) * (S * (10000 + int (unat b))) \<le> exact_health p (unat b) k \<and>
      exact_health p (unat b) k < (int (unat P) + 1 - int k) * (S * (10000 + int (unat b)))"
proof -
  define e m where "e = unat (pp_entry_price_1e8 p)" and "m = unat (pp_margin_1e8 p)"
  define s c where "s = unat (pp_size_1e8 p)" and "c = unat b"
  note f = liquidation_price_num [OF assms(1), folded e_def m_def s_def c_def]
  note defs = exact_health_def S_def e_def [symmetric] m_def [symmetric] s_def [symmetric] c_def [symmetric]
  {
    assume long: "pp_side p = PerpLong"
    let ?d = "s * (10000 - c)" and ?n = "e * s * 10000 - m * 10 ^ 8 * 10000"
    have d: "int ?d = int s * (10000 - int c)" using f(2) by (simp add: of_nat_diff)
    have n: "int ?n = int e * int s * 10000 - int m * 10 ^ 12" using f(3) [OF long] by (simp add: of_nat_diff)
    have "exact_health p (unat b) k = int k * int ?d - int ?n"
      unfolding d n defs long by (simp add: algebra_simps)
    then show "(int k - int (unat P) - 1) * (S * (10000 - int (unat b))) < exact_health p (unat b) k \<and>
      exact_health p (unat b) k \<le> (int k - int (unat P)) * (S * (10000 - int (unat b)))"
      using div_line(1) [of ?d "unat P" ?n "int k"] f(1-3) long unfolding d defs by simp
  next
    assume short: "pp_side p = PerpShort"
    let ?d = "s * (10000 + c)" and ?n = "e * s * 10000 + m * 10 ^ 8 * 10000"
    have d: "int ?d = int s * (10000 + int c)" by simp
    have n: "int ?n = int e * int s * 10000 + int m * 10 ^ 12" by simp
    have "exact_health p (unat b) k = int ?n - int k * int ?d"
      unfolding d n defs short by (simp add: algebra_simps)
    then show "(int (unat P) - int k) * (S * (10000 + int (unat b))) \<le> exact_health p (unat b) k \<and>
      exact_health p (unat b) k < (int (unat P) + 1 - int k) * (S * (10000 + int (unat b)))"
      using div_line(2) [of ?d "unat P" ?n "int k"] f(1,4) short unfolding d defs by simp
  }
qed

lemma ex_long_liquidation: "estimated_liquidation_price_1e8 (ex_long PerpLong) 500 = Some 284210526315"
  by code_simp

lemma ex_long_fields [simp]:
  "pp_side (ex_long sd) = sd" "pp_size_1e8 (ex_long sd) = 100000000" "pp_entry_price_1e8 (ex_long sd) = 300000000000"
  "pp_margin_1e8 (ex_long sd) = 30000000000" "pp_status (ex_long sd) = PosOpen"
  by (simp_all add: ex_long_def new_position_skeleton_def)

end
