(* ===== verification/Perp_Fills.thy ===== *)
theory Perp_Fills
  imports Perp_Margin
begin

text \<open>
  Application of a fill to the positions of one account, \<^verbatim>\<open>src/perps/fills.rs\<close>: open, increase, reduce
  or close.  The id and the clock reading of a new position are an argument.
\<close>


section \<open>Definitions\<close>

record perp_fill_input =
  fi_account :: account_id
  fi_subaccount_id :: u32
  fi_market_id :: string
  fi_side :: perp_side
  fi_size_1e8 :: u128
  fi_price_1e8 :: u128
  fi_margin_1e8 :: u128

datatype perp_fill_outcome =
    Opened perp_position
  | Increased perp_position
  | Reduced perp_position i128
  | Closed perp_position i128

fun outcome_position :: "perp_fill_outcome \<Rightarrow> perp_position" where
  "outcome_position (Opened p) = p"
| "outcome_position (Increased p) = p"
| "outcome_position (Reduced p _) = p"
| "outcome_position (Closed p _) = p"

fun outcome_realized_pnl_1e8 :: "perp_fill_outcome \<Rightarrow> i128" where
  "outcome_realized_pnl_1e8 (Opened _) = 0"
| "outcome_realized_pnl_1e8 (Increased _) = 0"
| "outcome_realized_pnl_1e8 (Reduced _ r) = r"
| "outcome_realized_pnl_1e8 (Closed _ r) = r"

definition validate_fill_basics :: "perp_fill_input \<Rightarrow> backend_error + unit" where
  "validate_fill_basics fill =
     (if fi_size_1e8 fill = 0 then Err PerpZeroSize
      else if fi_price_1e8 fill = 0 then Err PerpZeroPrice
      else Ok ())"

definition enforce_leverage_cap :: "string \<Rightarrow> u128 \<Rightarrow> u128 \<Rightarrow> u32 \<Rightarrow> backend_error + unit" where
  "enforce_leverage_cap market_id notional margin max_leverage =
     (if margin = 0 then Err PerpZeroMargin
      else let lhs = notional; rhs = saturating_mul margin (u32_as_u128 max_leverage)
           in if lhs > rhs then Err (PerpLeverageExceeded market_id) else Ok ())"

type_synonym positions_result = "(backend_error + perp_fill_outcome) \<times> perp_positions_store"

definition open_fresh_position ::
  "uuid \<times> timestamp_ms \<Rightarrow> perps_read_market \<Rightarrow> perp_fill_input \<Rightarrow> perp_positions_store \<Rightarrow> positions_result" where
  "open_fresh_position new market fill st =
     (if fi_margin_1e8 fill = 0 then (Err PerpZeroMargin, st)
      else let required = initial_margin_requirement_1e8 (fi_size_1e8 fill) (fi_price_1e8 fill) (pm_max_leverage market)
           in if fi_margin_1e8 fill < required then (Err PerpInsufficientMargin, st)
              else let notional = notional_1e8 (fi_size_1e8 fill) (fi_price_1e8 fill)
                   in case enforce_leverage_cap (fi_market_id fill) notional (fi_margin_1e8 fill) (pm_max_leverage market) of
                        Err e \<Rightarrow> (Err e, st)
                      | Ok _ \<Rightarrow>
                          let position = new_position_skeleton (fst new) (snd new) (fi_account fill) (fi_subaccount_id fill)
                                (fi_market_id fill) (fi_side fill) (fi_size_1e8 fill) (fi_price_1e8 fill) (fi_margin_1e8 fill)
                          in (case insert_open position st of
                                (Err e, st') \<Rightarrow> (Err e, st')
                              | (Ok inserted, st') \<Rightarrow> (Ok (Opened inserted), st')))"

definition increase_position ::
  "perps_read_market \<Rightarrow> perp_position \<Rightarrow> perp_fill_input \<Rightarrow> timestamp_ms \<Rightarrow> perp_positions_store \<Rightarrow> positions_result" where
  "increase_position market existing fill now st =
     (if fi_margin_1e8 fill = 0 then (Err PerpZeroMargin, st)
      else let new_size = saturating_add (pp_size_1e8 existing) (fi_size_1e8 fill);
               new_entry = weighted_average_entry_1e8 (pp_size_1e8 existing) (pp_entry_price_1e8 existing)
                             (fi_size_1e8 fill) (fi_price_1e8 fill);
               new_margin = saturating_add (pp_margin_1e8 existing) (fi_margin_1e8 fill);
               new_notional = notional_1e8 new_size new_entry;
               required = initial_margin_requirement_1e8 new_size new_entry (pm_max_leverage market)
           in if new_margin < required then (Err PerpInsufficientMargin, st)
              else case enforce_leverage_cap (fi_market_id fill) new_notional new_margin (pm_max_leverage market) of
                     Err e \<Rightarrow> (Err e, st)
                   | Ok _ \<Rightarrow>
                       (case update_active (fi_account fill) (fi_subaccount_id fill) (fi_market_id fill) now
                               (\<lambda>p. (Ok (), p\<lparr>pp_size_1e8 := new_size, pp_entry_price_1e8 := new_entry,
                                              pp_margin_1e8 := new_margin\<rparr>)) st of
                          (Err e, st') \<Rightarrow> (Err e, st')
                        | (Ok position, st') \<Rightarrow> (Ok (Increased position), st')))"

definition reduce_or_reject ::
  "perp_position \<Rightarrow> perp_fill_input \<Rightarrow> timestamp_ms \<Rightarrow> perp_positions_store \<Rightarrow> positions_result" where
  "reduce_or_reject existing fill now st =
     (if fi_size_1e8 fill > pp_size_1e8 existing then (Err PerpPositionFlip, st)
      else let realized = realized_pnl_1e8 (pp_entry_price_1e8 existing) (fi_price_1e8 fill) (fi_size_1e8 fill) (pp_side existing);
               full_close = (fi_size_1e8 fill = pp_size_1e8 existing)
           in if full_close
              then (case close_active (pp_account existing) (pp_subaccount_id existing) (pp_market_id existing) now st of
                      (Err e, st') \<Rightarrow> (Err e, st')
                    | (Ok closed, st') \<Rightarrow>
                        (case update_closed_realized_pnl (pp_id closed) realized now st' of
                           (Err e, st'') \<Rightarrow> (Err e, st'')
                         | (Ok position, st'') \<Rightarrow> (Ok (Closed position realized), st'')))
              else let new_size = pp_size_1e8 existing - fi_size_1e8 fill;
                       released = mul_div_floor (pp_margin_1e8 existing) (fi_size_1e8 fill) (pp_size_1e8 existing);
                       new_margin = saturating_sub (pp_margin_1e8 existing) released
                   in (case update_active (fi_account fill) (fi_subaccount_id fill) (fi_market_id fill) now
                              (\<lambda>p. (Ok (), p\<lparr>pp_size_1e8 := new_size, pp_margin_1e8 := new_margin,
                                  pp_realized_pnl_1e8 := i128_saturating_add (pp_realized_pnl_1e8 p) realized\<rparr>)) st of
                         (Err e, st') \<Rightarrow> (Err e, st')
                       | (Ok position, st') \<Rightarrow> (Ok (Reduced position realized), st')))"

definition apply_perp_fill_for_account ::
  "uuid \<times> timestamp_ms \<Rightarrow> timestamp_ms \<Rightarrow> perps_read_market \<Rightarrow> perp_fill_input \<Rightarrow> perp_positions_store \<Rightarrow> positions_result" where
  "apply_perp_fill_for_account new now market fill st =
     (case validate_fill_basics fill of
        Err e \<Rightarrow> (Err e, st)
      | Ok _ \<Rightarrow>
          if fi_market_id fill \<noteq> pm_symbol market then (Err Config, st)
          else (case get_active st (fi_account fill) (fi_subaccount_id fill) (fi_market_id fill) of
                  None \<Rightarrow> open_fresh_position new market fill st
                | Some pos \<Rightarrow>
                    if pp_side pos = fi_side fill then increase_position market pos fill now st
                    else reduce_or_reject pos fill now st))"


section \<open>Specification on a single position\<close>

text \<open>
  What a fill does to the open position of its key, with no store: the new position if any, and the
  outcome reported.
\<close>

definition fill_key :: "perp_fill_input \<Rightarrow> position_key" where
  "fill_key fill = index_key (fi_account fill) (fi_subaccount_id fill) (fi_market_id fill)"

definition margin_covers :: "perps_read_market \<Rightarrow> u128 \<Rightarrow> u128 \<Rightarrow> u128 \<Rightarrow> backend_error + unit" where
  "margin_covers market sz price margin =
     (if margin < initial_margin_requirement_1e8 sz price (pm_max_leverage market) then Err PerpInsufficientMargin
      else enforce_leverage_cap (pm_symbol market) (notional_1e8 sz price) margin (pm_max_leverage market))"

definition opened_by :: "uuid \<times> timestamp_ms \<Rightarrow> perp_fill_input \<Rightarrow> perp_position" where
  "opened_by new fill = new_position_skeleton (fst new) (snd new) (fi_account fill) (fi_subaccount_id fill)
     (fi_market_id fill) (fi_side fill) (fi_size_1e8 fill) (fi_price_1e8 fill) (fi_margin_1e8 fill)"

definition increased_by :: "timestamp_ms \<Rightarrow> perp_fill_input \<Rightarrow> perp_position \<Rightarrow> perp_position" where
  "increased_by now fill p = touch now (p\<lparr>pp_size_1e8 := saturating_add (pp_size_1e8 p) (fi_size_1e8 fill),
     pp_entry_price_1e8 := weighted_average_entry_1e8 (pp_size_1e8 p) (pp_entry_price_1e8 p) (fi_size_1e8 fill) (fi_price_1e8 fill),
     pp_margin_1e8 := saturating_add (pp_margin_1e8 p) (fi_margin_1e8 fill)\<rparr>)"

definition fill_pnl :: "perp_fill_input \<Rightarrow> perp_position \<Rightarrow> i128" where
  "fill_pnl fill p = realized_pnl_1e8 (pp_entry_price_1e8 p) (fi_price_1e8 fill) (fi_size_1e8 fill) (pp_side p)"

definition reduced_by :: "timestamp_ms \<Rightarrow> perp_fill_input \<Rightarrow> perp_position \<Rightarrow> perp_position" where
  "reduced_by now fill p = touch now (p\<lparr>pp_size_1e8 := pp_size_1e8 p - fi_size_1e8 fill,
     pp_margin_1e8 := saturating_sub (pp_margin_1e8 p) (mul_div_floor (pp_margin_1e8 p) (fi_size_1e8 fill) (pp_size_1e8 p)),
     pp_realized_pnl_1e8 := i128_saturating_add (pp_realized_pnl_1e8 p) (fill_pnl fill p)\<rparr>)"

definition closed_by :: "timestamp_ms \<Rightarrow> perp_fill_input \<Rightarrow> perp_position \<Rightarrow> perp_position" where
  "closed_by now fill p = (closed_row now p)\<lparr>pp_realized_pnl_1e8 := i128_saturating_add (pp_realized_pnl_1e8 p) (fill_pnl fill p)\<rparr>"

fun fill_spec ::
  "uuid \<times> timestamp_ms \<Rightarrow> timestamp_ms \<Rightarrow> perps_read_market \<Rightarrow> perp_fill_input \<Rightarrow> perp_position option
     \<Rightarrow> backend_error + perp_fill_outcome \<times> perp_position option" where
  "fill_spec new now market fill None =
     (if fi_margin_1e8 fill = 0 then Err PerpZeroMargin
      else and_then (margin_covers market (fi_size_1e8 fill) (fi_price_1e8 fill) (fi_margin_1e8 fill))
             (\<lambda>_. Ok (Opened (opened_by new fill), Some (opened_by new fill))))"
| "fill_spec new now market fill (Some p) =
     (if pp_side p = fi_side fill
      then if fi_margin_1e8 fill = 0 then Err PerpZeroMargin
           else let q = increased_by now fill p
                in and_then (margin_covers market (pp_size_1e8 q) (pp_entry_price_1e8 q) (pp_margin_1e8 q))
                     (\<lambda>_. Ok (Increased q, Some q))
      else if fi_size_1e8 fill > pp_size_1e8 p then Err PerpPositionFlip
      else if fi_size_1e8 fill = pp_size_1e8 p then Ok (Closed (closed_by now fill p) (fill_pnl fill p), None)
      else Ok (Reduced (reduced_by now fill p) (fill_pnl fill p), Some (reduced_by now fill p)))"

definition fill_checked ::
  "uuid \<times> timestamp_ms \<Rightarrow> timestamp_ms \<Rightarrow> perps_read_market \<Rightarrow> perp_fill_input \<Rightarrow> perp_position option
     \<Rightarrow> backend_error + perp_fill_outcome \<times> perp_position option" where
  "fill_checked new now market fill pos =
     and_then (validate_fill_basics fill) (\<lambda>_.
       if fi_market_id fill \<noteq> pm_symbol market then Err Config else fill_spec new now market fill pos)"


section \<open>The store operation refines the specification\<close>

text \<open>What the store shows after a fill, for a given result of the specification.\<close>

definition fill_refined ::
  "position_key \<Rightarrow> perp_positions_store \<Rightarrow> backend_error + perp_fill_outcome \<times> perp_position option
     \<Rightarrow> positions_result \<Rightarrow> bool" where
  "fill_refined k st spec res =
     (case spec of
        Err e \<Rightarrow> res = (Err e, st)
      | Ok (out, pos') \<Rightarrow> fst res = Ok out \<and> active_at (snd res) = (active_at st)(k := pos') \<and> positions_inv (snd res))"

lemma opened_by_fields [simp]:
  "pp_id (opened_by new fill) = fst new" "pp_key (opened_by new fill) = fill_key fill"
  "pp_status (opened_by new fill) = PosOpen" "pp_side (opened_by new fill) = fi_side fill"
  "pp_size_1e8 (opened_by new fill) = fi_size_1e8 fill" "pp_entry_price_1e8 (opened_by new fill) = fi_price_1e8 fill"
  "pp_margin_1e8 (opened_by new fill) = fi_margin_1e8 fill" "pp_market_id (opened_by new fill) = fi_market_id fill"
  "pp_account (opened_by new fill) = fi_account fill" "pp_subaccount_id (opened_by new fill) = fi_subaccount_id fill"
  by (simp_all add: opened_by_def new_position_skeleton_def pp_key_def fill_key_def)

lemma open_fresh_refined:
  assumes inv: "positions_inv st" and fresh: "hm_get (ps_by_id st) (fst new) = None"
    and none: "active_at st (fill_key fill) = None" and mkt: "fi_market_id fill = pm_symbol market"
  shows "fill_refined (fill_key fill) st (fill_spec new now market fill None) (open_fresh_position new market fill st)"
proof -
  have idx: "hm_get (ps_active st) (pp_key (opened_by new fill)) = None" using none by (simp add: active_at_None [OF inv])
  have ins: "insert_open (opened_by new fill) st = (Ok (opened_by new fill), snd (insert_open (opened_by new fill) st))"
    using idx by (simp add: insert_open_def Let_def hm_contains_key_def fill_key_def)
  have act: "active_at (snd (insert_open (opened_by new fill) st)) = (active_at st)(fill_key fill := Some (opened_by new fill))"
    using insert_open_active(3) [OF inv, of "opened_by new fill" "opened_by new fill"] fresh ins by (metis fst_conv opened_by_fields(1,2))
  have inv': "positions_inv (snd (insert_open (opened_by new fill) st))"
    using insert_open_inv [OF inv, of "opened_by new fill"] fresh by simp
  have u: "open_fresh_position new market fill st =
     (if fi_margin_1e8 fill = 0 then (Err PerpZeroMargin, st)
      else case margin_covers market (fi_size_1e8 fill) (fi_price_1e8 fill) (fi_margin_1e8 fill) of
             Err e \<Rightarrow> (Err e, st)
           | Ok _ \<Rightarrow> (Ok (Opened (opened_by new fill)), snd (insert_open (opened_by new fill) st)))"
  proof -
    obtain st' where st': "insert_open (opened_by new fill) st = (Ok (opened_by new fill), st')" using ins by blast
    show ?thesis
      unfolding open_fresh_position_def Let_def margin_covers_def opened_by_def [symmetric]
      using st' by (auto simp: mkt split: sum.split)
  qed
  show ?thesis
    unfolding fill_refined_def u using act inv' by (auto split: sum.split simp: and_then_def)
qed

lemma touch_fields [simp]:
  "pp_size_1e8 (touch now p) = pp_size_1e8 p" "pp_entry_price_1e8 (touch now p) = pp_entry_price_1e8 p"
  "pp_margin_1e8 (touch now p) = pp_margin_1e8 p" "pp_side (touch now p) = pp_side p" "pp_id (touch now p) = pp_id p"
  "pp_key (touch now p) = pp_key p" "pp_status (touch now p) = pp_status p" "pp_market_id (touch now p) = pp_market_id p"
  "pp_realized_pnl_1e8 (touch now p) = pp_realized_pnl_1e8 p"
  by (simp_all add: touch_def)

lemma increase_refined:
  assumes inv: "positions_inv st" and act: "active_at st (fill_key fill) = Some p"
    and side: "pp_side p = fi_side fill" and mkt: "fi_market_id fill = pm_symbol market"
  shows "fill_refined (fill_key fill) st (fill_spec new now market fill (Some p)) (increase_position market p fill now st)"
proof -
  let ?q = "p\<lparr>pp_size_1e8 := saturating_add (pp_size_1e8 p) (fi_size_1e8 fill),
     pp_entry_price_1e8 := weighted_average_entry_1e8 (pp_size_1e8 p) (pp_entry_price_1e8 p) (fi_size_1e8 fill) (fi_price_1e8 fill),
     pp_margin_1e8 := saturating_add (pp_margin_1e8 p) (fi_margin_1e8 fill)\<rparr>"
  let ?f = "\<lambda>r. (Ok (), r\<lparr>pp_size_1e8 := saturating_add (pp_size_1e8 p) (fi_size_1e8 fill),
     pp_entry_price_1e8 := weighted_average_entry_1e8 (pp_size_1e8 p) (pp_entry_price_1e8 p) (fi_size_1e8 fill) (fi_price_1e8 fill),
     pp_margin_1e8 := saturating_add (pp_margin_1e8 p) (fi_margin_1e8 fill)\<rparr>)"
  let ?u = "update_active (fi_account fill) (fi_subaccount_id fill) (fi_market_id fill) now ?f st"
  have t: "touch now ?q = increased_by now fill p" by (simp add: increased_by_def)
  note upd = update_active_Ok [OF inv act [unfolded fill_key_def], of ?f ?q now, unfolded t, simplified]
  have u: "increase_position market p fill now st =
     (if fi_margin_1e8 fill = 0 then (Err PerpZeroMargin, st)
      else case margin_covers market (pp_size_1e8 (increased_by now fill p)) (pp_entry_price_1e8 (increased_by now fill p))
             (pp_margin_1e8 (increased_by now fill p)) of
             Err e \<Rightarrow> (Err e, st)
           | Ok _ \<Rightarrow> (Ok (Increased (increased_by now fill p)), snd ?u))"
    using upd(1) prod.collapse [of ?u]
    by (auto simp: increase_position_def Let_def margin_covers_def mkt increased_by_def split: sum.split prod.split)
  show ?thesis
    unfolding fill_refined_def u using upd(2,3) side
    by (auto split: sum.split simp: and_then_def Let_def fill_key_def)
qed

lemma pp_key_eq_fill_key:
  "pp_key p = fill_key fill \<Longrightarrow> index_key (pp_account p) (pp_subaccount_id p) (pp_market_id p) = fill_key fill"
  by (simp add: pp_key_def)

lemma reduce_refined:
  assumes inv: "positions_inv st" and act: "active_at st (fill_key fill) = Some p" and side: "pp_side p \<noteq> fi_side fill"
  shows "fill_refined (fill_key fill) st (fill_spec new now market fill (Some p)) (reduce_or_reject p fill now st)"
proof -
  note row = active_at_SomeD [OF inv act]
  let ?r = "fill_pnl fill p"
  consider "fi_size_1e8 fill > pp_size_1e8 p" | "fi_size_1e8 fill = pp_size_1e8 p" | "fi_size_1e8 fill < pp_size_1e8 p"
    by (meson linorder_neqE)
  then show ?thesis
  proof cases
    case 1
    then show ?thesis using side by (simp add: fill_refined_def reduce_or_reject_def)
  next
    case 2
    let ?c = "close_active (pp_account p) (pp_subaccount_id p) (pp_market_id p) now st"
    have act': "active_at st (index_key (pp_account p) (pp_subaccount_id p) (pp_market_id p)) = Some p"
      using act row(4) by (simp add: pp_key_def)
    note cl = close_active_Some [OF inv act', of now]
    have get: "hm_get (ps_by_id (snd ?c)) (pp_id p) = Some (closed_row now p)" by (simp add: cl(4))
    have st: "pp_status (closed_row now p) = PosClosed" by (simp add: closed_row_def)
    note up = update_closed_Some [OF cl(3) get st, of ?r now]
    have q: "(closed_row now p)\<lparr>pp_realized_pnl_1e8 := i128_saturating_add (pp_realized_pnl_1e8 (closed_row now p)) ?r,
        pp_updated_at_ms := now\<rparr> = closed_by now fill p"
      by (simp add: closed_by_def closed_row_def)
    have id: "pp_id (closed_row now p) = pp_id p" by (simp add: closed_row_def)
    have "reduce_or_reject p fill now st = (Ok (Closed (closed_by now fill p) ?r), snd (update_closed_realized_pnl (pp_id p) ?r now (snd ?c)))"
      using 2 cl(1) up(1) id q prod.collapse [of ?c] prod.collapse [of "update_closed_realized_pnl (pp_id p) ?r now (snd ?c)"]
      by (auto simp: reduce_or_reject_def Let_def fill_pnl_def split: sum.split prod.split)
    then show ?thesis
      using 2 side up(2,3) cl(2) row(4) by (simp add: fill_refined_def pp_key_def)
  next
    case 3
    let ?q = "p\<lparr>pp_size_1e8 := pp_size_1e8 p - fi_size_1e8 fill,
     pp_margin_1e8 := saturating_sub (pp_margin_1e8 p) (mul_div_floor (pp_margin_1e8 p) (fi_size_1e8 fill) (pp_size_1e8 p)),
     pp_realized_pnl_1e8 := i128_saturating_add (pp_realized_pnl_1e8 p) ?r\<rparr>"
    let ?f = "\<lambda>x. (Ok (), x\<lparr>pp_size_1e8 := pp_size_1e8 p - fi_size_1e8 fill,
     pp_margin_1e8 := saturating_sub (pp_margin_1e8 p) (mul_div_floor (pp_margin_1e8 p) (fi_size_1e8 fill) (pp_size_1e8 p)),
     pp_realized_pnl_1e8 := i128_saturating_add (pp_realized_pnl_1e8 x) ?r\<rparr>)"
    let ?u = "update_active (fi_account fill) (fi_subaccount_id fill) (fi_market_id fill) now ?f st"
    have t: "touch now ?q = reduced_by now fill p" by (simp add: reduced_by_def)
    note upd = update_active_Ok [OF inv act [unfolded fill_key_def], of ?f ?q now, unfolded t, simplified]
    have "reduce_or_reject p fill now st = (Ok (Reduced (reduced_by now fill p) ?r), snd ?u)"
      using 3 upd(1) prod.collapse [of ?u]
      by (auto simp: reduce_or_reject_def Let_def fill_pnl_def split: sum.split prod.split)
    then show ?thesis using 3 side upd(2,3) by (auto simp: fill_refined_def fill_key_def)
  qed
qed

lemma apply_fill_refined:
  assumes "positions_inv st" "hm_get (ps_by_id st) (fst new) = None"
  shows "fill_refined (fill_key fill) st (fill_checked new now market fill (active_at st (fill_key fill)))
     (apply_perp_fill_for_account new now market fill st)"
proof -
  have app: "apply_perp_fill_for_account new now market fill st =
     (case validate_fill_basics fill of
        Err e \<Rightarrow> (Err e, st)
      | Ok _ \<Rightarrow>
          if fi_market_id fill \<noteq> pm_symbol market then (Err Config, st)
          else (case active_at st (fill_key fill) of
                  None \<Rightarrow> open_fresh_position new market fill st
                | Some pos \<Rightarrow>
                    if pp_side pos = fi_side fill then increase_position market pos fill now st
                    else reduce_or_reject pos fill now st))"
    by (simp only: apply_perp_fill_for_account_def get_active_at fill_key_def)
  show ?thesis
  proof (cases "validate_fill_basics fill = Ok () \<and> fi_market_id fill = pm_symbol market")
    case False
    then show ?thesis
      by (cases "validate_fill_basics fill") (auto simp: app fill_checked_def fill_refined_def)
  next
    case True
    have spec: "fill_checked new now market fill pos = fill_spec new now market fill pos" for pos
      using True by (simp add: fill_checked_def)
    show ?thesis
    proof (cases "active_at st (fill_key fill)")
      case None
      then show ?thesis using open_fresh_refined [OF assms None] True by (simp only: app spec) simp
    next
      case (Some p)
      then show ?thesis
        using increase_refined [OF assms(1) Some] reduce_refined [OF assms(1) Some] True
        by (cases "pp_side p = fi_side fill") (simp_all only: app spec sum.case option.case if_True if_False simp_thms)
    qed
  qed
qed


section \<open>Leverage\<close>

text \<open>
  A position within the leverage of its market: positive size, entry price and margin, a value
  that fits the machine word, and a notional of at most the margin times the leverage.
\<close>

definition within_leverage :: "u32 \<Rightarrow> perp_position \<Rightarrow> bool" where
  "within_leverage l p =
     (0 < unat (pp_size_1e8 p) \<and> 0 < unat (pp_entry_price_1e8 p) \<and> 0 < unat (pp_margin_1e8 p) \<and>
      unat (pp_size_1e8 p) * unat (pp_entry_price_1e8 p) < 2 ^ 128 \<and>
      unat (pp_size_1e8 p) * unat (pp_entry_price_1e8 p) div 10 ^ 8 \<le> unat (pp_margin_1e8 p) * unat l)"

lemma margin_covers_Ok:
  assumes "margin_covers market sz price margin = Ok ()"
  shows "0 < unat margin" "unat sz * unat price < 2 ^ 128 \<Longrightarrow> unat sz * unat price div 10 ^ 8 \<le> unat margin * unat (pm_max_leverage market)"
proof -
  have cap: "margin \<noteq> 0" "initial_margin_requirement_1e8 sz price (pm_max_leverage market) \<le> margin"
    "notional_1e8 sz price \<le> saturating_mul margin (u32_as_u128 (pm_max_leverage market))"
    using assms by (auto simp: margin_covers_def enforce_leverage_cap_def Let_def split: if_splits)
  then show "0 < unat margin" by (simp add: unat_gt_0)
  have "unat (notional_1e8 sz price) \<le> unat margin * unat (pm_max_leverage market)"
    using cap(3) by (simp add: word_le_nat_alt unat_saturating_mul unat_u32_as_u128)
  then show "unat sz * unat price < 2 ^ 128 \<Longrightarrow> unat sz * unat price div 10 ^ 8 \<le> unat margin * unat (pm_max_leverage market)"
    by (simp add: unat_notional_exact)
qed

text \<open>Reducing keeps the ratio: the released margin is rounded down.\<close>

lemma scaled_notional_le:
  fixes s f e m l d :: nat
  assumes f: "f < s" and cap: "s * e div d \<le> m * l" and d: "0 < d"
  shows "(s - f) * e div d \<le> (m - m * f div s) * l"
proof -
  let ?m = "m - m * f div s"
  have s: "0 < s" using f by simp
  have "m * s - m * f \<le> m * s - m * f div s * s" by (rule diff_le_mono2) simp
  then have m: "m * (s - f) \<le> ?m * s" unfolding diff_mult_distrib2 diff_mult_distrib .
  have "s * e < (s * e div d + 1) * d"
    using d by (metis div_mult_mod_eq add.commute mod_less_divisor add_mult_distrib mult_1 nat_add_left_cancel_less)
  also have "\<dots> \<le> (m * l + 1) * d" using cap by simp
  finally have "s * e * (s - f) < (m * l + 1) * d * (s - f)" using f by simp
  also have "\<dots> = (m * (s - f)) * l * d + d * (s - f)" by (simp add: algebra_simps)
  also have "\<dots> \<le> (?m * s) * l * d + d * s" 
    by (rule add_mono [OF mult_le_mono1 [OF mult_le_mono1 [OF m]]]) simp
  finally have "s * ((s - f) * e) < s * ((?m * l + 1) * d)" by (simp add: algebra_simps)
  then have "(s - f) * e < (?m * l + 1) * d" using s by simp
  then have "(s - f) * e div d < ?m * l + 1" by (simp only: div_less_iff_less_mult [OF d])
  then show ?thesis by simp
qed

lemma reduced_by_fields:
  fixes now
  assumes "fi_size_1e8 fill < pp_size_1e8 p"
  defines "q \<equiv> reduced_by now fill p"
  shows "unat (pp_size_1e8 q) = unat (pp_size_1e8 p) - unat (fi_size_1e8 fill)"
    "pp_entry_price_1e8 q = pp_entry_price_1e8 p" "pp_side q = pp_side p"
    "unat (pp_margin_1e8 q) = unat (pp_margin_1e8 p) -
       min (unat (pp_margin_1e8 p) * unat (fi_size_1e8 fill)) (2 ^ 128 - 1) div unat (pp_size_1e8 p)"
  using assms(1)
  by (auto simp: q_def reduced_by_def unat_sub_le less_imp_le unat_saturating_sub unat_mul_div_floor word_less_nat_alt)

lemma reduced_within_leverage:
  assumes "within_leverage l p" and f: "fi_size_1e8 fill < pp_size_1e8 p"
  shows "within_leverage l (reduced_by now fill p)"
proof -
  let ?s = "unat (pp_size_1e8 p)" and ?f = "unat (fi_size_1e8 fill)" and ?m = "unat (pp_margin_1e8 p)"
    and ?e = "unat (pp_entry_price_1e8 p)"
  let ?rel = "min (?m * ?f) (2 ^ 128 - 1) div ?s"
  note q = reduced_by_fields [OF f, where now = now]
  have fs: "?f < ?s" using f by (simp add: word_less_nat_alt)
  have ok: "0 < ?s" "0 < ?e" "0 < ?m" "?s * ?e < 2 ^ 128" "?s * ?e div 10 ^ 8 \<le> ?m * unat l"
    using assms(1) by (auto simp: within_leverage_def)
  have rel: "?rel \<le> ?m * ?f div ?s" by (rule div_le_mono) simp
  have "?m * ?f < ?m * ?s" using fs ok by simp
  then have "?m * ?f div ?s < ?m" using ok(1) by (simp add: div_less_iff_less_mult)
  then have m': "0 < ?m - ?rel" using rel by linarith
  have "(?s - ?f) * ?e div 10 ^ 8 \<le> (?m - ?m * ?f div ?s) * unat l"
    using scaled_notional_le [OF fs ok(5)] by simp
  also have "\<dots> \<le> (?m - ?rel) * unat l" using rel by (intro mult_le_mono1) linarith
  finally have lev: "(?s - ?f) * ?e div 10 ^ 8 \<le> (?m - ?rel) * unat l" .
  have "(?s - ?f) * ?e \<le> ?s * ?e" by simp
  then have "(?s - ?f) * ?e < 2 ^ 128" using ok(4) by linarith
  then show ?thesis using lev m' fs ok(2) unfolding within_leverage_def q by auto
qed

text \<open>The sizes and values a fill adds up stay within the machine word.\<close>

fun fill_fits :: "perp_fill_input \<Rightarrow> perp_position option \<Rightarrow> bool" where
  "fill_fits fill None = (unat (fi_size_1e8 fill) * unat (fi_price_1e8 fill) < 2 ^ 128)"
| "fill_fits fill (Some p) =
     ((unat (pp_size_1e8 p) + unat (fi_size_1e8 fill)) * max (unat (pp_entry_price_1e8 p)) (unat (fi_price_1e8 fill)) < 2 ^ 128)"

lemma increased_within_leverage:
  assumes p: "within_leverage l p" and fit: "fill_fits fill (Some p)" and price: "fi_price_1e8 fill \<noteq> 0"
    and cov: "margin_covers market (pp_size_1e8 (increased_by now fill p)) (pp_entry_price_1e8 (increased_by now fill p))
        (pp_margin_1e8 (increased_by now fill p)) = Ok ()" and l: "l = pm_max_leverage market"
  shows "within_leverage l (increased_by now fill p)"
proof -
  let ?s = "unat (pp_size_1e8 p)" and ?f = "unat (fi_size_1e8 fill)" and ?e = "unat (pp_entry_price_1e8 p)"
    and ?x = "unat (fi_price_1e8 fill)"
  have ok: "0 < ?s" "0 < ?e" using p by (auto simp: within_leverage_def)
  have x: "0 < ?x" using price by (simp add: unat_gt_0)
  have fit': "(?s + ?f) * max ?e ?x < 2 ^ 128" using fit by simp
  have "(?s + ?f) * 1 \<le> (?s + ?f) * max ?e ?x" using x by (intro mult_le_mono2) auto
  then have "?s + ?f \<le> (?s + ?f) * max ?e ?x" by (simp only: mult_1_right)
  then have sum: "?s + ?f < 2 ^ 128" using fit' by (rule order_le_less_trans)
  have "?s * ?e + ?f * ?x \<le> (?s + ?f) * max ?e ?x"
    unfolding add_mult_distrib by (intro add_mono mult_le_mono2) auto
  then have "?s * ?e + ?f * ?x < 2 ^ 128" using fit' by (rule order_le_less_trans)
  note w = weighted_average_bounds [OF sum this]
  have w: "min ?e ?x \<le> unat (pp_entry_price_1e8 (increased_by now fill p))"
    "unat (pp_entry_price_1e8 (increased_by now fill p)) \<le> max ?e ?x"
    using w ok(1) by (auto simp: increased_by_def unat_gt_0)
  have sz: "unat (pp_size_1e8 (increased_by now fill p)) = ?s + ?f"
    using sum by (simp add: increased_by_def unat_saturating_add min_def)
  have "(?s + ?f) * unat (pp_entry_price_1e8 (increased_by now fill p)) \<le> (?s + ?f) * max ?e ?x"
    using w(2) by (rule mult_le_mono2)
  then have "(?s + ?f) * unat (pp_entry_price_1e8 (increased_by now fill p)) < 2 ^ 128" using fit' by (rule order_le_less_trans)
  then show ?thesis
    using margin_covers_Ok [OF cov] w(1) ok x unfolding within_leverage_def sz l by (auto simp: min_def split: if_splits)
qed

definition market_within_leverage :: "perps_read_market \<Rightarrow> perp_positions_store \<Rightarrow> bool" where
  "market_within_leverage market st =
     (\<forall>k p. active_at st k = Some p \<longrightarrow> pp_market_id p = pm_symbol market \<longrightarrow> within_leverage (pm_max_leverage market) p)"

lemma pp_market_of_key: "pp_key p = fill_key fill \<Longrightarrow> pp_market_id p = fi_market_id fill"
  by (simp add: pp_key_def fill_key_def index_key_def)

lemma fill_spec_within_leverage:
  assumes ok: "fill_checked new now market fill pos = Ok (out, pos')" and fit: "fill_fits fill pos"
    and pos: "\<And>p. pos = Some p \<Longrightarrow> within_leverage (pm_max_leverage market) p" and q: "pos' = Some q"
  shows "within_leverage (pm_max_leverage market) q"
proof -
  have basics: "fi_size_1e8 fill \<noteq> 0" "fi_price_1e8 fill \<noteq> 0" and spec: "fill_spec new now market fill pos = Ok (out, pos')"
    using ok by (auto simp: fill_checked_def validate_fill_basics_def and_then_Ok_iff split: if_splits)
  show ?thesis
  proof (cases pos)
    case None
    then have "margin_covers market (fi_size_1e8 fill) (fi_price_1e8 fill) (fi_margin_1e8 fill) = Ok ()" "q = opened_by new fill"
      using spec q by (auto simp: and_then_Ok_iff split: if_splits)
    then show ?thesis
      using margin_covers_Ok basics fit None by (auto simp: within_leverage_def unat_gt_0)
  next
    case (Some p)
    show ?thesis
    proof (cases "pp_side p = fi_side fill")
      case True
      then have "margin_covers market (pp_size_1e8 (increased_by now fill p)) (pp_entry_price_1e8 (increased_by now fill p))
          (pp_margin_1e8 (increased_by now fill p)) = Ok ()" "q = increased_by now fill p"
        using spec q Some by (auto simp: and_then_Ok_iff Let_def split: if_splits)
      then show ?thesis using increased_within_leverage [OF pos [OF Some]] fit Some basics by blast
    next
      case False
      then have "q = reduced_by now fill p" "fi_size_1e8 fill < pp_size_1e8 p"
        using spec q Some by (auto split: if_splits)
      then show ?thesis using reduced_within_leverage [OF pos [OF Some]] by blast
    qed
  qed
qed


section \<open>Properties\<close>

text \<open>
  C20: A fill is atomic and isolated: on a well-formed store it either fails and leaves the store
  exactly as it was, or it has the effect of the single-position specification on the open
  position of its account, subaccount and market, with the outcome the specification gives; every
  other open position is untouched and the store stays well formed.
\<close>

theorem apply_fill_refines:
  assumes "positions_inv st" "hm_get (ps_by_id st) (fst new) = None"
    "apply_perp_fill_for_account new now market fill st = (res, st')"
  shows "(\<forall>e. fill_checked new now market fill (active_at st (fill_key fill)) = Err e \<longrightarrow> res = Err e \<and> st' = st) \<and>
     (\<forall>out pos'. fill_checked new now market fill (active_at st (fill_key fill)) = Ok (out, pos') \<longrightarrow>
        res = Ok out \<and> active_at st' = (active_at st)(fill_key fill := pos') \<and> positions_inv st')"
  using apply_fill_refined [OF assms(1,2), of fill now market] assms(3) by (auto simp: fill_refined_def)

definition ex_fill :: "perp_side \<Rightarrow> u128 \<Rightarrow> perp_fill_input" where
  "ex_fill sd sz =
     \<lparr> fi_account = ''0xab'', fi_subaccount_id = 1, fi_market_id = ''ETH-PERP'', fi_side = sd,
       fi_size_1e8 = sz, fi_price_1e8 = 310000000000, fi_margin_1e8 = 31000000000 \<rparr>"

lemma ex_positions_inv: "positions_inv ex_positions"
  by (rule positions_reachable_inv [OF ex_positions_reachable])

lemma ex_positions_fresh: "hm_get (ps_by_id ex_positions) 2 = None"
  by code_simp

lemma ex_positions_active: "active_at ex_positions (fill_key (ex_fill sd sz)) = Some ex_position"
proof -
  have "index_key ''0xab'' 1 ''ETH-PERP'' = pp_key ex_position" by code_simp
  moreover have "pp_id ex_position = 1" "pp_is_open ex_position" by code_simp+
  ultimately show ?thesis
    using active_at_iff [OF ex_positions_inv] ex_positions_row by (simp add: ex_fill_def fill_key_def)
qed

theorem apply_fill_refines_witness:
  "\<exists>st'. apply_perp_fill_for_account (2, 20) 30 eth_perp_market (ex_fill PerpShort 100000000) ex_positions
      = (Ok (Closed (closed_by 30 (ex_fill PerpShort 100000000) ex_position) 10000000000), st')
     \<and> active_at st' (fill_key (ex_fill PerpShort 100000000)) = None"
proof -
  let ?f = "ex_fill PerpShort 100000000"
  have "fill_checked (2, 20) 30 eth_perp_market ?f (Some ex_position)
     = Ok (Closed (closed_by 30 ?f ex_position) 10000000000, None)" by code_simp
  moreover obtain res st' where "apply_perp_fill_for_account (2, 20) 30 eth_perp_market ?f ex_positions = (res, st')"
    by fastforce
  ultimately show ?thesis
    using apply_fill_refines [of ex_positions "(2, 20)" 30 eth_perp_market ?f res st']
      ex_positions_inv ex_positions_fresh ex_positions_active by auto
qed

text \<open>
  The leverage limit of a market is an invariant of fills: if every open position of the
  market is within it, so it is after any fill, whether the fill opens, increases, reduces or
  closes a position, as long as the values involved fit 128 bits.
\<close>

theorem fills_within_leverage:
  assumes "positions_inv st" "hm_get (ps_by_id st) (fst new) = None" "market_within_leverage market st"
    "fill_fits fill (active_at st (fill_key fill))"
  shows "market_within_leverage market (snd (apply_perp_fill_for_account new now market fill st))"
proof (cases "fill_checked new now market fill (active_at st (fill_key fill))")
  case (Inl e)
  then show ?thesis using apply_fill_refined [OF assms(1,2), of fill now market] assms(3) by (simp add: fill_refined_def)
next
  case (Inr r)
  obtain out pos' where r: "r = (out, pos')" by force
  have mkt: "fi_market_id fill = pm_symbol market"
    using Inr by (auto simp: fill_checked_def and_then_Ok_iff split: if_splits)
  have "within_leverage (pm_max_leverage market) q" if "pos' = Some q" for q
  proof (rule fill_spec_within_leverage [OF Inr [unfolded r] assms(4) _ that])
    fix p assume p: "active_at st (fill_key fill) = Some p"
    have "pp_market_id p = pm_symbol market"
      using active_at_SomeD(4) [OF assms(1) p] pp_market_of_key mkt by simp
    then show "within_leverage (pm_max_leverage market) p"
      using assms(3) p unfolding market_within_leverage_def by blast
  qed
  then show ?thesis
    using apply_fill_refined [OF assms(1,2), of fill now market] assms(3) Inr r
    by (simp add: fill_refined_def market_within_leverage_def)
qed

lemma ex_positions_within_leverage: "market_within_leverage eth_perp_market ex_positions"
proof -
  have "within_leverage (pm_max_leverage eth_perp_market) ex_position"
    by (simp add: within_leverage_def ex_position_def new_position_skeleton_def eth_perp_market_def)
  moreover have "hm_get (ps_by_id ex_positions) i = (if i = 1 then Some ex_position else None)" for i
    by (simp add: ex_positions_def insert_open_def ex_position_def new_position_skeleton_def new_positions_store_def
      hm_contains_key_def Let_def)
  ultimately show ?thesis
    using active_at_iff [OF ex_positions_inv] by (auto simp: market_within_leverage_def split: if_splits simp del: split_paired_All)
qed

theorem fills_within_leverage_witness:
  "market_within_leverage eth_perp_market
     (snd (apply_perp_fill_for_account (2, 20) 30 eth_perp_market (ex_fill PerpLong 100000000) ex_positions))"
  by (rule fills_within_leverage)
    (simp_all add: ex_positions_inv ex_positions_fresh ex_positions_within_leverage ex_positions_active,
     simp add: ex_fill_def ex_position_def new_position_skeleton_def)

text \<open>
  A fill against an opposite position never flips it.  A larger fill is refused; an equal one
  closes the position; a smaller one reduces the size by exactly the fill, keeps side and entry
  price, and releases the margin in proportion, rounded in favour of what stays.  Either way the
  profit realised is that of the closed size at the fill price.
\<close>

theorem opposite_fill_exact:
  assumes inv: "positions_inv st" "hm_get (ps_by_id st) (fst new) = None"
    and act: "active_at st (fill_key fill) = Some p" "pp_side p \<noteq> fi_side fill"
    and fill: "fi_size_1e8 fill \<noteq> 0" "fi_price_1e8 fill \<noteq> 0" "fi_market_id fill = pm_symbol market"
    and app: "apply_perp_fill_for_account new now market fill st = (res, st')"
  defines "r \<equiv> realized_pnl_1e8 (pp_entry_price_1e8 p) (fi_price_1e8 fill) (fi_size_1e8 fill) (pp_side p)"
  shows "(pp_size_1e8 p < fi_size_1e8 fill \<longrightarrow> res = Err PerpPositionFlip \<and> st' = st) \<and>
     (fi_size_1e8 fill = pp_size_1e8 p \<longrightarrow>
        (\<exists>q. res = Ok (Closed q r) \<and> pp_realized_pnl_1e8 q = i128_saturating_add (pp_realized_pnl_1e8 p) r) \<and>
        active_at st' (fill_key fill) = None) \<and>
     (fi_size_1e8 fill < pp_size_1e8 p \<longrightarrow> unat (pp_margin_1e8 p) * unat (fi_size_1e8 fill) < 2 ^ 128 \<longrightarrow>
        (\<exists>q. res = Ok (Reduced q r) \<and> active_at st' (fill_key fill) = Some q \<and>
           unat (pp_size_1e8 q) + unat (fi_size_1e8 fill) = unat (pp_size_1e8 p) \<and>
           pp_side q = pp_side p \<and> pp_entry_price_1e8 q = pp_entry_price_1e8 p \<and>
           unat (pp_margin_1e8 q) + unat (pp_margin_1e8 p) * unat (fi_size_1e8 fill) div unat (pp_size_1e8 p) = unat (pp_margin_1e8 p) \<and>
           pp_realized_pnl_1e8 q = i128_saturating_add (pp_realized_pnl_1e8 p) r))"
proof -
  have chk: "fill_checked new now market fill (active_at st (fill_key fill)) = fill_spec new now market fill (Some p)"
    using fill act by (simp add: fill_checked_def validate_fill_basics_def)
  note ref = apply_fill_refined [OF inv, of fill now market, unfolded chk app]
  have r: "fill_pnl fill p = r" by (simp add: fill_pnl_def r_def)
  show ?thesis
  proof (intro conjI impI)
    assume lt: "fi_size_1e8 fill < pp_size_1e8 p" and fit: "unat (pp_margin_1e8 p) * unat (fi_size_1e8 fill) < 2 ^ 128"
    let ?q = "reduced_by now fill p"
    note q = reduced_by_fields [OF lt, where now = now]
    have fs: "unat (fi_size_1e8 fill) < unat (pp_size_1e8 p)" using lt by (simp add: word_less_nat_alt)
    have "unat (pp_margin_1e8 p) * unat (fi_size_1e8 fill) div unat (pp_size_1e8 p) \<le> unat (pp_margin_1e8 p)"
      using fs by (metis div_le_mono less_imp_le mult_le_mono2 nonzero_mult_div_cancel_right not_less_zero)
    then have "unat (pp_margin_1e8 ?q) + unat (pp_margin_1e8 p) * unat (fi_size_1e8 fill) div unat (pp_size_1e8 p) = unat (pp_margin_1e8 p)"
      using fit unfolding q(4) by (simp add: min_def)
    moreover have "res = Ok (Reduced ?q r)" "active_at st' (fill_key fill) = Some ?q"
      using ref act lt less_not_sym [OF lt] less_imp_neq [OF lt] r by (auto simp: fill_refined_def)
    moreover have "pp_realized_pnl_1e8 ?q = i128_saturating_add (pp_realized_pnl_1e8 p) r"
      by (simp add: reduced_by_def r)
    ultimately show "\<exists>q. res = Ok (Reduced q r) \<and> active_at st' (fill_key fill) = Some q \<and>
           unat (pp_size_1e8 q) + unat (fi_size_1e8 fill) = unat (pp_size_1e8 p) \<and>
           pp_side q = pp_side p \<and> pp_entry_price_1e8 q = pp_entry_price_1e8 p \<and>
           unat (pp_margin_1e8 q) + unat (pp_margin_1e8 p) * unat (fi_size_1e8 fill) div unat (pp_size_1e8 p) = unat (pp_margin_1e8 p) \<and>
           pp_realized_pnl_1e8 q = i128_saturating_add (pp_realized_pnl_1e8 p) r"
      using q fs by (intro exI [of _ ?q]) simp
  qed (use ref act r in \<open>auto simp: fill_refined_def closed_by_def\<close>)
qed

theorem opposite_fill_exact_witness:
  "fst (apply_perp_fill_for_account (2, 20) 30 eth_perp_market (ex_fill PerpShort 100000001) ex_positions) = Err PerpPositionFlip"
proof -
  let ?f = "ex_fill PerpShort 100000001"
  obtain res st' where "apply_perp_fill_for_account (2, 20) 30 eth_perp_market ?f ex_positions = (res, st')" by fastforce
  moreover have "pp_side ex_position \<noteq> fi_side ?f" "fi_size_1e8 ?f \<noteq> 0" "fi_price_1e8 ?f \<noteq> 0" "fi_market_id ?f = pm_symbol eth_perp_market"
    "pp_size_1e8 ex_position < fi_size_1e8 ?f" by code_simp+
  ultimately show ?thesis
    using opposite_fill_exact [of ex_positions "(2, 20)" ?f ex_position eth_perp_market 30 res st']
      ex_positions_inv ex_positions_fresh ex_positions_active by auto
qed

end
