(* ===== verification/Perp_Orders.thy ===== *)
theory Perp_Orders
  imports Perp_Positions Indexed_Store "HOL-Library.Product_Lexorder"
begin

text \<open>
  Perpetual orders: the order model (\<^verbatim>\<open>src/perps/orders.rs\<close>), the store of orders and fills
  (\<^verbatim>\<open>src/perps/order_store.rs\<close>), the book view derived from it (\<^verbatim>\<open>src/perps/orderbook.rs\<close>) and the
  classification of refusals (\<^verbatim>\<open>src/perps/rejection.rs\<close>).
\<close>


section \<open>Enumerations and their text forms\<close>

datatype perp_order_side = PerpBuy | PerpSell

definition order_side_as_str :: "perp_order_side \<Rightarrow> string" where
  "order_side_as_str s = (case s of PerpBuy \<Rightarrow> ''buy'' | PerpSell \<Rightarrow> ''sell'')"

definition order_side_parse :: "string \<Rightarrow> backend_error + perp_order_side" where
  "order_side_parse v =
     (if v = ''buy'' then Ok PerpBuy else if v = ''sell'' then Ok PerpSell else Err Persistence)"

definition order_side_opposite :: "perp_order_side \<Rightarrow> perp_order_side" where
  "order_side_opposite s = (case s of PerpBuy \<Rightarrow> PerpSell | PerpSell \<Rightarrow> PerpBuy)"

definition position_side :: "perp_order_side \<Rightarrow> perp_side" where
  "position_side s = (case s of PerpBuy \<Rightarrow> PerpLong | PerpSell \<Rightarrow> PerpShort)"

datatype perp_order_type = PerpLimit

definition order_type_as_str :: "perp_order_type \<Rightarrow> string" where
  "order_type_as_str t = (case t of PerpLimit \<Rightarrow> ''limit'')"

definition order_type_parse :: "string \<Rightarrow> backend_error + perp_order_type" where
  "order_type_parse v = (if v = ''limit'' then Ok PerpLimit else Err Persistence)"

datatype perp_time_in_force = PerpGtc | PerpIoc | PerpFok

definition tif_as_str :: "perp_time_in_force \<Rightarrow> string" where
  "tif_as_str t = (case t of PerpGtc \<Rightarrow> ''gtc'' | PerpIoc \<Rightarrow> ''ioc'' | PerpFok \<Rightarrow> ''fok'')"

definition tif_parse :: "string \<Rightarrow> backend_error + perp_time_in_force" where
  "tif_parse v =
     (if v = ''gtc'' then Ok PerpGtc
      else if v = ''ioc'' then Ok PerpIoc
      else if v = ''fok'' then Ok PerpFok
      else Err (PerpUnsupportedTif v))"

datatype perp_order_status = PerpOpen | PerpPartiallyFilled | PerpFilled | PerpCancelled | PerpRejected

definition order_status_as_str :: "perp_order_status \<Rightarrow> string" where
  "order_status_as_str s =
     (case s of
        PerpOpen \<Rightarrow> ''open''
      | PerpPartiallyFilled \<Rightarrow> ''partially_filled''
      | PerpFilled \<Rightarrow> ''filled''
      | PerpCancelled \<Rightarrow> ''cancelled''
      | PerpRejected \<Rightarrow> ''rejected'')"

definition order_status_parse :: "string \<Rightarrow> backend_error + perp_order_status" where
  "order_status_parse v =
     (if v = ''open'' then Ok PerpOpen
      else if v = ''partially_filled'' then Ok PerpPartiallyFilled
      else if v = ''filled'' then Ok PerpFilled
      else if v = ''cancelled'' then Ok PerpCancelled
      else if v = ''rejected'' then Ok PerpRejected
      else Err Persistence)"

definition is_terminal :: "perp_order_status \<Rightarrow> bool" where
  "is_terminal s = (s = PerpFilled \<or> s = PerpCancelled \<or> s = PerpRejected)"

definition is_active :: "perp_order_status \<Rightarrow> bool" where
  "is_active s = (s = PerpOpen \<or> s = PerpPartiallyFilled)"

interpretation order_side_codec: text_codec order_side_as_str order_side_parse
proof
  show "order_side_parse (order_side_as_str x) = Ok x" for x
    by (cases x) (simp_all add: order_side_parse_def order_side_as_str_def)
  show "order_side_parse s = Ok x \<Longrightarrow> s = order_side_as_str x" for s x
    by (auto simp: order_side_parse_def order_side_as_str_def split: if_splits)
qed

interpretation order_type_codec: text_codec order_type_as_str order_type_parse
proof
  show "order_type_parse (order_type_as_str x) = Ok x" for x
    by (cases x) (simp_all add: order_type_parse_def order_type_as_str_def)
  show "order_type_parse s = Ok x \<Longrightarrow> s = order_type_as_str x" for s x
    by (auto simp: order_type_parse_def order_type_as_str_def split: if_splits)
qed

interpretation tif_codec: text_codec tif_as_str tif_parse
proof
  show "tif_parse (tif_as_str x) = Ok x" for x
    by (cases x) (simp_all add: tif_parse_def tif_as_str_def)
  show "tif_parse s = Ok x \<Longrightarrow> s = tif_as_str x" for s x
    by (auto simp: tif_parse_def tif_as_str_def split: if_splits)
qed

interpretation order_status_codec: text_codec order_status_as_str order_status_parse
proof
  show "order_status_parse (order_status_as_str x) = Ok x" for x
    by (cases x) (simp_all add: order_status_parse_def order_status_as_str_def)
  show "order_status_parse s = Ok x \<Longrightarrow> s = order_status_as_str x" for s x
    by (auto simp: order_status_parse_def order_status_as_str_def split: if_splits)
qed

interpretation position_side_codec: text_codec perp_side_as_str perp_side_parse
proof
  show "perp_side_parse (perp_side_as_str x) = Ok x" for x
    by (cases x) (simp_all add: perp_side_parse_def perp_side_as_str_def)
  show "perp_side_parse s = Ok x \<Longrightarrow> s = perp_side_as_str x" for s x
    by (auto simp: perp_side_parse_def perp_side_as_str_def split: if_splits)
qed

interpretation position_status_codec: text_codec position_status_as_str position_status_parse
proof
  show "position_status_parse (position_status_as_str x) = Ok x" for x
    by (cases x) (simp_all add: position_status_parse_def position_status_as_str_def)
  show "position_status_parse s = Ok x \<Longrightarrow> s = position_status_as_str x" for s x
    by (auto simp: position_status_parse_def position_status_as_str_def split: if_splits)
qed


section \<open>Orders and fills\<close>

definition FILLED :: string where "FILLED = ''filled''"
definition USER_CANCELLED :: string where "USER_CANCELLED = ''user_cancelled''"
definition IOC_UNFILLED_REMAINDER :: string where "IOC_UNFILLED_REMAINDER = ''ioc_unfilled_remainder''"
definition FOK_NOT_FILLABLE :: string where "FOK_NOT_FILLABLE = ''fok_not_fillable''"
definition POST_ONLY_WOULD_MATCH :: string where "POST_ONLY_WOULD_MATCH = ''post_only_would_match''"
definition REDUCE_ONLY_VIOLATION :: string where "REDUCE_ONLY_VIOLATION = ''reduce_only_violation''"
definition INVALID_TIF_COMBINATION :: string where "INVALID_TIF_COMBINATION = ''invalid_tif_combination''"
definition UNSUPPORTED_TIF :: string where "UNSUPPORTED_TIF = ''unsupported_tif''"
definition ZERO_PRICE :: string where "ZERO_PRICE = ''zero_price''"
definition ZERO_SIZE :: string where "ZERO_SIZE = ''zero_size''"
definition UNKNOWN_MARKET :: string where "UNKNOWN_MARKET = ''unknown_market''"
definition STALE_MARK_PRICE :: string where "STALE_MARK_PRICE = ''stale_mark_price''"
definition INSUFFICIENT_MARGIN :: string where "INSUFFICIENT_MARGIN = ''insufficient_margin''"
definition LEVERAGE_EXCEEDED :: string where "LEVERAGE_EXCEEDED = ''leverage_exceeded''"
definition SELF_TRADE :: string where "SELF_TRADE = ''self_trade''"
definition POSITION_FLIP :: string where "POSITION_FLIP = ''position_flip''"
definition DUPLICATE_CLIENT_ORDER_ID :: string where "DUPLICATE_CLIENT_ORDER_ID = ''duplicate_client_order_id''"
definition SOURCE_MATCHING_POLICY :: string where "SOURCE_MATCHING_POLICY = ''matching_policy''"
definition SOURCE_REQUEST_VALIDATION :: string where "SOURCE_REQUEST_VALIDATION = ''request_validation''"
definition SOURCE_RISK :: string where "SOURCE_RISK = ''risk''"
definition LIQUIDATED :: string where "LIQUIDATED = ''liquidated''"
definition SOURCE_LIQUIDATION_TICK :: string where "SOURCE_LIQUIDATION_TICK = ''liquidation_tick''"

record perp_order =
  po_id :: uuid
  po_account :: account_id
  po_subaccount_id :: u32
  po_market_id :: string
  po_side :: perp_order_side
  po_order_type :: perp_order_type
  po_price_1e8 :: u128
  po_size_1e8 :: u128
  po_remaining_size_1e8 :: u128
  po_filled_size_1e8 :: u128
  po_time_in_force :: perp_time_in_force
  po_post_only :: bool
  po_reduce_only :: bool
  po_isolated_margin_1e8 :: u128
  po_status :: perp_order_status
  po_client_order_id :: "string option"
  po_terminal_reason_code :: "string option"
  po_terminal_reason_message :: "string option"
  po_terminal_reason_source :: "string option"
  po_created_at_ms :: timestamp_ms
  po_updated_at_ms :: timestamp_ms

definition new_perp_order ::
  "uuid \<Rightarrow> account_id \<Rightarrow> u32 \<Rightarrow> string \<Rightarrow> perp_order_side \<Rightarrow> u128 \<Rightarrow> u128 \<Rightarrow> perp_time_in_force \<Rightarrow> bool \<Rightarrow> bool
     \<Rightarrow> u128 \<Rightarrow> string option \<Rightarrow> timestamp_ms \<Rightarrow> perp_order" where
  "new_perp_order i account subaccount_id market_id s price_1e8 size_1e8 tif post_only reduce_only
      isolated_margin_1e8 client_order_id now =
     \<lparr> po_id = i, po_account = account, po_subaccount_id = subaccount_id, po_market_id = market_id,
       po_side = s, po_order_type = PerpLimit, po_price_1e8 = price_1e8, po_size_1e8 = size_1e8,
       po_remaining_size_1e8 = size_1e8, po_filled_size_1e8 = 0, po_time_in_force = tif,
       po_post_only = post_only, po_reduce_only = reduce_only, po_isolated_margin_1e8 = isolated_margin_1e8,
       po_status = PerpOpen, po_client_order_id = client_order_id, po_terminal_reason_code = None,
       po_terminal_reason_message = None, po_terminal_reason_source = None,
       po_created_at_ms = now, po_updated_at_ms = now \<rparr>"

record perp_fill =
  pf_id :: uuid
  pf_market_id :: string
  pf_taker_order_id :: uuid
  pf_maker_order_id :: uuid
  pf_taker_account :: account_id
  pf_maker_account :: account_id
  pf_taker_subaccount_id :: u32
  pf_maker_subaccount_id :: u32
  pf_taker_side :: perp_order_side
  pf_price_1e8 :: u128
  pf_size_1e8 :: u128
  pf_created_at_ms :: timestamp_ms


section \<open>The store of orders and fills\<close>

record perp_order_store =
  st_orders :: "(uuid, perp_order) hashmap"
  st_fills :: "perp_fill list"
  st_by_client_order_id :: "(string \<times> u32 \<times> string, uuid) hashmap"

definition new_order_store :: perp_order_store where
  "new_order_store = \<lparr> st_orders = [], st_fills = [], st_by_client_order_id = [] \<rparr>"

definition client_key :: "perp_order \<Rightarrow> string \<Rightarrow> string \<times> u32 \<times> string" where
  "client_key ord client_id = (to_lowercase (po_account ord), po_subaccount_id ord, client_id)"

definition insert_order :: "perp_order \<Rightarrow> perp_order_store \<Rightarrow> (backend_error + perp_order) \<times> perp_order_store" where
  "insert_order ord st =
     (case po_client_order_id ord of
        Some client_id \<Rightarrow>
          if hm_contains_key (st_by_client_order_id st) (client_key ord client_id)
          then (Err (PerpDuplicateClientOrderId client_id), st)
          else (Ok ord, st\<lparr>st_by_client_order_id := hm_insert (client_key ord client_id) (po_id ord) (st_by_client_order_id st),
                         st_orders := hm_insert (po_id ord) ord (st_orders st)\<rparr>)
      | None \<Rightarrow> (Ok ord, st\<lparr>st_orders := hm_insert (po_id ord) ord (st_orders st)\<rparr>))"

definition get_perp_order :: "perp_order_store \<Rightarrow> uuid \<Rightarrow> perp_order option" where
  "get_perp_order st i = hm_get (st_orders st) i"

definition update_order ::
  "uuid \<Rightarrow> timestamp_ms \<Rightarrow> (perp_order \<Rightarrow> (backend_error + unit) \<times> perp_order) \<Rightarrow> perp_order_store
     \<Rightarrow> (backend_error + perp_order) \<times> perp_order_store" where
  "update_order i now mutator st =
     (case hm_get (st_orders st) i of
        None \<Rightarrow> (Err (PerpOrderNotFound i), st)
      | Some ord \<Rightarrow>
          (case mutator ord of
             (Err e, ord') \<Rightarrow> (Err e, st\<lparr>st_orders := hm_insert i ord' (st_orders st)\<rparr>)
           | (Ok _, ord') \<Rightarrow>
               let ord'' = ord'\<lparr>po_updated_at_ms := now\<rparr>
               in (Ok ord'', st\<lparr>st_orders := hm_insert i ord'' (st_orders st)\<rparr>)))"

definition insert_fill :: "perp_fill \<Rightarrow> perp_order_store \<Rightarrow> perp_order_store" where
  "insert_fill f st = st\<lparr>st_fills := st_fills st @ [f]\<rparr>"

definition list_orders_for_account :: "perp_order_store \<Rightarrow> account_id \<Rightarrow> perp_order list" where
  "list_orders_for_account st account =
     sort_key (\<lambda>ord. - po_created_at_ms ord)
       (filter (\<lambda>ord. to_lowercase (po_account ord) = to_lowercase account) (hm_values (st_orders st)))"

definition list_fills_for_account :: "perp_order_store \<Rightarrow> account_id \<Rightarrow> perp_fill list" where
  "list_fills_for_account st account =
     sort_key (\<lambda>f. - pf_created_at_ms f)
       (filter (\<lambda>f. to_lowercase (pf_taker_account f) = to_lowercase account \<or>
                    to_lowercase (pf_maker_account f) = to_lowercase account) (st_fills st))"

definition list_active_orders_for_market :: "perp_order_store \<Rightarrow> string \<Rightarrow> perp_order list" where
  "list_active_orders_for_market st market_id =
     filter (\<lambda>ord. po_market_id ord = market_id \<and> is_active (po_status ord)) (hm_values (st_orders st))"

definition active_order_count :: "perp_order_store \<Rightarrow> string \<Rightarrow> nat" where
  "active_order_count st market_id = length (list_active_orders_for_market st market_id)"

definition cancelled_order :: "string \<Rightarrow> string \<Rightarrow> timestamp_ms \<Rightarrow> perp_order \<Rightarrow> perp_order" where
  "cancelled_order reason source now ord =
     ord\<lparr>po_status := PerpCancelled, po_terminal_reason_code := Some reason,
       po_terminal_reason_source := Some source, po_updated_at_ms := now\<rparr>"

fun cancel_orders ::
  "string \<Rightarrow> string \<Rightarrow> timestamp_ms \<Rightarrow> uuid list \<Rightarrow> perp_order_store \<Rightarrow> perp_order list \<times> perp_order_store" where
  "cancel_orders reason source now [] st = ([], st)"
| "cancel_orders reason source now (i # ids) st =
     (case hm_get (st_orders st) i of
        Some ord \<Rightarrow>
          let ord' = cancelled_order reason source now ord;
              (out, st') = cancel_orders reason source now ids (st\<lparr>st_orders := hm_insert i ord' (st_orders st)\<rparr>)
          in (ord' # out, st')
      | None \<Rightarrow> cancel_orders reason source now ids st)"

definition cancel_open_orders_for_account_market ::
  "account_id \<Rightarrow> u32 \<Rightarrow> string \<Rightarrow> string \<Rightarrow> string \<Rightarrow> timestamp_ms \<Rightarrow> perp_order_store
     \<Rightarrow> perp_order list \<times> perp_order_store" where
  "cancel_open_orders_for_account_market account subaccount_id market_id reason source now st =
     (let ids = map po_id (filter (\<lambda>ord. po_market_id ord = market_id \<and> to_lowercase (po_account ord) = to_lowercase account \<and>
                                       po_subaccount_id ord = subaccount_id \<and> is_active (po_status ord)) (hm_values (st_orders st)))
      in cancel_orders reason source now ids st)"


section \<open>The book view\<close>

text \<open>Ids compare as the big-endian numbers they are; a descending price sorts by its negation.\<close>

definition active_asks_sorted :: "perp_order_store \<Rightarrow> string \<Rightarrow> perp_order list" where
  "active_asks_sorted st market_id =
     sort_key (\<lambda>ord. (po_price_1e8 ord, po_created_at_ms ord, po_id ord))
       (filter (\<lambda>ord. po_side ord = PerpSell) (list_active_orders_for_market st market_id))"

definition active_bids_sorted :: "perp_order_store \<Rightarrow> string \<Rightarrow> perp_order list" where
  "active_bids_sorted st market_id =
     sort_key (\<lambda>ord. (- uint (po_price_1e8 ord), po_created_at_ms ord, po_id ord))
       (filter (\<lambda>ord. po_side ord = PerpBuy) (list_active_orders_for_market st market_id))"

definition counterparties_for :: "perp_order_store \<Rightarrow> string \<Rightarrow> perp_order_side \<Rightarrow> perp_order list" where
  "counterparties_for st market_id taker_side =
     (case taker_side of
        PerpBuy \<Rightarrow> active_asks_sorted st market_id
      | PerpSell \<Rightarrow> active_bids_sorted st market_id)"

definition crosses :: "perp_order_side \<Rightarrow> u128 \<Rightarrow> u128 \<Rightarrow> bool" where
  "crosses taker_side taker_price_1e8 maker_price_1e8 =
     (case taker_side of
        PerpBuy \<Rightarrow> taker_price_1e8 \<ge> maker_price_1e8
      | PerpSell \<Rightarrow> taker_price_1e8 \<le> maker_price_1e8)"


section \<open>Classification of refusals\<close>

definition classify_perp_rejection :: "backend_error \<Rightarrow> (string \<times> string) option" where
  "classify_perp_rejection e =
     (case e of
        PerpZeroSize \<Rightarrow> Some (ZERO_SIZE, SOURCE_REQUEST_VALIDATION)
      | PerpZeroPrice \<Rightarrow> Some (ZERO_PRICE, SOURCE_REQUEST_VALIDATION)
      | PerpZeroMargin \<Rightarrow> Some (INSUFFICIENT_MARGIN, SOURCE_REQUEST_VALIDATION)
      | PerpsMarketNotFound _ \<Rightarrow> Some (UNKNOWN_MARKET, SOURCE_REQUEST_VALIDATION)
      | PerpMarkPriceUnavailable \<Rightarrow> Some (STALE_MARK_PRICE, SOURCE_RISK)
      | PerpDuplicateClientOrderId _ \<Rightarrow> Some (DUPLICATE_CLIENT_ORDER_ID, SOURCE_REQUEST_VALIDATION)
      | PerpPostOnlyWouldMatch \<Rightarrow> Some (POST_ONLY_WOULD_MATCH, SOURCE_MATCHING_POLICY)
      | PerpFokNotFillable \<Rightarrow> Some (FOK_NOT_FILLABLE, SOURCE_MATCHING_POLICY)
      | PerpInvalidTifCombination \<Rightarrow> Some (INVALID_TIF_COMBINATION, SOURCE_REQUEST_VALIDATION)
      | PerpUnsupportedTif _ \<Rightarrow> Some (UNSUPPORTED_TIF, SOURCE_REQUEST_VALIDATION)
      | PerpSelfTrade \<Rightarrow> Some (SELF_TRADE, SOURCE_MATCHING_POLICY)
      | PerpReduceOnlyViolation \<Rightarrow> Some (REDUCE_ONLY_VIOLATION, SOURCE_RISK)
      | PerpInsufficientMargin \<Rightarrow> Some (INSUFFICIENT_MARGIN, SOURCE_RISK)
      | PerpLeverageExceeded _ \<Rightarrow> Some (LEVERAGE_EXCEEDED, SOURCE_RISK)
      | PerpPositionFlip \<Rightarrow> Some (POSITION_FLIP, SOURCE_RISK)
      | _ \<Rightarrow> None)"


section \<open>The invariant of the store\<close>

text \<open>
  An order accounts for its whole size, and has something left as long as it is active.  Rows are
  filed under their id, and the client-id index finds every order that has a client id.
\<close>

definition order_ok :: "perp_order \<Rightarrow> bool" where
  "order_ok ord =
     (unat (po_filled_size_1e8 ord) + unat (po_remaining_size_1e8 ord) = unat (po_size_1e8 ord) \<and>
      (is_active (po_status ord) \<longrightarrow> po_remaining_size_1e8 ord \<noteq> 0) \<and> po_size_1e8 ord \<noteq> 0)"

definition orders_inv :: "perp_order_store \<Rightarrow> bool" where
  "orders_inv st =
     (hm_ok (st_orders st) \<and> hm_ok (st_by_client_order_id st) \<and>
      (\<forall>i ord. hm_get (st_orders st) i = Some ord \<longrightarrow>
         po_id ord = i \<and> order_ok ord \<and>
         (\<forall>c. po_client_order_id ord = Some c \<longrightarrow> hm_get (st_by_client_order_id st) (client_key ord c) = Some i)))"

lemma orders_invD:
  assumes "orders_inv st" "hm_get (st_orders st) i = Some ord"
  shows "po_id ord = i" "order_ok ord"
    "po_client_order_id ord = Some c \<Longrightarrow> hm_get (st_by_client_order_id st) (client_key ord c) = Some i"
  using assms unfolding orders_inv_def by blast+

lemma orders_inv_maps: "orders_inv st \<Longrightarrow> hm_ok (st_orders st) \<and> hm_ok (st_by_client_order_id st)"
  by (simp add: orders_inv_def)

lemma new_order_store_inv: "orders_inv new_order_store"
  by (simp add: orders_inv_def new_order_store_def)

lemma insert_order_cases:
  obtains c where "po_client_order_id ord = Some c" "insert_order ord st = (Err (PerpDuplicateClientOrderId c), st)"
      "hm_get (st_by_client_order_id st) (client_key ord c) \<noteq> None"
  | st' where "insert_order ord st = (Ok ord, st')" "st_orders st' = hm_insert (po_id ord) ord (st_orders st)"
      "st_fills st' = st_fills st"
      "st_by_client_order_id st' = (case po_client_order_id ord of None \<Rightarrow> st_by_client_order_id st
         | Some c \<Rightarrow> hm_insert (client_key ord c) (po_id ord) (st_by_client_order_id st))"
      "\<And>c. po_client_order_id ord = Some c \<Longrightarrow> hm_get (st_by_client_order_id st) (client_key ord c) = None"
proof (cases "po_client_order_id ord")
  case None
  show ?thesis by (rule that(2) [of "snd (insert_order ord st)"]) (simp_all add: insert_order_def None)
next
  case (Some c)
  show ?thesis
  proof (cases "hm_get (st_by_client_order_id st) (client_key ord c)")
    case None
    show ?thesis
      by (rule that(2) [of "snd (insert_order ord st)"]) (simp_all add: insert_order_def hm_contains_key_def Some None)
  next
    case (Some i)
    then show ?thesis
      by (intro that(1) [OF \<open>po_client_order_id ord = Some c\<close>])
        (simp_all add: insert_order_def hm_contains_key_def \<open>po_client_order_id ord = Some c\<close>)
  qed
qed

lemma insert_order_inv:
  assumes inv: "orders_inv st" and fresh: "hm_get (st_orders st) (po_id ord) = None" and ok: "order_ok ord"
  shows "orders_inv (snd (insert_order ord st))"
proof (cases rule: insert_order_cases [of ord st])
  case (1 c)
  then show ?thesis using inv by simp
next
  case (2 st')
  have client: "hm_get (st_by_client_order_id st') (client_key x c) = Some (po_id x)"
    if x: "hm_get (st_orders st') i = Some x" and c: "po_client_order_id x = Some c" for i x c
  proof (cases "i = po_id ord")
    case True
    then show ?thesis using x c 2(2,4) by simp
  next
    case False
    then have old: "hm_get (st_orders st) i = Some x" using x 2(2) by simp
    note c' = orders_invD(3) [OF inv old c] and id = orders_invD(1) [OF inv old]
    show ?thesis
    proof (cases "po_client_order_id ord")
      case None
      then show ?thesis using c' id 2(4) by simp
    next
      case (Some d)
      then have "client_key ord d \<noteq> client_key x c" using 2(5) [OF Some] c' by auto
      then show ?thesis using Some c' id 2(4) by simp
    qed
  qed
  have rows: "po_id x = i \<and> order_ok x" if x: "hm_get (st_orders st') i = Some x" for i x
  proof (cases "i = po_id ord")
    case True
    then show ?thesis using x 2(2) ok by simp
  next
    case False
    then have "hm_get (st_orders st) i = Some x" using x 2(2) by simp
    then show ?thesis using orders_invD(1,2) [OF inv] by blast
  qed
  have maps: "hm_ok (st_orders st')" "hm_ok (st_by_client_order_id st')"
    using orders_inv_maps [OF inv] 2(2,4) by (cases "po_client_order_id ord"; simp)+
  have "orders_inv st'"
    unfolding orders_inv_def using maps rows client by metis
  then show ?thesis using 2(1) by simp
qed

text \<open>A change of the progress of an order, not of its identity.\<close>

definition same_order_identity :: "perp_order \<Rightarrow> perp_order \<Rightarrow> bool" where
  "same_order_identity a b =
     (po_id a = po_id b \<and> po_account a = po_account b \<and> po_subaccount_id a = po_subaccount_id b \<and>
      po_market_id a = po_market_id b \<and> po_side a = po_side b \<and> po_price_1e8 a = po_price_1e8 b \<and>
      po_size_1e8 a = po_size_1e8 b \<and> po_client_order_id a = po_client_order_id b \<and>
      po_isolated_margin_1e8 a = po_isolated_margin_1e8 b \<and> po_reduce_only a = po_reduce_only b \<and>
      po_created_at_ms a = po_created_at_ms b)"

lemma same_order_identity_refl [simp]: "same_order_identity a a"
  by (simp add: same_order_identity_def)

lemma replace_perp_order_inv:
  assumes inv: "orders_inv st" and row: "hm_get (st_orders st) i = Some ord" and same: "same_order_identity ord' ord"
    and ok: "order_ok ord'"
  shows "orders_inv (st\<lparr>st_orders := hm_insert i ord' (st_orders st)\<rparr>)"
proof -
  note o1 = orders_invD [OF inv row]
  have k: "client_key ord' c = client_key ord c" for c using same by (simp add: client_key_def same_order_identity_def)
  have "po_id x = j \<and> order_ok x \<and>
      (\<forall>c. po_client_order_id x = Some c \<longrightarrow> hm_get (st_by_client_order_id st) (client_key x c) = Some j)"
    if "hm_get (hm_insert i ord' (st_orders st)) j = Some x" for j x
  proof (cases "j = i")
    case True
    then have "x = ord'" using that by simp
    then show ?thesis using True ok o1(1,3) same k by (simp add: same_order_identity_def)
  next
    case False
    then have "hm_get (st_orders st) j = Some x" using that by simp
    then show ?thesis using orders_invD [OF inv] by blast
  qed
  then show ?thesis using orders_inv_maps [OF inv] unfolding orders_inv_def by simp
qed

lemma update_order_Some:
  assumes "hm_get (st_orders st) i = Some ord" "f ord = (Ok (), ord')"
  shows "update_order i now f st = (Ok (ord'\<lparr>po_updated_at_ms := now\<rparr>),
     st\<lparr>st_orders := hm_insert i (ord'\<lparr>po_updated_at_ms := now\<rparr>) (st_orders st)\<rparr>)"
  using assms by (simp add: update_order_def Let_def)

lemma order_ok_touch [simp]: "order_ok (ord\<lparr>po_updated_at_ms := now\<rparr>) = order_ok ord"
  by (simp add: order_ok_def)

lemma same_identity_touch [simp]: "same_order_identity (a\<lparr>po_updated_at_ms := now\<rparr>) b = same_order_identity a b"
  by (simp add: same_order_identity_def)

lemma update_order_inv:
  assumes inv: "orders_inv st" and row: "hm_get (st_orders st) i = Some ord" and f: "f ord = (Ok (), ord')"
    and same: "same_order_identity ord' ord" and ok: "order_ok ord'"
  shows "orders_inv (snd (update_order i now f st))"
  using replace_perp_order_inv [OF inv row, of "ord'\<lparr>po_updated_at_ms := now\<rparr>"] same ok
  by (simp add: update_order_Some [where f = f, OF row f])


section \<open>What the book view lists\<close>

lemma list_active_orders_iff:
  "orders_inv st \<Longrightarrow> ord \<in> set (list_active_orders_for_market st m) \<longleftrightarrow>
     hm_get (st_orders st) (po_id ord) = Some ord \<and> po_market_id ord = m \<and> is_active (po_status ord)"
  using orders_invD(1) by (fastforce simp: list_active_orders_for_market_def set_hm_values orders_inv_maps)

lemma counterparties_iff:
  "orders_inv st \<Longrightarrow> ord \<in> set (counterparties_for st m s) \<longleftrightarrow>
     hm_get (st_orders st) (po_id ord) = Some ord \<and> po_market_id ord = m \<and> is_active (po_status ord) \<and>
     po_side ord = order_side_opposite s"
  by (cases s) (auto simp: counterparties_for_def active_asks_sorted_def active_bids_sorted_def list_active_orders_iff
      order_side_opposite_def)

lemma distinct_hm_values_ids:
  assumes inv: "orders_inv st"
  shows "distinct (map po_id (hm_values (st_orders st)))"
proof -
  have "map po_id (hm_values (st_orders st)) = map fst (st_orders st)"
    unfolding hm_values_def map_map
  proof (rule map_cong [OF refl])
    fix kv assume kv: "kv \<in> set (st_orders st)"
    obtain k v where kv': "kv = (k, v)" by force
    have "hm_get (st_orders st) k = Some v"
      using kv kv' orders_inv_maps [OF inv] by (simp add: hm_get_def hm_ok_def)
    then show "(po_id \<circ> snd) kv = fst kv" using orders_invD(1) [OF inv] kv' by simp
  qed
  then show ?thesis using orders_inv_maps [OF inv] by (simp add: hm_ok_def)
qed

lemma distinct_map_filter_ids: "distinct (map f xs) \<Longrightarrow> distinct (map f (filter P xs))"
  by (induction xs) auto

lemma distinct_sort_key_ids: "distinct (map f xs) \<Longrightarrow> distinct (map f (sort_key g xs))"
  by (metis distinct_map distinct_sort set_sort)

lemma counterparties_distinct: "orders_inv st \<Longrightarrow> distinct (map po_id (counterparties_for st m s))"
  unfolding counterparties_for_def active_asks_sorted_def active_bids_sorted_def list_active_orders_for_market_def
  by (cases s) (simp_all add: distinct_sort_key_ids distinct_map_filter_ids distinct_hm_values_ids)

text \<open>The order of service: price, then age, then id.\<close>

definition serves_before :: "perp_order_side \<Rightarrow> perp_order \<Rightarrow> perp_order \<Rightarrow> bool" where
  "serves_before taker_side a b =
     (let better = (case taker_side of
                      PerpBuy \<Rightarrow> po_price_1e8 a < po_price_1e8 b
                    | PerpSell \<Rightarrow> po_price_1e8 b < po_price_1e8 a)
      in better \<or> po_price_1e8 a = po_price_1e8 b \<and>
           (po_created_at_ms a < po_created_at_ms b \<or> po_created_at_ms a = po_created_at_ms b \<and> po_id a \<le> po_id b))"

lemma counterparties_sorted: "sorted_wrt (serves_before s) (counterparties_for st m s)"
proof (cases s)
  case PerpBuy
  have "sorted_wrt (\<lambda>a b. (po_price_1e8 a, po_created_at_ms a, po_id a) \<le> (po_price_1e8 b, po_created_at_ms b, po_id b))
      (active_asks_sorted st m)"
    using sorted_sort_key [of "\<lambda>ord. (po_price_1e8 ord, po_created_at_ms ord, po_id ord)"]
    by (simp add: active_asks_sorted_def sorted_map)
  then show ?thesis
    unfolding PerpBuy counterparties_for_def
    by (auto simp: serves_before_def less_eq_prod_def elim!: sorted_wrt_mono_rel [rotated])
next
  case PerpSell
  have "sorted_wrt (\<lambda>a b. (- uint (po_price_1e8 a), po_created_at_ms a, po_id a) \<le> (- uint (po_price_1e8 b), po_created_at_ms b, po_id b))
      (active_bids_sorted st m)"
    using sorted_sort_key [of "\<lambda>ord. (- uint (po_price_1e8 ord), po_created_at_ms ord, po_id ord)"]
    by (simp add: active_bids_sorted_def sorted_map)
  then show ?thesis
    unfolding PerpSell counterparties_for_def
    by (auto simp: serves_before_def less_eq_prod_def word_less_def word_uint_eq_iff less_le elim!: sorted_wrt_mono_rel [rotated])
qed


section \<open>Cancelling the orders of an account in a market\<close>

lemma cancel_orders_effect:
  assumes "distinct ids"
  shows "hm_get (st_orders (snd (cancel_orders r s now ids st))) i
      = (if i \<in> set ids then map_option (cancelled_order r s now) (hm_get (st_orders st) i) else hm_get (st_orders st) i)"
    "st_fills (snd (cancel_orders r s now ids st)) = st_fills st"
    "st_by_client_order_id (snd (cancel_orders r s now ids st)) = st_by_client_order_id st"
    "(\<And>j. j \<in> set ids \<Longrightarrow> hm_get (st_orders st) j \<noteq> None)
      \<Longrightarrow> fst (cancel_orders r s now ids st) = map (\<lambda>j. cancelled_order r s now (the (hm_get (st_orders st) j))) ids"
proof -
  have "hm_get (st_orders (snd (cancel_orders r s now ids st))) i
      = (if i \<in> set ids then map_option (cancelled_order r s now) (hm_get (st_orders st) i) else hm_get (st_orders st) i) \<and>
    st_fills (snd (cancel_orders r s now ids st)) = st_fills st \<and>
    st_by_client_order_id (snd (cancel_orders r s now ids st)) = st_by_client_order_id st \<and>
    ((\<forall>j \<in> set ids. hm_get (st_orders st) j \<noteq> None)
      \<longrightarrow> fst (cancel_orders r s now ids st) = map (\<lambda>j. cancelled_order r s now (the (hm_get (st_orders st) j))) ids)"
    using assms
  proof (induction ids arbitrary: st)
    case (Cons j ids)
    show ?case
    proof (cases "hm_get (st_orders st) j")
      case None
      then show ?thesis using Cons by simp
    next
      case (Some ord)
      let ?st = "st\<lparr>st_orders := hm_insert j (cancelled_order r s now ord) (st_orders st)\<rparr>"
      have step: "cancel_orders r s now (j # ids) st = (cancelled_order r s now ord # fst (cancel_orders r s now ids ?st),
          snd (cancel_orders r s now ids ?st))"
        using Some by (simp add: Let_def split: prod.split)
      have nj: "j \<notin> set ids" and d: "distinct ids" using Cons.prems by auto
      have same: "hm_get (st_orders ?st) x = hm_get (st_orders st) x" if "x \<in> set ids" for x
        using that nj by auto
      have "map (\<lambda>j. cancelled_order r s now (the (hm_get (st_orders ?st) j))) ids
          = map (\<lambda>j. cancelled_order r s now (the (hm_get (st_orders st) j))) ids"
        by (rule map_cong) (simp_all only: same)
      then show ?thesis using Cons.IH [OF d, of ?st] nj Some same by (simp add: step del: cancel_orders.simps)
    qed
  qed simp
  then show "hm_get (st_orders (snd (cancel_orders r s now ids st))) i
      = (if i \<in> set ids then map_option (cancelled_order r s now) (hm_get (st_orders st) i) else hm_get (st_orders st) i)"
    "st_fills (snd (cancel_orders r s now ids st)) = st_fills st"
    "st_by_client_order_id (snd (cancel_orders r s now ids st)) = st_by_client_order_id st"
    "(\<And>j. j \<in> set ids \<Longrightarrow> hm_get (st_orders st) j \<noteq> None)
      \<Longrightarrow> fst (cancel_orders r s now ids st) = map (\<lambda>j. cancelled_order r s now (the (hm_get (st_orders st) j))) ids"
    by blast+
qed

lemma cancel_orders_ok: "hm_ok (st_orders st) \<Longrightarrow> hm_ok (st_orders (snd (cancel_orders r s now ids st)))"
proof (induction ids arbitrary: st)
  case (Cons i ids)
  show ?case
  proof (cases "hm_get (st_orders st) i")
    case (Some ord)
    then show ?thesis
      using Cons.IH [of "st\<lparr>st_orders := hm_insert i (cancelled_order r s now ord) (st_orders st)\<rparr>"] Cons.prems
      by (simp add: Let_def case_prod_beta)
  qed (use Cons in simp)
qed simp

definition account_market_order :: "account_id \<Rightarrow> u32 \<Rightarrow> string \<Rightarrow> perp_order \<Rightarrow> bool" where
  "account_market_order a sub m ord =
     (po_market_id ord = m \<and> to_lowercase (po_account ord) = to_lowercase a \<and> po_subaccount_id ord = sub \<and> is_active (po_status ord))"

lemma cancel_open_orders_get:
  fixes a sub m r s now
  assumes inv: "orders_inv st"
  defines "st' \<equiv> snd (cancel_open_orders_for_account_market a sub m r s now st)"
  shows "hm_get (st_orders st') i = map_option
     (\<lambda>ord. if account_market_order a sub m ord then cancelled_order r s now ord else ord) (hm_get (st_orders st) i)"
    "st_fills st' = st_fills st"
    "set (fst (cancel_open_orders_for_account_market a sub m r s now st))
      = cancelled_order r s now ` {ord. hm_get (st_orders st) (po_id ord) = Some ord \<and> account_market_order a sub m ord}"
    "orders_inv st'"
proof -
  let ?xs = "filter (account_market_order a sub m) (hm_values (st_orders st))"
  let ?ids = "map po_id ?xs"
  have c: "cancel_open_orders_for_account_market a sub m r s now st = cancel_orders r s now ?ids st"
    by (simp add: cancel_open_orders_for_account_market_def account_market_order_def [abs_def] Let_def)
  have d: "distinct ?ids" by (simp add: distinct_map_filter_ids distinct_hm_values_ids [OF inv])
  have x: "ord \<in> set ?xs \<longleftrightarrow> hm_get (st_orders st) (po_id ord) = Some ord \<and> account_market_order a sub m ord" for ord
    using orders_invD(1) [OF inv] by (fastforce simp: set_hm_values orders_inv_maps [OF inv])
  have ids: "i \<in> set ?ids \<longleftrightarrow> (\<exists>ord. hm_get (st_orders st) i = Some ord \<and> account_market_order a sub m ord)" for i
    unfolding set_map image_iff Bex_def x using orders_invD(1) [OF inv] by blast
  note eff = cancel_orders_effect [OF d, where r = r and s = s and now = now and st = st]
  show get: "hm_get (st_orders st') i = map_option
     (\<lambda>ord. if account_market_order a sub m ord then cancelled_order r s now ord else ord) (hm_get (st_orders st) i)" for i
    unfolding st'_def c eff(1) ids by (cases "hm_get (st_orders st) i") auto
  show "st_fills st' = st_fills st" by (simp add: st'_def c eff(2))
  have "the (hm_get (st_orders st) (po_id ord)) = ord" if "ord \<in> set ?xs" for ord using that by (simp only: x option.sel)
  then have "(\<lambda>j. cancelled_order r s now (the (hm_get (st_orders st) j))) ` set ?ids = cancelled_order r s now ` set ?xs"
    unfolding set_map image_image by (intro image_cong) auto
  moreover have "fst (cancel_orders r s now ?ids st) = map (\<lambda>j. cancelled_order r s now (the (hm_get (st_orders st) j))) ?ids"
    using ids by (intro eff(4)) blast
  ultimately show "set (fst (cancel_open_orders_for_account_market a sub m r s now st))
      = cancelled_order r s now ` {ord. hm_get (st_orders st) (po_id ord) = Some ord \<and> account_market_order a sub m ord}"
    unfolding c set_map [symmetric] using x by (simp add: set_eq_iff image_iff)
  have by_client: "st_by_client_order_id st' = st_by_client_order_id st" by (simp add: st'_def c eff(3))
  have row: "po_id ord = i \<and> order_ok ord \<and>
         (\<forall>c. po_client_order_id ord = Some c \<longrightarrow> hm_get (st_by_client_order_id st') (client_key ord c) = Some i)"
    if new: "hm_get (st_orders st') i = Some ord" for i ord
  proof -
    obtain o0 where o0: "hm_get (st_orders st) i = Some o0" "ord = o0 \<or> ord = cancelled_order r s now o0"
      using new get by (auto split: if_splits)
    then show ?thesis
      using orders_invD [OF inv o0(1)] by_client
      by (auto simp: cancelled_order_def order_ok_def client_key_def is_active_def)
  qed
  have "hm_ok (st_orders st')" "hm_ok (st_by_client_order_id st')"
    using orders_inv_maps [OF inv] cancel_orders_ok by_client by (auto simp: st'_def c)
  then show "orders_inv st'" unfolding orders_inv_def using row by blast
qed


section \<open>Properties\<close>

text \<open>
  The text forms under which sides, order types, times in force, order statuses and position
  statuses are stored are exact: a text is read as a value exactly if it is the text written for
  that value, and every other text is refused.
\<close>

theorem perp_text_forms_round_trip:
  "(order_side_parse s = Ok x1 \<longleftrightarrow> s = order_side_as_str x1) \<and>
   (order_type_parse s = Ok x2 \<longleftrightarrow> s = order_type_as_str x2) \<and>
   (tif_parse s = Ok x3 \<longleftrightarrow> s = tif_as_str x3) \<and>
   (order_status_parse s = Ok x4 \<longleftrightarrow> s = order_status_as_str x4) \<and>
   (perp_side_parse s = Ok x5 \<longleftrightarrow> s = perp_side_as_str x5) \<and>
   (position_status_parse s = Ok x6 \<longleftrightarrow> s = position_status_as_str x6)"
  by (simp add: order_side_codec.dec_iff order_type_codec.dec_iff tif_codec.dec_iff order_status_codec.dec_iff
      position_side_codec.dec_iff position_status_codec.dec_iff)

text \<open>
  Cancelling the orders of an account, subaccount and market cancels exactly the active ones
  among them, with the reason given, reports exactly those, and changes no other order and no fill.
\<close>

theorem cancel_open_orders_exact:
  assumes "orders_inv st" "cancel_open_orders_for_account_market a sub m r src now st = (out, st')"
  shows "(\<forall>i. hm_get (st_orders st') i = map_option
       (\<lambda>ord. if account_market_order a sub m ord then cancelled_order r src now ord else ord) (hm_get (st_orders st) i)) \<and>
     set out = cancelled_order r src now ` {ord. hm_get (st_orders st) (po_id ord) = Some ord \<and> account_market_order a sub m ord} \<and>
     st_fills st' = st_fills st \<and> orders_inv st'"
  using cancel_open_orders_get [OF assms(1), of a sub m r src now] assms(2) by simp

definition ex_perp_order :: "uuid \<Rightarrow> perp_order_side \<Rightarrow> perp_order" where
  "ex_perp_order i s = new_perp_order i ''0xaa'' 1 ''ETH-PERP'' s 300000000000 100000000 PerpGtc False False 30000000000 (Some ''c'') 5"

definition ex_order_store :: perp_order_store where
  "ex_order_store = \<lparr> st_orders = [(1, ex_perp_order 1 PerpSell)], st_fills = [],
     st_by_client_order_id = [((''0xaa'', 1, ''c''), 1)] \<rparr>"

lemma ex_order_store_is_inserted: "ex_order_store = snd (insert_order (ex_perp_order 1 PerpSell) new_order_store)"
  by code_simp

lemma ex_order_store_inv: "orders_inv ex_order_store"
  unfolding ex_order_store_is_inserted
proof (rule insert_order_inv [OF new_order_store_inv])
  show "hm_get (st_orders new_order_store) (po_id (ex_perp_order 1 PerpSell)) = None" by (simp add: new_order_store_def)
  show "order_ok (ex_perp_order 1 PerpSell)" by (simp add: order_ok_def ex_perp_order_def new_perp_order_def)
qed

theorem cancel_open_orders_exact_witness:
  "hm_get (st_orders (snd (cancel_open_orders_for_account_market ''0xAA'' 1 ''ETH-PERP'' LIQUIDATED SOURCE_LIQUIDATION_TICK 9 ex_order_store))) 1
     = Some (cancelled_order LIQUIDATED SOURCE_LIQUIDATION_TICK 9 (ex_perp_order 1 PerpSell))"
proof -
  obtain out st' where c: "cancel_open_orders_for_account_market ''0xAA'' 1 ''ETH-PERP'' LIQUIDATED SOURCE_LIQUIDATION_TICK 9
      ex_order_store = (out, st')" by fastforce
  have "hm_get (st_orders ex_order_store) 1 = Some (ex_perp_order 1 PerpSell)" by (simp add: ex_order_store_def hm_get_def)
  moreover have "account_market_order ''0xAA'' 1 ''ETH-PERP'' (ex_perp_order 1 PerpSell)" by code_simp
  ultimately show ?thesis using cancel_open_orders_exact [OF ex_order_store_inv c] c by simp
qed

end
