(* ===== verification/Perp_Execution.thy ===== *)
theory Perp_Execution
  imports Perp_Fills Perp_Orders "HOL-Library.Sublist"
begin

text \<open>
  Order execution of the perpetuals engine, \<^verbatim>\<open>src/perps/execution.rs\<close>: request validation, the oracle
  and risk gates, the plan of fills against the resting orders and its commit to the two stores.
\<close>


section \<open>Requests, oracle readings and plans\<close>

record submit_perp_order_input =
  si_account :: account_id
  si_subaccount_id :: u32
  si_market_id :: string
  si_side :: perp_order_side
  si_price_1e8 :: u128
  si_size_1e8 :: u128
  si_time_in_force :: perp_time_in_force
  si_post_only :: bool
  si_reduce_only :: bool
  si_isolated_margin_1e8 :: u128
  si_client_order_id :: "string option"
  si_max_execution_price_1e8 :: u128
  si_min_execution_price_1e8 :: u128

record submit_perp_order_outcome =
  sp_order :: perp_order
  sp_fills :: "perp_fill list"

record planned_fill =
  plan_maker_order_id :: uuid
  plan_maker_account :: account_id
  plan_price_1e8 :: u128
  plan_size_1e8 :: u128

record raw_price_read =
  rp_price_1e8 :: u128
  rp_updated_at_sec :: u64
  rp_ok :: bool

definition u64_as_i64 :: "u64 \<Rightarrow> i64" where
  "u64_as_i64 x = sint x"

definition rp_updated_at_ms :: "raw_price_read \<Rightarrow> timestamp_ms" where
  "rp_updated_at_ms r = i64_sat (u64_as_i64 (rp_updated_at_sec r) * 1000)"


section \<open>Validation\<close>

definition validate_input_basics :: "submit_perp_order_input \<Rightarrow> backend_error + unit" where
  "validate_input_basics input =
     (if si_size_1e8 input = 0 then Err PerpZeroSize
      else if (case si_side input of
                 PerpBuy \<Rightarrow> si_min_execution_price_1e8 input \<noteq> 0
               | PerpSell \<Rightarrow> si_max_execution_price_1e8 input \<noteq> 0)
      then Err PerpsInvalidBoundForSide
      else if si_price_1e8 input = 0
      then (let has_bound = (case si_side input of
                               PerpBuy \<Rightarrow> si_max_execution_price_1e8 input \<noteq> 0
                             | PerpSell \<Rightarrow> si_min_execution_price_1e8 input \<noteq> 0)
            in if \<not> has_bound then Err PerpsInvalidBoundForSide else Ok ())
      else (case si_side input of
              PerpBuy \<Rightarrow>
                if si_max_execution_price_1e8 input \<noteq> 0 \<and> si_max_execution_price_1e8 input < si_price_1e8 input
                then Err PerpsUserBoundAboveLimit else Ok ()
            | PerpSell \<Rightarrow>
                if si_min_execution_price_1e8 input \<noteq> 0 \<and> si_min_execution_price_1e8 input > si_price_1e8 input
                then Err PerpsUserBoundBelowLimit else Ok ()))"

definition effective_limit_price_1e8 :: "submit_perp_order_input \<Rightarrow> u128" where
  "effective_limit_price_1e8 input =
     (if si_price_1e8 input \<noteq> 0 then si_price_1e8 input
      else case si_side input of
             PerpBuy \<Rightarrow> si_max_execution_price_1e8 input
           | PerpSell \<Rightarrow> si_min_execution_price_1e8 input)"

definition validate_tif_combinations :: "submit_perp_order_input \<Rightarrow> backend_error + unit" where
  "validate_tif_combinations input =
     (if si_post_only input \<and> si_time_in_force input \<noteq> PerpGtc then Err PerpInvalidTifCombination else Ok ())"

definition find_market :: "perps_read_config \<Rightarrow> submit_perp_order_input \<Rightarrow> backend_error + perps_read_market" where
  "find_market cfg input = ok_or (market_by_symbol cfg (si_market_id input)) (PerpsMarketNotFound (si_market_id input))"

text \<open>The price reader is a function of the market row; it may fail.\<close>

definition prepare_submit_oracle ::
  "perps_read_config \<Rightarrow> (perps_read_market \<Rightarrow> backend_error + raw_price_read) \<Rightarrow> submit_perp_order_input
     \<Rightarrow> backend_error + raw_price_read" where
  "prepare_submit_oracle cfg read_price input =
     and_then (validate_input_basics input) (\<lambda>_.
     and_then (validate_tif_combinations input) (\<lambda>_.
     and_then (find_market cfg input) (\<lambda>market. read_price market)))"


section \<open>Oracle and risk gates\<close>

definition ensure_mark_fresh :: "perps_read_config \<Rightarrow> timestamp_ms \<Rightarrow> raw_price_read \<Rightarrow> backend_error + unit" where
  "ensure_mark_fresh cfg now read =
     (if \<not> rp_ok read \<or> rp_price_1e8 read = 0 then Err PerpMarkPriceUnavailable
      else let updated_ms = rp_updated_at_ms read;
               stale_after_ms = i64_sat (u64_as_i64 (pc_stale_after_sec cfg) * 1000)
           in if updated_ms = 0 \<or> i64_sat (now - updated_ms) > stale_after_ms then Err PerpMarkPriceUnavailable
              else Ok ())"

definition deviation_bps :: "u128 \<Rightarrow> u128 \<Rightarrow> u32" where
  "deviation_bps index_1e8 mark_1e8 =
     (if index_1e8 = 0 then 0
      else let diff = (if mark_1e8 \<ge> index_1e8 then mark_1e8 - index_1e8 else index_1e8 - mark_1e8);
               bps_u128 = saturating_mul diff BPS div index_1e8
           in if bps_u128 > 4294967295 then - 1 else ucast bps_u128)"

definition ensure_mark_within_deviation :: "perps_read_config \<Rightarrow> raw_price_read \<Rightarrow> backend_error + unit" where
  "ensure_mark_within_deviation cfg read =
     (let index = rp_price_1e8 read; mark = rp_price_1e8 read; observed_bps = deviation_bps index mark
      in if observed_bps > pc_oracle_max_deviation_bps cfg then Err PerpOracleDeviationExceeded else Ok ())"

definition exceeds :: "u128 option \<Rightarrow> u128 \<Rightarrow> bool" where
  "exceeds cap x = (case cap of Some c \<Rightarrow> x > c | None \<Rightarrow> False)"

definition enforce_pre_submit_risk_caps ::
  "perps_read_market \<Rightarrow> perp_positions_store \<Rightarrow> submit_perp_order_input \<Rightarrow> backend_error + unit" where
  "enforce_pre_submit_risk_caps market positions input =
     (if exceeds (pm_max_order_size_1e8 market) (si_size_1e8 input) then Err PerpOrderSizeCap
      else let order_notional = notional_1e8 (si_size_1e8 input) (si_price_1e8 input)
           in if exceeds (pm_max_order_notional_1e8 market) order_notional then Err PerpOrderNotionalCap
              else let existing_subaccount_notional =
                         sum_list (map (\<lambda>p. notional_1e8 (pp_size_1e8 p) (pp_entry_price_1e8 p))
                           (filter (\<lambda>p. pp_status p = PosOpen \<and> pp_market_id p = pm_symbol market)
                             (list_for_account_and_subaccount positions (si_account input) (si_subaccount_id input))))
                   in if exceeds (pm_max_subaccount_notional_1e8 market) (saturating_add existing_subaccount_notional order_notional)
                      then Err PerpSubaccountNotionalCap
                      else let current_oi = sum_list (map pp_size_1e8
                                 (filter (\<lambda>p. pp_status p = PosOpen \<and> pp_market_id p = pm_symbol market)
                                   (hm_values (ps_by_id positions))))
                           in if exceeds (pm_max_open_interest_1e8 market) (saturating_add current_oi (si_size_1e8 input))
                              then Err PerpOpenInterestCap
                              else Ok ())"

text \<open>The checks before the order is stored; they read the positions and change nothing.\<close>

definition submit_gate ::
  "perps_read_config \<Rightarrow> perp_positions_store \<Rightarrow> timestamp_ms \<Rightarrow> backend_error + raw_price_read \<Rightarrow> submit_perp_order_input
     \<Rightarrow> backend_error + perps_read_market" where
  "submit_gate cfg positions now oracle_read input =
     and_then (validate_input_basics input) (\<lambda>_.
     and_then (validate_tif_combinations input) (\<lambda>_.
     and_then (find_market cfg input) (\<lambda>market.
       if si_reduce_only input then Ok market
       else case oracle_read of
              Err _ \<Rightarrow> Err PerpMarkPriceUnavailable
            | Ok read \<Rightarrow>
                and_then (ensure_mark_fresh cfg now read) (\<lambda>_.
                and_then (ensure_mark_within_deviation cfg read) (\<lambda>_.
                and_then (enforce_pre_submit_risk_caps market positions input) (\<lambda>_. Ok market))))))"


section \<open>Planning\<close>

fun plan_loop :: "perp_order_side \<Rightarrow> u128 \<Rightarrow> u128 \<Rightarrow> perp_order list \<Rightarrow> planned_fill list" where
  "plan_loop taker_side taker_price taker_remaining [] = []"
| "plan_loop taker_side taker_price taker_remaining (maker # makers) =
     (if taker_remaining = 0 then []
      else if \<not> crosses taker_side taker_price (po_price_1e8 maker) then []
      else let fill = min taker_remaining (po_remaining_size_1e8 maker)
           in if fill = 0 then plan_loop taker_side taker_price taker_remaining makers
              else \<lparr> plan_maker_order_id = po_id maker, plan_maker_account = po_account maker,
                     plan_price_1e8 = po_price_1e8 maker, plan_size_1e8 = fill \<rparr>
                   # plan_loop taker_side taker_price (taker_remaining - fill) makers)"

definition plan_fills :: "perp_order_store \<Rightarrow> perp_order \<Rightarrow> planned_fill list" where
  "plan_fills st taker =
     plan_loop (po_side taker) (po_price_1e8 taker) (po_size_1e8 taker)
       (counterparties_for st (po_market_id taker) (po_side taker))"

definition enforce_reduce_only :: "perp_positions_store \<Rightarrow> perp_order \<Rightarrow> backend_error + unit" where
  "enforce_reduce_only positions ord =
     (let opposite = perp_side_opposite (position_side (po_side ord))
      in case get_active positions (po_account ord) (po_subaccount_id ord) (po_market_id ord) of
           None \<Rightarrow> Err PerpReduceOnlyViolation
         | Some existing \<Rightarrow>
             if pp_side existing \<noteq> opposite then Err PerpReduceOnlyViolation
             else if po_size_1e8 ord > pp_size_1e8 existing then Err PerpReduceOnlyViolation
             else Ok ())"

definition mark_order_terminal ::
  "uuid \<Rightarrow> perp_order_status \<Rightarrow> string \<Rightarrow> string \<Rightarrow> string \<Rightarrow> timestamp_ms \<Rightarrow> perp_order_store
     \<Rightarrow> (backend_error + perp_order) \<times> perp_order_store" where
  "mark_order_terminal order_id status code message source now st =
     update_order order_id now (\<lambda>ord. (Ok (), ord\<lparr>po_status := status, po_terminal_reason_code := Some code,
       po_terminal_reason_message := Some message, po_terminal_reason_source := Some source\<rparr>)) st"

definition pro_rate :: "u128 \<Rightarrow> u128 \<Rightarrow> u128 \<Rightarrow> u128" where
  "pro_rate whole_amount part whole = (if whole = 0 then 0 else div_ceil (saturating_mul whole_amount part) whole)"


section \<open>Committing\<close>

text \<open>
  What one iteration of the commit loop draws: the id and clock of a new position and the clock
  of the applicator for either side, and the id of the fill.
\<close>

record fill_draw =
  fd_taker_new :: "uuid \<times> timestamp_ms"
  fd_taker_now :: timestamp_ms
  fd_maker_new :: "uuid \<times> timestamp_ms"
  fd_maker_now :: timestamp_ms
  fd_fill_id :: uuid

definition maker_filled :: "u128 \<Rightarrow> perp_order \<Rightarrow> perp_order" where
  "maker_filled sz maker =
     (let new_remaining = saturating_sub (po_remaining_size_1e8 maker) sz;
          maker' = maker\<lparr>po_filled_size_1e8 := saturating_add (po_filled_size_1e8 maker) sz,
                         po_remaining_size_1e8 := new_remaining\<rparr>
      in if new_remaining = 0
         then maker'\<lparr>po_status := PerpFilled, po_terminal_reason_code := Some FILLED,
                     po_terminal_reason_source := Some SOURCE_MATCHING_POLICY\<rparr>
         else maker'\<lparr>po_status := PerpPartiallyFilled\<rparr>)"

type_synonym perp_stores = "perp_order_store \<times> perp_positions_store"

definition taker_fill_input :: "perp_order \<Rightarrow> planned_fill \<Rightarrow> perp_fill_input" where
  "taker_fill_input ord plan =
     \<lparr> fi_account = po_account ord, fi_subaccount_id = po_subaccount_id ord, fi_market_id = po_market_id ord,
       fi_side = position_side (po_side ord), fi_size_1e8 = plan_size_1e8 plan, fi_price_1e8 = plan_price_1e8 plan,
       fi_margin_1e8 = (if po_reduce_only ord then 0
                        else pro_rate (po_isolated_margin_1e8 ord) (plan_size_1e8 plan) (po_size_1e8 ord)) \<rparr>"

definition maker_fill_input :: "perp_order \<Rightarrow> planned_fill \<Rightarrow> perp_order \<Rightarrow> perp_fill_input" where
  "maker_fill_input ord plan maker_after =
     \<lparr> fi_account = plan_maker_account plan, fi_subaccount_id = po_subaccount_id maker_after,
       fi_market_id = po_market_id ord, fi_side = position_side (order_side_opposite (po_side ord)),
       fi_size_1e8 = plan_size_1e8 plan, fi_price_1e8 = plan_price_1e8 plan,
       fi_margin_1e8 = (if po_reduce_only maker_after then 0
                        else pro_rate (po_isolated_margin_1e8 maker_after) (plan_size_1e8 plan)
                               (max (po_size_1e8 maker_after) 1)) \<rparr>"

definition make_fill :: "uuid \<Rightarrow> timestamp_ms \<Rightarrow> perp_order \<Rightarrow> planned_fill \<Rightarrow> perp_order \<Rightarrow> perp_fill" where
  "make_fill i now ord plan maker_after =
     \<lparr> pf_id = i, pf_market_id = po_market_id ord, pf_taker_order_id = po_id ord,
       pf_maker_order_id = plan_maker_order_id plan, pf_taker_account = po_account ord,
       pf_maker_account = plan_maker_account plan, pf_taker_subaccount_id = po_subaccount_id ord,
       pf_maker_subaccount_id = po_subaccount_id maker_after, pf_taker_side = po_side ord,
       pf_price_1e8 = plan_price_1e8 plan, pf_size_1e8 = plan_size_1e8 plan, pf_created_at_ms = now \<rparr>"

definition commit_one ::
  "perps_read_market \<Rightarrow> timestamp_ms \<Rightarrow> perp_order \<Rightarrow> fill_draw \<Rightarrow> planned_fill \<Rightarrow> perp_stores
     \<Rightarrow> (backend_error + perp_fill) \<times> perp_stores" where
  "commit_one market now ord d plan stores =
     (case update_order (plan_maker_order_id plan) now (\<lambda>maker. (Ok (), maker_filled (plan_size_1e8 plan) maker)) (fst stores) of
        (Err e, os) \<Rightarrow> (Err e, os, snd stores)
      | (Ok _, os) \<Rightarrow>
          (case get_perp_order os (plan_maker_order_id plan) of
             None \<Rightarrow> (Err (PerpOrderNotFound (plan_maker_order_id plan)), os, snd stores)
           | Some maker_after \<Rightarrow>
               (case apply_perp_fill_for_account (fd_taker_new d) (fd_taker_now d) market (taker_fill_input ord plan) (snd stores) of
                  (Err e, ps) \<Rightarrow> (Err e, os, ps)
                | (Ok _, ps) \<Rightarrow>
                    (case apply_perp_fill_for_account (fd_maker_new d) (fd_maker_now d) market
                            (maker_fill_input ord plan maker_after) ps of
                       (Err e, ps') \<Rightarrow> (Err e, os, ps')
                     | (Ok _, ps') \<Rightarrow>
                         let fill = make_fill (fd_fill_id d) now ord plan maker_after
                         in (Ok fill, insert_fill fill os, ps')))))"

fun commit_fills ::
  "perps_read_market \<Rightarrow> timestamp_ms \<Rightarrow> perp_order \<Rightarrow> (nat \<Rightarrow> fill_draw) \<Rightarrow> nat \<Rightarrow> planned_fill list
     \<Rightarrow> perp_fill list \<Rightarrow> u128 \<Rightarrow> perp_stores \<Rightarrow> (backend_error + perp_fill list \<times> u128) \<times> perp_stores" where
  "commit_fills market now ord draws n [] fills taker_remaining stores = (Ok (fills, taker_remaining), stores)"
| "commit_fills market now ord draws n (plan # plans) fills taker_remaining stores =
     (case commit_one market now ord (draws n) plan stores of
        (Err e, stores') \<Rightarrow> (Err e, stores')
      | (Ok fill, stores') \<Rightarrow>
          commit_fills market now ord draws (n + 1) plans (fills @ [fill])
            (saturating_sub taker_remaining (plan_size_1e8 plan)) stores')"

definition taker_final_status :: "perp_time_in_force \<Rightarrow> bool \<Rightarrow> u128 \<Rightarrow> perp_order_status" where
  "taker_final_status tif any_fill taker_remaining =
     (if taker_remaining = 0 then PerpFilled
      else if any_fill then (case tif of PerpIoc \<Rightarrow> PerpCancelled | PerpGtc \<Rightarrow> PerpPartiallyFilled | PerpFok \<Rightarrow> PerpCancelled)
      else (case tif of PerpGtc \<Rightarrow> PerpOpen | PerpIoc \<Rightarrow> PerpCancelled | PerpFok \<Rightarrow> PerpCancelled))"

definition taker_reason :: "perp_order_status \<Rightarrow> perp_time_in_force \<Rightarrow> (string \<times> string) option" where
  "taker_reason status tif =
     (if status = PerpFilled then Some (FILLED, SOURCE_MATCHING_POLICY)
      else if status = PerpCancelled \<and> tif = PerpIoc then Some (IOC_UNFILLED_REMAINDER, SOURCE_MATCHING_POLICY)
      else if status = PerpCancelled \<and> tif = PerpFok then Some (FOK_NOT_FILLABLE, SOURCE_MATCHING_POLICY)
      else None)"

definition taker_finished :: "perp_time_in_force \<Rightarrow> bool \<Rightarrow> u128 \<Rightarrow> perp_order \<Rightarrow> perp_order" where
  "taker_finished tif any_fill taker_remaining ord =
     (let status = taker_final_status tif any_fill taker_remaining;
          ord' = ord\<lparr>po_filled_size_1e8 := saturating_sub (po_size_1e8 ord) taker_remaining,
                     po_remaining_size_1e8 := taker_remaining, po_status := status\<rparr>
      in case taker_reason status tif of
           Some (code, source) \<Rightarrow> ord'\<lparr>po_terminal_reason_code := Some code, po_terminal_reason_source := Some source\<rparr>
         | None \<Rightarrow> ord')"

record submit_env =
  en_gate_now :: timestamp_ms
  en_order_id :: uuid
  en_now :: timestamp_ms
  en_draws :: "nat \<Rightarrow> fill_draw"

definition build_order :: "submit_env \<Rightarrow> submit_perp_order_input \<Rightarrow> perp_order" where
  "build_order env input =
     new_perp_order (en_order_id env) (si_account input) (si_subaccount_id input) (si_market_id input) (si_side input)
       (effective_limit_price_1e8 input) (si_size_1e8 input) (si_time_in_force input) (si_post_only input)
       (si_reduce_only input) (si_isolated_margin_1e8 input) (si_client_order_id input) (en_now env)"

definition reject_order ::
  "uuid \<Rightarrow> string \<Rightarrow> string \<Rightarrow> timestamp_ms \<Rightarrow> backend_error \<Rightarrow> perp_stores
     \<Rightarrow> (backend_error + submit_perp_order_outcome) \<times> perp_stores" where
  "reject_order order_id code message now err stores =
     (case mark_order_terminal order_id PerpRejected code message SOURCE_MATCHING_POLICY now (fst stores) of
        (Err e, os) \<Rightarrow> (Err e, os, snd stores)
      | (Ok _, os) \<Rightarrow> (Err err, os, snd stores))"

definition commit_order ::
  "perps_read_market \<Rightarrow> timestamp_ms \<Rightarrow> (nat \<Rightarrow> fill_draw) \<Rightarrow> perp_order \<Rightarrow> planned_fill list \<Rightarrow> perp_stores
     \<Rightarrow> (backend_error + submit_perp_order_outcome) \<times> perp_stores" where
  "commit_order market now draws ord planned stores =
     (case commit_fills market now ord draws 0 planned [] (po_size_1e8 ord) stores of
        (Err e, stores') \<Rightarrow> (Err e, stores')
      | (Ok (fills, taker_remaining), stores') \<Rightarrow>
          (case update_order (po_id ord) now
                  (\<lambda>r. (Ok (), taker_finished (po_time_in_force ord) (fills \<noteq> []) taker_remaining r)) (fst stores') of
             (Err e, os') \<Rightarrow> (Err e, os', snd stores')
           | (Ok updated, os') \<Rightarrow> (Ok \<lparr> sp_order = updated, sp_fills = fills \<rparr>, os', snd stores')))"

text \<open>From the stored order on: planning, the matching policies, and the commit.\<close>

definition match_and_commit ::
  "submit_env \<Rightarrow> perps_read_market \<Rightarrow> perp_order \<Rightarrow> perp_stores
     \<Rightarrow> (backend_error + submit_perp_order_outcome) \<times> perp_stores" where
  "match_and_commit env market ord stores =
     (let now = en_now env; planned = plan_fills (fst stores) ord
      in if list_ex (\<lambda>f. plan_maker_account f = po_account ord) planned
         then reject_order (po_id ord) SELF_TRADE ''self-trade rejected'' now PerpSelfTrade stores
         else if po_post_only ord \<and> planned \<noteq> []
         then reject_order (po_id ord) POST_ONLY_WOULD_MATCH ''post-only order would immediately match'' now
                PerpPostOnlyWouldMatch stores
         else if po_time_in_force ord = PerpFok \<and> sum_list (map plan_size_1e8 planned) < po_size_1e8 ord
         then reject_order (po_id ord) FOK_NOT_FILLABLE ''fill-or-kill order not fully fillable at submit'' now
                PerpFokNotFillable stores
         else case (if po_reduce_only ord then enforce_reduce_only (snd stores) ord else Ok ()) of
                Err e \<Rightarrow> (Err e, stores)
              | Ok _ \<Rightarrow>
                  commit_order market now (en_draws env) ord planned stores)"

definition submit_perp_order_internal_with_oracle ::
  "submit_env \<Rightarrow> perps_read_config \<Rightarrow> backend_error + raw_price_read \<Rightarrow> submit_perp_order_input \<Rightarrow> perp_stores
     \<Rightarrow> (backend_error + submit_perp_order_outcome) \<times> perp_stores" where
  "submit_perp_order_internal_with_oracle env cfg oracle_read input stores =
     (case submit_gate cfg (snd stores) (en_gate_now env) oracle_read input of
        Err e \<Rightarrow> (Err e, stores)
      | Ok market \<Rightarrow>
          (case insert_order (build_order env input) (fst stores) of
             (Err e, os) \<Rightarrow> (Err e, os, snd stores)
           | (Ok ord, os) \<Rightarrow> match_and_commit env market ord (os, snd stores)))"

definition submit_perp_order_internal ::
  "submit_env \<Rightarrow> perps_read_config \<Rightarrow> (perps_read_market \<Rightarrow> backend_error + raw_price_read) \<Rightarrow> submit_perp_order_input
     \<Rightarrow> perp_stores \<Rightarrow> (backend_error + submit_perp_order_outcome) \<times> perp_stores" where
  "submit_perp_order_internal env cfg read_price input stores =
     submit_perp_order_internal_with_oracle env cfg (prepare_submit_oracle cfg read_price input) input stores"

definition cancel_perp_order_internal ::
  "uuid \<Rightarrow> account_id \<Rightarrow> timestamp_ms \<Rightarrow> perp_order_store \<Rightarrow> (backend_error + perp_order) \<times> perp_order_store" where
  "cancel_perp_order_internal order_id caller now st =
     (case get_perp_order st order_id of
        None \<Rightarrow> (Err (PerpOrderNotFound order_id), st)
      | Some existing \<Rightarrow>
          if to_lowercase (po_account existing) \<noteq> to_lowercase caller then (Err PerpInvalidOrderState, st)
          else if is_terminal (po_status existing) then (Err PerpInvalidOrderState, st)
          else update_order order_id now (\<lambda>ord. (Ok (), ord\<lparr>po_status := PerpCancelled,
                 po_terminal_reason_code := Some USER_CANCELLED, po_terminal_reason_source := Some SOURCE_REQUEST_VALIDATION\<rparr>)) st)"


section \<open>What a plan contains\<close>

abbreviation plan_total :: "planned_fill list \<Rightarrow> nat" where
  "plan_total plans \<equiv> sum_list (map (\<lambda>pl. unat (plan_size_1e8 pl)) plans)"

lemma unat_min: "unat (min a b) = min (unat a) (unat (b :: u128))"
  by (simp add: min_def word_le_nat_alt)

lemma plan_total_le: "plan_total (plan_loop s p r ms) \<le> unat r"
proof (induction ms arbitrary: r)
  case (Cons m ms)
  let ?f = "min r (po_remaining_size_1e8 m)"
  have "unat (r - ?f) = unat r - unat ?f" by (simp add: unat_sub_le)
  then show ?case using Cons.IH [of r] Cons.IH [of "r - ?f"] by (auto simp: Let_def unat_min)
qed simp

lemma unat_sum_list_word:
  "sum_list (map unat xs) < 2 ^ 128 \<Longrightarrow> unat (sum_list (xs :: u128 list)) = sum_list (map unat xs)"
  by (induction xs) (auto simp: unat_word_ariths)

lemma unat_plan_total:
  "unat (sum_list (map plan_size_1e8 (plan_loop s p r ms))) = plan_total (plan_loop s p r ms)"
proof -
  have "plan_total (plan_loop s p r ms) < 2 ^ 128"
    using plan_total_le [of s p r ms] unat_lt_u128 [of r] by (rule order_le_less_trans)
  then show ?thesis
    using unat_sum_list_word [of "map plan_size_1e8 (plan_loop s p r ms)"] by (simp add: o_def)
qed

lemma plan_loop_makers:
  assumes "pl \<in> set (plan_loop s p r ms)"
  shows "\<exists>m \<in> set ms. plan_maker_order_id pl = po_id m \<and> plan_maker_account pl = po_account m \<and>
     plan_price_1e8 pl = po_price_1e8 m \<and> crosses s p (po_price_1e8 m) \<and> plan_size_1e8 pl \<noteq> 0 \<and>
     plan_size_1e8 pl \<le> po_remaining_size_1e8 m"
  using assms
proof (induction ms arbitrary: r)
  case (Cons m ms)
  show ?case
  proof (cases "pl = \<lparr> plan_maker_order_id = po_id m, plan_maker_account = po_account m,
                     plan_price_1e8 = po_price_1e8 m, plan_size_1e8 = min r (po_remaining_size_1e8 m) \<rparr> \<and>
      crosses s p (po_price_1e8 m) \<and> min r (po_remaining_size_1e8 m) \<noteq> 0")
    case True
    then show ?thesis by auto
  next
    case False
    then have "\<exists>r'. pl \<in> set (plan_loop s p r' ms)" using Cons.prems by (auto simp: Let_def split: if_splits)
    then show ?thesis using Cons.IH by auto
  qed
qed simp

lemma plan_loop_subseq: "subseq (map plan_maker_order_id (plan_loop s p r ms)) (map po_id ms)"
  by (induction ms arbitrary: r) (auto simp: Let_def)

lemma distinct_subseq: "subseq xs ys \<Longrightarrow> distinct ys \<Longrightarrow> distinct xs"
  by (induction rule: list_emb.induct) (auto dest: list_emb_set)

lemma plan_loop_distinct: "distinct (map po_id ms) \<Longrightarrow> distinct (map plan_maker_order_id (plan_loop s p r ms))"
  using plan_loop_subseq distinct_subseq by blast

definition fully_planned :: "planned_fill list \<Rightarrow> perp_order \<Rightarrow> bool" where
  "fully_planned plans m = (\<exists>pl \<in> set plans. plan_maker_order_id pl = po_id m \<and> plan_size_1e8 pl = po_remaining_size_1e8 m)"

text \<open>A maker is touched only after every maker before it is used up.\<close>

lemma plan_loop_priority:
  assumes "po_id b \<in> plan_maker_order_id ` set (plan_loop s p r (as @ b # bs))" "distinct (map po_id (as @ b # bs))"
    "a \<in> set as" "po_remaining_size_1e8 a \<noteq> 0"
  shows "fully_planned (plan_loop s p r (as @ b # bs)) a"
  using assms
proof (induction as arbitrary: r)
  case (Cons m ms)
  let ?f = "min r (po_remaining_size_1e8 m)"
  have nb: "po_id b \<noteq> po_id m" using Cons.prems(2) by auto
  have r: "r \<noteq> 0" "crosses s p (po_price_1e8 m)" using Cons.prems(1) by (auto split: if_splits)
  have rest: "po_id b \<in> plan_maker_order_id ` set (plan_loop s p (if ?f = 0 then r else r - ?f) (ms @ b # bs))"
    using Cons.prems(1) r nb by (auto simp: Let_def split: if_splits)
  show ?case
  proof (cases "a = m")
    case True
    then have f0: "?f \<noteq> 0" using r Cons.prems(4) by (auto simp: min_def)
    have "r - ?f \<noteq> 0"
    proof
      assume "r - ?f = 0"
      moreover have "plan_loop s p 0 xs = []" for xs by (cases xs) simp_all
      ultimately show False using rest f0 by simp
    qed
    then have "?f = po_remaining_size_1e8 m" by (auto simp: min_def split: if_splits)
    then show ?thesis using True r f0 by (simp add: fully_planned_def Let_def)
  next
    case False
    then have "fully_planned (plan_loop s p (if ?f = 0 then r else r - ?f) (ms @ b # bs)) a"
      using Cons.IH [OF rest] Cons.prems by auto
    then show ?thesis using r by (auto simp: fully_planned_def Let_def split: if_splits)
  qed
qed simp

lemma crosses_mono:
  "serves_before s a b \<Longrightarrow> crosses s p (po_price_1e8 b) \<Longrightarrow> crosses s p (po_price_1e8 a)"
  by (cases s) (auto simp: serves_before_def crosses_def Let_def)

text \<open>A taker with size left has used up every order that crosses its limit.\<close>

lemma plan_loop_complete:
  assumes "plan_total (plan_loop s p r ms) < unat r" "sorted_wrt (serves_before s) ms"
    "m \<in> set ms" "crosses s p (po_price_1e8 m)" "po_remaining_size_1e8 m \<noteq> 0"
  shows "fully_planned (plan_loop s p r ms) m"
  using assms
proof (induction ms arbitrary: r)
  case (Cons x ms)
  let ?f = "min r (po_remaining_size_1e8 x)"
  have cx: "crosses s p (po_price_1e8 x)" using Cons.prems crosses_mono by (auto split: if_splits)
  have r: "r \<noteq> 0" using Cons.prems(1) by (auto simp: unat_gt_0)
  have sub: "unat (r - ?f) = unat r - unat ?f" "unat ?f \<le> unat r" by (simp_all add: unat_sub_le unat_min)
  have tot: "plan_total (plan_loop s p (if ?f = 0 then r else r - ?f) ms) < unat (if ?f = 0 then r else r - ?f)"
    using Cons.prems(1) cx r sub by (auto simp: Let_def split: if_splits)
  show ?case
  proof (cases "m = x")
    case True
    have "?f \<noteq> 0" using True r Cons.prems(5) by (auto simp: min_def)
    moreover from this have "?f \<noteq> r" using tot by auto
    ultimately have "?f = po_remaining_size_1e8 x" by (auto simp: min_def split: if_splits)
    then show ?thesis using True r cx \<open>?f \<noteq> 0\<close> by (simp add: fully_planned_def Let_def)
  next
    case False
    then have "fully_planned (plan_loop s p (if ?f = 0 then r else r - ?f) ms) m"
      using Cons.IH [OF tot] Cons.prems by auto
    then show ?thesis using r cx by (auto simp: fully_planned_def Let_def split: if_splits)
  qed
qed simp


section \<open>Which rows a fill may add\<close>

lemma update_active_dom: "dom (hm_get (ps_by_id (snd (update_active a s m now f st)))) = dom (hm_get (ps_by_id st))"
  by (auto simp: update_active_def Let_def hm_fun_simps split: option.splits prod.splits sum.splits)

lemma close_active_dom: "dom (hm_get (ps_by_id (snd (close_active a s m now st)))) = dom (hm_get (ps_by_id st))"
  by (auto simp: close_active_def Let_def hm_fun_simps split: option.splits)

lemma liquidate_active_dom: "dom (hm_get (ps_by_id (snd (liquidate_active a s m d now st)))) = dom (hm_get (ps_by_id st))"
  by (auto simp: liquidate_active_def Let_def hm_fun_simps split: option.splits)

lemma update_closed_dom: "dom (hm_get (ps_by_id (snd (update_closed_realized_pnl i d now st)))) = dom (hm_get (ps_by_id st))"
  by (auto simp: update_closed_realized_pnl_def Let_def hm_fun_simps split: option.splits if_splits)

lemma insert_open_dom: "dom (hm_get (ps_by_id (snd (insert_open p st)))) \<subseteq> insert (pp_id p) (dom (hm_get (ps_by_id st)))"
  by (auto simp: insert_open_def Let_def hm_fun_simps split: if_splits)

lemma snd_lift_result:
  "snd (case x of (Err e, st') \<Rightarrow> (Err e, st') | (Ok v, st') \<Rightarrow> (Ok (g v), st')) = snd x"
  by (cases x; cases "fst x") auto

lemma open_fresh_dom:
  "dom (hm_get (ps_by_id (snd (open_fresh_position new market fill st)))) \<subseteq> insert (fst new) (dom (hm_get (ps_by_id st)))"
  using insert_open_dom [of "opened_by new fill" st]
  by (auto simp: open_fresh_position_def Let_def snd_lift_result opened_by_def [symmetric] split: sum.split)

lemma increase_dom: "dom (hm_get (ps_by_id (snd (increase_position market p fill now st)))) = dom (hm_get (ps_by_id st))"
  by (auto simp: increase_position_def Let_def snd_lift_result update_active_dom split: sum.split)

lemma reduce_dom: "dom (hm_get (ps_by_id (snd (reduce_or_reject p fill now st)))) = dom (hm_get (ps_by_id st))"
proof -
  have "dom (hm_get (ps_by_id (snd (case close_active a s m now st of
        (Err e, st') \<Rightarrow> (Err e, st')
      | (Ok closed, st') \<Rightarrow> (case update_closed_realized_pnl (pp_id closed) r now st' of
           (Err e, st'') \<Rightarrow> (Err e, st'') | (Ok position, st'') \<Rightarrow> (Ok (Closed position r), st''))))))
      = dom (hm_get (ps_by_id st))" for a s m r
    using close_active_dom [of a s m now st]
    by (cases "close_active a s m now st"; cases "fst (close_active a s m now st)")
      (auto simp: snd_lift_result update_closed_dom)
  then show ?thesis
    unfolding reduce_or_reject_def Let_def by (auto simp: snd_lift_result update_active_dom)
qed

lemma apply_fill_dom:
  "dom (hm_get (ps_by_id (snd (apply_perp_fill_for_account new now market fill st)))) \<subseteq> insert (fst new) (dom (hm_get (ps_by_id st)))"
  unfolding apply_perp_fill_for_account_def
  using open_fresh_dom [of new market fill st] increase_dom [of market _ fill now st] reduce_dom [of _ fill now st]
  by (auto split: sum.split option.split)

lemma apply_fill_inv:
  assumes "positions_inv st" "hm_get (ps_by_id st) (fst new) = None"
  shows "positions_inv (snd (apply_perp_fill_for_account new now market fill st))"
  using apply_fill_refined [OF assms, of fill now market] assms(1) by (auto simp: fill_refined_def split: sum.splits)


section \<open>One step of the commit\<close>

definition plan_ok :: "perp_order_store \<Rightarrow> planned_fill \<Rightarrow> bool" where
  "plan_ok os pl =
     (case hm_get (st_orders os) (plan_maker_order_id pl) of
        None \<Rightarrow> False
      | Some m \<Rightarrow> is_active (po_status m) \<and> plan_size_1e8 pl \<noteq> 0 \<and> plan_size_1e8 pl \<le> po_remaining_size_1e8 m \<and>
          plan_maker_account pl = po_account m \<and> plan_price_1e8 pl = po_price_1e8 m)"

lemma maker_filled_ok:
  assumes "order_ok m" "sz \<le> po_remaining_size_1e8 m"
  shows "order_ok (maker_filled sz m)" "same_order_identity (maker_filled sz m) m"
    "unat (po_remaining_size_1e8 (maker_filled sz m)) = unat (po_remaining_size_1e8 m) - unat sz"
    "unat (po_filled_size_1e8 (maker_filled sz m)) = unat (po_filled_size_1e8 m) + unat sz"
proof -
  have le: "unat sz \<le> unat (po_remaining_size_1e8 m)" using assms(2) by (simp add: word_le_nat_alt)
  have tot: "unat (po_filled_size_1e8 m) + unat (po_remaining_size_1e8 m) = unat (po_size_1e8 m)" "po_size_1e8 m \<noteq> 0"
    using assms(1) by (auto simp: order_ok_def)
  then have "unat (po_filled_size_1e8 m) + unat sz < 2 ^ 128" using le unat_lt_u128 [of "po_size_1e8 m"] by linarith
  then have f: "unat (saturating_add (po_filled_size_1e8 m) sz) = unat (po_filled_size_1e8 m) + unat sz"
    by (simp add: unat_saturating_add min_def)
  have r: "unat (saturating_sub (po_remaining_size_1e8 m) sz) = unat (po_remaining_size_1e8 m) - unat sz"
    by (simp add: unat_saturating_sub)
  show rem: "unat (po_remaining_size_1e8 (maker_filled sz m)) = unat (po_remaining_size_1e8 m) - unat sz"
    and fil: "unat (po_filled_size_1e8 (maker_filled sz m)) = unat (po_filled_size_1e8 m) + unat sz"
    unfolding f [symmetric] r [symmetric] by (auto simp: maker_filled_def Let_def intro: arg_cong [of _ _ unat])
  show "same_order_identity (maker_filled sz m) m" by (simp add: maker_filled_def Let_def same_order_identity_def)
  have "po_size_1e8 (maker_filled sz m) = po_size_1e8 m" by (simp add: maker_filled_def Let_def)
  moreover have "is_active (po_status (maker_filled sz m)) \<longrightarrow> po_remaining_size_1e8 (maker_filled sz m) \<noteq> 0"
    by (simp add: maker_filled_def Let_def is_active_def)
  ultimately show "order_ok (maker_filled sz m)" unfolding order_ok_def rem fil using tot le by simp
qed

text \<open>The effect of one step on the orders, whether or not the positions accept the fill.\<close>

definition maker_served :: "timestamp_ms \<Rightarrow> planned_fill \<Rightarrow> perp_order_store \<Rightarrow> perp_order_store" where
  "maker_served now pl os = snd (update_order (plan_maker_order_id pl) now (\<lambda>maker. (Ok (), maker_filled (plan_size_1e8 pl) maker)) os)"

definition served_row :: "timestamp_ms \<Rightarrow> planned_fill \<Rightarrow> perp_order \<Rightarrow> perp_order" where
  "served_row now pl m = (maker_filled (plan_size_1e8 pl) m)\<lparr>po_updated_at_ms := now\<rparr>"

lemma maker_served_effect:
  assumes inv: "orders_inv os" and pl: "plan_ok os pl"
  obtains m where "hm_get (st_orders os) (plan_maker_order_id pl) = Some m"
    "update_order (plan_maker_order_id pl) now (\<lambda>maker. (Ok (), maker_filled (plan_size_1e8 pl) maker)) os
       = (Ok (served_row now pl m), maker_served now pl os)"
    "hm_get (st_orders (maker_served now pl os)) = (hm_get (st_orders os))(plan_maker_order_id pl \<mapsto> served_row now pl m)"
    "st_fills (maker_served now pl os) = st_fills os" "orders_inv (maker_served now pl os)"
    "po_account m = plan_maker_account pl" "same_order_identity (served_row now pl m) m" "order_ok (served_row now pl m)"
proof -
  obtain m where m: "hm_get (st_orders os) (plan_maker_order_id pl) = Some m" "plan_size_1e8 pl \<le> po_remaining_size_1e8 m"
    "plan_maker_account pl = po_account m"
    using pl by (auto simp: plan_ok_def split: option.splits)
  have ok: "order_ok m" using orders_invD(2) [OF inv m(1)] .
  note mf = maker_filled_ok [OF ok m(2)]
  let ?f = "\<lambda>maker. (Ok (), maker_filled (plan_size_1e8 pl) maker)"
  have u: "update_order (plan_maker_order_id pl) now ?f os = (Ok (served_row now pl m),
      os\<lparr>st_orders := hm_insert (plan_maker_order_id pl) (served_row now pl m) (st_orders os)\<rparr>)"
    using update_order_Some [of os "plan_maker_order_id pl" m ?f "maker_filled (plan_size_1e8 pl) m" now] m(1)
    by (simp add: served_row_def)
  have ms: "maker_served now pl os = os\<lparr>st_orders := hm_insert (plan_maker_order_id pl) (served_row now pl m) (st_orders os)\<rparr>"
    by (simp add: maker_served_def u)
  have "orders_inv (maker_served now pl os)"
    using update_order_inv [OF inv m(1), of ?f "maker_filled (plan_size_1e8 pl) m" now] mf(1,2) by (simp add: maker_served_def)
  then show ?thesis
    using that [OF m(1)] u ms m(3) mf(1,2) by (simp add: hm_fun_simps served_row_def)
qed

lemma commit_one_step:
  assumes inv: "orders_inv os" and pl: "plan_ok os pl" and ps: "positions_inv ps"
    and fresh: "hm_get (ps_by_id ps) (fst (fd_taker_new d)) = None" "hm_get (ps_by_id ps) (fst (fd_maker_new d)) = None"
      "fst (fd_taker_new d) \<noteq> fst (fd_maker_new d)"
  obtains m ps' where "hm_get (st_orders os) (plan_maker_order_id pl) = Some m"
    "positions_inv ps'" "dom (hm_get (ps_by_id ps')) \<subseteq> {fst (fd_taker_new d), fst (fd_maker_new d)} \<union> dom (hm_get (ps_by_id ps))"
    "(\<exists>e. commit_one market now ord d pl (os, ps) = (Err e, maker_served now pl os, ps')) \<or>
     (let f = make_fill (fd_fill_id d) now ord pl (served_row now pl m) in
        commit_one market now ord d pl (os, ps) = (Ok f, insert_fill f (maker_served now pl os), ps') \<and>
        (\<exists>o1 o2 ps1. apply_perp_fill_for_account (fd_taker_new d) (fd_taker_now d) market (taker_fill_input ord pl) ps = (Ok o1, ps1) \<and>
           apply_perp_fill_for_account (fd_maker_new d) (fd_maker_now d) market
             (maker_fill_input ord pl (served_row now pl m)) ps1 = (Ok o2, ps')))"
proof -
  obtain m where m: "hm_get (st_orders os) (plan_maker_order_id pl) = Some m"
    and u: "update_order (plan_maker_order_id pl) now (\<lambda>maker. (Ok (), maker_filled (plan_size_1e8 pl) maker)) os
       = (Ok (served_row now pl m), maker_served now pl os)"
    and g: "hm_get (st_orders (maker_served now pl os)) = (hm_get (st_orders os))(plan_maker_order_id pl \<mapsto> served_row now pl m)"
    by (rule maker_served_effect [OF inv pl, of now])
  obtain r1 ps1 where a1: "apply_perp_fill_for_account (fd_taker_new d) (fd_taker_now d) market (taker_fill_input ord pl) ps = (r1, ps1)"
    by (rule prod.exhaust)
  obtain r2 ps2 where a2: "apply_perp_fill_for_account (fd_maker_new d) (fd_maker_now d) market
      (maker_fill_input ord pl (served_row now pl m)) ps1 = (r2, ps2)" by (rule prod.exhaust)
  have i1: "positions_inv ps1" "dom (hm_get (ps_by_id ps1)) \<subseteq> insert (fst (fd_taker_new d)) (dom (hm_get (ps_by_id ps)))"
    using apply_fill_inv [OF ps fresh(1), of "fd_taker_now d" market "taker_fill_input ord pl"]
      apply_fill_dom [of "fd_taker_new d" "fd_taker_now d" market "taker_fill_input ord pl" ps] a1 by simp_all
  have "fst (fd_maker_new d) \<notin> dom (hm_get (ps_by_id ps))" using fresh(2) by (simp add: domIff)
  then have "fst (fd_maker_new d) \<notin> dom (hm_get (ps_by_id ps1))"
    using i1(2) fresh(3) by (metis (no_types) insertE subsetD)
  then have "hm_get (ps_by_id ps1) (fst (fd_maker_new d)) = None" by (simp add: domIff)
  then have i2: "positions_inv ps2" "dom (hm_get (ps_by_id ps2)) \<subseteq> insert (fst (fd_maker_new d)) (dom (hm_get (ps_by_id ps1)))"
    using apply_fill_inv [OF i1(1), of "fd_maker_new d" "fd_maker_now d" market "maker_fill_input ord pl (served_row now pl m)"]
      apply_fill_dom [of "fd_maker_new d" "fd_maker_now d" market "maker_fill_input ord pl (served_row now pl m)" ps1] a2 by simp_all
  have c: "commit_one market now ord d pl (os, ps) =
     (case r1 of Err e \<Rightarrow> (Err e, maker_served now pl os, ps1)
      | Ok _ \<Rightarrow> (case r2 of Err e \<Rightarrow> (Err e, maker_served now pl os, ps2)
          | Ok _ \<Rightarrow> let f = make_fill (fd_fill_id d) now ord pl (served_row now pl m)
                    in (Ok f, insert_fill f (maker_served now pl os), ps2)))"
    unfolding commit_one_def fst_conv snd_conv u by (simp add: get_perp_order_def g a1 a2 split: sum.split)
  show ?thesis
  proof (cases r1)
    case (Inl e)
    then have "commit_one market now ord d pl (os, ps) = (Err e, maker_served now pl os, ps1)" by (simp add: c)
    moreover have "dom (hm_get (ps_by_id ps1)) \<subseteq> {fst (fd_taker_new d), fst (fd_maker_new d)} \<union> dom (hm_get (ps_by_id ps))"
      using i1(2) by blast
    ultimately show ?thesis by (intro that [OF m i1(1)] disjI1 exI)
  next
    case r1: (Inr o1)
    have sub: "dom (hm_get (ps_by_id ps2)) \<subseteq> {fst (fd_taker_new d), fst (fd_maker_new d)} \<union> dom (hm_get (ps_by_id ps))"
      using i1(2) i2(2) by blast
    show ?thesis
    proof (cases r2)
      case (Inl e)
      then have "commit_one market now ord d pl (os, ps) = (Err e, maker_served now pl os, ps2)" by (simp add: c r1)
      then show ?thesis by (intro that [OF m i2(1) sub] disjI1 exI)
    next
      case (Inr o2)
      then show ?thesis using a1 a2 r1
        by (intro that [OF m i2(1) sub] disjI2) (simp add: Let_def c)
    qed
  qed
qed


section \<open>The whole commit\<close>

text \<open>
  The position ids that the first \<open>N\<close> draws offer are new to the store and pairwise different.
\<close>

definition draws_fresh :: "(nat \<Rightarrow> fill_draw) \<Rightarrow> nat \<Rightarrow> nat \<Rightarrow> perp_positions_store \<Rightarrow> bool" where
  "draws_fresh draws n N ps =
     (\<forall>k. n \<le> k \<and> k < N \<longrightarrow> hm_get (ps_by_id ps) (fst (fd_taker_new (draws k))) = None \<and> hm_get (ps_by_id ps) (fst (fd_maker_new (draws k))) = None)"

definition draws_distinct :: "(nat \<Rightarrow> fill_draw) \<Rightarrow> nat \<Rightarrow> bool" where
  "draws_distinct draws N =
     (\<forall>j k. j < N \<and> k < N \<longrightarrow> fst (fd_taker_new (draws j)) \<noteq> fst (fd_maker_new (draws k)) \<and>
        (j \<noteq> k \<longrightarrow> fst (fd_taker_new (draws j)) \<noteq> fst (fd_taker_new (draws k)) \<and>
                  fst (fd_maker_new (draws j)) \<noteq> fst (fd_maker_new (draws k))))"

lemma draws_fresh_step:
  assumes "draws_fresh draws n N ps" "draws_distinct draws N" "n < N"
    "dom (hm_get (ps_by_id ps')) \<subseteq> {fst (fd_taker_new (draws n)), fst (fd_maker_new (draws n))} \<union> dom (hm_get (ps_by_id ps))"
  shows "draws_fresh draws (n + 1) N ps'"
  unfolding draws_fresh_def
proof (intro allI impI)
  fix k assume k: "n + 1 \<le> k \<and> k < N"
  have old: "fst (fd_taker_new (draws k)) \<notin> dom (hm_get (ps_by_id ps))" "fst (fd_maker_new (draws k)) \<notin> dom (hm_get (ps_by_id ps))"
    using assms(1) k by (auto simp: draws_fresh_def domIff)
  have ne: "n \<noteq> k" using k by simp
  have "fst (fd_taker_new (draws k)) \<notin> {fst (fd_taker_new (draws n)), fst (fd_maker_new (draws n))}"
    "fst (fd_maker_new (draws k)) \<notin> {fst (fd_taker_new (draws n)), fst (fd_maker_new (draws n))}"
    using assms(2,3) ne k unfolding draws_distinct_def by (metis insertE singletonD)+
  then show "hm_get (ps_by_id ps') (fst (fd_taker_new (draws k))) = None \<and> hm_get (ps_by_id ps') (fst (fd_maker_new (draws k))) = None"
    using old assms(4) by (meson Un_iff domIff subsetD)
qed

lemma insert_fill_simps [simp]:
  "st_orders (insert_fill f os) = st_orders os" "st_fills (insert_fill f os) = st_fills os @ [f]"
  "orders_inv (insert_fill f os) = orders_inv os" "plan_ok (insert_fill f os) pl = plan_ok os pl"
  by (simp_all add: insert_fill_def orders_inv_def plan_ok_def)

text \<open>A fill records its plan.\<close>

definition fill_of_plan :: "perp_order \<Rightarrow> planned_fill \<Rightarrow> perp_fill \<Rightarrow> bool" where
  "fill_of_plan ord pl f =
     (pf_maker_order_id f = plan_maker_order_id pl \<and> pf_price_1e8 f = plan_price_1e8 pl \<and> pf_size_1e8 f = plan_size_1e8 pl \<and>
      pf_maker_account f = plan_maker_account pl \<and> pf_taker_order_id f = po_id ord \<and> pf_taker_account f = po_account ord \<and>
      pf_taker_side f = po_side ord \<and> pf_market_id f = po_market_id ord)"

lemma fill_of_plan_make: "fill_of_plan ord pl (make_fill i now ord pl m)"
  by (simp add: fill_of_plan_def make_fill_def)

definition commit_result ::
  "timestamp_ms \<Rightarrow> perp_order \<Rightarrow> planned_fill list \<Rightarrow> perp_fill list \<Rightarrow> u128 \<Rightarrow> perp_order_store
     \<Rightarrow> (backend_error + perp_fill list \<times> u128) \<times> perp_stores \<Rightarrow> bool" where
  "commit_result now ord plans fills r os res =
     (orders_inv (fst (snd res)) \<and> positions_inv (snd (snd res)) \<and>
      (\<forall>i. i \<notin> plan_maker_order_id ` set plans \<longrightarrow> hm_get (st_orders (fst (snd res))) i = hm_get (st_orders os) i) \<and>
      (\<forall>fs rem. fst res = Ok (fs, rem) \<longrightarrow>
         (\<exists>new. fs = fills @ new \<and> list_all2 (fill_of_plan ord) plans new \<and> st_fills (fst (snd res)) = st_fills os @ new) \<and>
         rem = foldl (\<lambda>r pl. saturating_sub r (plan_size_1e8 pl)) r plans \<and>
         (\<forall>pl \<in> set plans. \<exists>m. hm_get (st_orders os) (plan_maker_order_id pl) = Some m \<and>
            hm_get (st_orders (fst (snd res))) (plan_maker_order_id pl) = Some (served_row now pl m))))"

lemma commit_resultD:
  assumes "commit_result now ord plans fills r os res"
  shows "orders_inv (fst (snd res))" "positions_inv (snd (snd res))"
    "i \<notin> plan_maker_order_id ` set plans \<Longrightarrow> hm_get (st_orders (fst (snd res))) i = hm_get (st_orders os) i"
    "fst res = Ok (fs, rem) \<Longrightarrow>
       \<exists>new. fs = fills @ new \<and> list_all2 (fill_of_plan ord) plans new \<and> st_fills (fst (snd res)) = st_fills os @ new"
    "fst res = Ok (fs, rem) \<Longrightarrow> rem = foldl (\<lambda>r pl. saturating_sub r (plan_size_1e8 pl)) r plans"
    "fst res = Ok (fs, rem) \<Longrightarrow> pl \<in> set plans \<Longrightarrow> \<exists>m. hm_get (st_orders os) (plan_maker_order_id pl) = Some m \<and>
            hm_get (st_orders (fst (snd res))) (plan_maker_order_id pl) = Some (served_row now pl m)"
  using assms unfolding commit_result_def by simp_all

lemma commit_resultI:
  assumes "orders_inv (fst (snd res))" "positions_inv (snd (snd res))"
    "\<And>i. i \<notin> plan_maker_order_id ` set plans \<Longrightarrow> hm_get (st_orders (fst (snd res))) i = hm_get (st_orders os) i"
    "\<And>fs rem. fst res = Ok (fs, rem) \<Longrightarrow>
       \<exists>new. fs = fills @ new \<and> list_all2 (fill_of_plan ord) plans new \<and> st_fills (fst (snd res)) = st_fills os @ new"
    "\<And>fs rem. fst res = Ok (fs, rem) \<Longrightarrow> rem = foldl (\<lambda>r pl. saturating_sub r (plan_size_1e8 pl)) r plans"
    "\<And>fs rem pl. fst res = Ok (fs, rem) \<Longrightarrow> pl \<in> set plans \<Longrightarrow> \<exists>m. hm_get (st_orders os) (plan_maker_order_id pl) = Some m \<and>
            hm_get (st_orders (fst (snd res))) (plan_maker_order_id pl) = Some (served_row now pl m)"
  shows "commit_result now ord plans fills r os res"
  using assms unfolding commit_result_def by (intro conjI allI impI ballI) assumption+

text \<open>The result of a commit whose first step succeeded, from that of the rest.\<close>

lemma commit_result_Cons:
  assumes m: "hm_get (st_orders os) (plan_maker_order_id pl) = Some m"
    and g: "hm_get (st_orders os') = (hm_get (st_orders os))(plan_maker_order_id pl \<mapsto> served_row now pl m)"
    and fi: "st_fills os' = st_fills os @ [f]" and f: "fill_of_plan ord pl f"
    and d: "plan_maker_order_id pl \<notin> plan_maker_order_id ` set plans"
    and IH: "commit_result now ord plans (fills @ [f]) (saturating_sub r (plan_size_1e8 pl)) os' res"
  shows "commit_result now ord (pl # plans) fills r os res"
proof (rule commit_resultI)
  have other: "hm_get (st_orders os') i = hm_get (st_orders os) i" if "i \<noteq> plan_maker_order_id pl" for i using that by (simp add: g)
  show "orders_inv (fst (snd res))" "positions_inv (snd (snd res))" using commit_resultD(1,2) [OF IH] by auto
  show "hm_get (st_orders (fst (snd res))) i = hm_get (st_orders os) i" if "i \<notin> plan_maker_order_id ` set (pl # plans)" for i
    using commit_resultD(3) [OF IH, of i] other [of i] that by simp
  fix fs rem assume ok: "fst res = Ok (fs, rem)"
  obtain new where "fs = (fills @ [f]) @ new" "list_all2 (fill_of_plan ord) plans new" "st_fills (fst (snd res)) = st_fills os' @ new"
    using commit_resultD(4) [OF IH ok] by blast
  then show "\<exists>new. fs = fills @ new \<and> list_all2 (fill_of_plan ord) (pl # plans) new \<and> st_fills (fst (snd res)) = st_fills os @ new"
    using f fi by (intro exI [of _ "f # new"]) simp
  show "rem = foldl (\<lambda>r pl. saturating_sub r (plan_size_1e8 pl)) r (pl # plans)"
    using commit_resultD(5) [OF IH ok] by simp
  fix q assume q: "q \<in> set (pl # plans)"
  show "\<exists>m. hm_get (st_orders os) (plan_maker_order_id q) = Some m \<and>
        hm_get (st_orders (fst (snd res))) (plan_maker_order_id q) = Some (served_row now q m)"
  proof (cases "q = pl")
    case True
    then show ?thesis using commit_resultD(3) [OF IH d] m g by simp
  next
    case False
    then have q': "q \<in> set plans" using q by simp
    then have "plan_maker_order_id q \<noteq> plan_maker_order_id pl" using d by (metis imageI)
    then show ?thesis using commit_resultD(6) [OF IH ok q'] other by simp
  qed
qed

lemma commit_fills_result:
  assumes "orders_inv os" "positions_inv ps" "\<forall>pl \<in> set plans. plan_ok os pl" "distinct (map plan_maker_order_id plans)"
    "draws_fresh draws n N ps" "draws_distinct draws N" "n + length plans \<le> N"
  shows "commit_result now ord plans fills r os (commit_fills market now ord draws n plans fills r (os, ps))"
  using assms
proof (induction plans arbitrary: os ps n fills r)
  case Nil
  then show ?case by (simp add: commit_result_def)
next
  case (Cons pl plans)
  note inv = Cons.prems(1) and ps = Cons.prems(2)
  have pl: "plan_ok os pl" using Cons.prems(3) by simp
  have fresh: "hm_get (ps_by_id ps) (fst (fd_taker_new (draws n))) = None" "hm_get (ps_by_id ps) (fst (fd_maker_new (draws n))) = None"
    using Cons.prems(5,7) by (simp_all add: draws_fresh_def)
  have ne: "fst (fd_taker_new (draws n)) \<noteq> fst (fd_maker_new (draws n))" using Cons.prems(6,7) by (simp add: draws_distinct_def)
  obtain m ps' where m: "hm_get (st_orders os) (plan_maker_order_id pl) = Some m" and ps': "positions_inv ps'"
    and dom: "dom (hm_get (ps_by_id ps')) \<subseteq> {fst (fd_taker_new (draws n)), fst (fd_maker_new (draws n))} \<union> dom (hm_get (ps_by_id ps))"
    and c: "(\<exists>e. commit_one market now ord (draws n) pl (os, ps) = (Err e, maker_served now pl os, ps')) \<or>
     (let f = make_fill (fd_fill_id (draws n)) now ord pl (served_row now pl m) in
        commit_one market now ord (draws n) pl (os, ps) = (Ok f, insert_fill f (maker_served now pl os), ps') \<and>
        (\<exists>o1 o2 ps1. apply_perp_fill_for_account (fd_taker_new (draws n)) (fd_taker_now (draws n)) market (taker_fill_input ord pl) ps = (Ok o1, ps1) \<and>
           apply_perp_fill_for_account (fd_maker_new (draws n)) (fd_maker_now (draws n)) market
             (maker_fill_input ord pl (served_row now pl m)) ps1 = (Ok o2, ps')))"
    by (rule commit_one_step [OF inv pl ps fresh ne])
  obtain m' where m': "hm_get (st_orders os) (plan_maker_order_id pl) = Some m'"
    and g: "hm_get (st_orders (maker_served now pl os)) = (hm_get (st_orders os))(plan_maker_order_id pl \<mapsto> served_row now pl m')"
    and fi: "st_fills (maker_served now pl os) = st_fills os" and inv': "orders_inv (maker_served now pl os)"
    by (rule maker_served_effect [OF inv pl, of now])
  have g: "hm_get (st_orders (maker_served now pl os)) = (hm_get (st_orders os))(plan_maker_order_id pl \<mapsto> served_row now pl m)"
    using g m m' by simp
  show ?case
  proof (cases "\<exists>e. commit_one market now ord (draws n) pl (os, ps) = (Err e, maker_served now pl os, ps')")
    case True
    then obtain e where e: "commit_one market now ord (draws n) pl (os, ps) = (Err e, maker_served now pl os, ps')" by blast
    show ?thesis by (simp add: e commit_result_def inv' ps' g)
  next
    case False
    let ?f = "make_fill (fd_fill_id (draws n)) now ord pl (served_row now pl m)"
    let ?os = "insert_fill ?f (maker_served now pl os)"
    have one: "commit_one market now ord (draws n) pl (os, ps) = (Ok ?f, ?os, ps')" using c False by (simp add: Let_def)
    have d: "plan_maker_order_id pl \<notin> plan_maker_order_id ` set plans" and dist: "distinct (map plan_maker_order_id plans)"
      using Cons.prems(4) by simp_all
    have "plan_ok ?os q" if "q \<in> set plans" for q
    proof -
      have "plan_maker_order_id q \<noteq> plan_maker_order_id pl" using d that by (metis imageI)
      then show ?thesis using Cons.prems(3) that g by (simp add: plan_ok_def)
    qed
    then have "commit_result now ord plans (fills @ [?f]) (saturating_sub r (plan_size_1e8 pl)) ?os
        (commit_fills market now ord draws (n + 1) plans (fills @ [?f]) (saturating_sub r (plan_size_1e8 pl)) (?os, ps'))"
      using inv' ps' draws_fresh_step [OF Cons.prems(5,6) _ dom] Cons.prems(6,7) dist by (intro Cons.IH) simp_all
    then show ?thesis
      using commit_result_Cons [OF m, of ?os now ?f] g fi d fill_of_plan_make by (simp add: one)
  qed
qed


lemma plan_loop_length: "length (plan_loop s p r ms) \<le> length ms"
  by (induction ms arbitrary: r) (auto simp: Let_def le_SucI)

lemma counterparties_length: "length (counterparties_for os m s) \<le> length (st_orders os)"
proof -
  have "length (filter P (filter Q (hm_values xs))) \<le> length xs" for P Q and xs :: "(uuid, perp_order) hashmap"
    using length_filter_le [of P "filter Q (hm_values xs)"] length_filter_le [of Q "hm_values xs"]
    by (simp add: hm_values_def)
  then show ?thesis
    by (cases s) (simp_all add: counterparties_for_def active_asks_sorted_def active_bids_sorted_def list_active_orders_for_market_def)
qed


section \<open>From the stored order to the outcome\<close>

text \<open>An order just stored: nothing filled yet, with its row in the store.\<close>

definition just_stored :: "perp_order_store \<Rightarrow> perp_order \<Rightarrow> bool" where
  "just_stored os ord =
     (hm_get (st_orders os) (po_id ord) = Some ord \<and> po_remaining_size_1e8 ord = po_size_1e8 ord \<and>
      po_filled_size_1e8 ord = 0 \<and> po_status ord = PerpOpen)"

lemma order_side_opposite_neq [simp]: "order_side_opposite s \<noteq> s"
  by (cases s) (simp_all add: order_side_opposite_def)

lemma planned_facts:
  assumes inv: "orders_inv os" and stored: "just_stored os ord"
  defines "plans \<equiv> plan_fills os ord"
  shows "\<forall>pl \<in> set plans. plan_ok os pl" "distinct (map plan_maker_order_id plans)"
    "po_id ord \<notin> plan_maker_order_id ` set plans" "plan_total plans \<le> unat (po_size_1e8 ord)"
    "pl \<in> set plans \<Longrightarrow> crosses (po_side ord) (po_price_1e8 ord) (plan_price_1e8 pl)"
proof -
  have maker: "\<exists>m. hm_get (st_orders os) (po_id m) = Some m \<and> plan_maker_order_id pl = po_id m \<and> is_active (po_status m) \<and>
      plan_maker_account pl = po_account m \<and> plan_price_1e8 pl = po_price_1e8 m \<and> plan_size_1e8 pl \<noteq> 0 \<and>
      plan_size_1e8 pl \<le> po_remaining_size_1e8 m \<and> crosses (po_side ord) (po_price_1e8 ord) (po_price_1e8 m) \<and>
      po_side m = order_side_opposite (po_side ord)" if "pl \<in> set plans" for pl
    using plan_loop_makers [OF that [unfolded plans_def plan_fills_def]] counterparties_iff [OF inv] by blast
  show "\<forall>pl \<in> set plans. plan_ok os pl" using maker by (fastforce simp: plan_ok_def)
  show "pl \<in> set plans \<Longrightarrow> crosses (po_side ord) (po_price_1e8 ord) (plan_price_1e8 pl)" using maker by fastforce
  show "distinct (map plan_maker_order_id plans)"
    unfolding plans_def plan_fills_def by (rule plan_loop_distinct [OF counterparties_distinct [OF inv]])
  show "plan_total plans \<le> unat (po_size_1e8 ord)" unfolding plans_def plan_fills_def by (rule plan_total_le)
  show "po_id ord \<notin> plan_maker_order_id ` set plans"
  proof
    assume "po_id ord \<in> plan_maker_order_id ` set plans"
    then obtain m where "hm_get (st_orders os) (po_id ord) = Some m" "po_side m = order_side_opposite (po_side ord)"
      using maker by (metis imageE)
    then show False using stored order_side_opposite_neq by (metis just_stored_def option.inject)
  qed
qed

lemma unat_remaining_after:
  "unat (foldl (\<lambda>r pl. saturating_sub r (plan_size_1e8 pl)) r plans) = unat r - plan_total plans"
  by (induction plans arbitrary: r) (simp_all add: unat_saturating_sub)

lemma taker_finished_ok:
  assumes ord: "order_ok ord" "po_filled_size_1e8 ord = 0" and le: "unat rem \<le> unat (po_size_1e8 ord)"
  shows "order_ok (taker_finished tif any rem ord)" "same_order_identity (taker_finished tif any rem ord) ord"
    "po_remaining_size_1e8 (taker_finished tif any rem ord) = rem"
    "unat (po_filled_size_1e8 (taker_finished tif any rem ord)) = unat (po_size_1e8 ord) - unat rem"
    "po_status (taker_finished tif any rem ord) = taker_final_status tif any rem"
proof -
  show id: "same_order_identity (taker_finished tif any rem ord) ord" and
    rem: "po_remaining_size_1e8 (taker_finished tif any rem ord) = rem" and
    fil: "unat (po_filled_size_1e8 (taker_finished tif any rem ord)) = unat (po_size_1e8 ord) - unat rem" and
    st: "po_status (taker_finished tif any rem ord) = taker_final_status tif any rem"
    by (auto simp: taker_finished_def Let_def same_order_identity_def unat_saturating_sub split: option.split)
  have "is_active (taker_final_status tif any rem) \<longrightarrow> rem \<noteq> 0"
    by (auto simp: taker_final_status_def is_active_def)
  moreover have "po_size_1e8 (taker_finished tif any rem ord) = po_size_1e8 ord" using id by (simp add: same_order_identity_def)
  ultimately show "order_ok (taker_finished tif any rem ord)"
    unfolding order_ok_def rem fil st using ord le by (simp add: order_ok_def)
qed

lemma reject_order_effect:
  assumes inv: "orders_inv os" and stored: "just_stored os ord"
  shows "\<exists>os' row. reject_order (po_id ord) code msg now err (os, ps) = (Err err, os', ps) \<and> orders_inv os' \<and>
     hm_get (st_orders os') = (hm_get (st_orders os))(po_id ord \<mapsto> row) \<and> po_status row = PerpRejected \<and>
     same_order_identity row ord \<and> st_fills os' = st_fills os"
proof -
  have row: "hm_get (st_orders os) (po_id ord) = Some ord" using stored by (simp add: just_stored_def)
  let ?o = "ord\<lparr>po_status := PerpRejected, po_terminal_reason_code := Some code, po_terminal_reason_message := Some msg,
     po_terminal_reason_source := Some SOURCE_MATCHING_POLICY\<rparr>"
  let ?f = "\<lambda>r. (Ok (), r\<lparr>po_status := PerpRejected, po_terminal_reason_code := Some code, po_terminal_reason_message := Some msg,
     po_terminal_reason_source := Some SOURCE_MATCHING_POLICY\<rparr>)"
  have ok: "order_ok ?o" "same_order_identity ?o ord"
    using orders_invD(2) [OF inv row] by (auto simp: order_ok_def is_active_def same_order_identity_def)
  note u = update_order_Some [where f = ?f and now = now, OF row refl]
  have "orders_inv (snd (update_order (po_id ord) now ?f os))" by (rule update_order_inv [where f = ?f, OF inv row refl ok(2,1)])
  then show ?thesis
    using ok(2) unfolding reject_order_def mark_order_terminal_def fst_conv snd_conv u
    by (intro exI [of _ "snd (update_order (po_id ord) now ?f os)"] exI [of _ "?o\<lparr>po_updated_at_ms := now\<rparr>"]) (simp add: u hm_fun_simps)
qed

text \<open>
  What a completed submission has done: each plan became a fill and was taken off its maker, the
  rest of the taker is accounted for, and nothing else changed among the orders.
\<close>

definition submit_done ::
  "timestamp_ms \<Rightarrow> perp_order \<Rightarrow> perp_order_store \<Rightarrow> submit_perp_order_outcome \<Rightarrow> perp_order_store \<Rightarrow> bool" where
  "submit_done now ord os out os' =
     (let plans = plan_fills os ord; row = sp_order out
      in list_all2 (fill_of_plan ord) plans (sp_fills out) \<and> st_fills os' = st_fills os @ sp_fills out \<and>
         hm_get (st_orders os') (po_id ord) = Some row \<and> same_order_identity row ord \<and>
         unat (po_remaining_size_1e8 row) = unat (po_size_1e8 ord) - plan_total plans \<and>
         po_status row = taker_final_status (po_time_in_force ord) (sp_fills out \<noteq> []) (po_remaining_size_1e8 row) \<and>
         (\<forall>pl \<in> set plans. \<exists>m. hm_get (st_orders os) (plan_maker_order_id pl) = Some m \<and>
            hm_get (st_orders os') (plan_maker_order_id pl) = Some (served_row now pl m)) \<and>
         (\<forall>i. i \<notin> insert (po_id ord) (plan_maker_order_id ` set plans) \<longrightarrow> hm_get (st_orders os') i = hm_get (st_orders os) i) \<and>
         \<not> list_ex (\<lambda>f. plan_maker_account f = po_account ord) plans \<and>
         (po_post_only ord \<longrightarrow> plans = []) \<and>
         (po_time_in_force ord = PerpFok \<longrightarrow> plan_total plans = unat (po_size_1e8 ord)))"

lemma commit_order_done:
  fixes market now
  assumes inv: "orders_inv os" "positions_inv ps" and stored: "just_stored os ord"
    and draws: "draws_fresh draws 0 N ps" "draws_distinct draws N" "length (plan_fills os ord) \<le> N"
    and policy: "\<not> list_ex (\<lambda>f. plan_maker_account f = po_account ord) (plan_fills os ord)"
      "\<not> (po_post_only ord \<and> plan_fills os ord \<noteq> [])"
      "\<not> (po_time_in_force ord = PerpFok \<and> sum_list (map plan_size_1e8 (plan_fills os ord)) < po_size_1e8 ord)"
  defines "plans \<equiv> plan_fills os ord"
  defines "res \<equiv> commit_order market now draws ord plans (os, ps)"
  shows "orders_inv (fst (snd res)) \<and> positions_inv (snd (snd res)) \<and> (\<forall>out. fst res = Ok out \<longrightarrow> submit_done now ord os out (fst (snd res)) \<and>
      (\<exists>os'. commit_fills market now ord draws 0 plans [] (po_size_1e8 ord) (os, ps)
         = (Ok (sp_fills out, po_remaining_size_1e8 (sp_order out)), os', snd (snd res))))"
proof -
  note pf = planned_facts [OF inv(1) stored, folded plans_def]
  have len: "0 + length plans \<le> N" using draws(3) by (simp add: plans_def)
  note cr = commit_fills_result [OF inv pf(1,2) draws(1,2) len, of now ord "[]" "po_size_1e8 ord" market]
  obtain r0 os1 ps1 where c: "commit_fills market now ord draws 0 plans [] (po_size_1e8 ord) (os, ps) = (r0, os1, ps1)"
    using prod_cases3 by blast
  note cr = cr [unfolded c]
  show ?thesis
  proof (cases r0)
    case (Inl e)
    then have "res = (Err e, os1, ps1)" by (simp add: res_def commit_order_def c)
    then show ?thesis using commit_resultD(1,2) [OF cr] by simp
  next
    case (Inr fr)
    obtain fills rem where fr: "fr = (fills, rem)" by (rule prod.exhaust)
    have ok: "fst (r0, os1, ps1) = Ok (fills, rem)" using Inr fr by simp
    obtain new where new: "fills = [] @ new" "list_all2 (fill_of_plan ord) plans new" "st_fills os1 = st_fills os @ new"
      using commit_resultD(4) [OF cr ok] by auto
    have rem: "unat rem = unat (po_size_1e8 ord) - plan_total plans"
      using commit_resultD(5) [OF cr ok] by (simp only: unat_remaining_after)
    have row: "hm_get (st_orders os1) (po_id ord) = Some ord"
      using commit_resultD(3) [OF cr pf(3)] stored by (simp add: just_stored_def)
    let ?t = "taker_finished (po_time_in_force ord) (fills \<noteq> []) rem ord"
    let ?f = "\<lambda>r. (Ok (), taker_finished (po_time_in_force ord) (fills \<noteq> []) rem r)"
    have inv1: "orders_inv os1" using commit_resultD(1) [OF cr] by simp
    note tf = taker_finished_ok [OF orders_invD(2) [OF inv1 row], of rem "po_time_in_force ord" "fills \<noteq> []"]
    have tf: "order_ok ?t" "same_order_identity ?t ord" "po_remaining_size_1e8 ?t = rem"
      "po_status ?t = taker_final_status (po_time_in_force ord) (fills \<noteq> []) rem"
      using tf stored rem by (simp_all add: just_stored_def)
    note u = update_order_Some [where f = ?f and now = now, OF row refl]
    let ?os = "os1\<lparr>st_orders := hm_insert (po_id ord) (?t\<lparr>po_updated_at_ms := now\<rparr>) (st_orders os1)\<rparr>"
    have res: "res = (Ok \<lparr> sp_order = ?t\<lparr>po_updated_at_ms := now\<rparr>, sp_fills = fills \<rparr>, ?os, ps1)"
      by (simp add: res_def commit_order_def c Inr fr u)
    have inv2: "orders_inv ?os" using update_order_inv [where f = ?f and now = now, OF inv1 row refl tf(2,1)] by (simp add: u)
    have outside: "hm_get (st_orders ?os) i = hm_get (st_orders os) i" if "i \<notin> insert (po_id ord) (plan_maker_order_id ` set plans)" for i
      using that commit_resultD(3) [OF cr, of i] by simp
    have makers: "\<exists>m. hm_get (st_orders os) (plan_maker_order_id pl) = Some m \<and>
            hm_get (st_orders ?os) (plan_maker_order_id pl) = Some (served_row now pl m)" if "pl \<in> set plans" for pl
    proof -
      have "plan_maker_order_id pl \<noteq> po_id ord" using pf(3) that by (metis imageI)
      then show ?thesis using commit_resultD(6) [OF cr ok that] by simp
    qed
    have fok: "plan_total plans = unat (po_size_1e8 ord)" if "po_time_in_force ord = PerpFok"
      using policy(3) pf(4) that unat_plan_total by (simp add: plans_def plan_fills_def word_less_nat_alt)
    have "submit_done now ord os \<lparr> sp_order = ?t\<lparr>po_updated_at_ms := now\<rparr>, sp_fills = fills \<rparr> ?os"
      unfolding submit_done_def Let_def plans_def [symmetric]
      using new tf rem outside makers policy(1,2) fok by (simp add: plans_def)
    then show ?thesis
      using commit_resultD(2) [OF cr] inv2 new c Inr fr tf(3) by (simp add: res)
  qed
qed

lemma match_and_commit_done:
  fixes market ps
  assumes inv: "orders_inv os" "positions_inv ps" and stored: "just_stored os ord"
    and draws: "draws_fresh (en_draws env) 0 N ps" "draws_distinct (en_draws env) N" "length (plan_fills os ord) \<le> N"
  defines "res \<equiv> match_and_commit env market ord (os, ps)"
  shows "orders_inv (fst (snd res))" "positions_inv (snd (snd res))"
    "fst res = Ok out \<Longrightarrow> submit_done (en_now env) ord os out (fst (snd res))"
    "fst res = Ok out \<Longrightarrow> \<exists>os'. commit_fills market (en_now env) ord (en_draws env) 0 (plan_fills os ord) [] (po_size_1e8 ord) (os, ps)
         = (Ok (sp_fills out, po_remaining_size_1e8 (sp_order out)), os', snd (snd res))"
    "fst res = Ok out \<Longrightarrow> po_reduce_only ord \<Longrightarrow> enforce_reduce_only ps ord = Ok ()"
proof -
  let ?plans = "plan_fills os ord"
  let ?P1 = "list_ex (\<lambda>f. plan_maker_account f = po_account ord) ?plans" and ?P2 = "po_post_only ord \<and> ?plans \<noteq> []"
    and ?P3 = "po_time_in_force ord = PerpFok \<and> sum_list (map plan_size_1e8 ?plans) < po_size_1e8 ord"
  let ?ro = "if po_reduce_only ord then enforce_reduce_only ps ord else Ok ()"
  let ?all = "orders_inv (fst (snd res)) \<and> positions_inv (snd (snd res)) \<and> (\<forall>out. fst res = Ok out \<longrightarrow>
     submit_done (en_now env) ord os out (fst (snd res)) \<and> (po_reduce_only ord \<longrightarrow> enforce_reduce_only ps ord = Ok ()) \<and>
     (\<exists>os'. commit_fills market (en_now env) ord (en_draws env) 0 ?plans [] (po_size_1e8 ord) (os, ps)
         = (Ok (sp_fills out, po_remaining_size_1e8 (sp_order out)), os', snd (snd res))))"
  have rej: "?all" if "res = reject_order (po_id ord) code msg (en_now env) err (os, ps)" for code msg err
    using reject_order_effect [OF inv(1) stored, of code msg "en_now env" err ps] inv(2) that by auto
  have "?all"
  proof (cases "?P1 \<or> ?P2 \<or> ?P3")
    case True
    then have "\<exists>code msg err. res = reject_order (po_id ord) code msg (en_now env) err (os, ps)"
      unfolding res_def match_and_commit_def Let_def fst_conv by (cases ?P1; cases ?P2) auto
    then show ?thesis using rej by blast
  next
    case False
    then have r: "res = (case ?ro of Err e \<Rightarrow> (Err e, os, ps) | Ok _ \<Rightarrow> commit_order market (en_now env) (en_draws env) ord ?plans (os, ps))"
    proof -
      have n: "\<not> ?P1" "\<not> ?P2" "\<not> ?P3" using False by blast+
      show ?thesis
        unfolding res_def match_and_commit_def Let_def fst_conv snd_conv if_not_P [OF n(1)] if_not_P [OF n(2)] if_not_P [OF n(3)] ..
    qed
    show ?thesis
    proof (cases ?ro)
      case (Inl e)
      then show ?thesis using r inv by simp
    next
      case (Inr u)
      then have "res = commit_order market (en_now env) (en_draws env) ord ?plans (os, ps)" using r by simp
      moreover have "po_reduce_only ord \<Longrightarrow> enforce_reduce_only ps ord = Ok ()" using Inr by simp
      ultimately show ?thesis
        using commit_order_done [OF inv stored draws, of market "en_now env"] False by simp
    qed
  qed
  then show "orders_inv (fst (snd res))" "positions_inv (snd (snd res))"
    "fst res = Ok out \<Longrightarrow> submit_done (en_now env) ord os out (fst (snd res))"
    "fst res = Ok out \<Longrightarrow> \<exists>os'. commit_fills market (en_now env) ord (en_draws env) 0 (plan_fills os ord) [] (po_size_1e8 ord) (os, ps)
         = (Ok (sp_fills out, po_remaining_size_1e8 (sp_order out)), os', snd (snd res))"
    "fst res = Ok out \<Longrightarrow> po_reduce_only ord \<Longrightarrow> enforce_reduce_only ps ord = Ok ()"
    by auto
qed

end
