(* ===== verification/Perp_Exec_Props.thy ===== *)
theory Perp_Exec_Props
  imports Perp_Execution
begin

text \<open>
  What an executed perpetual order guarantees: matching order, conservation of sizes, the contracts
  of the order flags, well-formed stores on every path, balanced exposure and the risk limits after a
  submission.
\<close>


section \<open>Exposure\<close>

text \<open>The signed size of the open position of a key, and the net exposure of a market.\<close>

fun exposure :: "perp_position option \<Rightarrow> int" where
  "exposure None = 0"
| "exposure (Some p) = side_sign (pp_side p) * int (unat (pp_size_1e8 p))"

definition net_exposure :: "perp_positions_store \<Rightarrow> string \<Rightarrow> int" where
  "net_exposure ps m = (\<Sum>k \<in> {k \<in> dom (active_at ps). snd (snd k) = m}. exposure (active_at ps k))"

lemma finite_dom_hm_get: "finite (dom (hm_get m))"
proof -
  have "hm_get m = map_of m" by (rule ext) (simp add: hm_get_def)
  then show ?thesis by (simp add: finite_dom_map_of)
qed

lemma finite_dom_active_at: "finite (dom (active_at ps))"
proof -
  have "dom (active_at ps) \<subseteq> dom (hm_get (ps_active ps))" by (auto simp: active_at_def split: option.splits)
  then show ?thesis using finite_dom_hm_get finite_subset by blast
qed

text \<open>A sum over the open positions of a market, and how one changed position changes it.\<close>

definition market_sum :: "(perp_position option \<Rightarrow> int) \<Rightarrow> perp_positions_store \<Rightarrow> string \<Rightarrow> int" where
  "market_sum f ps m = (\<Sum>k \<in> {k \<in> dom (active_at ps). snd (snd k) = m}. f (active_at ps k))"

lemma market_sum_upd:
  assumes "active_at ps' = (active_at ps)(k := v)" "f None = 0"
  shows "market_sum f ps' m = market_sum f ps m + (if snd (snd k) = m then f v - f (active_at ps k) else 0)"
proof -
  let ?A = "{x \<in> insert k (dom (active_at ps)). snd (snd x) = m}"
  have fin: "finite ?A" using finite_dom_active_at [of ps] by simp
  have "market_sum f q m = (\<Sum>x \<in> ?A. f (active_at q x))" if "dom (active_at q) \<subseteq> insert k (dom (active_at ps))" for q
    unfolding market_sum_def
  proof (rule sum.mono_neutral_left [OF fin])
    show "{x \<in> dom (active_at q). snd (snd x) = m} \<subseteq> ?A" using that by blast
    show "\<forall>i \<in> ?A - {x \<in> dom (active_at q). snd (snd x) = m}. f (active_at q i) = 0"
    proof
      fix i assume "i \<in> ?A - {x \<in> dom (active_at q). snd (snd x) = m}"
      then have "active_at q i = None" by blast
      then show "f (active_at q i) = 0" using assms(2) by simp
    qed
  qed
  moreover have "dom (active_at ps') \<subseteq> insert k (dom (active_at ps))" unfolding assms(1) by (auto split: if_splits)
  ultimately have ext: "market_sum f ps' m = (\<Sum>x \<in> ?A. f (active_at ps' x))" "market_sum f ps m = (\<Sum>x \<in> ?A. f (active_at ps x))"
    by blast+
  show ?thesis
  proof (cases "snd (snd k) = m")
    case True
    then have k: "k \<in> ?A" by simp
    have "(\<Sum>x \<in> ?A - {k}. f (active_at ps' x)) = (\<Sum>x \<in> ?A - {k}. f (active_at ps x))"
      by (rule sum.cong) (auto simp: assms(1))
    then show ?thesis
      using True sum.remove [OF fin k, of "\<lambda>x. f (active_at ps' x)"] sum.remove [OF fin k, of "\<lambda>x. f (active_at ps x)"]
      by (simp add: ext assms(1))
  next
    case False
    have "(\<Sum>x \<in> ?A. f (active_at ps' x)) = (\<Sum>x \<in> ?A. f (active_at ps x))"
      by (rule sum.cong) (use False in \<open>auto simp: assms(1)\<close>)
    then show ?thesis using False by (simp add: ext)
  qed
qed

lemma net_exposure_upd:
  assumes "active_at ps' = (active_at ps)(k := v)"
  shows "net_exposure ps' m = net_exposure ps m + (if snd (snd k) = m then exposure v - exposure (active_at ps k) else 0)"
  using market_sum_upd [OF assms, of exposure m] by (simp add: market_sum_def net_exposure_def)

text \<open>
  The open interest of a market: the sizes of its open rows, as the gate adds them up but without
  wrap-around.  It is the sum of the absolute exposures.
\<close>

definition open_interest :: "perp_positions_store \<Rightarrow> string \<Rightarrow> nat" where
  "open_interest ps m =
     sum_list (map (unat \<circ> pp_size_1e8) (filter (\<lambda>p. pp_status p = PosOpen \<and> pp_market_id p = m) (hm_values (ps_by_id ps))))"

lemma abs_side_sign: "\<bar>side_sign s * int n\<bar> = int n"
  by (cases s) simp_all

lemma abs_exposure_Some: "\<bar>exposure (Some p)\<bar> = int (unat (pp_size_1e8 p))"
  by (simp only: exposure.simps abs_side_sign)

lemma open_rows:
  fixes m :: string
  assumes inv: "positions_inv ps"
  defines "rows \<equiv> filter (\<lambda>p. pp_status p = PosOpen \<and> pp_market_id p = m) (hm_values (ps_by_id ps))"
  shows "distinct rows" "p \<in> set rows \<longleftrightarrow> active_at ps (pp_key p) = Some p \<and> pp_market_id p = m"
proof -
  have ok: "hm_ok (ps_by_id ps)" using inv by (simp add: positions_inv_def)
  have ids: "pp_id p = i" if "hm_get (ps_by_id ps) i = Some p" for i p
    using index_okD(1) [OF positions_index_ok [OF inv] that] .
  have "map pp_id (hm_values (ps_by_id ps)) = map fst (ps_by_id ps)"
    unfolding hm_values_def map_map
  proof (rule map_cong [OF refl])
    fix x assume "x \<in> set (ps_by_id ps)"
    then have "hm_get (ps_by_id ps) (fst x) = Some (snd x)" using ok by (simp add: hm_ok_def hm_get_def)
    then show "(pp_id \<circ> snd) x = fst x" using ids by simp
  qed
  then have "distinct (map pp_id (hm_values (ps_by_id ps)))" using ok by (simp add: hm_ok_def)
  then show "distinct rows" unfolding rows_def using distinct_map distinct_filter by blast
  have "p \<in> set rows \<longleftrightarrow> (\<exists>i. hm_get (ps_by_id ps) i = Some p) \<and> pp_is_open p \<and> pp_market_id p = m"
    by (auto simp: rows_def set_hm_values [OF ok] pp_is_open_def)
  also have "(\<exists>i. hm_get (ps_by_id ps) i = Some p) \<longleftrightarrow> hm_get (ps_by_id ps) (pp_id p) = Some p" using ids by blast
  finally show "p \<in> set rows \<longleftrightarrow> active_at ps (pp_key p) = Some p \<and> pp_market_id p = m"
    by (simp add: active_at_iff [OF inv])
qed

lemma open_interest_sum:
  assumes inv: "positions_inv ps"
  shows "int (open_interest ps m) = market_sum (\<lambda>v. \<bar>exposure v\<bar>) ps m"
proof -
  let ?vs = "filter (\<lambda>p. pp_status p = PosOpen \<and> pp_market_id p = m) (hm_values (ps_by_id ps))"
  note dist = open_rows(1) [OF inv, of m] and vs = open_rows(2) [OF inv, where m = m]
  have snd_key: "snd (snd (pp_key p)) = pp_market_id p" for p by (simp add: pp_key_def index_key_def)
  have key: "active_at ps k = Some p \<Longrightarrow> pp_key p = k" for k p using active_at_iff [OF inv] by blast
  have "int (sum_list (map (unat \<circ> pp_size_1e8) l)) = (\<Sum>p\<leftarrow>l. int (unat (pp_size_1e8 p)))" for l
    by (induction l) (simp_all del: of_nat_unat)
  then have "int (open_interest ps m) = (\<Sum>p\<leftarrow>?vs. int (unat (pp_size_1e8 p)))" unfolding open_interest_def .
  also have "\<dots> = (\<Sum>p \<in> set ?vs. int (unat (pp_size_1e8 p)))" by (rule sum_list_distinct_conv_sum_set [OF dist])
  also have "\<dots> = market_sum (\<lambda>v. \<bar>exposure v\<bar>) ps m"
    unfolding market_sum_def
  proof (rule sum.reindex_bij_witness [of _ "\<lambda>k. the (active_at ps k)" pp_key])
    fix p assume "p \<in> set ?vs"
    then have p: "active_at ps (pp_key p) = Some p" "pp_market_id p = m" unfolding vs by blast+
    show "the (active_at ps (pp_key p)) = p" using p(1) by simp
    show "pp_key p \<in> {k \<in> dom (active_at ps). snd (snd k) = m}" unfolding mem_Collect_eq snd_key domIff using p by simp
    show "\<bar>exposure (active_at ps (pp_key p))\<bar> = int (unat (pp_size_1e8 p))" unfolding p(1) by (rule abs_exposure_Some)
  next
    fix k assume "k \<in> {k \<in> dom (active_at ps). snd (snd k) = m}"
    then obtain p where p: "active_at ps k = Some p" "snd (snd k) = m" by blast
    have "pp_market_id p = m" using key [OF p(1)] p(2) snd_key by metis
    then show "the (active_at ps k) \<in> set ?vs" unfolding vs using p(1) key [OF p(1)] by simp
    show "pp_key (the (active_at ps k)) = k" using p(1) key by simp
  qed
  finally show ?thesis .
qed

text \<open>Room for further fills: no position can overflow while the total filled is at most the bound.\<close>

definition room_for :: "nat \<Rightarrow> perp_positions_store \<Rightarrow> bool" where
  "room_for b ps = (b < 2 ^ 128 \<and> (\<forall>k p. active_at ps k = Some p \<longrightarrow> unat (pp_size_1e8 p) + b < 2 ^ 128))"

lemma room_for_mono:
  assumes "room_for n ps" "k \<le> n"
  shows "room_for k ps"
  unfolding room_for_def
proof (intro conjI allI impI)
  show "k < 2 ^ 128" using assms by (auto simp: room_for_def)
  fix key p assume "active_at ps key = Some p"
  with assms(1) have "unat (pp_size_1e8 p) + n < 2 ^ 128" unfolding room_for_def by blast
  then show "unat (pp_size_1e8 p) + k < 2 ^ 128" using assms(2) by linarith
qed

lemma fill_spec_exposure:
  assumes "fill_checked new now market fill pos = Ok (out, pos')"
    and "\<And>p. pos = Some p \<Longrightarrow> unat (pp_size_1e8 p) + unat (fi_size_1e8 fill) + b < 2 ^ 128" "unat (fi_size_1e8 fill) + b < 2 ^ 128"
  shows "exposure pos' = exposure pos + side_sign (fi_side fill) * int (unat (fi_size_1e8 fill))"
    "pos' = Some q \<Longrightarrow> unat (pp_size_1e8 q) + b < 2 ^ 128" "fi_market_id fill = pm_symbol market"
proof -
  have spec: "fill_spec new now market fill pos = Ok (out, pos')" "fi_market_id fill = pm_symbol market"
    using assms(1) by (auto simp: fill_checked_def and_then_Ok_iff split: if_splits)
  then show "fi_market_id fill = pm_symbol market" by simp
  have "exposure pos' = exposure pos + side_sign (fi_side fill) * int (unat (fi_size_1e8 fill)) \<and>
    (\<forall>q. pos' = Some q \<longrightarrow> unat (pp_size_1e8 q) + b < 2 ^ 128)"
  proof (cases pos)
    case None
    then have "pos' = Some (opened_by new fill)" using spec by (auto simp: and_then_Ok_iff split: if_splits)
    then show ?thesis using None assms(3) by simp
  next
    case (Some p)
    note room = assms(2) [OF Some]
    show ?thesis
    proof (cases "pp_side p = fi_side fill")
      case True
      then have q: "pos' = Some (increased_by now fill p)" using spec Some by (auto simp: and_then_Ok_iff Let_def split: if_splits)
      have "unat (pp_size_1e8 (increased_by now fill p)) = unat (pp_size_1e8 p) + unat (fi_size_1e8 fill)"
        using room by (simp add: increased_by_def unat_saturating_add min_def)
      moreover have "pp_side (increased_by now fill p) = pp_side p" by (simp add: increased_by_def)
      ultimately show ?thesis using q Some True room by (simp add: distrib_left del: of_nat_unat)
    next
      case False
      have sgn: "side_sign (fi_side fill) = - side_sign (pp_side p)" using False by (cases "pp_side p"; cases "fi_side fill") auto
      have cases: "fi_size_1e8 fill = pp_size_1e8 p \<and> pos' = None \<or> fi_size_1e8 fill < pp_size_1e8 p \<and> pos' = Some (reduced_by now fill p)"
        using spec Some False by (auto split: if_splits)
      then show ?thesis
      proof
        assume "fi_size_1e8 fill = pp_size_1e8 p \<and> pos' = None"
        then show ?thesis using Some sgn by simp
      next
        assume r: "fi_size_1e8 fill < pp_size_1e8 p \<and> pos' = Some (reduced_by now fill p)"
        note q = reduced_by_fields [OF conjunct1 [OF r], where now = now]
        have "unat (fi_size_1e8 fill) < unat (pp_size_1e8 p)" using r by (simp add: word_less_nat_alt)
        then show ?thesis using r q Some sgn room by (simp add: of_nat_diff algebra_simps del: of_nat_unat)
      qed
    qed
  qed
  then show "exposure pos' = exposure pos + side_sign (fi_side fill) * int (unat (fi_size_1e8 fill))"
    "pos' = Some q \<Longrightarrow> unat (pp_size_1e8 q) + b < 2 ^ 128" by blast+
qed

lemma apply_fill_exposure:
  assumes inv: "positions_inv ps" "hm_get (ps_by_id ps) (fst new) = None"
    and app: "apply_perp_fill_for_account new now market fill ps = (Ok out, ps')"
    and room: "room_for (unat (fi_size_1e8 fill) + b) ps"
  shows "net_exposure ps' m = net_exposure ps m + (if m = pm_symbol market then side_sign (fi_side fill) * int (unat (fi_size_1e8 fill)) else 0)"
    "room_for b ps'" "positions_inv ps'" "open_interest ps' m \<le> open_interest ps m + unat (fi_size_1e8 fill)"
proof -
  note ref = apply_fill_refined [OF inv, of fill now market, unfolded app]
  obtain pos' where chk: "fill_checked new now market fill (active_at ps (fill_key fill)) = Ok (out, pos')"
    and act: "active_at ps' = (active_at ps)(fill_key fill := pos')" and inv': "positions_inv ps'"
    using ref by (auto simp: fill_refined_def split: sum.splits)
  then show "positions_inv ps'" by simp
  have ex: "exposure pos' = exposure (active_at ps (fill_key fill)) + side_sign (fi_side fill) * int (unat (fi_size_1e8 fill))"
    "fi_market_id fill = pm_symbol market" and new: "pos' = Some q \<Longrightarrow> unat (pp_size_1e8 q) + b < 2 ^ 128" for q
    using fill_spec_exposure [OF chk, of b] room by (auto simp: room_for_def add.assoc simp del: split_paired_All)
  have "snd (snd (fill_key fill)) = pm_symbol market" using ex(2) by (simp add: fill_key_def index_key_def)
  then show "net_exposure ps' m = net_exposure ps m + (if m = pm_symbol market then side_sign (fi_side fill) * int (unat (fi_size_1e8 fill)) else 0)"
    using net_exposure_upd [OF act, of m] ex(1) by auto
  have "\<bar>exposure pos'\<bar> \<le> \<bar>exposure (active_at ps (fill_key fill))\<bar> + int (unat (fi_size_1e8 fill))"
    unfolding ex(1) using abs_triangle_ineq [of "exposure (active_at ps (fill_key fill))"] abs_side_sign by metis
  then have "int (open_interest ps' m) \<le> int (open_interest ps m) + int (unat (fi_size_1e8 fill))"
    unfolding open_interest_sum [OF inv'] open_interest_sum [OF inv(1)]
    using market_sum_upd [OF act, of "\<lambda>v. \<bar>exposure v\<bar>" m] by (simp split: if_splits)
  then show "open_interest ps' m \<le> open_interest ps m + unat (fi_size_1e8 fill)" by linarith
  show "room_for b ps'"
    unfolding room_for_def
  proof (intro conjI allI impI)
    show "b < 2 ^ 128" using room by (simp add: room_for_def)
    fix k p assume "active_at ps' k = Some p"
    then consider "pos' = Some p" | "active_at ps k = Some p" unfolding act by (auto split: if_splits)
    then show "unat (pp_size_1e8 p) + b < 2 ^ 128"
    proof cases
      case 2
      then have "unat (pp_size_1e8 p) + (unat (fi_size_1e8 fill) + b) < 2 ^ 128" using room unfolding room_for_def by blast
      then show ?thesis by linarith
    qed (rule new)
  qed
qed

lemma position_side_signs: "side_sign (position_side (order_side_opposite s)) = - side_sign (position_side s)"
  by (cases s) (simp_all add: position_side_def order_side_opposite_def)

lemma commit_one_exposure:
  assumes inv: "orders_inv os" and pl: "plan_ok os pl" and ps: "positions_inv ps"
    and fresh: "hm_get (ps_by_id ps) (fst (fd_taker_new d)) = None" "hm_get (ps_by_id ps) (fst (fd_maker_new d)) = None"
      "fst (fd_taker_new d) \<noteq> fst (fd_maker_new d)"
    and room: "room_for (2 * unat (plan_size_1e8 pl) + b) ps"
    and ok: "commit_one market now ord d pl (os, ps) = (Ok f, os', ps')"
  shows "net_exposure ps' m = net_exposure ps m" "room_for b ps'"
    "open_interest ps' m \<le> open_interest ps m + 2 * unat (plan_size_1e8 pl)"
proof -
  obtain mk ps'' where "positions_inv ps''" and "(\<exists>e. commit_one market now ord d pl (os, ps) = (Err e, maker_served now pl os, ps'')) \<or>
     (let f = make_fill (fd_fill_id d) now ord pl (served_row now pl mk) in
        commit_one market now ord d pl (os, ps) = (Ok f, insert_fill f (maker_served now pl os), ps'') \<and>
        (\<exists>o1 o2 ps1. apply_perp_fill_for_account (fd_taker_new d) (fd_taker_now d) market (taker_fill_input ord pl) ps = (Ok o1, ps1) \<and>
           apply_perp_fill_for_account (fd_maker_new d) (fd_maker_now d) market
             (maker_fill_input ord pl (served_row now pl mk)) ps1 = (Ok o2, ps'')))"
    by (rule commit_one_step [OF inv pl ps fresh])
  then obtain o1 o2 ps1 where
    a1: "apply_perp_fill_for_account (fd_taker_new d) (fd_taker_now d) market (taker_fill_input ord pl) ps = (Ok o1, ps1)" and
    a2: "apply_perp_fill_for_account (fd_maker_new d) (fd_maker_now d) market (maker_fill_input ord pl (served_row now pl mk)) ps1 = (Ok o2, ps')"
    using ok by (auto simp: Let_def)
  have sz: "fi_size_1e8 (taker_fill_input ord pl) = plan_size_1e8 pl"
    "fi_size_1e8 (maker_fill_input ord pl (served_row now pl mk)) = plan_size_1e8 pl"
    "fi_side (taker_fill_input ord pl) = position_side (po_side ord)"
    "fi_side (maker_fill_input ord pl (served_row now pl mk)) = position_side (order_side_opposite (po_side ord))"
    by (simp_all add: taker_fill_input_def maker_fill_input_def)
  have room1: "room_for (unat (fi_size_1e8 (taker_fill_input ord pl)) + (unat (plan_size_1e8 pl) + b)) ps"
    using room by (simp add: sz mult_2 add.assoc)
  note e1 = apply_fill_exposure [OF ps fresh(1) a1 room1]
  have "fst (fd_maker_new d) \<notin> dom (hm_get (ps_by_id ps1))"
    using apply_fill_dom [of "fd_taker_new d" "fd_taker_now d" market "taker_fill_input ord pl" ps] a1 fresh(2,3)
    by (auto simp: domIff)
  then have f2: "hm_get (ps_by_id ps1) (fst (fd_maker_new d)) = None" by (simp add: domIff)
  note e2 = apply_fill_exposure [OF e1(3) f2 a2, of b]
  show "net_exposure ps' m = net_exposure ps m" "room_for b ps'"
    using e1(1) [of m] e1(2) e2(1) [of m] e2(2) by (simp_all add: sz position_side_signs)
  show "open_interest ps' m \<le> open_interest ps m + 2 * unat (plan_size_1e8 pl)"
    using e1(2) e1(4) [of m] e2(4) [of m] by (simp add: sz)
qed

lemma commit_fills_exposure:
  assumes "orders_inv os" "positions_inv ps" "\<forall>pl \<in> set plans. plan_ok os pl" "distinct (map plan_maker_order_id plans)"
    "draws_fresh draws n N ps" "draws_distinct draws N" "n + length plans \<le> N" "room_for (2 * plan_total plans) ps"
    "commit_fills market now ord draws n plans fills r (os, ps) = (Ok res, os', ps')"
  shows "net_exposure ps' m = net_exposure ps m \<and> open_interest ps' m \<le> open_interest ps m + 2 * plan_total plans"
  using assms
proof (induction plans arbitrary: os ps n fills r)
  case (Cons pl plans)
  note inv = Cons.prems(1) and ps = Cons.prems(2)
  have pl: "plan_ok os pl" using Cons.prems(3) by simp
  have fresh: "hm_get (ps_by_id ps) (fst (fd_taker_new (draws n))) = None" "hm_get (ps_by_id ps) (fst (fd_maker_new (draws n))) = None"
    using Cons.prems(5,7) by (simp_all add: draws_fresh_def)
  have ne: "fst (fd_taker_new (draws n)) \<noteq> fst (fd_maker_new (draws n))" using Cons.prems(6,7) by (simp add: draws_distinct_def)
  obtain f os1 ps1 where one: "commit_one market now ord (draws n) pl (os, ps) = (Ok f, os1, ps1)"
    and rest: "commit_fills market now ord draws (n + 1) plans (fills @ [f]) (saturating_sub r (plan_size_1e8 pl)) (os1, ps1) = (Ok res, os', ps')"
    using Cons.prems(9) by (auto split: prod.splits sum.splits)
  have "commit_result now ord [pl] fills r os (commit_fills market now ord draws n [pl] fills r (os, ps))"
    by (rule commit_fills_result [OF inv ps]) (use pl Cons.prems(5,6,7) in auto)
  then have cr: "commit_result now ord [pl] fills r os (Ok (fills @ [f], saturating_sub r (plan_size_1e8 pl)), os1, ps1)"
    by (simp add: one)
  have d: "plan_maker_order_id q \<noteq> plan_maker_order_id pl" if "q \<in> set plans" for q using Cons.prems(4) that by (auto simp: image_iff)
  have plans: "\<forall>q \<in> set plans. plan_ok os1 q"
  proof
    fix q assume q: "q \<in> set plans"
    have "hm_get (st_orders os1) (plan_maker_order_id q) = hm_get (st_orders os) (plan_maker_order_id q)"
      using commit_resultD(3) [OF cr, of "plan_maker_order_id q"] d [OF q] by simp
    then show "plan_ok os1 q" using Cons.prems(3) q by (simp add: plan_ok_def)
  qed
  have "2 * plan_total (pl # plans) = 2 * unat (plan_size_1e8 pl) + 2 * plan_total plans" by simp
  then have room: "room_for (2 * unat (plan_size_1e8 pl) + 2 * plan_total plans) ps" using Cons.prems(8) by simp
  note ex = commit_one_exposure [OF inv pl ps fresh ne room one]
  have dom: "dom (hm_get (ps_by_id ps1)) \<subseteq> {fst (fd_taker_new (draws n)), fst (fd_maker_new (draws n))} \<union> dom (hm_get (ps_by_id ps))"
    by (rule commit_one_step [OF inv pl ps fresh ne, of market now ord]) (use one in \<open>auto simp: Let_def\<close>)
  have fr: "draws_fresh draws (n + 1) N ps1" by (rule draws_fresh_step [OF Cons.prems(5,6) _ dom]) (use Cons.prems(7) in simp)
  have "net_exposure ps' m = net_exposure ps1 m \<and> open_interest ps' m \<le> open_interest ps1 m + 2 * plan_total plans"
    using Cons.IH [OF _ _ plans _ fr Cons.prems(6) _ ex(2) rest] commit_resultD(1,2) [OF cr] Cons.prems(4,7) by simp
  then show ?case using ex(1) ex(3) [of m] by simp
qed simp


section \<open>A submission as a whole\<close>

lemma submit_gate_Ok:
  assumes "submit_gate cfg ps now oracle_read input = Ok market"
  shows "si_size_1e8 input \<noteq> 0" "pm_symbol market = si_market_id input" "si_post_only input \<Longrightarrow> si_time_in_force input = PerpGtc"
  using assms market_by_symbol_Some [of cfg "si_market_id input" market]
  by (auto simp: submit_gate_def and_then_Ok_iff validate_input_basics_def validate_tif_combinations_def find_market_def
      ok_or_Ok_iff split: if_splits sum.splits)

lemma build_order_fields [simp]:
  "po_id (build_order env input) = en_order_id env" "po_account (build_order env input) = si_account input"
  "po_side (build_order env input) = si_side input" "po_size_1e8 (build_order env input) = si_size_1e8 input"
  "po_price_1e8 (build_order env input) = effective_limit_price_1e8 input" "po_market_id (build_order env input) = si_market_id input"
  "po_time_in_force (build_order env input) = si_time_in_force input" "po_post_only (build_order env input) = si_post_only input"
  "po_reduce_only (build_order env input) = si_reduce_only input" "po_status (build_order env input) = PerpOpen"
  "po_remaining_size_1e8 (build_order env input) = si_size_1e8 input" "po_filled_size_1e8 (build_order env input) = 0"
  "po_subaccount_id (build_order env input) = si_subaccount_id input"
  by (simp_all add: build_order_def new_perp_order_def)

lemma counterparties_after_insert:
  assumes "hm_get (st_orders os) i = None" "st_orders os1 = hm_insert i ord (st_orders os)" "po_side ord = s"
  shows "counterparties_for os1 m s = counterparties_for os m s"
proof -
  have "AList.update i ord xs = xs @ [(i, ord)]" if "map_of xs i = None" for xs :: "(uuid, perp_order) hashmap"
    using that by (induction xs) (auto split: if_splits)
  then have "hm_insert i ord (st_orders os) = st_orders os @ [(i, ord)]"
    using assms(1) by (simp add: hm_insert_def hm_get_def)
  then have "hm_values (st_orders os1) = hm_values (st_orders os) @ [ord]" using assms(2) by (simp add: hm_values_def)
  then show ?thesis
    using assms(3) unfolding counterparties_for_def active_asks_sorted_def active_bids_sorted_def list_active_orders_for_market_def
    by (cases s) simp_all
qed

text \<open>The two ways a submission goes: refused before anything is stored, or stored and matched.\<close>

lemma submit_paths:
  assumes inv: "orders_inv os" and fresh: "hm_get (st_orders os) (en_order_id env) = None"
  obtains e where "submit_perp_order_internal_with_oracle env cfg oracle_read input (os, ps) = (Err e, os, ps)"
  | market os1 where "submit_gate cfg ps (en_gate_now env) oracle_read input = Ok market"
      "orders_inv os1" "just_stored os1 (build_order env input)"
      "st_orders os1 = hm_insert (en_order_id env) (build_order env input) (st_orders os)" "st_fills os1 = st_fills os"
      "length (plan_fills os1 (build_order env input)) \<le> length (st_orders os)"
      "submit_perp_order_internal_with_oracle env cfg oracle_read input (os, ps)
        = match_and_commit env market (build_order env input) (os1, ps)"
proof (cases "submit_gate cfg ps (en_gate_now env) oracle_read input")
  case (Inl e)
  then show ?thesis using that(1) by (simp add: submit_perp_order_internal_with_oracle_def)
next
  case (Inr market)
  let ?o = "build_order env input"
  have ok: "order_ok ?o" using submit_gate_Ok(1) [OF Inr] by (simp add: order_ok_def)
  show ?thesis
  proof (cases rule: insert_order_cases [of ?o os])
    case (1 c)
    then show ?thesis using that(1) Inr by (simp add: submit_perp_order_internal_with_oracle_def)
  next
    case (2 os1)
    have "orders_inv os1" using insert_order_inv [OF inv _ ok] fresh 2(1) by simp
    moreover have "just_stored os1 ?o" using 2(2) by (simp add: just_stored_def)
    moreover have "counterparties_for os1 m (si_side input) = counterparties_for os m (si_side input)" for m
      using counterparties_after_insert [of os "en_order_id env" os1 ?o "si_side input" m] fresh 2(2) by simp
    then have "length (plan_fills os1 ?o) \<le> length (st_orders os)"
      using plan_loop_length counterparties_length unfolding plan_fills_def by (metis build_order_fields(3) order_trans)
    ultimately show ?thesis
      using that(2) [OF Inr] 2 Inr by (simp add: submit_perp_order_internal_with_oracle_def)
  qed
qed

text \<open>The hypotheses on the state and on the ids drawn, common to what follows.\<close>

definition submit_ready :: "submit_env \<Rightarrow> perp_stores \<Rightarrow> bool" where
  "submit_ready env stores =
     (orders_inv (fst stores) \<and> positions_inv (snd stores) \<and> hm_get (st_orders (fst stores)) (en_order_id env) = None \<and>
      draws_fresh (en_draws env) 0 (length (st_orders (fst stores))) (snd stores) \<and>
      draws_distinct (en_draws env) (length (st_orders (fst stores))))"

lemma submit_Ok_done:
  assumes ready: "submit_ready env (os, ps)"
    and ok: "submit_perp_order_internal_with_oracle env cfg oracle_read input (os, ps) = (Ok out, os', ps')"
  obtains market os1 where "submit_gate cfg ps (en_gate_now env) oracle_read input = Ok market"
    "orders_inv os1" "just_stored os1 (build_order env input)" "st_fills os1 = st_fills os"
    "st_orders os1 = hm_insert (en_order_id env) (build_order env input) (st_orders os)"
    "length (plan_fills os1 (build_order env input)) \<le> length (st_orders os)"
    "submit_done (en_now env) (build_order env input) os1 out os'"
    "\<exists>os2. commit_fills market (en_now env) (build_order env input) (en_draws env) 0 (plan_fills os1 (build_order env input)) []
        (si_size_1e8 input) (os1, ps) = (Ok (sp_fills out, po_remaining_size_1e8 (sp_order out)), os2, ps')"
    "si_reduce_only input \<Longrightarrow> enforce_reduce_only ps (build_order env input) = Ok ()"
proof -
  have r: "orders_inv os" "positions_inv ps" "hm_get (st_orders os) (en_order_id env) = None"
    "draws_fresh (en_draws env) 0 (length (st_orders os)) ps" "draws_distinct (en_draws env) (length (st_orders os))" using ready by (auto simp: submit_ready_def)
  show ?thesis
  proof (cases rule: submit_paths [OF r(1,3), of cfg oracle_read input ps])
    case (1 e)
    then show ?thesis using ok by simp
  next
    case (2 market os1)
    note d = match_and_commit_done [OF 2(2) r(2) 2(3) r(4,5) 2(6), of market, folded 2(7), unfolded ok fst_conv snd_conv]
    show ?thesis using that [OF 2(1,2,3,5,4,6)] d(3) [OF refl] d(4) [OF refl] d(5) [OF refl] by simp
  qed
qed

lemma fills_of_plans:
  assumes "list_all2 (fill_of_plan ord) plans fills"
  shows "map pf_maker_order_id fills = map plan_maker_order_id plans"
    "sum_list (map (\<lambda>f. unat (pf_size_1e8 f)) fills) = plan_total plans"
    "f \<in> set fills \<Longrightarrow> \<exists>pl \<in> set plans. fill_of_plan ord pl f" "pl \<in> set plans \<Longrightarrow> \<exists>f \<in> set fills. fill_of_plan ord pl f"
    "fills = [] \<longleftrightarrow> plans = []"
proof -
  show "map pf_maker_order_id fills = map plan_maker_order_id plans" "sum_list (map (\<lambda>f. unat (pf_size_1e8 f)) fills) = plan_total plans"
    using assms by (induction plans fills rule: list_all2_induct) (simp_all add: fill_of_plan_def)
  show "f \<in> set fills \<Longrightarrow> \<exists>pl \<in> set plans. fill_of_plan ord pl f" "pl \<in> set plans \<Longrightarrow> \<exists>f \<in> set fills. fill_of_plan ord pl f"
    using assms by (metis in_set_conv_nth list_all2_conv_all_nth)+
  show "fills = [] \<longleftrightarrow> plans = []" using list_all2_lengthD [OF assms] by auto
qed


lemma submit_exposure:
  assumes ready: "submit_ready env (os, ps)" and room: "room_for (2 * unat (si_size_1e8 input)) ps"
    and ok: "submit_perp_order_internal_with_oracle env cfg oracle_read input (os, ps) = (Ok out, os', ps')"
  shows "net_exposure ps' m = net_exposure ps m"
    "open_interest ps' m \<le> open_interest ps m + 2 * sum_list (map (\<lambda>f. unat (pf_size_1e8 f)) (sp_fills out))"
    "sum_list (map (\<lambda>f. unat (pf_size_1e8 f)) (sp_fills out)) \<le> unat (si_size_1e8 input)"
proof -
  let ?o = "build_order env input"
  obtain market os1 where inv1: "orders_inv os1" and js: "just_stored os1 ?o"
    and len: "length (plan_fills os1 ?o) \<le> length (st_orders os)"
    and dn: "submit_done (en_now env) ?o os1 out os'"
    and c: "\<exists>os2. commit_fills market (en_now env) ?o (en_draws env) 0 (plan_fills os1 ?o) []
        (si_size_1e8 input) (os1, ps) = (Ok (sp_fills out, po_remaining_size_1e8 (sp_order out)), os2, ps')"
    by (rule submit_Ok_done [OF ready ok])
  obtain os2 where c: "commit_fills market (en_now env) ?o (en_draws env) 0 (plan_fills os1 ?o) []
        (si_size_1e8 input) (os1, ps) = (Ok (sp_fills out, po_remaining_size_1e8 (sp_order out)), os2, ps')" using c by blast
  note pf = planned_facts [OF inv1 js]
  have r: "positions_inv ps" "draws_fresh (en_draws env) 0 (length (st_orders os)) ps" "draws_distinct (en_draws env) (length (st_orders os))"
    using ready by (auto simp: submit_ready_def)
  have "list_all2 (fill_of_plan ?o) (plan_fills os1 ?o) (sp_fills out)" using dn by (simp add: submit_done_def Let_def)
  then have tot: "sum_list (map (\<lambda>f. unat (pf_size_1e8 f)) (sp_fills out)) = plan_total (plan_fills os1 ?o)" by (rule fills_of_plans(2))
  show "sum_list (map (\<lambda>f. unat (pf_size_1e8 f)) (sp_fills out)) \<le> unat (si_size_1e8 input)" using pf(4) by (simp add: tot)
  have "room_for (2 * plan_total (plan_fills os1 ?o)) ps"
    by (rule room_for_mono [OF room]) (use pf(4) in simp)
  then have "net_exposure ps' m = net_exposure ps m \<and> open_interest ps' m \<le> open_interest ps m + 2 * plan_total (plan_fills os1 ?o)"
    using commit_fills_exposure [OF inv1 r(1) pf(1,2) r(2,3) _ _ c] len by simp
  then show "net_exposure ps' m = net_exposure ps m"
    "open_interest ps' m \<le> open_interest ps m + 2 * sum_list (map (\<lambda>f. unat (pf_size_1e8 f)) (sp_fills out))" by (simp_all add: tot)
qed


text \<open>What the checks before matching let through, for an order that may open exposure.\<close>

lemma submit_gate_limits:
  assumes ok: "submit_gate cfg ps now oracle_read input = Ok market" and opens: "\<not> si_reduce_only input"
  shows "market_by_symbol cfg (si_market_id input) = Some market \<and> si_size_1e8 input \<noteq> 0 \<and> effective_limit_price_1e8 input \<noteq> 0 \<and>
     (\<exists>r. oracle_read = Ok r \<and> rp_ok r \<and> rp_price_1e8 r \<noteq> 0 \<and>
        i64_sat (now - rp_updated_at_ms r) \<le> i64_sat (u64_as_i64 (pc_stale_after_sec cfg) * 1000)) \<and>
     (\<forall>c. pm_max_order_size_1e8 market = Some c \<longrightarrow> si_size_1e8 input \<le> c) \<and>
     (\<forall>c. pm_max_order_notional_1e8 market = Some c \<longrightarrow> si_price_1e8 input \<noteq> 0 \<longrightarrow>
        notional_1e8 (si_size_1e8 input) (effective_limit_price_1e8 input) \<le> c) \<and>
     (\<forall>c. pm_max_open_interest_1e8 market = Some c \<longrightarrow>
        saturating_add (sum_list (map pp_size_1e8 (filter (\<lambda>p. pp_status p = PosOpen \<and> pp_market_id p = pm_symbol market)
           (hm_values (ps_by_id ps))))) (si_size_1e8 input) \<le> c)"
proof -
  have v: "validate_input_basics input = Ok ()" and f: "find_market cfg input = Ok market"
    and r: "\<exists>r. oracle_read = Ok r \<and> ensure_mark_fresh cfg now r = Ok ()" and caps: "enforce_pre_submit_risk_caps market ps input = Ok ()"
    using ok opens by (cases oracle_read; auto simp: submit_gate_def and_then_Ok_iff)+
  have "effective_limit_price_1e8 input \<noteq> 0" "si_size_1e8 input \<noteq> 0"
    using v by (auto simp: validate_input_basics_def effective_limit_price_1e8_def Let_def split: if_splits perp_order_side.splits)
  moreover have "\<exists>r. oracle_read = Ok r \<and> rp_ok r \<and> rp_price_1e8 r \<noteq> 0 \<and>
        i64_sat (now - rp_updated_at_ms r) \<le> i64_sat (u64_as_i64 (pc_stale_after_sec cfg) * 1000)"
    using r by (auto simp: ensure_mark_fresh_def Let_def split: if_splits)
  ultimately show ?thesis using f caps
    by (auto simp: find_market_def ok_or_Ok_iff enforce_pre_submit_risk_caps_def Let_def exceeds_def effective_limit_price_1e8_def
        not_less split: if_splits option.splits)
qed


section \<open>Properties\<close>

text \<open>
  C16: Whatever an order submission does, both stores stay well formed: every order accounts for
  its whole size and there is at most one open position per key, also when the submission fails
  half way.  A submission refused by validation, the oracle gate or the risk caps changes nothing.
\<close>

theorem submit_keeps_stores:
  assumes "submit_ready env (os, ps)"
    "submit_perp_order_internal_with_oracle env cfg oracle_read input (os, ps) = (res, os', ps')"
  shows "orders_inv os' \<and> positions_inv ps' \<and>
     (\<forall>e. submit_gate cfg ps (en_gate_now env) oracle_read input = Err e \<longrightarrow> res = Err e \<and> os' = os \<and> ps' = ps)"
proof -
  have r: "orders_inv os" "positions_inv ps" "hm_get (st_orders os) (en_order_id env) = None"
    "draws_fresh (en_draws env) 0 (length (st_orders os)) ps" "draws_distinct (en_draws env) (length (st_orders os))" using assms(1) by (auto simp: submit_ready_def)
  show ?thesis
  proof (cases rule: submit_paths [OF r(1,3), of cfg oracle_read input ps])
    case (1 e)
    then show ?thesis using assms(2) r by (auto simp: submit_perp_order_internal_with_oracle_def split: sum.splits prod.splits)
  next
    case (2 market os1)
    note d = match_and_commit_done [OF 2(2) r(2) 2(3) r(4,5) 2(6), of market, folded 2(7), unfolded assms(2) fst_conv snd_conv]
    show ?thesis using d(1,2) 2(1) by simp
  qed
qed

text \<open>
  C14: An accepted order trades in price-time priority: each fill is at the price of a resting
  order of the other side within the limit of the order, the makers come in the order of best
  price, then age, then id, a maker is touched only once every maker before it is used up, and if
  the order is left with size then every resting order within its limit is used up.
\<close>

theorem perp_submit_priority:
  assumes ready: "submit_ready env (os, ps)"
    and ok: "submit_perp_order_internal_with_oracle env cfg oracle_read input (os, ps) = (Ok out, os', ps')"
  defines "makers \<equiv> counterparties_for os (si_market_id input) (si_side input)"
  defines "used \<equiv> (\<lambda>m. \<exists>f \<in> set (sp_fills out). pf_maker_order_id f = po_id m \<and> pf_size_1e8 f = po_remaining_size_1e8 m)"
  shows "(\<forall>f \<in> set (sp_fills out). \<exists>m \<in> set makers. pf_maker_order_id f = po_id m \<and> pf_price_1e8 f = po_price_1e8 m \<and>
          pf_size_1e8 f \<le> po_remaining_size_1e8 m \<and> crosses (si_side input) (effective_limit_price_1e8 input) (po_price_1e8 m)) \<and>
     sorted_wrt (serves_before (si_side input)) makers \<and> subseq (map pf_maker_order_id (sp_fills out)) (map po_id makers) \<and>
     (\<forall>as b bs a. makers = as @ b # bs \<longrightarrow> po_id b \<in> pf_maker_order_id ` set (sp_fills out) \<longrightarrow> a \<in> set as \<longrightarrow> used a) \<and>
     (po_remaining_size_1e8 (sp_order out) \<noteq> 0 \<longrightarrow>
        (\<forall>m \<in> set makers. crosses (si_side input) (effective_limit_price_1e8 input) (po_price_1e8 m) \<longrightarrow> used m))"
proof -
  let ?o = "build_order env input"
  obtain market os1 where inv1: "orders_inv os1" and st: "st_orders os1 = hm_insert (en_order_id env) ?o (st_orders os)"
    and dn: "submit_done (en_now env) ?o os1 out os'"
    by (rule submit_Ok_done [OF ready ok])
  have inv: "orders_inv os" and fresh: "hm_get (st_orders os) (en_order_id env) = None" using ready by (auto simp: submit_ready_def)
  have mk: "makers = counterparties_for os1 (si_market_id input) (si_side input)"
    unfolding makers_def using counterparties_after_insert [OF fresh st] by simp
  let ?plans = "plan_loop (si_side input) (effective_limit_price_1e8 input) (si_size_1e8 input) makers"
  have plans: "plan_fills os1 ?o = ?plans" by (simp add: plan_fills_def mk)
  have l2: "list_all2 (fill_of_plan ?o) ?plans (sp_fills out)"
    and rem: "unat (po_remaining_size_1e8 (sp_order out)) = unat (si_size_1e8 input) - plan_total ?plans"
    using dn by (simp_all add: submit_done_def Let_def plans)
  note fp = fills_of_plans [OF l2]
  have dist: "distinct (map po_id makers)" unfolding mk by (rule counterparties_distinct [OF inv1])
  have srt: "sorted_wrt (serves_before (si_side input)) makers" unfolding makers_def by (rule counterparties_sorted)
  have act: "po_remaining_size_1e8 m \<noteq> 0" if "m \<in> set makers" for m
    using that counterparties_iff [OF inv] orders_invD(2) [OF inv] by (auto simp: makers_def order_ok_def)
  have used: "used m" if "fully_planned ?plans m" for m
    using that fp(4) unfolding fully_planned_def used_def fill_of_plan_def by metis
  show ?thesis
  proof (intro conjI ballI allI impI)
    fix f assume "f \<in> set (sp_fills out)"
    then obtain pl where pl: "pl \<in> set ?plans" "fill_of_plan ?o pl f" using fp(3) by blast
    show "\<exists>m \<in> set makers. pf_maker_order_id f = po_id m \<and> pf_price_1e8 f = po_price_1e8 m \<and>
          pf_size_1e8 f \<le> po_remaining_size_1e8 m \<and> crosses (si_side input) (effective_limit_price_1e8 input) (po_price_1e8 m)"
      using plan_loop_makers [OF pl(1)] pl(2) by (auto simp: fill_of_plan_def)
  next
    show "subseq (map pf_maker_order_id (sp_fills out)) (map po_id makers)" unfolding fp(1) by (rule plan_loop_subseq)
  next
    fix as b bs a assume m: "makers = as @ b # bs" and b: "po_id b \<in> pf_maker_order_id ` set (sp_fills out)" and a: "a \<in> set as"
    have "po_id b \<in> plan_maker_order_id ` set ?plans" using b fp(1) by (metis list.set_map)
    then show "used a"
      using used plan_loop_priority [of b _ _ _ as bs a] dist act [of a] a unfolding m by simp
  next
    fix m assume r0: "po_remaining_size_1e8 (sp_order out) \<noteq> 0" and m: "m \<in> set makers"
      and c: "crosses (si_side input) (effective_limit_price_1e8 input) (po_price_1e8 m)"
    have "plan_total ?plans < unat (si_size_1e8 input)" using r0 rem by (metis diff_is_0_eq linorder_not_less unat_eq_zero)
    then show "used m" using used plan_loop_complete [OF _ srt m c act [OF m]] by blast
  qed (rule srt)
qed

text \<open>
  C15: Sizes are conserved: the fills of an accepted order and what is left of it add up to its
  size; every fill is taken off the remaining size of its maker exactly once; each fill is logged,
  in order; and no other order changes.
\<close>

theorem perp_submit_conserves_size:
  assumes ready: "submit_ready env (os, ps)"
    and ok: "submit_perp_order_internal_with_oracle env cfg oracle_read input (os, ps) = (Ok out, os', ps')"
  shows "sum_list (map (\<lambda>f. unat (pf_size_1e8 f)) (sp_fills out)) + unat (po_remaining_size_1e8 (sp_order out)) = unat (si_size_1e8 input) \<and>
     hm_get (st_orders os') (en_order_id env) = Some (sp_order out) \<and> st_fills os' = st_fills os @ sp_fills out \<and>
     distinct (map pf_maker_order_id (sp_fills out)) \<and>
     (\<forall>f \<in> set (sp_fills out). \<exists>m m'. hm_get (st_orders os) (pf_maker_order_id f) = Some m \<and>
        hm_get (st_orders os') (pf_maker_order_id f) = Some m' \<and> same_order_identity m' m \<and>
        unat (po_remaining_size_1e8 m') + unat (pf_size_1e8 f) = unat (po_remaining_size_1e8 m)) \<and>
     (\<forall>i. i \<noteq> en_order_id env \<longrightarrow> i \<notin> pf_maker_order_id ` set (sp_fills out) \<longrightarrow> hm_get (st_orders os') i = hm_get (st_orders os) i)"
proof -
  let ?o = "build_order env input"
  obtain market os1 where inv1: "orders_inv os1" and js: "just_stored os1 ?o" and fi: "st_fills os1 = st_fills os"
    and st: "st_orders os1 = hm_insert (en_order_id env) ?o (st_orders os)" and dn: "submit_done (en_now env) ?o os1 out os'"
    by (rule submit_Ok_done [OF ready ok])
  let ?plans = "plan_fills os1 ?o"
  note pf = planned_facts [OF inv1 js]
  have l2: "list_all2 (fill_of_plan ?o) ?plans (sp_fills out)"
    and rem: "unat (po_remaining_size_1e8 (sp_order out)) = unat (si_size_1e8 input) - plan_total ?plans"
    and row: "hm_get (st_orders os') (en_order_id env) = Some (sp_order out)" and log: "st_fills os' = st_fills os1 @ sp_fills out"
    and mk: "\<forall>pl \<in> set ?plans. \<exists>m. hm_get (st_orders os1) (plan_maker_order_id pl) = Some m \<and>
            hm_get (st_orders os') (plan_maker_order_id pl) = Some (served_row (en_now env) pl m)"
    and out: "\<forall>i. i \<notin> insert (po_id ?o) (plan_maker_order_id ` set ?plans) \<longrightarrow> hm_get (st_orders os') i = hm_get (st_orders os1) i"
    using dn unfolding submit_done_def Let_def by simp_all
  note fp = fills_of_plans [OF l2]
  have ids: "pf_maker_order_id ` set (sp_fills out) = plan_maker_order_id ` set ?plans" using fp(1) by (metis list.set_map)
  have tot: "plan_total ?plans \<le> unat (si_size_1e8 input)" using pf(4) by simp
  show ?thesis
  proof (intro conjI ballI allI impI)
    show "sum_list (map (\<lambda>f. unat (pf_size_1e8 f)) (sp_fills out)) + unat (po_remaining_size_1e8 (sp_order out)) = unat (si_size_1e8 input)"
      unfolding fp(2) rem using tot by simp
    show "distinct (map pf_maker_order_id (sp_fills out))" unfolding fp(1) by (rule pf(2))
    fix f assume "f \<in> set (sp_fills out)"
    then obtain pl where pl: "pl \<in> set ?plans" "fill_of_plan ?o pl f" using fp(3) by blast
    obtain m where m: "hm_get (st_orders os1) (plan_maker_order_id pl) = Some m"
        "hm_get (st_orders os') (plan_maker_order_id pl) = Some (served_row (en_now env) pl m)" using mk pl(1) by blast
    have ne: "plan_maker_order_id pl \<noteq> en_order_id env" using pf(3) pl(1) by (metis build_order_fields(1) imageI)
    have le: "plan_size_1e8 pl \<le> po_remaining_size_1e8 m" using pf(1) pl(1) m(1) by (auto simp: plan_ok_def)
    note mf = maker_filled_ok [OF orders_invD(2) [OF inv1 m(1)] le]
    show "\<exists>m m'. hm_get (st_orders os) (pf_maker_order_id f) = Some m \<and>
        hm_get (st_orders os') (pf_maker_order_id f) = Some m' \<and> same_order_identity m' m \<and>
        unat (po_remaining_size_1e8 m') + unat (pf_size_1e8 f) = unat (po_remaining_size_1e8 m)"
      using m ne st mf(2,3) le pl(2)
      by (intro exI [of _ m] exI [of _ "served_row (en_now env) pl m"]) (simp add: served_row_def fill_of_plan_def word_le_nat_alt)
  next
    fix i assume "i \<noteq> en_order_id env" "i \<notin> pf_maker_order_id ` set (sp_fills out)"
    then show "hm_get (st_orders os') i = hm_get (st_orders os) i" using out st ids by simp
  qed (use row log fi in simp_all)
qed

text \<open>
  C18: The order flags are honoured.  No fill has the order's own account on the other side; a
  post-only order is accepted only without a fill; a fill-or-kill order is accepted only if it
  fills completely; an immediate-or-cancel order never rests; a reduce-only order is accepted only
  against an open position of the other direction that is at least as large.
\<close>

theorem perp_submit_flags:
  assumes ready: "submit_ready env (os, ps)"
    and ok: "submit_perp_order_internal_with_oracle env cfg oracle_read input (os, ps) = (Ok out, os', ps')"
  shows "(\<forall>f \<in> set (sp_fills out). pf_maker_account f \<noteq> si_account input) \<and>
     (si_post_only input \<longrightarrow> sp_fills out = []) \<and>
     (si_time_in_force input = PerpFok \<longrightarrow> po_status (sp_order out) = PerpFilled) \<and>
     (si_time_in_force input = PerpIoc \<longrightarrow> \<not> is_active (po_status (sp_order out))) \<and>
     (si_reduce_only input \<longrightarrow> (\<exists>p. get_active ps (si_account input) (si_subaccount_id input) (si_market_id input) = Some p \<and>
        pp_side p = perp_side_opposite (position_side (si_side input)) \<and> si_size_1e8 input \<le> pp_size_1e8 p))"
proof -
  let ?o = "build_order env input"
  obtain os1 where dn: "submit_done (en_now env) ?o os1 out os'"
    and ro: "si_reduce_only input \<longrightarrow> enforce_reduce_only ps ?o = Ok ()"
    by (rule submit_Ok_done [OF ready ok]) blast
  let ?plans = "plan_fills os1 ?o"
  have l2: "list_all2 (fill_of_plan ?o) ?plans (sp_fills out)"
    and rem: "unat (po_remaining_size_1e8 (sp_order out)) = unat (si_size_1e8 input) - plan_total ?plans"
    and status: "po_status (sp_order out) = taker_final_status (si_time_in_force input) (sp_fills out \<noteq> []) (po_remaining_size_1e8 (sp_order out))"
    and self: "\<not> list_ex (\<lambda>f. plan_maker_account f = si_account input) ?plans" and post: "si_post_only input \<longrightarrow> ?plans = []"
    and fok: "si_time_in_force input = PerpFok \<longrightarrow> plan_total ?plans = unat (si_size_1e8 input)"
    using dn unfolding submit_done_def Let_def by simp_all
  note fp = fills_of_plans [OF l2]
  show ?thesis
  proof (intro conjI ballI impI)
    fix f assume "f \<in> set (sp_fills out)"
    then obtain pl where "pl \<in> set ?plans" "fill_of_plan ?o pl f" using fp(3) by blast
    then show "pf_maker_account f \<noteq> si_account input" using self by (auto simp: list_ex_iff fill_of_plan_def)
  next
    assume "si_time_in_force input = PerpFok"
    then have "po_remaining_size_1e8 (sp_order out) = 0" using rem fok by (simp add: unat_eq_zero)
    then show "po_status (sp_order out) = PerpFilled" using status by (simp add: taker_final_status_def)
  next
    assume "si_time_in_force input = PerpIoc"
    then show "\<not> is_active (po_status (sp_order out))" unfolding status by (simp add: taker_final_status_def is_active_def)
  next
    assume "si_reduce_only input"
    with ro have "enforce_reduce_only ps ?o = Ok ()" by blast
    then show "\<exists>p. get_active ps (si_account input) (si_subaccount_id input) (si_market_id input) = Some p \<and>
        pp_side p = perp_side_opposite (position_side (si_side input)) \<and> si_size_1e8 input \<le> pp_size_1e8 p"
      by (auto simp: enforce_reduce_only_def Let_def split: option.splits if_splits)
  qed (use post fp(5) in simp)
qed

text \<open>
  C17: An accepted order leaves the exposure balanced: in every market the signed sizes of all open
  positions have the same sum before and after, because each fill moves the taker and the maker by
  the same size in opposite directions.
\<close>

theorem perp_submit_balanced:
  assumes ready: "submit_ready env (os, ps)" and room: "room_for (2 * unat (si_size_1e8 input)) ps"
    and ok: "submit_perp_order_internal_with_oracle env cfg oracle_read input (os, ps) = (Ok out, os', ps')"
  shows "net_exposure ps' m = net_exposure ps m"
  by (rule submit_exposure(1) [OF assms])

text \<open>
  A user cancel succeeds exactly for a known, live order of the caller, the account being
  compared without case.  It then marks the order cancelled, keeps its fills and sizes, and
  touches no other order; in every other case nothing changes and the error names the cause.
\<close>

theorem cancel_perp_order_exact:
  assumes inv: "orders_inv st"
  shows "cancel_perp_order_internal i caller now st =
    (case hm_get (st_orders st) i of
       None \<Rightarrow> (Err (PerpOrderNotFound i), st)
     | Some ord \<Rightarrow>
         if to_lowercase (po_account ord) = to_lowercase caller \<and> is_active (po_status ord)
         then (Ok (cancelled_order USER_CANCELLED SOURCE_REQUEST_VALIDATION now ord),
               st\<lparr>st_orders := hm_insert i (cancelled_order USER_CANCELLED SOURCE_REQUEST_VALIDATION now ord) (st_orders st)\<rparr>)
         else (Err PerpInvalidOrderState, st)) \<and>
    orders_inv (snd (cancel_perp_order_internal i caller now st))"
proof (cases "hm_get (st_orders st) i")
  case None
  then show ?thesis using inv by (simp add: cancel_perp_order_internal_def get_perp_order_def)
next
  case (Some ord)
  let ?c = "cancelled_order USER_CANCELLED SOURCE_REQUEST_VALIDATION now ord"
  have "order_ok ?c" "same_order_identity ?c ord" if "is_active (po_status ord)"
    using orders_invD(2) [OF inv Some] that by (auto simp: order_ok_def same_order_identity_def cancelled_order_def)
  then show ?thesis using inv Some replace_perp_order_inv [OF inv Some, of ?c]
    by (cases "po_status ord") (auto simp: cancel_perp_order_internal_def get_perp_order_def update_order_def Let_def cancelled_order_def is_terminal_def is_active_def)
qed


section \<open>A submission evaluated\<close>

text \<open>
  One resting sell order of 1 ETH at 3000; an immediate-or-cancel buy of 0.4 ETH with a limit of
  3100 arrives and the oracle reports 3000, one second old.
\<close>

definition ex_input :: submit_perp_order_input where
  "ex_input = \<lparr> si_account = ''0xbb'', si_subaccount_id = 1, si_market_id = ''ETH-PERP'', si_side = PerpBuy,
     si_price_1e8 = 310000000000, si_size_1e8 = 40000000, si_time_in_force = PerpIoc, si_post_only = False,
     si_reduce_only = False, si_isolated_margin_1e8 = 20000000000, si_client_order_id = None,
     si_max_execution_price_1e8 = 0, si_min_execution_price_1e8 = 0 \<rparr>"

definition ex_env :: submit_env where
  "ex_env = \<lparr> en_gate_now = 1001000, en_order_id = 7, en_now = 1001000,
     en_draws = (\<lambda>_. \<lparr> fd_taker_new = (20, 1001000), fd_taker_now = 1001000, fd_maker_new = (21, 1001000),
       fd_maker_now = 1001000, fd_fill_id = 22 \<rparr>) \<rparr>"

definition ex_read :: "backend_error + raw_price_read" where
  "ex_read = Ok \<lparr> rp_price_1e8 = 300000000000, rp_updated_at_sec = 1000, rp_ok = True \<rparr>"

abbreviation ex_submit :: "(backend_error + submit_perp_order_outcome) \<times> perp_stores" where
  "ex_submit \<equiv> submit_perp_order_internal_with_oracle ex_env enabled_in_memory_for_tests ex_read ex_input (ex_order_store, new_positions_store)"

lemma ex_submit_ready: "submit_ready ex_env (ex_order_store, new_positions_store)"
  unfolding submit_ready_def draws_fresh_def draws_distinct_def
  using ex_order_store_inv new_positions_inv
  by (simp add: ex_env_def ex_order_store_def new_positions_store_def hm_get_def)

lemma ex_submit_fills:
  "(case ex_submit of (Ok out, os, ps) \<Rightarrow> map (\<lambda>f. (pf_price_1e8 f, pf_size_1e8 f)) (sp_fills out) = [(300000000000, 40000000)]
      | _ \<Rightarrow> False)"
  by code_simp

lemma ex_submit_Ok:
  obtains out os' ps' where "ex_submit = (Ok out, os', ps')"
    "map (\<lambda>f. (pf_price_1e8 f, pf_size_1e8 f)) (sp_fills out) = [(300000000000, 40000000)]"
  using ex_submit_fills by (auto split: prod.splits sum.splits)

theorem submit_keeps_stores_witness:
  "orders_inv (fst (snd ex_submit)) \<and> positions_inv (snd (snd ex_submit))"
proof -
  obtain res os' ps' where "ex_submit = (res, os', ps')" using prod_cases3 by blast
  then show ?thesis using submit_keeps_stores [OF ex_submit_ready] by simp
qed

theorem perp_submit_priority_witness:
  "\<exists>out os' ps'. ex_submit = (Ok out, os', ps') \<and> sp_fills out \<noteq> [] \<and>
     (\<forall>f \<in> set (sp_fills out). \<exists>m \<in> set (counterparties_for ex_order_store ''ETH-PERP'' PerpBuy).
        pf_price_1e8 f = po_price_1e8 m)"
proof -
  obtain out os' ps' where ok: "ex_submit = (Ok out, os', ps')"
    "map (\<lambda>f. (pf_price_1e8 f, pf_size_1e8 f)) (sp_fills out) = [(300000000000, 40000000)]" by (rule ex_submit_Ok)
  have "si_market_id ex_input = ''ETH-PERP''" "si_side ex_input = PerpBuy" by (simp_all add: ex_input_def)
  then show ?thesis using perp_submit_priority [OF ex_submit_ready ok(1)] ok by auto
qed

theorem perp_submit_conserves_size_witness:
  "\<exists>out os' ps'. ex_submit = (Ok out, os', ps') \<and> po_remaining_size_1e8 (sp_order out) = 0"
proof -
  obtain out os' ps' where ok: "ex_submit = (Ok out, os', ps')"
    "map (\<lambda>f. (pf_price_1e8 f, pf_size_1e8 f)) (sp_fills out) = [(300000000000, 40000000)]" by (rule ex_submit_Ok)
  have "map (\<lambda>f. unat (pf_size_1e8 f)) (sp_fills out) = [40000000]" using ok(2) by auto
  moreover have "unat (si_size_1e8 ex_input) = 40000000" by (simp add: ex_input_def)
  ultimately have "unat (po_remaining_size_1e8 (sp_order out)) = 0"
    using perp_submit_conserves_size [OF ex_submit_ready ok(1)] by simp
  then show ?thesis using ok(1) by (auto simp: unat_eq_zero)
qed

theorem perp_submit_flags_witness:
  "\<exists>out os' ps'. ex_submit = (Ok out, os', ps') \<and> \<not> is_active (po_status (sp_order out))"
proof -
  obtain out os' ps' where ok: "ex_submit = (Ok out, os', ps')" by (rule ex_submit_Ok)
  moreover have "si_time_in_force ex_input = PerpIoc" by (simp add: ex_input_def)
  ultimately show ?thesis using perp_submit_flags [OF ex_submit_ready ok] by blast
qed

theorem perp_submit_balanced_witness:
  "\<exists>out os' ps'. ex_submit = (Ok out, os', ps') \<and> net_exposure ps' ''ETH-PERP'' = net_exposure new_positions_store ''ETH-PERP''"
proof -
  obtain out os' ps' where ok: "ex_submit = (Ok out, os', ps')" by (rule ex_submit_Ok)
  moreover have "room_for (2 * unat (si_size_1e8 ex_input)) new_positions_store" by (simp add: room_for_def active_at_new ex_input_def)
  ultimately show ?thesis using perp_submit_balanced [OF ex_submit_ready _ ok] by blast
qed

theorem cancel_perp_order_exact_witness:
  "snd (cancel_perp_order_internal 1 ''0xcc'' 9 ex_order_store) = ex_order_store"
proof -
  have "hm_get (st_orders ex_order_store) 1 = Some (ex_perp_order 1 PerpSell)" by (simp add: ex_order_store_def hm_get_def)
  moreover have "to_lowercase (po_account (ex_perp_order 1 PerpSell)) \<noteq> to_lowercase ''0xcc''" by code_simp
  ultimately show ?thesis using cancel_perp_order_exact [OF ex_order_store_inv, of 1 "''0xcc''" 9] by simp
qed

text \<open>
  C19: What an accepted order that may open exposure leaves behind.  The mark price was read, is
  positive and no older than the staleness limit at the gate; the fills stay within the size cap
  per order; a limit order is within the notional cap per order (a market order, whose price
  field is 0, is not held to it); and after the fills the open interest of the market is above
  its cap by at most the size just filled, since the gate counts the order once while both sides
  of a fill may open a position.
\<close>

theorem perp_submit_risk_limits:
  assumes ready: "submit_ready env (os, ps)" and room: "room_for (2 * unat (si_size_1e8 input)) ps"
    and wide: "open_interest ps (si_market_id input) + unat (si_size_1e8 input) < 2 ^ 128"
    and opens: "\<not> si_reduce_only input"
    and ok: "submit_perp_order_internal_with_oracle env cfg oracle_read input (os, ps) = (Ok out, os', ps')"
    and filled: "filled = sum_list (map (\<lambda>f. unat (pf_size_1e8 f)) (sp_fills out))"
  shows "\<exists>market r. market_by_symbol cfg (si_market_id input) = Some market \<and>
     oracle_read = Ok r \<and> rp_ok r \<and> rp_price_1e8 r \<noteq> 0 \<and>
     i64_sat (en_gate_now env - rp_updated_at_ms r) \<le> i64_sat (u64_as_i64 (pc_stale_after_sec cfg) * 1000) \<and>
     (\<forall>c. pm_max_order_size_1e8 market = Some c \<longrightarrow> filled \<le> unat (si_size_1e8 input) \<and> unat (si_size_1e8 input) \<le> unat c) \<and>
     (\<forall>c. pm_max_order_notional_1e8 market = Some c \<longrightarrow> si_price_1e8 input \<noteq> 0 \<longrightarrow>
        notional_1e8 (si_size_1e8 input) (effective_limit_price_1e8 input) \<le> c) \<and>
     (\<forall>c. pm_max_open_interest_1e8 market = Some c \<longrightarrow> open_interest ps' (si_market_id input) \<le> unat c + filled)"
proof -
  obtain market where gate: "submit_gate cfg ps (en_gate_now env) oracle_read input = Ok market"
    by (rule submit_Ok_done [OF ready ok])
  note g = submit_gate_limits [OF gate opens] and sym = submit_gate_Ok(2) [OF gate]
  note ex = submit_exposure [OF ready room ok, folded filled]
  have "open_interest ps' (si_market_id input) \<le> unat c + filled" if c: "pm_max_open_interest_1e8 market = Some c" for c
  proof -
    let ?rows = "filter (\<lambda>p. pp_status p = PosOpen \<and> pp_market_id p = pm_symbol market) (hm_values (ps_by_id ps))"
    have oi: "sum_list (map unat (map pp_size_1e8 ?rows)) = open_interest ps (si_market_id input)"
      by (simp add: open_interest_def sym)
    then have "unat (sum_list (map pp_size_1e8 ?rows)) = open_interest ps (si_market_id input)"
      using unat_sum_list_word [of "map pp_size_1e8 ?rows"] wide by simp
    moreover have "saturating_add (sum_list (map pp_size_1e8 ?rows)) (si_size_1e8 input) \<le> c" using g c by blast
    ultimately have "open_interest ps (si_market_id input) + unat (si_size_1e8 input) \<le> unat c"
      using wide by (simp add: word_le_nat_alt unat_saturating_add min_def split: if_splits)
    then show ?thesis using ex(2) [of "si_market_id input"] ex(3) by linarith
  qed
  then show ?thesis using g ex(3) by (auto simp: word_le_nat_alt)
qed

theorem perp_submit_risk_limits_witness:
  "\<exists>out os' ps'. ex_submit = (Ok out, os', ps') \<and> open_interest ps' ''ETH-PERP'' \<le> 5040000000"
proof -
  obtain out os' ps' where ok: "ex_submit = (Ok out, os', ps')"
    "map (\<lambda>f. (pf_price_1e8 f, pf_size_1e8 f)) (sp_fills out) = [(300000000000, 40000000)]" by (rule ex_submit_Ok)
  have "map (\<lambda>f. unat (pf_size_1e8 f)) (sp_fills out) = [40000000]" using ok(2) by auto
  then have "40000000 = sum_list (map (\<lambda>f. unat (pf_size_1e8 f)) (sp_fills out))" by simp
  moreover have "room_for (2 * unat (si_size_1e8 ex_input)) new_positions_store" by (simp add: room_for_def active_at_new ex_input_def)
  moreover have "si_market_id ex_input = ''ETH-PERP''"
    "open_interest new_positions_store (si_market_id ex_input) + unat (si_size_1e8 ex_input) < 2 ^ 128"
    "\<not> si_reduce_only ex_input"
    by (simp_all add: ex_input_def open_interest_def new_positions_store_def hm_values_def)
  moreover have "market_by_symbol enabled_in_memory_for_tests ''ETH-PERP'' = Some eth_perp_market" by code_simp
  moreover have "pm_max_open_interest_1e8 eth_perp_market = Some 5000000000" by (simp add: eth_perp_market_def)
  ultimately have "open_interest ps' ''ETH-PERP'' \<le> unat (5000000000 :: u128) + 40000000"
    using perp_submit_risk_limits [OF ex_submit_ready _ _ _ ok(1), of 40000000] by auto
  then show ?thesis using ok(1) by auto
qed

text \<open>
  Open interest does pass its cap: with a cap of 0.5 ETH the example order of 0.4 ETH is accepted
  on an empty market and leaves two positions of 0.4 ETH, 0.8 ETH in all.
\<close>

definition ex_low_cap :: perps_read_config where
  "ex_low_cap = enabled_in_memory_for_tests\<lparr>pc_markets := [eth_perp_market\<lparr>pm_max_open_interest_1e8 := Some 50000000\<rparr>]\<rparr>"

lemma open_interest_passes_cap:
  "case submit_perp_order_internal_with_oracle ex_env ex_low_cap ex_read ex_input (ex_order_store, new_positions_store) of
     (Ok out, os', ps') \<Rightarrow>
       sum_list (map pp_size_1e8 (filter (\<lambda>p. pp_status p = PosOpen \<and> pp_market_id p = ''ETH-PERP'') (hm_values (ps_by_id ps')))) = 80000000
   | _ \<Rightarrow> False"
  by code_simp

text \<open>
  A market order, whose limit is its execution bound and whose price field is zero, is not held to
  the notional caps: 10 ETH with a bound of one million each pass the cap of 100000.
\<close>

definition ex_market_order :: submit_perp_order_input where
  "ex_market_order = ex_input\<lparr>si_price_1e8 := 0, si_max_execution_price_1e8 := 100000000000000, si_size_1e8 := 1000000000\<rparr>"

lemma market_order_skips_notional_cap:
  "submit_gate enabled_in_memory_for_tests new_positions_store 1001000 ex_read ex_market_order = Ok eth_perp_market \<and>
   pm_max_order_notional_1e8 eth_perp_market = Some (100000 * 100000000) \<and>
   notional_1e8 (si_size_1e8 ex_market_order) (effective_limit_price_1e8 ex_market_order) > 100000 * 100000000"
  by code_simp

end
