(* ===== verification/Perp_Sweep.thy ===== *)
theory Perp_Sweep
  imports Perp_Config Perp_Positions
begin

text \<open>
  The liquidation and the funding tick have the same shape: they list the open positions once,
  sorted by id, and then treat them one after the other, each step reading and changing the store
  only at the key of its own position.  This theory states that contract as a locale and derives
  what a whole tick does, key by key, together with the list of candidates both ticks build
  (\<^verbatim>\<open>src/perps/liquidation.rs\<close> and \<^verbatim>\<open>src/perps/funding.rs\<close>).
\<close>


section \<open>Sweeps\<close>

primrec sweep :: "(nat \<Rightarrow> 'c \<Rightarrow> 's \<Rightarrow> 's) \<Rightarrow> nat \<Rightarrow> 'c list \<Rightarrow> 's \<Rightarrow> 's" where
  "sweep step n [] s = s"
| "sweep step n (c # cs) s = sweep step (Suc n) cs (step n c s)"

lemma sweep_fixed: "(\<And>n c. c \<in> set cs \<Longrightarrow> step n c s = s) \<Longrightarrow> sweep step n cs s = s"
  by (induction cs arbitrary: n) auto

lemma sweep_count:
  fixes f :: "'s \<Rightarrow> 'a::semiring_1"
  assumes "\<And>n c s. f (step n c s) = f s + (if P c then 1 else 0)"
  shows "f (sweep step n cs s) = f s + of_nat (length (filter P cs))"
  by (induction cs arbitrary: n s) (simp_all add: assms add.assoc)

text \<open>
  The candidates are entries of a view from keys to rows.  A step settles its candidate in the
  view, and does to the rest of the state what the candidate alone determines.
\<close>

locale keyed_sweep =
  fixes step :: "nat \<Rightarrow> 'c \<Rightarrow> 's \<Rightarrow> 's"
    and inv :: "'s \<Rightarrow> bool"
    and view :: "'s \<Rightarrow> 'k \<Rightarrow> 'c option"
    and rest :: "'s \<Rightarrow> 'r"
    and key :: "'c \<Rightarrow> 'k"
    and settle :: "'c \<Rightarrow> 'c option"
    and effect :: "nat \<Rightarrow> 'c \<Rightarrow> 'r \<Rightarrow> 'r"
  assumes step_inv: "inv s \<Longrightarrow> view s (key c) = Some c \<Longrightarrow> inv (step n c s)"
    and step_view: "inv s \<Longrightarrow> view s (key c) = Some c \<Longrightarrow> view (step n c s) = (view s)(key c := settle c)"
    and step_rest: "inv s \<Longrightarrow> view s (key c) = Some c \<Longrightarrow> rest (step n c s) = effect n c (rest s)"
begin

lemma sweep_settles:
  assumes "inv s" "distinct (map key cs)" "\<And>c. c \<in> set cs \<Longrightarrow> view s (key c) = Some c"
  shows "inv (sweep step n cs s) \<and> rest (sweep step n cs s) = sweep effect n cs (rest s) \<and>
    view (sweep step n cs s) k = (if k \<in> key ` set cs then Option.bind (view s k) settle else view s k)"
  using assms
proof (induction cs arbitrary: n s)
  case (Cons c cs)
  have v: "view s (key c) = Some c" using Cons.prems(3) by simp
  note st = step_inv [OF Cons.prems(1) v] step_view [OF Cons.prems(1) v] step_rest [OF Cons.prems(1) v]
  have "view (step n c s) (key d) = Some d" if "d \<in> set cs" for d
    using that Cons.prems(2,3) st(2) by (auto simp: image_iff)
  from Cons.IH [OF st(1) _ this] Cons.prems(2) show ?case using st(2,3) v by auto
qed simp

end

text \<open>A full sweep treats every eligible row of the view.\<close>

locale full_sweep = keyed_sweep +
  fixes candidates :: "'s \<Rightarrow> 'c list" and eligible :: "'c \<Rightarrow> bool"
  assumes candidates_keys: "inv s \<Longrightarrow> distinct (map key (candidates s))"
    and candidates_iff: "inv s \<Longrightarrow> c \<in> set (candidates s) \<longleftrightarrow> view s (key c) = Some c \<and> eligible c"
    and view_key: "inv s \<Longrightarrow> view s k = Some c \<Longrightarrow> key c = k"
begin

lemma full_view:
  assumes "inv s"
  shows "view (sweep step n (candidates s) s) k
     = (case view s k of None \<Rightarrow> None | Some c \<Rightarrow> if eligible c then settle c else Some c)"
proof -
  have "view s (key c) = Some c" if "c \<in> set (candidates s)" for c using that candidates_iff [OF assms] by blast
  from sweep_settles [OF assms candidates_keys [OF assms] this]
  have "view (sweep step n (candidates s) s) k
      = (if k \<in> key ` set (candidates s) then Option.bind (view s k) settle else view s k)" by blast
  moreover have "k \<in> key ` set (candidates s) \<longleftrightarrow> (\<exists>c. view s k = Some c \<and> eligible c)"
    using candidates_iff [OF assms] view_key [OF assms] by (auto simp: image_iff)
  ultimately show ?thesis by (auto split: option.splits)
qed

lemma full_rest:
  assumes "inv s"
  shows "inv (sweep step n (candidates s) s)" "rest (sweep step n (candidates s) s) = sweep effect n (candidates s) (rest s)"
proof -
  have "view s (key c) = Some c" if "c \<in> set (candidates s)" for c using that candidates_iff [OF assms] by blast
  from sweep_settles [OF assms candidates_keys [OF assms] this]
  show "inv (sweep step n (candidates s) s)" "rest (sweep step n (candidates s) s) = sweep effect n (candidates s) (rest s)"
    by blast+
qed

lemma all_settled:
  assumes "inv s" "\<And>c. eligible c \<Longrightarrow> settle c = Some c"
  shows "view (sweep step n (candidates s) s) k = view s k"
  using full_view [OF assms(1)] assms(2) by (simp split: option.splits)

end


section \<open>The candidates of a tick\<close>

definition tick_candidates :: "perps_read_config \<Rightarrow> perp_positions_store \<Rightarrow> perp_position list" where
  "tick_candidates cfg positions_store =
     sort_key pp_id
       (filter (\<lambda>p. market_by_symbol cfg (pp_market_id p) \<noteq> None)
         (filter (\<lambda>p. pp_status p = PosOpen) (hm_values (ps_by_id positions_store))))"

lemma tick_candidates_iff:
  assumes "positions_inv ps"
  shows "p \<in> set (tick_candidates cfg ps) \<longleftrightarrow> active_at ps (pp_key p) = Some p \<and> market_by_symbol cfg (pp_market_id p) \<noteq> None"
proof -
  have "hm_get (ps_by_id ps) i = Some q \<Longrightarrow> pp_id q = i" for i q
    using index_okD(1) [OF positions_index_ok [OF assms]] by blast
  moreover have "hm_ok (ps_by_id ps)" using assms by (simp add: positions_inv_def)
  ultimately show ?thesis
    unfolding active_at_iff [OF assms] by (auto simp: tick_candidates_def set_hm_values pp_is_open_def)
qed

lemma tick_candidates_keys:
  assumes "positions_inv ps"
  shows "distinct (map pp_key (tick_candidates cfg ps))"
proof -
  have "inj_on pp_key (set (tick_candidates cfg ps))"
    by (rule inj_onI) (metis tick_candidates_iff [OF assms] option.inject)
  moreover have "distinct (map pp_id (hm_values (ps_by_id ps)))"
  proof -
    have "hm_get (ps_by_id ps) i = Some q \<Longrightarrow> pp_id q = i" for i q
      using index_okD(1) [OF positions_index_ok [OF assms]] by blast
    then have "map pp_id (hm_values (ps_by_id ps)) = hm_keys (ps_by_id ps)"
      using assms by (auto simp: positions_inv_def hm_values_def hm_keys_def hm_ok_def hm_get_def)
    then show ?thesis using assms by (simp add: positions_inv_def hm_ok_def hm_keys_def)
  qed
  then have "distinct (tick_candidates cfg ps)" by (simp add: tick_candidates_def distinct_map)
  ultimately show ?thesis by (simp add: distinct_map)
qed

end
