(* ===== verification/Perp_Liquidation.thy ===== *)
theory Perp_Liquidation
  imports Perp_Sweep Perp_Execution
begin

text \<open>
  The isolated-margin liquidation engine, \<^verbatim>\<open>src/perps/liquidation.rs\<close>: evaluation of one
  position, its liquidation, the event ledger and the tick over all open positions.  The fan-out of
  lifecycle messages to subscribers is not part of the state.
\<close>


section \<open>Events and their store\<close>

datatype perp_liquidation_status = LiqCompleted | LiqPriceUnavailable

definition liquidation_status_as_str :: "perp_liquidation_status \<Rightarrow> string" where
  "liquidation_status_as_str s = (case s of LiqCompleted \<Rightarrow> ''completed'' | LiqPriceUnavailable \<Rightarrow> ''price_unavailable'')"

definition MARGIN_BREACH :: string where
  "MARGIN_BREACH = ''margin_breach''"

definition PRICE_UNAVAILABLE :: string where
  "PRICE_UNAVAILABLE = ''price_unavailable''"

record perp_liquidation_event =
  le_id :: uuid
  le_account :: account_id
  le_subaccount_id :: u32
  le_market_id :: string
  le_position_id :: uuid
  le_side :: perp_side
  le_size_1e8 :: u128
  le_entry_price_1e8 :: u128
  le_mark_price_1e8 :: u128
  le_margin_1e8 :: u128
  le_unrealized_pnl_1e8 :: i128
  le_equity_1e8 :: i128
  le_maintenance_margin_requirement_1e8 :: u128
  le_margin_ratio_bps :: u128
  le_realized_pnl_1e8 :: i128
  le_bad_debt_1e8 :: u128
  le_liquidation_fee_1e8 :: u128
  le_status :: perp_liquidation_status
  le_reason_code :: string
  le_created_at_ms :: timestamp_ms

type_synonym perp_liquidations_store = "(uuid, perp_liquidation_event) hashmap"

definition liquidations_insert :: "perp_liquidation_event \<Rightarrow> perp_liquidations_store \<Rightarrow> perp_liquidations_store" where
  "liquidations_insert event st = hm_insert (le_id event) event st"

definition liquidations_for_account :: "perp_liquidations_store \<Rightarrow> account_id \<Rightarrow> perp_liquidation_event list" where
  "liquidations_for_account st account =
     sort_key (\<lambda>e. - le_created_at_ms e)
       (filter (\<lambda>e. to_lowercase (le_account e) = to_lowercase account) (hm_values st))"

definition liquidations_for_account_and_subaccount ::
  "perp_liquidations_store \<Rightarrow> account_id \<Rightarrow> u32 \<Rightarrow> perp_liquidation_event list" where
  "liquidations_for_account_and_subaccount st account subaccount_id =
     sort_key (\<lambda>e. - le_created_at_ms e)
       (filter (\<lambda>e. to_lowercase (le_account e) = to_lowercase account \<and> le_subaccount_id e = subaccount_id) (hm_values st))"

definition liquidations_all :: "perp_liquidations_store \<Rightarrow> perp_liquidation_event list" where
  "liquidations_all st = sort_key (\<lambda>e. - le_created_at_ms e) (hm_values st)"


section \<open>The wire view\<close>

record perp_liquidation_event_view =
  lv_liquidation_id :: string
  lv_account :: string
  lv_subaccount_id :: u32
  lv_market_id :: string
  lv_position_id :: string
  lv_side :: string
  lv_size_1e8 :: string
  lv_entry_price_1e8 :: string
  lv_mark_price_1e8 :: string
  lv_margin_1e8 :: string
  lv_unrealized_pnl_1e8 :: string
  lv_equity_1e8 :: string
  lv_maintenance_margin_requirement_1e8 :: string
  lv_margin_ratio_bps :: string
  lv_realized_pnl_1e8 :: string
  lv_bad_debt_1e8 :: string
  lv_liquidation_fee_1e8 :: string
  lv_status :: string
  lv_reason_code :: string
  lv_created_at_ms :: timestamp_ms
  lv_trading_enabled :: bool

record perp_liquidation_list_response =
  ll_liquidations :: "perp_liquidation_event_view list"
  ll_chain_id :: u64
  ll_trading_enabled :: bool

record perp_liquidation_tick_response =
  lt_now_ms :: timestamp_ms
  lt_checked_count :: u32
  lt_liquidated_count :: u32
  lt_skipped_price_unavailable_count :: u32
  lt_liquidation_ids :: "string list"
  lt_chain_id :: u64
  lt_trading_enabled :: bool

text \<open>The text form of an id is that of the uuid library, an argument here.\<close>

definition build_perp_liquidation_view ::
  "(uuid \<Rightarrow> string) \<Rightarrow> perp_liquidation_event \<Rightarrow> perp_liquidation_event_view" where
  "build_perp_liquidation_view uuid_to_string e =
     \<lparr> lv_liquidation_id = uuid_to_string (le_id e), lv_account = le_account e, lv_subaccount_id = le_subaccount_id e,
       lv_market_id = le_market_id e, lv_position_id = uuid_to_string (le_position_id e),
       lv_side = perp_side_as_str (le_side e), lv_size_1e8 = decimal (unat (le_size_1e8 e)),
       lv_entry_price_1e8 = decimal (unat (le_entry_price_1e8 e)), lv_mark_price_1e8 = decimal (unat (le_mark_price_1e8 e)),
       lv_margin_1e8 = decimal (unat (le_margin_1e8 e)), lv_unrealized_pnl_1e8 = decimal_int (le_unrealized_pnl_1e8 e),
       lv_equity_1e8 = decimal_int (le_equity_1e8 e),
       lv_maintenance_margin_requirement_1e8 = decimal (unat (le_maintenance_margin_requirement_1e8 e)),
       lv_margin_ratio_bps = decimal (unat (le_margin_ratio_bps e)), lv_realized_pnl_1e8 = decimal_int (le_realized_pnl_1e8 e),
       lv_bad_debt_1e8 = decimal (unat (le_bad_debt_1e8 e)), lv_liquidation_fee_1e8 = decimal (unat (le_liquidation_fee_1e8 e)),
       lv_status = liquidation_status_as_str (le_status e), lv_reason_code = le_reason_code e,
       lv_created_at_ms = le_created_at_ms e, lv_trading_enabled = False \<rparr>"

definition list_perp_liquidations_for_account_view ::
  "(uuid \<Rightarrow> string) \<Rightarrow> perps_read_config \<Rightarrow> perp_liquidations_store \<Rightarrow> account_id \<Rightarrow> perp_liquidation_list_response" where
  "list_perp_liquidations_for_account_view uuid_to_string cfg store account =
     \<lparr> ll_liquidations = map (build_perp_liquidation_view uuid_to_string) (liquidations_for_account store account),
       ll_chain_id = pc_chain_id cfg, ll_trading_enabled = False \<rparr>"


section \<open>Evaluation and liquidation of one position\<close>

datatype liquidation_evaluation = Healthy | Liquidatable | EvalPriceUnavailable

definition evaluate_perp_liquidation ::
  "perps_read_market \<Rightarrow> perp_position \<Rightarrow> u128 option \<Rightarrow> liquidation_evaluation" where
  "evaluate_perp_liquidation market position mark_price_1e8 =
     (if pp_status position \<noteq> PosOpen then Healthy
      else case mark_price_1e8 of
             None \<Rightarrow> EvalPriceUnavailable
           | Some mark \<Rightarrow>
               let mm = maintenance_margin_requirement_1e8 (pp_size_1e8 position) mark (pm_maintenance_margin_bps market);
                   equity = equity_1e8 position mark
               in if equity \<le> u128_as_i128 mm then Liquidatable else Healthy)"

text \<open>Positions, orders and liquidation events, as one tick holds them.\<close>

type_synonym liquidation_stores = "perp_positions_store \<times> perp_order_store \<times> perp_liquidations_store"

definition liquidation_event ::
  "uuid \<Rightarrow> perps_read_market \<Rightarrow> perp_position \<Rightarrow> u128 \<Rightarrow> timestamp_ms \<Rightarrow> perp_liquidation_event" where
  "liquidation_event new_id market position mark now =
     (let mm = maintenance_margin_requirement_1e8 (pp_size_1e8 position) mark (pm_maintenance_margin_bps market);
          unrealized = unrealized_pnl_1e8 position mark;
          equity = equity_1e8 position mark;
          ratio = margin_ratio_bps position mark;
          realized = realized_pnl_1e8 (pp_entry_price_1e8 position) mark (pp_size_1e8 position) (pp_side position);
          bad_debt = (if equity < 0 then i128_as_u128 (i128_wrap (- equity)) else 0)
      in \<lparr> le_id = new_id, le_account = pp_account position, le_subaccount_id = pp_subaccount_id position,
           le_market_id = pp_market_id position, le_position_id = pp_id position, le_side = pp_side position,
           le_size_1e8 = pp_size_1e8 position, le_entry_price_1e8 = pp_entry_price_1e8 position,
           le_mark_price_1e8 = mark, le_margin_1e8 = pp_margin_1e8 position, le_unrealized_pnl_1e8 = unrealized,
           le_equity_1e8 = equity, le_maintenance_margin_requirement_1e8 = mm, le_margin_ratio_bps = ratio,
           le_realized_pnl_1e8 = realized, le_bad_debt_1e8 = bad_debt, le_liquidation_fee_1e8 = 0,
           le_status = LiqCompleted, le_reason_code = MARGIN_BREACH, le_created_at_ms = now \<rparr>)"

definition apply_liquidation ::
  "uuid \<Rightarrow> perps_read_market \<Rightarrow> perp_position \<Rightarrow> u128 \<Rightarrow> timestamp_ms \<Rightarrow> liquidation_stores
     \<Rightarrow> (backend_error + perp_liquidation_event) \<times> liquidation_stores" where
  "apply_liquidation new_id market position mark now stores =
     (case stores of (positions_store, order_store, liquidations_store) \<Rightarrow>
        let realized = realized_pnl_1e8 (pp_entry_price_1e8 position) mark (pp_size_1e8 position) (pp_side position)
        in case liquidate_active (pp_account position) (pp_subaccount_id position) (pp_market_id position) realized now positions_store of
             (Err e, positions_store') \<Rightarrow> (Err e, positions_store', order_store, liquidations_store)
           | (Ok _, positions_store') \<Rightarrow>
               let (cancelled_orders, order_store') =
                     cancel_open_orders_for_account_market (pp_account position) (pp_subaccount_id position)
                       (pp_market_id position) LIQUIDATED SOURCE_LIQUIDATION_TICK now order_store;
                   event = liquidation_event new_id market position mark now
               in (Ok event, positions_store', order_store', liquidations_insert event liquidations_store))"

definition build_price_unavailable_event :: "uuid \<Rightarrow> perp_position \<Rightarrow> timestamp_ms \<Rightarrow> perp_liquidation_event" where
  "build_price_unavailable_event new_id position now =
     \<lparr> le_id = new_id, le_account = pp_account position, le_subaccount_id = pp_subaccount_id position,
       le_market_id = pp_market_id position, le_position_id = pp_id position, le_side = pp_side position,
       le_size_1e8 = pp_size_1e8 position, le_entry_price_1e8 = pp_entry_price_1e8 position,
       le_mark_price_1e8 = 0, le_margin_1e8 = pp_margin_1e8 position, le_unrealized_pnl_1e8 = 0,
       le_equity_1e8 = u128_as_i128 (pp_margin_1e8 position), le_maintenance_margin_requirement_1e8 = 0,
       le_margin_ratio_bps = 0, le_realized_pnl_1e8 = 0, le_bad_debt_1e8 = 0, le_liquidation_fee_1e8 = 0,
       le_status = LiqPriceUnavailable, le_reason_code = PRICE_UNAVAILABLE, le_created_at_ms = now \<rparr>"

definition liquidate_perp_position_internal ::
  "perps_read_config \<Rightarrow> uuid \<Rightarrow> account_id \<Rightarrow> u32 \<Rightarrow> string \<Rightarrow> u128 option \<Rightarrow> timestamp_ms \<Rightarrow> liquidation_stores
     \<Rightarrow> (backend_error + perp_liquidation_event option) \<times> liquidation_stores" where
  "liquidate_perp_position_internal cfg new_id account subaccount_id market_id mark_price_1e8 now stores =
     (case market_by_symbol cfg market_id of
        None \<Rightarrow> (Err (PerpsMarketNotFound market_id), stores)
      | Some market \<Rightarrow>
          (case stores of (positions_store, order_store, liquidations_store) \<Rightarrow>
             case get_active positions_store account subaccount_id market_id of
               None \<Rightarrow> (Ok None, stores)
             | Some position \<Rightarrow>
                 (case evaluate_perp_liquidation market position mark_price_1e8 of
                    Healthy \<Rightarrow> (Ok None, stores)
                  | EvalPriceUnavailable \<Rightarrow>
                      let event = build_price_unavailable_event new_id position now
                      in (Ok (Some event), positions_store, order_store, liquidations_insert event liquidations_store)
                  | Liquidatable \<Rightarrow>
                      (case apply_liquidation new_id market position (the mark_price_1e8) now stores of
                         (Err e, stores') \<Rightarrow> (Err e, stores')
                       | (Ok event, stores') \<Rightarrow> (Ok (Some event), stores')))))"


section \<open>The tick\<close>

type_synonym mark_prices = "(string, u128 option) hashmap"

definition mark_of_read :: "perps_read_config \<Rightarrow> timestamp_ms \<Rightarrow> backend_error + raw_price_read \<Rightarrow> u128 option" where
  "mark_of_read cfg now read =
     (case read of
        Ok read \<Rightarrow>
          if rp_ok read \<and> rp_price_1e8 read > 0
          then (let stale_after_ms = i64_sat (u64_as_i64 (pc_stale_after_sec cfg) * 1000);
                    updated_ms = rp_updated_at_ms read
                in if updated_ms = 0 \<or> i64_sat (now - updated_ms) > stale_after_ms then None
                   else Some (rp_price_1e8 read))
          else None
      | Err _ \<Rightarrow> None)"

definition prefetch_mark_prices ::
  "perps_read_config \<Rightarrow> (perps_read_market \<Rightarrow> backend_error + raw_price_read) \<Rightarrow> timestamp_ms \<Rightarrow> mark_prices" where
  "prefetch_mark_prices cfg read_price now =
     fold (\<lambda>market marks. hm_insert (pm_symbol market) (mark_of_read cfg now (read_price market)) marks) (pc_markets cfg) []"

definition mark_for :: "mark_prices \<Rightarrow> string \<Rightarrow> u128 option" where
  "mark_for marks market_id = (case hm_get marks market_id of Some mark \<Rightarrow> mark | None \<Rightarrow> None)"

definition count_event ::
  "(uuid \<Rightarrow> string) \<Rightarrow> perp_liquidation_event \<Rightarrow> perp_liquidation_tick_response \<Rightarrow> perp_liquidation_tick_response" where
  "count_event uuid_to_string event r =
     (case le_status event of
        LiqCompleted \<Rightarrow> r\<lparr>lt_liquidated_count := lt_liquidated_count r + 1,
                          lt_liquidation_ids := lt_liquidation_ids r @ [uuid_to_string (le_id event)]\<rparr>
      | LiqPriceUnavailable \<Rightarrow> r\<lparr>lt_skipped_price_unavailable_count := lt_skipped_price_unavailable_count r + 1,
                          lt_liquidation_ids := lt_liquidation_ids r @ [uuid_to_string (le_id event)]\<rparr>)"

text \<open>The loop over the candidates; the \<open>n\<close>-th candidate draws the id \<open>ids n\<close> should it need one.\<close>

fun liquidation_loop ::
  "(uuid \<Rightarrow> string) \<Rightarrow> perps_read_config \<Rightarrow> (nat \<Rightarrow> uuid) \<Rightarrow> mark_prices \<Rightarrow> timestamp_ms \<Rightarrow> nat \<Rightarrow> perp_position list
     \<Rightarrow> perp_liquidation_tick_response \<Rightarrow> liquidation_stores
     \<Rightarrow> (backend_error + perp_liquidation_tick_response) \<times> liquidation_stores" where
  "liquidation_loop uuid_to_string cfg ids marks now n [] r stores = (Ok r, stores)"
| "liquidation_loop uuid_to_string cfg ids marks now n (candidate # candidates) r stores =
     (let r' = r\<lparr>lt_checked_count := lt_checked_count r + 1\<rparr>;
          mark = mark_for marks (pp_market_id candidate)
      in case liquidate_perp_position_internal cfg (ids n) (pp_account candidate) (pp_subaccount_id candidate)
                (pp_market_id candidate) mark now stores of
           (Err e, stores') \<Rightarrow> (Err e, stores')
         | (Ok None, stores') \<Rightarrow> liquidation_loop uuid_to_string cfg ids marks now (Suc n) candidates r' stores'
         | (Ok (Some event), stores') \<Rightarrow>
             liquidation_loop uuid_to_string cfg ids marks now (Suc n) candidates (count_event uuid_to_string event r') stores')"

definition liquidation_response :: "perps_read_config \<Rightarrow> timestamp_ms \<Rightarrow> perp_liquidation_tick_response" where
  "liquidation_response cfg now =
     \<lparr> lt_now_ms = now, lt_checked_count = 0, lt_liquidated_count = 0, lt_skipped_price_unavailable_count = 0,
       lt_liquidation_ids = [], lt_chain_id = pc_chain_id cfg, lt_trading_enabled = False \<rparr>"

definition run_perp_liquidation_tick ::
  "(uuid \<Rightarrow> string) \<Rightarrow> perps_read_config \<Rightarrow> (nat \<Rightarrow> uuid) \<Rightarrow> mark_prices \<Rightarrow> timestamp_ms \<Rightarrow> liquidation_stores
     \<Rightarrow> (backend_error + perp_liquidation_tick_response) \<times> liquidation_stores" where
  "run_perp_liquidation_tick uuid_to_string cfg ids marks now stores =
     liquidation_loop uuid_to_string cfg ids marks now 0 (tick_candidates cfg (fst stores)) (liquidation_response cfg now) stores"


section \<open>The tick as a sweep\<close>

definition liquidation_step ::
  "(uuid \<Rightarrow> string) \<Rightarrow> perps_read_config \<Rightarrow> (nat \<Rightarrow> uuid) \<Rightarrow> mark_prices \<Rightarrow> timestamp_ms \<Rightarrow> nat \<Rightarrow> perp_position
     \<Rightarrow> perp_liquidation_tick_response \<times> liquidation_stores \<Rightarrow> perp_liquidation_tick_response \<times> liquidation_stores" where
  "liquidation_step uuid_to_string cfg ids marks now n candidate s =
     (case s of (r, stores) \<Rightarrow>
        let r' = r\<lparr>lt_checked_count := lt_checked_count r + 1\<rparr>
        in case liquidate_perp_position_internal cfg (ids n) (pp_account candidate) (pp_subaccount_id candidate)
                (pp_market_id candidate) (mark_for marks (pp_market_id candidate)) now stores of
             (Ok (Some event), stores') \<Rightarrow> (count_event uuid_to_string event r', stores')
           | (_, stores') \<Rightarrow> (r', stores'))"

text \<open>What the tick decides about a candidate, from the row alone.\<close>

definition liquidation_verdict :: "perps_read_config \<Rightarrow> mark_prices \<Rightarrow> perp_position \<Rightarrow> liquidation_evaluation" where
  "liquidation_verdict cfg marks p =
     (case market_by_symbol cfg (pp_market_id p) of
        None \<Rightarrow> Healthy
      | Some market \<Rightarrow> evaluate_perp_liquidation market p (mark_for marks (pp_market_id p)))"

definition liquidation_settle :: "perps_read_config \<Rightarrow> mark_prices \<Rightarrow> perp_position \<Rightarrow> perp_position option" where
  "liquidation_settle cfg marks p = (if liquidation_verdict cfg marks p = Liquidatable then None else Some p)"

definition liquidation_effect ::
  "(uuid \<Rightarrow> string) \<Rightarrow> perps_read_config \<Rightarrow> (nat \<Rightarrow> uuid) \<Rightarrow> mark_prices \<Rightarrow> timestamp_ms \<Rightarrow> nat \<Rightarrow> perp_position
     \<Rightarrow> perp_liquidation_tick_response \<times> perp_order_store \<times> perp_liquidations_store
     \<Rightarrow> perp_liquidation_tick_response \<times> perp_order_store \<times> perp_liquidations_store" where
  "liquidation_effect uuid_to_string cfg ids marks now n p s =
     (case s of (r, os, ls) \<Rightarrow>
        let r' = r\<lparr>lt_checked_count := lt_checked_count r + 1\<rparr>;
            market = the (market_by_symbol cfg (pp_market_id p));
            breach = liquidation_event (ids n) market p (the (mark_for marks (pp_market_id p))) now;
            blind = build_price_unavailable_event (ids n) p now
        in case liquidation_verdict cfg marks p of
             Healthy \<Rightarrow> (r', os, ls)
           | EvalPriceUnavailable \<Rightarrow> (count_event uuid_to_string blind r', os, liquidations_insert blind ls)
           | Liquidatable \<Rightarrow> (count_event uuid_to_string breach r',
               snd (cancel_open_orders_for_account_market (pp_account p) (pp_subaccount_id p) (pp_market_id p)
                      LIQUIDATED SOURCE_LIQUIDATION_TICK now os),
               liquidations_insert breach ls))"

definition liquidation_inv :: "perp_liquidation_tick_response \<times> liquidation_stores \<Rightarrow> bool" where
  "liquidation_inv s = (positions_inv (fst (snd s)) \<and> orders_inv (fst (snd (snd s))))"

definition liquidation_rest ::
  "perp_liquidation_tick_response \<times> liquidation_stores \<Rightarrow> perp_liquidation_tick_response \<times> perp_order_store \<times> perp_liquidations_store" where
  "liquidation_rest s = (fst s, snd (snd s))"

lemma liquidate_one_cases:
  fixes i marks now os ls
  assumes act: "active_at ps (pp_key p) = Some p" and m: "market_by_symbol cfg (pp_market_id p) = Some market"
    and inv: "positions_inv ps"
  defines "step \<equiv> liquidate_perp_position_internal cfg i (pp_account p) (pp_subaccount_id p) (pp_market_id p)
      (mark_for marks (pp_market_id p)) now (ps, os, ls)"
  shows "liquidation_verdict cfg marks p = Healthy \<Longrightarrow> step = (Ok None, ps, os, ls)"
    "liquidation_verdict cfg marks p = EvalPriceUnavailable \<Longrightarrow>
       step = (Ok (Some (build_price_unavailable_event i p now)), ps, os, liquidations_insert (build_price_unavailable_event i p now) ls)"
    "liquidation_verdict cfg marks p = Liquidatable \<Longrightarrow> \<exists>ps'.
       step = (Ok (Some (liquidation_event i market p (the (mark_for marks (pp_market_id p))) now)), ps',
         snd (cancel_open_orders_for_account_market (pp_account p) (pp_subaccount_id p) (pp_market_id p) LIQUIDATED SOURCE_LIQUIDATION_TICK now os),
         liquidations_insert (liquidation_event i market p (the (mark_for marks (pp_market_id p))) now) ls) \<and>
       positions_inv ps' \<and> active_at ps' = (active_at ps)(pp_key p := None)"
proof -
  have g: "get_active ps (pp_account p) (pp_subaccount_id p) (pp_market_id p) = Some p"
    using act by (simp add: get_active_at pp_key_def)
  have v: "liquidation_verdict cfg marks p = evaluate_perp_liquidation market p (mark_for marks (pp_market_id p))"
    by (simp add: liquidation_verdict_def m)
  show "liquidation_verdict cfg marks p = Healthy \<Longrightarrow> step = (Ok None, ps, os, ls)"
    by (simp add: step_def liquidate_perp_position_internal_def m g v)
  show "liquidation_verdict cfg marks p = EvalPriceUnavailable \<Longrightarrow>
       step = (Ok (Some (build_price_unavailable_event i p now)), ps, os, liquidations_insert (build_price_unavailable_event i p now) ls)"
    by (simp add: step_def liquidate_perp_position_internal_def m g v Let_def)
  let ?mark = "the (mark_for marks (pp_market_id p))"
  let ?d = "realized_pnl_1e8 (pp_entry_price_1e8 p) ?mark (pp_size_1e8 p) (pp_side p)"
  have k: "pp_key p = index_key (pp_account p) (pp_subaccount_id p) (pp_market_id p)" by (simp add: pp_key_def)
  note l = liquidate_active_Some [OF inv act [unfolded k], where d = ?d and now = now]
  assume "liquidation_verdict cfg marks p = Liquidatable"
  then show "\<exists>ps'. step = (Ok (Some (liquidation_event i market p ?mark now)), ps',
         snd (cancel_open_orders_for_account_market (pp_account p) (pp_subaccount_id p) (pp_market_id p) LIQUIDATED SOURCE_LIQUIDATION_TICK now os),
         liquidations_insert (liquidation_event i market p ?mark now) ls) \<and>
       positions_inv ps' \<and> active_at ps' = (active_at ps)(pp_key p := None)"
    using l unfolding k
    by (cases "liquidate_active (pp_account p) (pp_subaccount_id p) (pp_market_id p) ?d now ps")
       (simp add: step_def liquidate_perp_position_internal_def m g v apply_liquidation_def Let_def case_prod_beta)
qed

lemma liquidation_step_effect:
  assumes inv: "liquidation_inv s" and act: "active_at (fst (snd s)) (pp_key p) = Some p"
  shows "liquidation_inv (liquidation_step u cfg ids marks now n p s)"
    "active_at (fst (snd (liquidation_step u cfg ids marks now n p s))) = (active_at (fst (snd s)))(pp_key p := liquidation_settle cfg marks p)"
    "liquidation_rest (liquidation_step u cfg ids marks now n p s) = liquidation_effect u cfg ids marks now n p (liquidation_rest s)"
proof -
  obtain r ps os ls where s: "s = (r, ps, os, ls)" using prod_cases4 by blast
  have i: "positions_inv ps" "orders_inv os" and a: "active_at ps (pp_key p) = Some p"
    using inv act by (simp_all add: s liquidation_inv_def)
  note co = cancel_open_orders_get(4) [OF i(2), of "pp_account p" "pp_subaccount_id p" "pp_market_id p" LIQUIDATED SOURCE_LIQUIDATION_TICK now]
  have "liquidation_inv (liquidation_step u cfg ids marks now n p s) \<and>
    active_at (fst (snd (liquidation_step u cfg ids marks now n p s))) = (active_at (fst (snd s)))(pp_key p := liquidation_settle cfg marks p) \<and>
    liquidation_rest (liquidation_step u cfg ids marks now n p s) = liquidation_effect u cfg ids marks now n p (liquidation_rest s)"
  proof (cases "market_by_symbol cfg (pp_market_id p)")
    case None
    then show ?thesis using i a
      by (auto simp: s liquidation_step_def liquidate_perp_position_internal_def liquidation_settle_def liquidation_verdict_def
          liquidation_rest_def liquidation_effect_def liquidation_inv_def Let_def)
  next
    case (Some market)
    note c = liquidate_one_cases [OF a Some i(1), where i = "ids n" and marks = marks and now = now and os = os and ls = ls]
    show ?thesis
    proof (cases "liquidation_verdict cfg marks p")
      case Liquidatable
      from c(3) [OF this] obtain ps' where "liquidate_perp_position_internal cfg (ids n) (pp_account p) (pp_subaccount_id p) (pp_market_id p)
          (mark_for marks (pp_market_id p)) now (ps, os, ls) =
         (Ok (Some (liquidation_event (ids n) market p (the (mark_for marks (pp_market_id p))) now)), ps',
         snd (cancel_open_orders_for_account_market (pp_account p) (pp_subaccount_id p) (pp_market_id p) LIQUIDATED SOURCE_LIQUIDATION_TICK now os),
         liquidations_insert (liquidation_event (ids n) market p (the (mark_for marks (pp_market_id p))) now) ls)"
        "positions_inv ps'" "active_at ps' = (active_at ps)(pp_key p := None)" by blast
      then show ?thesis using Liquidatable Some co
        by (simp add: s liquidation_step_def liquidation_settle_def liquidation_rest_def liquidation_effect_def liquidation_inv_def Let_def)
    qed (use c i a Some in \<open>auto simp: s liquidation_step_def liquidation_settle_def liquidation_rest_def
        liquidation_effect_def liquidation_inv_def Let_def\<close>)
  qed
  then show "liquidation_inv (liquidation_step u cfg ids marks now n p s)"
    "active_at (fst (snd (liquidation_step u cfg ids marks now n p s))) = (active_at (fst (snd s)))(pp_key p := liquidation_settle cfg marks p)"
    "liquidation_rest (liquidation_step u cfg ids marks now n p s) = liquidation_effect u cfg ids marks now n p (liquidation_rest s)"
    by blast+
qed

interpretation liq: full_sweep "liquidation_step u cfg ids marks now" liquidation_inv "\<lambda>s. active_at (fst (snd s))" liquidation_rest
  pp_key "liquidation_settle cfg marks" "liquidation_effect u cfg ids marks now" "\<lambda>s. tick_candidates cfg (fst (snd s))"
  "\<lambda>p. market_by_symbol cfg (pp_market_id p) \<noteq> None"
  for u cfg ids marks now
  by unfold_locales
    (use liquidation_step_effect tick_candidates_iff tick_candidates_keys active_at_SomeD(4) in \<open>auto simp: liquidation_inv_def\<close>)

lemma liquidation_loop_sweep:
  assumes "liquidation_inv (r, stores)" "distinct (map pp_key cs)"
    "\<And>c. c \<in> set cs \<Longrightarrow> active_at (fst stores) (pp_key c) = Some c \<and> market_by_symbol cfg (pp_market_id c) \<noteq> None"
  shows "liquidation_loop u cfg ids marks now n cs r stores
     = (let s = sweep (liquidation_step u cfg ids marks now) n cs (r, stores) in (Ok (fst s), snd s))"
  using assms
proof (induction cs arbitrary: n r stores)
  case (Cons c cs)
  obtain ps os ls where s: "stores = (ps, os, ls)" using prod_cases3 by blast
  obtain market where m: "market_by_symbol cfg (pp_market_id c) = Some market" using Cons.prems(3) [of c] by auto
  have a: "active_at ps (pp_key c) = Some c" using Cons.prems(3) [of c] by (simp add: s)
  have i: "positions_inv ps" using Cons.prems(1) by (simp add: s liquidation_inv_def)
  let ?s = "liquidation_step u cfg ids marks now n c (r, stores)"
  have step: "liquidation_loop u cfg ids marks now n (c # cs) r stores = liquidation_loop u cfg ids marks now (Suc n) cs (fst ?s) (snd ?s)"
    using liquidate_one_cases [OF a m i, where i = "ids n" and marks = marks and now = now and os = os and ls = ls]
    by (cases "liquidation_verdict cfg marks c") (auto simp: s liquidation_step_def Let_def)
  have inv: "liquidation_inv (fst ?s, snd ?s)" using liq.step_inv [OF Cons.prems(1)] a by (simp add: s)
  have "active_at (fst (snd ?s)) (pp_key d) = Some d \<and> market_by_symbol cfg (pp_market_id d) \<noteq> None" if "d \<in> set cs" for d
    using that Cons.prems(2,3) liq.step_view [OF Cons.prems(1), of c] a by (auto simp: s image_iff)
  from Cons.IH [OF inv _ this, of "Suc n"] Cons.prems(2) show ?case by (simp add: step del: liquidation_loop.simps)
qed simp

lemma run_tick_sweep:
  assumes "positions_inv ps" "orders_inv os"
  shows "run_perp_liquidation_tick u cfg ids marks now (ps, os, ls)
     = (let s = sweep (liquidation_step u cfg ids marks now) 0 (tick_candidates cfg ps) (liquidation_response cfg now, ps, os, ls)
        in (Ok (fst s), snd s))"
  unfolding run_perp_liquidation_tick_def
  by (subst liquidation_loop_sweep)
     (use assms tick_candidates_iff tick_candidates_keys in \<open>auto simp: liquidation_inv_def\<close>)

lemma liquidation_effect_orders:
  fixes u cfg ids marks now n cs r ls
  assumes "orders_inv os"
  defines "os' \<equiv> fst (snd (sweep (liquidation_effect u cfg ids marks now) n cs (r, os, ls)))"
  shows "orders_inv os' \<and> st_fills os' = st_fills os \<and>
     hm_get (st_orders os') i = map_option (\<lambda>ord.
       if \<exists>p \<in> set cs. liquidation_verdict cfg marks p = Liquidatable \<and>
            account_market_order (pp_account p) (pp_subaccount_id p) (pp_market_id p) ord
       then cancelled_order LIQUIDATED SOURCE_LIQUIDATION_TICK now ord else ord) (hm_get (st_orders os) i)"
  using assms(1) unfolding os'_def
proof (induction cs arbitrary: n r os ls)
  case (Cons c cs)
  let ?s = "liquidation_effect u cfg ids marks now n c (r, os, ls)"
  have s: "?s = (fst ?s, fst (snd ?s), snd (snd ?s))" by simp
  have one: "orders_inv (fst (snd ?s)) \<and> st_fills (fst (snd ?s)) = st_fills os \<and>
     hm_get (st_orders (fst (snd ?s))) i = map_option (\<lambda>ord.
       if liquidation_verdict cfg marks c = Liquidatable \<and>
            account_market_order (pp_account c) (pp_subaccount_id c) (pp_market_id c) ord
       then cancelled_order LIQUIDATED SOURCE_LIQUIDATION_TICK now ord else ord) (hm_get (st_orders os) i)"
    using cancel_open_orders_get [OF Cons.prems, of "pp_account c" "pp_subaccount_id c" "pp_market_id c" LIQUIDATED SOURCE_LIQUIDATION_TICK now] Cons.prems
    by (cases "liquidation_verdict cfg marks c") (simp_all add: liquidation_effect_def Let_def option.map_ident)
  have dead: "\<not> account_market_order a sb m (cancelled_order LIQUIDATED SOURCE_LIQUIDATION_TICK now ord)" for a sb m ord
    by (simp add: account_market_order_def cancelled_order_def is_active_def)
  from Cons.IH [of "fst (snd ?s)" "Suc n" "fst ?s" "snd (snd ?s)", folded s] one show ?case
    by (cases "hm_get (st_orders os) i") (auto simp: dead)
qed (simp add: option.map_ident)

text \<open>The event the tick records for a candidate.\<close>

definition tick_event ::
  "perps_read_config \<Rightarrow> mark_prices \<Rightarrow> timestamp_ms \<Rightarrow> uuid \<Rightarrow> perp_position \<Rightarrow> perp_liquidation_event option" where
  "tick_event cfg marks now i p =
     (case liquidation_verdict cfg marks p of
        Healthy \<Rightarrow> None
      | EvalPriceUnavailable \<Rightarrow> Some (build_price_unavailable_event i p now)
      | Liquidatable \<Rightarrow> Some (liquidation_event i (the (market_by_symbol cfg (pp_market_id p))) p
          (the (mark_for marks (pp_market_id p))) now))"

lemma event_ids [simp]:
  "le_id (liquidation_event i m p k t) = i" "le_id (build_price_unavailable_event i p t) = i"
  "le_status (liquidation_event i m p k t) = LiqCompleted" "le_status (build_price_unavailable_event i p t) = LiqPriceUnavailable"
  by (simp_all add: liquidation_event_def build_price_unavailable_event_def Let_def)

lemma effect_ledger:
  "snd (snd (liquidation_effect u cfg ids marks now n p s))
     = (case tick_event cfg marks now (ids n) p of None \<Rightarrow> snd (snd s) | Some e \<Rightarrow> hm_insert (ids n) e (snd (snd s)))"
  by (cases s; cases "liquidation_verdict cfg marks p")
     (simp_all add: liquidation_effect_def tick_event_def liquidations_insert_def Let_def)

lemma effect_counts:
  "lt_checked_count (fst (liquidation_effect u cfg ids marks now n p s)) = lt_checked_count (fst s) + (if True then 1 else 0)"
  "lt_liquidated_count (fst (liquidation_effect u cfg ids marks now n p s))
     = lt_liquidated_count (fst s) + (if liquidation_verdict cfg marks p = Liquidatable then 1 else 0)"
  by (cases s; cases "liquidation_verdict cfg marks p"; simp add: liquidation_effect_def count_event_def Let_def)+

lemma sweep_ledger_other:
  "x \<notin> ids ` {n..<n + length cs} \<Longrightarrow>
     hm_get (snd (snd (sweep (liquidation_effect u cfg ids marks now) n cs s))) x = hm_get (snd (snd s)) x"
proof (induction cs arbitrary: n s)
  case (Cons c cs)
  have "x \<noteq> ids n" "x \<notin> ids ` {Suc n..<Suc n + length cs}" using Cons.prems by auto
  then show ?case using Cons.IH [of "Suc n"] by (simp add: effect_ledger split: option.splits)
qed simp

lemma sweep_ledger:
  assumes "inj_on ids {n..<n + length cs}" "j < length cs" "tick_event cfg marks now (ids (n + j)) (cs ! j) = Some e"
  shows "hm_get (snd (snd (sweep (liquidation_effect u cfg ids marks now) n cs s))) (ids (n + j)) = Some e"
  using assms
proof (induction cs arbitrary: n j s)
  case (Cons c cs)
  show ?case
  proof (cases j)
    case 0
    have "ids n \<notin> ids ` {Suc n..<Suc n + length cs}" using inj_onD [OF Cons.prems(1), of n] by force
    then show ?thesis using Cons.prems(3) by (simp add: 0 sweep_ledger_other effect_ledger)
  next
    case (Suc j')
    have "inj_on ids {Suc n..<Suc n + length cs}" by (rule inj_on_subset [OF Cons.prems(1)]) auto
    from Cons.IH [OF this, of j'] show ?thesis using Cons.prems(2,3) by (simp add: Suc)
  qed
qed simp


section \<open>Properties\<close>

text \<open>A position falls short of its maintenance margin at a known mark of its configured market.\<close>

definition under_margin :: "perps_read_config \<Rightarrow> mark_prices \<Rightarrow> perp_position \<Rightarrow> bool" where
  "under_margin cfg marks p =
     (\<exists>m mark. market_by_symbol cfg (pp_market_id p) = Some m \<and> mark_for marks (pp_market_id p) = Some mark \<and>
        equity_1e8 p mark \<le> u128_as_i128 (maintenance_margin_requirement_1e8 (pp_size_1e8 p) mark (pm_maintenance_margin_bps m)))"

lemma verdict_iff:
  "pp_is_open p \<Longrightarrow> liquidation_verdict cfg marks p = Liquidatable \<longleftrightarrow> under_margin cfg marks p"
  by (auto simp: liquidation_verdict_def under_margin_def evaluate_perp_liquidation_def pp_is_open_def Let_def split: option.splits)

lemma candidate_verdict:
  assumes "positions_inv ps" "p \<in> set (tick_candidates cfg ps)"
  shows "liquidation_verdict cfg marks p = Liquidatable \<longleftrightarrow> under_margin cfg marks p"
  by (rule verdict_iff) (use assms tick_candidates_iff active_at_SomeD(3) in blast)

lemma settle_open:
  "pp_is_open p \<Longrightarrow> liquidation_settle cfg marks p = (if under_margin cfg marks p then None else Some p)"
  using verdict_iff [of p cfg marks] by (simp add: liquidation_settle_def)

lemma tick_view:
  assumes "positions_inv ps" "orders_inv os"
  shows "active_at (fst (snd (sweep (liquidation_step u cfg ids marks now) n (tick_candidates cfg ps) (r, ps, os, ls)))) k
     = (case active_at ps k of None \<Rightarrow> None | Some p \<Rightarrow> if under_margin cfg marks p then None else Some p)"
proof -
  have inv: "liquidation_inv (r, ps, os, ls)" using assms by (simp add: liquidation_inv_def)
  have "active_at (fst (snd (sweep (liquidation_step u cfg ids marks now) n (tick_candidates cfg ps) (r, ps, os, ls)))) k
     = (case active_at ps k of None \<Rightarrow> None | Some p \<Rightarrow> if market_by_symbol cfg (pp_market_id p) \<noteq> None then liquidation_settle cfg marks p else Some p)"
    using liq.full_view [OF inv] by simp
  moreover have "under_margin cfg marks p \<Longrightarrow> market_by_symbol cfg (pp_market_id p) \<noteq> None" for p by (auto simp: under_margin_def)
  ultimately show ?thesis using settle_open active_at_SomeD(3) [OF assms(1)] by (auto split: option.splits)
qed

text \<open>
  C21: The liquidation tick always completes and is exact: afterwards the open positions are those
  that were open before and are not below their maintenance margin at the given marks, unchanged;
  the live orders of each liquidated account, subaccount and market are cancelled with the reason
  liquidated, and no other order changes.
\<close>

theorem liquidation_tick_exact:
  assumes "positions_inv ps" "orders_inv os"
  shows "\<exists>r ps' os' ls'. run_perp_liquidation_tick u cfg ids marks now (ps, os, ls) = (Ok r, ps', os', ls') \<and>
     positions_inv ps' \<and> orders_inv os' \<and> st_fills os' = st_fills os \<and>
     (\<forall>k. active_at ps' k = (case active_at ps k of None \<Rightarrow> None | Some p \<Rightarrow> if under_margin cfg marks p then None else Some p)) \<and>
     (\<forall>i. hm_get (st_orders os') i = map_option (\<lambda>ord.
        if \<exists>p. active_at ps (pp_key p) = Some p \<and> under_margin cfg marks p \<and>
             account_market_order (pp_account p) (pp_subaccount_id p) (pp_market_id p) ord
        then cancelled_order LIQUIDATED SOURCE_LIQUIDATION_TICK now ord else ord) (hm_get (st_orders os) i))"
proof -
  let ?r = "liquidation_response cfg now" and ?cs = "tick_candidates cfg ps"
  have inv: "liquidation_inv (?r, ps, os, ls)" using assms by (simp add: liquidation_inv_def)
  obtain r ps' os' ls' where s: "sweep (liquidation_step u cfg ids marks now) 0 ?cs (?r, ps, os, ls) = (r, ps', os', ls')"
    using prod_cases4 by blast
  note rest = liq.full_rest [OF inv, of u cfg ids marks now 0, unfolded fst_conv snd_conv s, unfolded liquidation_rest_def fst_conv snd_conv]
  have eff: "os' = fst (snd (sweep (liquidation_effect u cfg ids marks now) 0 ?cs (?r, os, ls)))" using rest(2) by (metis fst_conv snd_conv)
  have cand: "(\<exists>p \<in> set ?cs. liquidation_verdict cfg marks p = Liquidatable \<and> Q p) \<longleftrightarrow>
      (\<exists>p. active_at ps (pp_key p) = Some p \<and> under_margin cfg marks p \<and> Q p)" for Q
    using tick_candidates_iff [OF assms(1)] verdict_iff active_at_SomeD(3) [OF assms(1)] unfolding Bex_def
    by (metis option.discI under_margin_def)
  show ?thesis
    using run_tick_sweep [OF assms, of u cfg ids marks now ls] rest(1) tick_view [OF assms, of u cfg ids marks now 0 ?r ls]
      liquidation_effect_orders [OF assms(2), of u cfg ids marks now 0 ?cs ?r ls, folded eff] s
    by (intro exI [of _ r] exI [of _ ps'] exI [of _ os'] exI [of _ ls']) (simp add: liquidation_inv_def cand)
qed

text \<open>
  C22: The tick is idempotent: a second tick at the same marks finds nothing more to liquidate and
  leaves positions and orders exactly as they are.
\<close>

theorem liquidation_tick_idempotent:
  assumes "positions_inv ps" "orders_inv os"
    and "run_perp_liquidation_tick u cfg ids marks now (ps, os, ls) = (Ok r, ps', os', ls')"
  shows "\<exists>r' ls''. run_perp_liquidation_tick u cfg ids' marks now' (ps', os', ls') = (Ok r', ps', os', ls'') \<and> lt_liquidated_count r' = 0"
proof -
  let ?r = "liquidation_response cfg now"
  have s: "sweep (liquidation_step u cfg ids marks now) 0 (tick_candidates cfg ps) (?r, ps, os, ls) = (r, ps', os', ls')"
    using run_tick_sweep [OF assms(1,2)] assms(3) by (metis (no_types, lifting) Inr_inject Pair_inject prod.collapse)
  have inv: "positions_inv ps'" "orders_inv os'"
    using liq.full_rest(1) [of "(?r, ps, os, ls)" u cfg ids marks now 0] assms(1,2) s by (simp_all add: liquidation_inv_def)
  have ok: "liquidation_verdict cfg marks p \<noteq> Liquidatable" if "p \<in> set (tick_candidates cfg ps')" for p
    using that tick_candidates_iff [OF inv(1)] tick_view [OF assms(1,2), of u cfg ids marks now 0 ?r ls "pp_key p"] s
      verdict_iff [of p] active_at_SomeD(3) [OF inv(1)]
    by (auto split: option.splits if_splits)
  have "fst (snd t) = ps' \<and> fst (snd (snd t)) = os' \<and> lt_liquidated_count (fst t) = 0"
    if "set cs \<subseteq> set (tick_candidates cfg ps')" "t = sweep (liquidation_step u cfg ids' marks now') n cs (rq, ps', os', lq)"
      "lt_liquidated_count rq = 0" for t cs n rq lq
    using that
  proof (induction cs arbitrary: n rq lq)
    case (Cons c cs)
    have c: "c \<in> set (tick_candidates cfg ps')" using Cons.prems(1) by simp
    then obtain m where m: "market_by_symbol cfg (pp_market_id c) = Some m" and a: "active_at ps' (pp_key c) = Some c"
      using tick_candidates_iff [OF inv(1)] by auto
    obtain r1 l1 where "liquidation_step u cfg ids' marks now' n c (rq, ps', os', lq) = (r1, ps', os', l1)" "lt_liquidated_count r1 = 0"
      using liquidate_one_cases [OF a m inv(1), where i = "ids' n" and marks = marks and now = now' and os = os' and ls = lq] ok [OF c] Cons.prems(3)
      by (cases "liquidation_verdict cfg marks c")
         (auto simp: liquidation_step_def Let_def count_event_def build_price_unavailable_event_def)
    then show ?case using Cons by simp
  qed simp
  from this [OF subset_refl refl, where n = 0 and rq = "liquidation_response cfg now'" and lq = ls'] show ?thesis
    using run_tick_sweep [OF inv, of u cfg ids' marks now' ls']
    by (simp add: Let_def liquidation_response_def) (metis prod.collapse)
qed

lemma bad_debt_exact:
  assumes "x < 0" "in_i128 x"
  shows "unat (i128_as_u128 (i128_wrap (- x))) = nat (- x)"
proof -
  have "i128_as_u128 (i128_wrap (- x)) = word_of_int (- x)" by (simp add: i128_as_u128_def i128_wrap_def)
  moreover have "unat (word_of_int (- x) :: 128 word) = nat (- x)"
  proof -
    have "uint (word_of_int (- x) :: 128 word) = - x"
      using assms by (subst uint_word_of_int_eq) (simp add: take_bit_int_eq_self in_i128_def i128_bounds)
    then show ?thesis by (metis unat_eq_nat_uint)
  qed
  ultimately show ?thesis by simp
qed

text \<open>
  The tick keeps its books: it checks every open position of a configured market, counts the
  liquidations, and records for each liquidated position one completed event with the mark, the
  equity and the maintenance requirement that justified it, the realised result of closing at the
  mark, and as bad debt exactly the amount by which the equity was negative.
\<close>

theorem liquidation_events_exact:
  assumes "positions_inv ps" "orders_inv os" and ids: "inj_on ids {..<length (tick_candidates cfg ps)}"
    and run: "run_perp_liquidation_tick u cfg ids marks now (ps, os, ls) = (Ok r, ps', os', ls')"
  shows "lt_checked_count r = of_nat (length (tick_candidates cfg ps)) \<and>
     lt_liquidated_count r = of_nat (length (filter (under_margin cfg marks) (tick_candidates cfg ps))) \<and>
     (\<forall>k p. active_at ps k = Some p \<longrightarrow> under_margin cfg marks p \<longrightarrow>
        (\<exists>e mark. hm_get ls' (le_id e) = Some e \<and> mark_for marks (pp_market_id p) = Some mark \<and>
           le_position_id e = pp_id p \<and> le_status e = LiqCompleted \<and> le_mark_price_1e8 e = mark \<and>
           le_equity_1e8 e = equity_1e8 p mark \<and> le_equity_1e8 e \<le> u128_as_i128 (le_maintenance_margin_requirement_1e8 e) \<and>
           le_realized_pnl_1e8 e = realized_pnl_1e8 (pp_entry_price_1e8 p) mark (pp_size_1e8 p) (pp_side p) \<and>
           unat (le_bad_debt_1e8 e) = nat (- equity_1e8 p mark) \<and> le_liquidation_fee_1e8 e = 0))"
proof -
  let ?r = "liquidation_response cfg now" and ?cs = "tick_candidates cfg ps"
  have inv: "liquidation_inv (?r, ps, os, ls)" using assms(1,2) by (simp add: liquidation_inv_def)
  have s: "sweep (liquidation_step u cfg ids marks now) 0 ?cs (?r, ps, os, ls) = (r, ps', os', ls')"
    using run_tick_sweep [OF assms(1,2)] run by (metis (no_types, lifting) Inr_inject Pair_inject prod.collapse)
  have rest: "(r, os', ls') = sweep (liquidation_effect u cfg ids marks now) 0 ?cs (?r, os, ls)"
    using liq.full_rest(2) [OF inv, of u cfg ids marks now 0] by (simp add: s liquidation_rest_def)
  have "filter (\<lambda>p. liquidation_verdict cfg marks p = Liquidatable) ?cs = filter (under_margin cfg marks) ?cs"
    by (intro filter_cong) (simp_all add: candidate_verdict [OF assms(1)])
  note same = this
  let ?s = "sweep (liquidation_effect u cfg ids marks now) 0 ?cs (?r, os, ls)"
  have counts: "lt_checked_count (fst ?s) = of_nat (length ?cs)"
    "lt_liquidated_count (fst ?s) = of_nat (length (filter (under_margin cfg marks) ?cs))"
    using sweep_count [where f = "\<lambda>s. lt_checked_count (fst s)" and n = 0 and step = "liquidation_effect u cfg ids marks now" and
        cs = ?cs and s = "(?r, os, ls)", OF effect_counts(1)]
      sweep_count [where f = "\<lambda>s. lt_liquidated_count (fst s)" and n = 0 and step = "liquidation_effect u cfg ids marks now" and
        cs = ?cs and s = "(?r, os, ls)", OF effect_counts(2)]
    by (simp_all add: same liquidation_response_def)
  show ?thesis
  proof (intro conjI allI impI)
    show "lt_checked_count r = of_nat (length ?cs)" using counts(1) by (simp add: rest [symmetric])
    show "lt_liquidated_count r = of_nat (length (filter (under_margin cfg marks) ?cs))"
      using counts(2) by (simp add: rest [symmetric])
    fix k p assume a: "active_at ps k = Some p" and um: "under_margin cfg marks p"
    note row = active_at_SomeD [OF assms(1) a]
    obtain m mark where m: "market_by_symbol cfg (pp_market_id p) = Some m" "mark_for marks (pp_market_id p) = Some mark"
      "equity_1e8 p mark \<le> u128_as_i128 (maintenance_margin_requirement_1e8 (pp_size_1e8 p) mark (pm_maintenance_margin_bps m))"
      using um by (auto simp: under_margin_def)
    have "p \<in> set ?cs" using tick_candidates_iff [OF assms(1)] a row(4) m(1) by simp
    then obtain j where j: "j < length ?cs" "?cs ! j = p" by (auto simp: in_set_conv_nth)
    let ?e = "liquidation_event (ids j) m p mark now"
    have "tick_event cfg marks now (ids (0 + j)) (?cs ! j) = Some ?e"
      using iffD2 [OF verdict_iff [OF row(3)] um] m j(2) by (simp add: tick_event_def)
    from sweep_ledger [where n = 0 and ids = ids, OF _ j(1) this, where u = u and s = "(?r, os, ls)"] have "hm_get ls' (ids j) = Some ?e"
      using ids by (simp add: rest [symmetric] lessThan_atLeast0)
    moreover have "in_i128 (equity_1e8 p mark)" by (simp add: equity_1e8_def in_i128_sat i128_saturating_add_def)
    ultimately show "\<exists>e mark. hm_get ls' (le_id e) = Some e \<and> mark_for marks (pp_market_id p) = Some mark \<and>
           le_position_id e = pp_id p \<and> le_status e = LiqCompleted \<and> le_mark_price_1e8 e = mark \<and>
           le_equity_1e8 e = equity_1e8 p mark \<and> le_equity_1e8 e \<le> u128_as_i128 (le_maintenance_margin_requirement_1e8 e) \<and>
           le_realized_pnl_1e8 e = realized_pnl_1e8 (pp_entry_price_1e8 p) mark (pp_size_1e8 p) (pp_side p) \<and>
           unat (le_bad_debt_1e8 e) = nat (- equity_1e8 p mark) \<and> le_liquidation_fee_1e8 e = 0"
      using m(2,3) bad_debt_exact by (intro exI [of _ ?e] exI [of _ mark]) (simp add: liquidation_event_def Let_def)
  qed
qed

text \<open>
  A position that carries at least the initial margin of a validated market is not liquidated
  at its own entry price, as long as its notional is not dust (at least 10000 units per unit of
  leverage) and the amounts are within range.
\<close>

theorem fresh_position_healthy:
  assumes "market_validate_startup m = Ok ()" "unat (pp_size_1e8 p) * unat (pp_entry_price_1e8 p) < 2 ^ 114"
    "10000 * unat (pm_max_leverage m) \<le> unat (notional_1e8 (pp_size_1e8 p) (pp_entry_price_1e8 p))"
    "initial_margin_requirement_1e8 (pp_size_1e8 p) (pp_entry_price_1e8 p) (pm_max_leverage m) \<le> pp_margin_1e8 p"
    "unat (pp_margin_1e8 p) < 2 ^ 127"
  shows "evaluate_perp_liquidation m p (Some (pp_entry_price_1e8 p)) = Healthy"
proof -
  let ?mm = "maintenance_margin_requirement_1e8 (pp_size_1e8 p) (pp_entry_price_1e8 p) (pm_maintenance_margin_bps m)"
  have lt: "unat ?mm < unat (pp_margin_1e8 p)"
    using maintenance_below_initial_margin [OF assms(1-3)] assms(4) by (simp add: word_le_nat_alt word_less_nat_alt)
  have "unrealized_pnl_1e8 p (pp_entry_price_1e8 p) = 0"
    by (simp add: unrealized_pnl_1e8_def Let_def i128_saturating_sub_def i128_saturating_mul_def split: perp_side.splits)
  then have "equity_1e8 p (pp_entry_price_1e8 p) = int (unat (pp_margin_1e8 p))"
    using i128_sat_id [OF in_i128_cast, of "pp_margin_1e8 p"] u128_as_i128_small [OF assms(5)] by (simp add: equity_1e8_def i128_saturating_add_def)
  moreover have "u128_as_i128 ?mm = int (unat ?mm)" by (rule u128_as_i128_small) (use lt assms(5) in linarith)
  ultimately have "\<not> equity_1e8 p (pp_entry_price_1e8 p) \<le> u128_as_i128 ?mm" using lt by linarith
  then show ?thesis by (simp add: evaluate_perp_liquidation_def Let_def)
qed


section \<open>A tick evaluated\<close>

text \<open>
  The account of the resting order holds a long of 1 ETH bought at 3000 with a margin of 300; the
  mark falls to 2500.
\<close>

definition ex_marks :: mark_prices where
  "ex_marks = [(''ETH-PERP'', Some 250000000000)]"

definition ex_underwater :: perp_positions_store where
  "ex_underwater = snd (insert_open ((ex_long PerpLong)\<lparr>pp_account := ''0xaa''\<rparr>) new_positions_store)"

definition ex_ids :: "nat \<Rightarrow> uuid" where
  "ex_ids n = of_nat (100 + n)"

lemma ex_underwater_inv: "positions_inv ex_underwater"
  unfolding ex_underwater_def by (rule insert_open_inv [OF new_positions_inv]) (simp add: new_positions_store_def)

lemma ex_underwater_row: "active_at ex_underwater (''0xaa'', 1, ''ETH-PERP'') = Some ((ex_long PerpLong)\<lparr>pp_account := ''0xaa''\<rparr>)"
  by code_simp

lemma ex_under_margin: "under_margin enabled_in_memory_for_tests ex_marks ((ex_long PerpLong)\<lparr>pp_account := ''0xaa''\<rparr>)"
proof -
  have "market_by_symbol enabled_in_memory_for_tests ''ETH-PERP'' = Some eth_perp_market \<and> mark_for ex_marks ''ETH-PERP'' = Some 250000000000 \<and>
    equity_1e8 ((ex_long PerpLong)\<lparr>pp_account := ''0xaa''\<rparr>) 250000000000
      \<le> u128_as_i128 (maintenance_margin_requirement_1e8 (pp_size_1e8 (ex_long PerpLong)) 250000000000 (pm_maintenance_margin_bps eth_perp_market))"
    by code_simp
  moreover have "pp_market_id (ex_long PerpLong) = ''ETH-PERP''" by (simp add: ex_long_def new_position_skeleton_def)
  ultimately show ?thesis unfolding under_margin_def by (intro exI [of _ eth_perp_market] exI [of _ 250000000000]) simp
qed

abbreviation ex_tick :: "liquidation_stores \<Rightarrow> (backend_error + perp_liquidation_tick_response) \<times> liquidation_stores" where
  "ex_tick \<equiv> run_perp_liquidation_tick (\<lambda>_. []) enabled_in_memory_for_tests ex_ids ex_marks 9"

theorem liquidation_tick_exact_witness:
  "\<exists>r ps os ls. ex_tick (ex_underwater, ex_order_store, []) = (Ok r, ps, os, ls) \<and> active_at ps (''0xaa'', 1, ''ETH-PERP'') = None"
proof -
  from liquidation_tick_exact [OF ex_underwater_inv ex_order_store_inv, of "\<lambda>_. []" enabled_in_memory_for_tests ex_ids ex_marks 9 "[]"]
  obtain r ps os ls where t: "ex_tick (ex_underwater, ex_order_store, []) = (Ok r, ps, os, ls)"
    and a: "\<forall>k. active_at ps k = (case active_at ex_underwater k of None \<Rightarrow> None
        | Some p \<Rightarrow> if under_margin enabled_in_memory_for_tests ex_marks p then None else Some p)" by blast
  from a have "active_at ps (''0xaa'', 1, ''ETH-PERP'') = None" using ex_under_margin
    by (simp add: ex_underwater_row del: split_paired_All)
  with t show ?thesis by blast
qed

lemma ex_tick_Ok:
  obtains r ps os ls where "ex_tick (ex_underwater, ex_order_store, []) = (Ok r, ps, os, ls)"
proof -
  obtain r ps os ls where "sweep (liquidation_step (\<lambda>_. []) enabled_in_memory_for_tests ex_ids ex_marks 9) 0
      (tick_candidates enabled_in_memory_for_tests ex_underwater)
      (liquidation_response enabled_in_memory_for_tests 9, ex_underwater, ex_order_store, []) = (r, ps, os, ls)" using prod_cases4 by blast
  then show ?thesis using that run_tick_sweep [OF ex_underwater_inv ex_order_store_inv] by simp
qed

theorem liquidation_tick_idempotent_witness:
  "\<exists>r ps os ls r' ls'. ex_tick (ex_underwater, ex_order_store, []) = (Ok r, ps, os, ls) \<and>
     ex_tick (ps, os, ls) = (Ok r', ps, os, ls') \<and> lt_liquidated_count r' = 0"
proof -
  obtain r ps os ls where t: "ex_tick (ex_underwater, ex_order_store, []) = (Ok r, ps, os, ls)" by (rule ex_tick_Ok)
  from liquidation_tick_idempotent [OF ex_underwater_inv ex_order_store_inv t, of ex_ids 9] t show ?thesis by blast
qed

theorem liquidation_events_exact_witness:
  "\<exists>r ps os ls e. ex_tick (ex_underwater, ex_order_store, []) = (Ok r, ps, os, ls) \<and> hm_get ls (le_id e) = Some e \<and>
     le_status e = LiqCompleted \<and> unat (le_bad_debt_1e8 e) = 20000000000"
proof -
  obtain r ps os ls where t: "ex_tick (ex_underwater, ex_order_store, []) = (Ok r, ps, os, ls)" by (rule ex_tick_Ok)
  have ids: "inj_on ex_ids {..<length (tick_candidates enabled_in_memory_for_tests ex_underwater)}"
  proof -
    have "length (tick_candidates enabled_in_memory_for_tests ex_underwater) = 1" by code_simp
    then show ?thesis by (simp add: lessThan_Suc)
  qed
  have e: "equity_1e8 ((ex_long PerpLong)\<lparr>pp_account := ''0xaa''\<rparr>) 250000000000 = - 20000000000" by code_simp
  have m: "mark_for ex_marks (pp_market_id ((ex_long PerpLong)\<lparr>pp_account := ''0xaa''\<rparr>)) = Some 250000000000" by code_simp
  let ?p = "(ex_long PerpLong)\<lparr>pp_account := ''0xaa''\<rparr>"
  have "\<exists>f mark. hm_get ls (le_id f) = Some f \<and> mark_for ex_marks (pp_market_id ?p) = Some mark \<and>
      le_status f = LiqCompleted \<and> unat (le_bad_debt_1e8 f) = nat (- equity_1e8 ?p mark)"
    using liquidation_events_exact [OF ex_underwater_inv ex_order_store_inv ids t] ex_underwater_row ex_under_margin by blast
  then show ?thesis using t unfolding m by (auto simp: e)
qed

theorem fresh_position_healthy_witness:
  "evaluate_perp_liquidation eth_perp_market (ex_long PerpLong) (Some 300000000000) = Healthy"
proof -
  have "market_validate_startup eth_perp_market = Ok ()"
    "initial_margin_requirement_1e8 100000000 300000000000 (pm_max_leverage eth_perp_market) \<le> pp_margin_1e8 (ex_long PerpLong)"
    "notional_1e8 100000000 300000000000 = 300000000000" "pm_max_leverage eth_perp_market = 10" by code_simp+
  then show ?thesis using fresh_position_healthy [of eth_perp_market "ex_long PerpLong"] by simp
qed


section \<open>The estimated liquidation price against the liquidation test\<close>

lemma evaluate_by_health:
  assumes est: "estimated_liquidation_price_1e8 p (pm_maintenance_margin_bps market) = Some P"
    and "pp_status p = PosOpen" "k \<noteq> 0" and fit: "unat (pp_size_1e8 p) * unat k < 2 ^ 127"
  defines "X \<equiv> exact_health p (unat (pm_maintenance_margin_bps market)) (unat k)"
  shows "X \<le> - (10 ^ 12) \<Longrightarrow> evaluate_perp_liquidation market p (Some k) = Liquidatable"
    and "2 * 10 ^ 12 \<le> X \<Longrightarrow> evaluate_perp_liquidation market p (Some k) = Healthy"
proof -
  let ?b = "pm_maintenance_margin_bps market"
  define H where "H = equity_1e8 p k - u128_as_i128 (maintenance_margin_requirement_1e8 (pp_size_1e8 p) k ?b)"
  note f = liquidation_price_fits [OF est]
  have "unat (pp_entry_price_1e8 p) * unat (pp_size_1e8 p) < 2 ^ 127" "unat (pp_margin_1e8 p) < 2 ^ 126" using f(1,2) by simp_all
  moreover have "pnl_fits (pp_size_1e8 p) (pp_entry_price_1e8 p) k"
  proof -
    have "int (unat (pp_entry_price_1e8 p) * unat (pp_size_1e8 p)) < int (2 ^ 127)" "int (unat k * unat (pp_size_1e8 p)) < int (2 ^ 127)"
      using calculation(1) fit unfolding of_nat_less_iff by (simp_all add: mult.commute)
    then show ?thesis using f(3) \<open>k \<noteq> 0\<close> by (simp add: pnl_fits_def uint_nat del: of_nat_unat)
  qed
  ultimately have "\<bar>H * 10 ^ 12 - X\<bar> < 2 * 10 ^ 12"
    using health_bounds [of p k ?b] liquidation_price_num(2) [OF est] unfolding H_def X_def by blast
  then have h: "\<bar>H * 1000000000000 - X\<bar> < 2000000000000" by simp
  have ev: "evaluate_perp_liquidation market p (Some k) = (if H \<le> 0 then Liquidatable else Healthy)"
    using assms(2) by (simp add: evaluate_perp_liquidation_def H_def)
  show "evaluate_perp_liquidation market p (Some k) = Liquidatable" if "X \<le> - (10 ^ 12)"
    using that h unfolding ev by (auto simp: abs_if split: if_splits)
  show "evaluate_perp_liquidation market p (Some k) = Healthy" if "2 * 10 ^ 12 \<le> X"
    using that h unfolding ev by (auto simp: abs_if split: if_splits)
qed

text \<open>
  C27: The estimated liquidation price decides the liquidation test up to the rounding of the
  code.  A mark beyond the estimate on the losing side makes the position liquidatable once the
  price gap is worth one unit of \<open>10^-8\<close> of equity over requirement, and a mark on the other side
  leaves it healthy once the gap is worth two: the code truncates the profit, floors the notional
  and rounds the requirement up.
\<close>

theorem liquidation_price_decides:
  assumes "estimated_liquidation_price_1e8 p (pm_maintenance_margin_bps market) = Some P"
    and "pp_status p = PosOpen" "k \<noteq> 0" "unat (pp_size_1e8 p) * unat k < 2 ^ 127"
    and "S = int (unat (pp_size_1e8 p))" "b = int (unat (pm_maintenance_margin_bps market))"
  shows "(pp_side p = PerpLong \<longrightarrow>
      (10 ^ 12 \<le> (int (unat P) - int (unat k)) * (S * (10000 - b)) \<longrightarrow> evaluate_perp_liquidation market p (Some k) = Liquidatable) \<and>
      (2 * 10 ^ 12 \<le> (int (unat k) - int (unat P) - 1) * (S * (10000 - b)) \<longrightarrow> evaluate_perp_liquidation market p (Some k) = Healthy)) \<and>
    (pp_side p = PerpShort \<longrightarrow>
      (10 ^ 12 \<le> (int (unat k) - int (unat P) - 1) * (S * (10000 + b)) \<longrightarrow> evaluate_perp_liquidation market p (Some k) = Liquidatable) \<and>
      (2 * 10 ^ 12 \<le> (int (unat P) - int (unat k)) * (S * (10000 + b)) \<longrightarrow> evaluate_perp_liquidation market p (Some k) = Healthy))"
proof -
  note ev = evaluate_by_health [OF assms(1-4)]
  note x = exact_health_price [OF assms(1), of "unat k", folded assms(5,6)]
  have flip: "(int (unat P) - int (unat k)) * y = - ((int (unat k) - int (unat P)) * y)"
    "(int (unat P) + 1 - int (unat k)) * y = - ((int (unat k) - int (unat P) - 1) * y)" for y
    by (simp_all add: algebra_simps)
  show ?thesis
  proof (intro conjI impI)
    assume side: "pp_side p = PerpLong" and g: "10 ^ 12 \<le> (int (unat P) - int (unat k)) * (S * (10000 - b))"
    show "evaluate_perp_liquidation market p (Some k) = Liquidatable"
      by (rule ev(1)) (use conjunct2 [OF x(1) [OF side]] g [unfolded flip] in linarith)
  next
    assume side: "pp_side p = PerpLong" and g: "2 * 10 ^ 12 \<le> (int (unat k) - int (unat P) - 1) * (S * (10000 - b))"
    show "evaluate_perp_liquidation market p (Some k) = Healthy"
      by (rule ev(2)) (use conjunct1 [OF x(1) [OF side]] g in linarith)
  next
    assume side: "pp_side p = PerpShort" and g: "10 ^ 12 \<le> (int (unat k) - int (unat P) - 1) * (S * (10000 + b))"
    show "evaluate_perp_liquidation market p (Some k) = Liquidatable"
      by (rule ev(1)) (use conjunct2 [OF x(2) [OF side], unfolded flip] g in linarith)
  next
    assume side: "pp_side p = PerpShort" and g: "2 * 10 ^ 12 \<le> (int (unat P) - int (unat k)) * (S * (10000 + b))"
    show "evaluate_perp_liquidation market p (Some k) = Healthy"
      by (rule ev(2)) (use conjunct1 [OF x(2) [OF side]] g in linarith)
  qed
qed

theorem liquidation_price_decides_witness:
  "evaluate_perp_liquidation eth_perp_market (ex_long PerpLong) (Some 284210526200) = Liquidatable \<and>
   evaluate_perp_liquidation eth_perp_market (ex_long PerpLong) (Some 284210526400) = Healthy"
proof -
  have b: "pm_maintenance_margin_bps eth_perp_market = 500" by (simp add: eth_perp_market_def)
  have P: "unat (284210526315 :: u128) = 284210526315" by simp
  note th = liquidation_price_decides [OF _ _ _ _ refl refl, of "ex_long PerpLong" eth_perp_market 284210526315]
  show ?thesis
    using th [of 284210526200] th [of 284210526400] ex_long_liquidation by (simp add: b)
qed

end
