(* ===== verification/Perp_Funding.thy ===== *)
theory Perp_Funding
  imports Perp_Sweep Perp_Execution
begin

text \<open>
  Perpetual funding, \<^verbatim>\<open>src/perps/funding.rs\<close>: the payment for a move of the cumulative index, the
  event ledger, the prefetch of the indices and the tick over all open positions.
\<close>


section \<open>The index and its readers\<close>

definition FUNDING_INDEX_SCALE_1E18 :: u128 where
  "FUNDING_INDEX_SCALE_1E18 = 1000000000000000000"

definition SETTLEMENT :: string where
  "SETTLEMENT = ''funding_settlement''"

record funding_index_read =
  fr_cumulative_index_1e18 :: i128
  fr_updated_at_sec :: u64
  fr_ok :: bool

definition fr_updated_at_ms :: "funding_index_read \<Rightarrow> timestamp_ms" where
  "fr_updated_at_ms r = i64_sat (u64_as_i64 (fr_updated_at_sec r) * 1000)"

record in_memory_index_reader =
  ir_by_symbol :: "(string, funding_index_read) hashmap"
  ir_force_error :: "string option"

definition with_index :: "string \<Rightarrow> funding_index_read \<Rightarrow> in_memory_index_reader \<Rightarrow> in_memory_index_reader" where
  "with_index symbol read rd = rd\<lparr>ir_by_symbol := hm_insert symbol read (ir_by_symbol rd)\<rparr>"

definition with_forced_error :: "string \<Rightarrow> in_memory_index_reader \<Rightarrow> in_memory_index_reader" where
  "with_forced_error err rd = rd\<lparr>ir_force_error := Some err\<rparr>"

definition read_funding_index :: "in_memory_index_reader \<Rightarrow> perps_read_market \<Rightarrow> backend_error + funding_index_read" where
  "read_funding_index rd market =
     (case ir_force_error rd of
        Some err \<Rightarrow> Err PerpsPriceUnavailable
      | None \<Rightarrow>
          (case hm_get (ir_by_symbol rd) (pm_symbol market) of
             Some read \<Rightarrow> Ok read
           | None \<Rightarrow> Ok \<lparr> fr_cumulative_index_1e18 = 0, fr_updated_at_sec = 0, fr_ok = False \<rparr>))"


section \<open>The payment\<close>

definition calculate_funding_payment_1e8 :: "perp_side \<Rightarrow> u128 \<Rightarrow> i128 \<Rightarrow> i128 \<Rightarrow> i128" where
  "calculate_funding_payment_1e8 sd size_1e8 index_before_1e18 index_after_1e18 =
     (if size_1e8 = 0 then 0
      else let delta = i128_saturating_sub index_after_1e18 index_before_1e18
           in if delta = 0 then 0
              else let size = u128_as_i128 size_1e8;
                       scale = u128_as_i128 FUNDING_INDEX_SCALE_1E18;
                       signed_delta = (case sd of PerpLong \<Rightarrow> delta | PerpShort \<Rightarrow> i128_wrap (- delta))
                   in trunc_div (i128_saturating_mul signed_delta size) scale)"


section \<open>Events and their store\<close>

record perp_funding_event =
  fe_id :: uuid
  fe_account :: account_id
  fe_subaccount_id :: u32
  fe_market_id :: string
  fe_position_id :: uuid
  fe_side :: perp_side
  fe_position_size_1e8 :: u128
  fe_funding_index_before_1e18 :: i128
  fe_funding_index_after_1e18 :: i128
  fe_funding_delta_1e18 :: i128
  fe_payment_1e8 :: i128
  fe_margin_before_1e8 :: u128
  fe_margin_after_1e8 :: u128
  fe_bad_debt_1e8 :: u128
  fe_reason_code :: string
  fe_created_at_ms :: timestamp_ms

type_synonym perp_funding_events_store = "(uuid, perp_funding_event) hashmap"

definition funding_insert :: "perp_funding_event \<Rightarrow> perp_funding_events_store \<Rightarrow> perp_funding_events_store" where
  "funding_insert event st = hm_insert (fe_id event) event st"

definition funding_for_account :: "perp_funding_events_store \<Rightarrow> account_id \<Rightarrow> perp_funding_event list" where
  "funding_for_account st account =
     sort_key (\<lambda>e. - fe_created_at_ms e)
       (filter (\<lambda>e. to_lowercase (fe_account e) = to_lowercase account) (hm_values st))"

definition funding_for_account_and_subaccount ::
  "perp_funding_events_store \<Rightarrow> account_id \<Rightarrow> u32 \<Rightarrow> perp_funding_event list" where
  "funding_for_account_and_subaccount st account subaccount_id =
     sort_key (\<lambda>e. - fe_created_at_ms e)
       (filter (\<lambda>e. to_lowercase (fe_account e) = to_lowercase account \<and> fe_subaccount_id e = subaccount_id) (hm_values st))"

definition funding_all :: "perp_funding_events_store \<Rightarrow> perp_funding_event list" where
  "funding_all st = sort_key (\<lambda>e. - fe_created_at_ms e) (hm_values st)"


section \<open>The wire view\<close>

record perp_funding_event_view =
  fv_funding_event_id :: string
  fv_account :: string
  fv_subaccount_id :: u32
  fv_market_id :: string
  fv_position_id :: string
  fv_side :: string
  fv_position_size_1e8 :: string
  fv_funding_index_before_1e18 :: string
  fv_funding_index_after_1e18 :: string
  fv_funding_delta_1e18 :: string
  fv_payment_1e8 :: string
  fv_margin_before_1e8 :: string
  fv_margin_after_1e8 :: string
  fv_bad_debt_1e8 :: string
  fv_reason_code :: string
  fv_created_at_ms :: timestamp_ms
  fv_trading_enabled :: bool

record perp_funding_list_response =
  fl_funding_events :: "perp_funding_event_view list"
  fl_chain_id :: u64
  fl_trading_enabled :: bool

record perp_funding_tick_response =
  ft_now_ms :: timestamp_ms
  ft_checked_count :: u32
  ft_settled_count :: u32
  ft_skipped_no_position_count :: u32
  ft_skipped_source_unavailable_count :: u32
  ft_funding_event_ids :: "string list"
  ft_chain_id :: u64
  ft_trading_enabled :: bool

definition build_perp_funding_view :: "(uuid \<Rightarrow> string) \<Rightarrow> perp_funding_event \<Rightarrow> perp_funding_event_view" where
  "build_perp_funding_view uuid_to_string e =
     \<lparr> fv_funding_event_id = uuid_to_string (fe_id e), fv_account = fe_account e, fv_subaccount_id = fe_subaccount_id e,
       fv_market_id = fe_market_id e, fv_position_id = uuid_to_string (fe_position_id e), fv_side = perp_side_as_str (fe_side e),
       fv_position_size_1e8 = decimal (unat (fe_position_size_1e8 e)),
       fv_funding_index_before_1e18 = decimal_int (fe_funding_index_before_1e18 e),
       fv_funding_index_after_1e18 = decimal_int (fe_funding_index_after_1e18 e),
       fv_funding_delta_1e18 = decimal_int (fe_funding_delta_1e18 e), fv_payment_1e8 = decimal_int (fe_payment_1e8 e),
       fv_margin_before_1e8 = decimal (unat (fe_margin_before_1e8 e)), fv_margin_after_1e8 = decimal (unat (fe_margin_after_1e8 e)),
       fv_bad_debt_1e8 = decimal (unat (fe_bad_debt_1e8 e)), fv_reason_code = fe_reason_code e,
       fv_created_at_ms = fe_created_at_ms e, fv_trading_enabled = False \<rparr>"

definition list_perp_funding_events_for_account_view ::
  "(uuid \<Rightarrow> string) \<Rightarrow> perps_read_config \<Rightarrow> perp_funding_events_store \<Rightarrow> account_id \<Rightarrow> perp_funding_list_response" where
  "list_perp_funding_events_for_account_view uuid_to_string cfg store account =
     \<lparr> fl_funding_events = map (build_perp_funding_view uuid_to_string) (funding_for_account store account),
       fl_chain_id = pc_chain_id cfg, fl_trading_enabled = False \<rparr>"


section \<open>The tick\<close>

type_synonym funding_indices = "(string, funding_index_read option) hashmap"
type_synonym funding_stores = "perp_positions_store \<times> perp_funding_events_store"

definition index_of_read :: "perps_read_config \<Rightarrow> timestamp_ms \<Rightarrow> backend_error + funding_index_read \<Rightarrow> funding_index_read option" where
  "index_of_read cfg now read =
     (case read of
        Ok read \<Rightarrow>
          if fr_ok read
          then (let stale_after_ms = i64_sat (u64_as_i64 (pc_stale_after_sec cfg) * 1000);
                    updated_ms = fr_updated_at_ms read
                in if updated_ms \<noteq> 0 \<and> i64_sat (now - updated_ms) > stale_after_ms then None else Some read)
          else None
      | Err _ \<Rightarrow> None)"

definition prefetch_funding_indices ::
  "perps_read_config \<Rightarrow> (perps_read_market \<Rightarrow> backend_error + funding_index_read) \<Rightarrow> timestamp_ms \<Rightarrow> funding_indices" where
  "prefetch_funding_indices cfg read_index now =
     fold (\<lambda>market out. hm_insert (pm_symbol market) (index_of_read cfg now (read_index market)) out) (pc_markets cfg) []"

definition funded :: "u128 \<Rightarrow> i128 \<Rightarrow> i128 \<Rightarrow> perp_position \<Rightarrow> perp_position" where
  "funded margin_after index_after payment p =
     p\<lparr>pp_margin_1e8 := margin_after, pp_last_funding_index_1e18 := index_after,
       pp_cumulative_funding_payment_1e8 := i128_saturating_add (pp_cumulative_funding_payment_1e8 p) payment\<rparr>"

definition funding_event :: "uuid \<Rightarrow> perp_position \<Rightarrow> i128 \<Rightarrow> timestamp_ms \<Rightarrow> perp_funding_event" where
  "funding_event new_id c index_after now =
     (let index_before = pp_last_funding_index_1e18 c;
          payment = calculate_funding_payment_1e8 (pp_side c) (pp_size_1e8 c) index_before index_after;
          (margin_after, bad_debt) = apply_funding_payment_to_margin (pp_margin_1e8 c) payment
      in \<lparr> fe_id = new_id, fe_account = pp_account c, fe_subaccount_id = pp_subaccount_id c, fe_market_id = pp_market_id c,
           fe_position_id = pp_id c, fe_side = pp_side c, fe_position_size_1e8 = pp_size_1e8 c,
           fe_funding_index_before_1e18 = index_before, fe_funding_index_after_1e18 = index_after,
           fe_funding_delta_1e18 = i128_saturating_sub index_after index_before, fe_payment_1e8 = payment,
           fe_margin_before_1e8 = pp_margin_1e8 c, fe_margin_after_1e8 = margin_after, fe_bad_debt_1e8 = bad_debt,
           fe_reason_code = SETTLEMENT, fe_created_at_ms = now \<rparr>)"

fun funding_loop ::
  "(uuid \<Rightarrow> string) \<Rightarrow> (nat \<Rightarrow> uuid) \<Rightarrow> funding_indices \<Rightarrow> timestamp_ms \<Rightarrow> nat \<Rightarrow> perp_position list
     \<Rightarrow> perp_funding_tick_response \<Rightarrow> funding_stores \<Rightarrow> (backend_error + perp_funding_tick_response) \<times> funding_stores" where
  "funding_loop uuid_to_string ids indices now n [] r stores = (Ok r, stores)"
| "funding_loop uuid_to_string ids indices now n (candidate # candidates) r stores =
     (let r' = r\<lparr>ft_checked_count := ft_checked_count r + 1\<rparr>
      in case hm_get indices (pp_market_id candidate) of
           Some (Some read) \<Rightarrow>
             (let index_before = pp_last_funding_index_1e18 candidate;
                  index_after = fr_cumulative_index_1e18 read;
                  delta = i128_saturating_sub index_after index_before
              in if delta = 0 then funding_loop uuid_to_string ids indices now (Suc n) candidates r' stores
                 else let payment = calculate_funding_payment_1e8 (pp_side candidate) (pp_size_1e8 candidate) index_before index_after;
                          (margin_after, bad_debt) = apply_funding_payment_to_margin (pp_margin_1e8 candidate) payment
                      in case update_active (pp_account candidate) (pp_subaccount_id candidate) (pp_market_id candidate) now
                                (\<lambda>p. (Ok (), funded margin_after index_after payment p)) (fst stores) of
                           (Err e, ps) \<Rightarrow> (Err e, ps, snd stores)
                         | (Ok _, ps) \<Rightarrow>
                             let event = funding_event (ids n) candidate index_after now
                             in funding_loop uuid_to_string ids indices now (Suc n) candidates
                                  (r'\<lparr>ft_settled_count := ft_settled_count r' + 1,
                                     ft_funding_event_ids := ft_funding_event_ids r' @ [uuid_to_string (fe_id event)]\<rparr>)
                                  (ps, funding_insert event (snd stores)))
         | _ \<Rightarrow> funding_loop uuid_to_string ids indices now (Suc n) candidates
                  (r'\<lparr>ft_skipped_source_unavailable_count := ft_skipped_source_unavailable_count r' + 1\<rparr>) stores)"

definition funding_response :: "perps_read_config \<Rightarrow> timestamp_ms \<Rightarrow> perp_funding_tick_response" where
  "funding_response cfg now =
     \<lparr> ft_now_ms = now, ft_checked_count = 0, ft_settled_count = 0, ft_skipped_no_position_count = 0,
       ft_skipped_source_unavailable_count = 0, ft_funding_event_ids = [], ft_chain_id = pc_chain_id cfg,
       ft_trading_enabled = False \<rparr>"

definition run_perp_funding_tick ::
  "(uuid \<Rightarrow> string) \<Rightarrow> perps_read_config \<Rightarrow> (nat \<Rightarrow> uuid) \<Rightarrow> funding_indices \<Rightarrow> timestamp_ms \<Rightarrow> funding_stores
     \<Rightarrow> (backend_error + perp_funding_tick_response) \<times> funding_stores" where
  "run_perp_funding_tick uuid_to_string cfg ids indices now stores =
     funding_loop uuid_to_string ids indices now 0 (tick_candidates cfg (fst stores)) (funding_response cfg now) stores"


section \<open>The tick as a sweep\<close>

text \<open>The settlement due for a row: the new index, if the source is known and it moved.\<close>

definition due_index :: "funding_indices \<Rightarrow> perp_position \<Rightarrow> i128 option" where
  "due_index indices p =
     (case hm_get indices (pp_market_id p) of
        Some (Some read) \<Rightarrow>
          if i128_saturating_sub (fr_cumulative_index_1e18 read) (pp_last_funding_index_1e18 p) = 0 then None
          else Some (fr_cumulative_index_1e18 read)
      | _ \<Rightarrow> None)"

definition payment_due :: "perp_position \<Rightarrow> i128 \<Rightarrow> i128" where
  "payment_due p index_after =
     calculate_funding_payment_1e8 (pp_side p) (pp_size_1e8 p) (pp_last_funding_index_1e18 p) index_after"

definition settled_row :: "timestamp_ms \<Rightarrow> i128 \<Rightarrow> perp_position \<Rightarrow> perp_position" where
  "settled_row now index_after p =
     touch now (funded (fst (apply_funding_payment_to_margin (pp_margin_1e8 p) (payment_due p index_after)))
       index_after (payment_due p index_after) p)"

definition funding_settle :: "funding_indices \<Rightarrow> timestamp_ms \<Rightarrow> perp_position \<Rightarrow> perp_position option" where
  "funding_settle indices now p =
     Some (case due_index indices p of None \<Rightarrow> p | Some i \<Rightarrow> settled_row now i p)"

definition funding_effect ::
  "(uuid \<Rightarrow> string) \<Rightarrow> (nat \<Rightarrow> uuid) \<Rightarrow> funding_indices \<Rightarrow> timestamp_ms \<Rightarrow> nat \<Rightarrow> perp_position
     \<Rightarrow> perp_funding_tick_response \<times> perp_funding_events_store \<Rightarrow> perp_funding_tick_response \<times> perp_funding_events_store" where
  "funding_effect uuid_to_string ids indices now n p s =
     (case s of (r, es) \<Rightarrow>
        let r' = r\<lparr>ft_checked_count := ft_checked_count r + 1\<rparr>
        in case due_index indices p of
             Some i \<Rightarrow> (r'\<lparr>ft_settled_count := ft_settled_count r' + 1,
                            ft_funding_event_ids := ft_funding_event_ids r' @ [uuid_to_string (ids n)]\<rparr>,
                         funding_insert (funding_event (ids n) p i now) es)
           | None \<Rightarrow> (case hm_get indices (pp_market_id p) of
                        Some (Some read) \<Rightarrow> (r', es)
                      | _ \<Rightarrow> (r'\<lparr>ft_skipped_source_unavailable_count := ft_skipped_source_unavailable_count r' + 1\<rparr>, es)))"

text \<open>One turn of the loop.\<close>

definition funding_step ::
  "(uuid \<Rightarrow> string) \<Rightarrow> (nat \<Rightarrow> uuid) \<Rightarrow> funding_indices \<Rightarrow> timestamp_ms \<Rightarrow> nat \<Rightarrow> perp_position
     \<Rightarrow> perp_funding_tick_response \<times> funding_stores \<Rightarrow> perp_funding_tick_response \<times> funding_stores" where
  "funding_step uuid_to_string ids indices now n p s =
     (case s of (r, stores) \<Rightarrow>
        case funding_loop uuid_to_string ids indices now n [p] r stores of
          (Ok r', stores') \<Rightarrow> (r', stores')
        | (Err e, stores') \<Rightarrow> (r, stores'))"

definition funding_rest ::
  "perp_funding_tick_response \<times> funding_stores \<Rightarrow> perp_funding_tick_response \<times> perp_funding_events_store" where
  "funding_rest s = (fst s, snd (snd s))"

definition funding_inv :: "perp_funding_tick_response \<times> funding_stores \<Rightarrow> bool" where
  "funding_inv s = positions_inv (fst (snd s))"

lemma funded_identity [simp]:
  "pp_id (funded a b c p) = pp_id p" "pp_key (funded a b c p) = pp_key p" "pp_status (funded a b c p) = pp_status p"
  by (simp_all add: funded_def)

lemma fe_id_event [simp]: "fe_id (funding_event i p x now) = i"
  by (simp add: funding_event_def Let_def case_prod_beta)

lemma funding_turn:
  assumes inv: "positions_inv ps" and act: "active_at ps (pp_key p) = Some p"
  shows "\<exists>r' ps' es'. funding_loop u ids indices now n (p # cs) r (ps, es) = funding_loop u ids indices now (Suc n) cs r' (ps', es') \<and>
     funding_step u ids indices now n p (r, ps, es) = (r', ps', es') \<and>
     positions_inv ps' \<and> active_at ps' = (active_at ps)(pp_key p := funding_settle indices now p) \<and>
     (r', es') = funding_effect u ids indices now n p (r, es)"
proof (cases "due_index indices p")
  case None
  then show ?thesis using inv act
    by (auto simp: due_index_def funding_step_def funding_settle_def funding_effect_def Let_def split: option.splits if_splits)
next
  case (Some i)
  then obtain read where read: "hm_get indices (pp_market_id p) = Some (Some read)" "i = fr_cumulative_index_1e18 read"
      "i128_saturating_sub i (pp_last_funding_index_1e18 p) \<noteq> 0"
    by (auto simp: due_index_def split: option.splits if_splits)
  let ?am = "apply_funding_payment_to_margin (pp_margin_1e8 p) (payment_due p i)"
  let ?f = "\<lambda>q. (Ok (), funded (fst ?am) i (payment_due p i) q) :: (backend_error + unit) \<times> perp_position"
  have k: "pp_key p = index_key (pp_account p) (pp_subaccount_id p) (pp_market_id p)" by (simp add: pp_key_def)
  note ua = update_active_Ok [where f = ?f, OF inv act [unfolded k] refl, of now, folded k, simplified]
  obtain ps' where ps': "update_active (pp_account p) (pp_subaccount_id p) (pp_market_id p) now ?f ps
      = (Ok (settled_row now i p), ps')" using ua(1) by (metis prod.collapse settled_row_def)
  show ?thesis using Some ua(2,3) ps' read unfolding payment_due_def
    by (intro exI [of _ "(fst (funding_effect u ids indices now n p (r, es)))"] exI [of _ ps'] exI [of _ "(snd (funding_effect u ids indices now n p (r, es)))"])
       (simp add: funding_step_def funding_settle_def funding_effect_def Let_def case_prod_beta settled_row_def payment_due_def)
qed

interpretation fund: full_sweep "funding_step u ids indices now" funding_inv "\<lambda>s. active_at (fst (snd s))" funding_rest
  pp_key "funding_settle indices now" "funding_effect u ids indices now" "\<lambda>s. tick_candidates cfg (fst (snd s))"
  "\<lambda>p. market_by_symbol cfg (pp_market_id p) \<noteq> None"
  for u ids indices now cfg
proof (unfold_locales, goal_cases)
  case (1 s c n)
  then show ?case using funding_turn [of "fst (snd s)" c u ids indices now n "[]" "fst s" "snd (snd s)"] by (auto simp: funding_inv_def)
next
  case (2 s c n)
  then show ?case using funding_turn [of "fst (snd s)" c u ids indices now n "[]" "fst s" "snd (snd s)"] by (auto simp: funding_inv_def)
next
  case (3 s c n)
  then show ?case using funding_turn [of "fst (snd s)" c u ids indices now n "[]" "fst s" "snd (snd s)"]
    by (auto simp: funding_inv_def funding_rest_def)
qed (use tick_candidates_iff tick_candidates_keys active_at_SomeD(4) in \<open>auto simp: funding_inv_def\<close>)

lemma funding_loop_sweep:
  assumes "positions_inv (fst stores)" "distinct (map pp_key cs)"
    "\<And>c. c \<in> set cs \<Longrightarrow> active_at (fst stores) (pp_key c) = Some c"
  shows "funding_loop u ids indices now n cs r stores
     = (let s = sweep (funding_step u ids indices now) n cs (r, stores) in (Ok (fst s), snd s))"
  using assms
proof (induction cs arbitrary: n r stores)
  case (Cons c cs)
  obtain ps es where s: "stores = (ps, es)" by (rule prod.exhaust)
  from Cons.prems(1,3) s have i: "positions_inv ps" and a: "active_at ps (pp_key c) = Some c" by auto
  obtain r' ps' es' where t: "funding_loop u ids indices now n (c # cs) r (ps, es) = funding_loop u ids indices now (Suc n) cs r' (ps', es')"
      "funding_step u ids indices now n c (r, ps, es) = (r', ps', es')"
      "positions_inv ps'" "active_at ps' = (active_at ps)(pp_key c := funding_settle indices now c)"
    using funding_turn [OF i a, of u ids indices now n cs r es] by blast
  have "active_at (fst (ps', es')) (pp_key d) = Some d" if "d \<in> set cs" for d
    using that Cons.prems(2,3) t(4) by (auto simp: s image_iff)
  from Cons.IH [OF _ _ this, of "Suc n" r'] t Cons.prems(2) show ?case by (simp add: s del: funding_loop.simps)
qed simp

lemma run_funding_sweep:
  assumes "positions_inv ps"
  shows "run_perp_funding_tick u cfg ids indices now (ps, es)
     = (let s = sweep (funding_step u ids indices now) 0 (tick_candidates cfg ps) (funding_response cfg now, ps, es)
        in (Ok (fst s), snd s))"
  unfolding run_perp_funding_tick_def
  by (subst funding_loop_sweep) (use assms tick_candidates_iff tick_candidates_keys in auto)


section \<open>Properties\<close>

lemma due_after_settling: "due_index indices (the (funding_settle indices now p)) = None"
  by (auto simp: funding_settle_def due_index_def settled_row_def touch_def funded_def i128_saturating_sub_def
      split: option.splits if_splits)

lemma funding_view:
  assumes "positions_inv ps"
  shows "active_at (fst (snd (sweep (funding_step u ids indices now) n (tick_candidates cfg ps) (r, ps, es)))) k
     = (case active_at ps k of None \<Rightarrow> None
        | Some p \<Rightarrow> if market_by_symbol cfg (pp_market_id p) \<noteq> None then funding_settle indices now p else Some p)"
  using fund.full_view [of "(r, ps, es)"] assms by (simp add: funding_inv_def)

text \<open>
  C23: The funding tick always completes and is exact: each open position of a configured market
  whose index is known and moved pays or receives the funding for the move, its margin changes by
  that payment, its index is brought up to date and the payment is added to its running total;
  every other position is untouched.
\<close>

theorem funding_tick_exact:
  assumes "positions_inv ps"
  shows "\<exists>r ps' es'. run_perp_funding_tick u cfg ids indices now (ps, es) = (Ok r, ps', es') \<and> positions_inv ps' \<and>
     (\<forall>k. case active_at ps k of
        None \<Rightarrow> active_at ps' k = None
      | Some p \<Rightarrow>
          (case (market_by_symbol cfg (pp_market_id p), due_index indices p) of
             (Some _, Some i) \<Rightarrow> \<exists>q. active_at ps' k = Some q \<and> pp_id q = pp_id p \<and> pp_size_1e8 q = pp_size_1e8 p \<and>
               pp_last_funding_index_1e18 q = i \<and>
               pp_margin_1e8 q = fst (apply_funding_payment_to_margin (pp_margin_1e8 p) (payment_due p i)) \<and>
               pp_cumulative_funding_payment_1e8 q = i128_saturating_add (pp_cumulative_funding_payment_1e8 p) (payment_due p i)
           | _ \<Rightarrow> active_at ps' k = Some p))"
proof -
  let ?r = "funding_response cfg now" and ?cs = "tick_candidates cfg ps"
  obtain r ps' es' where s: "sweep (funding_step u ids indices now) 0 ?cs (?r, ps, es) = (r, ps', es')" using prod_cases3 by blast
  have inv: "positions_inv ps'" using fund.full_rest(1) [of "(?r, ps, es)"] assms s by (metis fst_conv funding_inv_def snd_conv)
  have run: "run_perp_funding_tick u cfg ids indices now (ps, es) = (Ok r, ps', es')" using run_funding_sweep [OF assms] s by simp
  have v: "active_at ps' k = (case active_at ps k of None \<Rightarrow> None
        | Some p \<Rightarrow> if market_by_symbol cfg (pp_market_id p) \<noteq> None then funding_settle indices now p else Some p)" for k
    using funding_view [OF assms, of u ids indices now 0 cfg ?r es k] by (simp add: s)
  show ?thesis
  proof (intro exI conjI allI)
    show "run_perp_funding_tick u cfg ids indices now (ps, es) = (Ok r, ps', es')" "positions_inv ps'" by (fact run inv)+
    fix k
    show "case active_at ps k of
        None \<Rightarrow> active_at ps' k = None
      | Some p \<Rightarrow>
          (case (market_by_symbol cfg (pp_market_id p), due_index indices p) of
             (Some _, Some i) \<Rightarrow> \<exists>q. active_at ps' k = Some q \<and> pp_id q = pp_id p \<and> pp_size_1e8 q = pp_size_1e8 p \<and>
               pp_last_funding_index_1e18 q = i \<and>
               pp_margin_1e8 q = fst (apply_funding_payment_to_margin (pp_margin_1e8 p) (payment_due p i)) \<and>
               pp_cumulative_funding_payment_1e8 q = i128_saturating_add (pp_cumulative_funding_payment_1e8 p) (payment_due p i)
           | _ \<Rightarrow> active_at ps' k = Some p)"
      by (simp add: v funding_settle_def settled_row_def touch_def funded_def split: option.splits)
  qed
qed

text \<open>
  C24: Funding is settled once per move of the index: a second tick at the same indices settles
  nothing and leaves positions and events exactly as they are.
\<close>

theorem funding_tick_idempotent:
  assumes "positions_inv ps" "run_perp_funding_tick u cfg ids indices now (ps, es) = (Ok r, ps', es')"
  shows "\<exists>r'. run_perp_funding_tick u cfg ids' indices now' (ps', es') = (Ok r', ps', es') \<and> ft_settled_count r' = 0"
proof -
  let ?r = "funding_response cfg now"
  have s: "sweep (funding_step u ids indices now) 0 (tick_candidates cfg ps) (?r, ps, es) = (r, ps', es')"
    using run_funding_sweep [OF assms(1)] assms(2) by (metis (no_types, lifting) Inr_inject Pair_inject prod.collapse)
  have inv: "positions_inv ps'" using fund.full_rest(1) [of "(?r, ps, es)"] assms(1) s by (metis fst_conv funding_inv_def snd_conv)
  have none: "due_index indices p = None" if p: "p \<in> set (tick_candidates cfg ps')" for p
  proof -
    have a: "active_at ps' (pp_key p) = Some p" and m: "market_by_symbol cfg (pp_market_id p) \<noteq> None"
      using p tick_candidates_iff [OF inv] by auto
    obtain q where q: "funding_settle indices now q = Some p \<or> q = p \<and> market_by_symbol cfg (pp_market_id q) = None"
      using funding_view [OF assms(1), of u ids indices now 0 cfg ?r es "pp_key p"] a s by (auto split: option.splits if_splits)
    then show ?thesis using due_after_settling [of indices now q] m by auto
  qed
  have "snd t = (ps', es') \<and> ft_settled_count (fst t) = 0"
    if "set cs \<subseteq> set (tick_candidates cfg ps')" "t = sweep (funding_step u ids' indices now') n cs (rq, ps', es')"
      "ft_settled_count rq = 0" for t cs n rq
    using that
  proof (induction cs arbitrary: n rq)
    case (Cons c cs)
    have "due_index indices c = None" using none Cons.prems(1) by simp
    then obtain rn where "funding_step u ids' indices now' n c (rq, ps', es') = (rn, ps', es')" "ft_settled_count rn = 0"
      using Cons.prems(3) by (auto simp: funding_step_def due_index_def Let_def split: option.splits if_splits)
    then show ?case using Cons by simp
  qed simp
  from this [OF subset_refl refl, where n = 0 and rq = "funding_response cfg now'"] show ?thesis
    using run_funding_sweep [OF inv, of u cfg ids' indices now' es'] by (auto simp: Let_def funding_response_def)
qed

text \<open>The payment without wrap-around: side times size times the move of the index, towards zero.\<close>

definition funding_fits :: "u128 \<Rightarrow> i128 \<Rightarrow> i128 \<Rightarrow> bool" where
  "funding_fits s a b = (unat s < 2 ^ 127 \<and> \<bar>b - a\<bar> < 2 ^ 127 \<and> \<bar>(b - a) * int (unat s)\<bar> < 2 ^ 127)"

lemma scale_cast: "u128_as_i128 FUNDING_INDEX_SCALE_1E18 = 1000000000000000000"
  by code_simp

lemma funding_payment_value:
  assumes "funding_fits s a b"
  shows "calculate_funding_payment_1e8 sd s a b = side_sign sd * trunc_div ((b - a) * int (unat s)) 1000000000000000000"
proof -
  let ?d = "b - a"
  have c: "u128_as_i128 s = int (unat s)" using assms by (intro u128_as_i128_small) (simp add: funding_fits_def)
  have d: "in_i128 ?d" "in_i128 (- ?d)" "in_i128 (?d * int (unat s))" "in_i128 (- (?d * int (unat s)))"
    using assms by (auto simp: funding_fits_def in_i128_def i128_bounds)
  have w: "i128_wrap (- ?d) = - ?d" "i128_sat (- ?d * int (unat s)) = - (?d * int (unat s))" "i128_sat (?d * int (unat s)) = ?d * int (unat s)"
    using i128_wrap_id [OF d(2)] i128_sat_id [OF d(4)] i128_sat_id [OF d(3)] by (simp_all only: mult_minus_left)
  show ?thesis
    unfolding calculate_funding_payment_1e8_def Let_def c scale_cast i128_saturating_sub_def i128_saturating_mul_def i128_sat_id [OF d(1)]
    by (cases sd) (auto simp only: perp_side.case w side_sign_simps trunc_div_neg [OF zero_less_numeral] split: if_splits, auto)
qed

lemma trunc_div_add_bound:
  assumes "0 < m"
  shows "\<bar>trunc_div x m + trunc_div y m - trunc_div (x + y) m\<bar> \<le> 1"
proof -
  let ?e = "\<lambda>z. z - trunc_div z m * m"
  have r: "\<bar>?e z\<bar> < m" for z
  proof (cases "0 \<le> z")
    case True
    then show ?thesis using assms by (simp add: trunc_div_nonneg minus_div_mult_eq_mod)
  next
    case False
    then have "trunc_div z m = - (- z div m)" using trunc_div_neg [OF assms, of "- z"] assms by (simp add: trunc_div_nonneg)
    then have "?e z = - (- z mod m)" by (simp add: minus_mult_div_eq_mod [symmetric] algebra_simps)
    then show ?thesis using assms by simp
  qed
  have s: "0 \<le> z \<Longrightarrow> 0 \<le> ?e z" "z \<le> 0 \<Longrightarrow> ?e z \<le> 0" for z
  proof -
    show "0 \<le> z \<Longrightarrow> 0 \<le> ?e z" using assms by (simp add: trunc_div_nonneg minus_div_mult_eq_mod)
    assume z: "z \<le> 0"
    then have "trunc_div z m = - (- z div m)" using trunc_div_neg [OF assms, of "- z"] assms by (simp add: trunc_div_nonneg)
    then have "?e z = - (- z mod m)" by (simp add: minus_mult_div_eq_mod [symmetric] algebra_simps)
    then show "?e z \<le> 0" using assms by simp
  qed
  let ?k = "trunc_div x m + trunc_div y m - trunc_div (x + y) m"
  have "?k * m = ?e (x + y) - ?e x - ?e y" by (simp add: algebra_simps)
  moreover have "\<bar>?e (x + y) - ?e x - ?e y\<bar> < 2 * m"
    using r [of x] r [of y] r [of "x + y"] s [of x] s [of y] s [of "x + y"] by linarith
  ultimately have "\<bar>?k * m\<bar> < 2 * m" by simp
  then have "\<bar>?k\<bar> * m < 2 * m" unfolding abs_mult using assms by simp
  then show ?thesis using assms by (simp add: mult_less_cancel_right)
qed

text \<open>
  C25: Funding is a transfer: for the same size and move a long pays exactly what a short receives.
  Settling in two steps instead of one changes the total by at most one unit of rounding, so the
  frequency of the tick does not matter otherwise.
\<close>

theorem funding_transfer:
  assumes "funding_fits s a b" "funding_fits s b c" "funding_fits s a c"
  shows "calculate_funding_payment_1e8 PerpLong s a c + calculate_funding_payment_1e8 PerpShort s a c = 0 \<and>
     \<bar>calculate_funding_payment_1e8 sd s a b + calculate_funding_payment_1e8 sd s b c - calculate_funding_payment_1e8 sd s a c\<bar> \<le> 1"
proof -
  have e: "(c - a) * int (unat s) = (b - a) * int (unat s) + (c - b) * int (unat s)" by (simp add: algebra_simps)
  show ?thesis
    using trunc_div_add_bound [of 1000000000000000000 "(b - a) * int (unat s)" "(c - b) * int (unat s)", folded e]
    unfolding funding_payment_value [OF assms(1)] funding_payment_value [OF assms(2)] funding_payment_value [OF assms(3)]
    by (cases sd) (simp_all add: abs_minus_commute)
qed


section \<open>A tick evaluated\<close>

definition ex_indices :: funding_indices where
  "ex_indices = [(''ETH-PERP'', Some \<lparr> fr_cumulative_index_1e18 = 2000000000000000000, fr_updated_at_sec = 5, fr_ok = True \<rparr>)]"

abbreviation ex_funding :: "funding_stores \<Rightarrow> (backend_error + perp_funding_tick_response) \<times> funding_stores" where
  "ex_funding \<equiv> run_perp_funding_tick (\<lambda>_. []) enabled_in_memory_for_tests (\<lambda>n. of_nat (100 + n)) ex_indices 9"

theorem funding_tick_exact_witness:
  "\<exists>r ps es q. ex_funding (ex_positions, []) = (Ok r, ps, es) \<and> active_at ps (''0xab'', 1, ''ETH-PERP'') = Some q \<and>
     pp_margin_1e8 q = 29800000000"
proof -
  have a: "active_at ex_positions (''0xab'', 1, ''ETH-PERP'') = Some ex_position" by code_simp
  have m: "market_by_symbol enabled_in_memory_for_tests (pp_market_id ex_position) = Some eth_perp_market"
    "due_index ex_indices ex_position = Some 2000000000000000000"
    "fst (apply_funding_payment_to_margin (pp_margin_1e8 ex_position) (payment_due ex_position 2000000000000000000)) = 29800000000"
    by code_simp+
  from funding_tick_exact [OF ex_positions_inv, of "\<lambda>_. []" enabled_in_memory_for_tests "\<lambda>n. of_nat (100 + n)" ex_indices 9 "[]"]
  obtain r ps es where t: "ex_funding (ex_positions, []) = (Ok r, ps, es)"
    and k: "case active_at ex_positions (''0xab'', 1, ''ETH-PERP'') of
        None \<Rightarrow> active_at ps (''0xab'', 1, ''ETH-PERP'') = None
      | Some p \<Rightarrow>
          (case (market_by_symbol enabled_in_memory_for_tests (pp_market_id p), due_index ex_indices p) of
             (Some _, Some i) \<Rightarrow> \<exists>q. active_at ps (''0xab'', 1, ''ETH-PERP'') = Some q \<and> pp_id q = pp_id p \<and> pp_size_1e8 q = pp_size_1e8 p \<and>
               pp_last_funding_index_1e18 q = i \<and>
               pp_margin_1e8 q = fst (apply_funding_payment_to_margin (pp_margin_1e8 p) (payment_due p i)) \<and>
               pp_cumulative_funding_payment_1e8 q = i128_saturating_add (pp_cumulative_funding_payment_1e8 p) (payment_due p i)
           | _ \<Rightarrow> active_at ps (''0xab'', 1, ''ETH-PERP'') = Some p)" by blast
  from k have "\<exists>q. active_at ps (''0xab'', 1, ''ETH-PERP'') = Some q \<and> pp_margin_1e8 q = 29800000000"
    unfolding a option.case m(1,2) prod.case m(3) by blast
  with t show ?thesis by blast
qed

theorem funding_tick_idempotent_witness:
  "\<exists>r ps es r'. ex_funding (ex_positions, []) = (Ok r, ps, es) \<and> ex_funding (ps, es) = (Ok r', ps, es) \<and> ft_settled_count r' = 0"
proof -
  obtain r ps es where "sweep (funding_step (\<lambda>_. []) (\<lambda>n. of_nat (100 + n)) ex_indices 9) 0
      (tick_candidates enabled_in_memory_for_tests ex_positions)
      (funding_response enabled_in_memory_for_tests 9, ex_positions, []) = (r, ps, es)" using prod_cases3 by blast
  then have t: "ex_funding (ex_positions, []) = (Ok r, ps, es)" using run_funding_sweep [OF ex_positions_inv] by simp
  from funding_tick_idempotent [OF ex_positions_inv t] t show ?thesis by blast
qed

theorem funding_transfer_witness:
  "calculate_funding_payment_1e8 PerpLong 100000000 0 2000000000000000000
     = - calculate_funding_payment_1e8 PerpShort 100000000 0 2000000000000000000"
  using funding_transfer [of 100000000 0 1000000000000000000 2000000000000000000 PerpLong] by (simp add: funding_fits_def)

end
