(* ===== verification/Phase_Machine.thy ===== *)
theory Phase_Machine
  imports Types
begin

text \<open>
  The lifecycle enums of the execution pipeline are small state machines: a matrix of legal edges,
  a table of successors and a set of terminal phases.  This theory states the contract between the
  three and derives what holds of every sequence of legal transitions.
\<close>


section \<open>Machines\<close>

locale phase_machine =
  fixes phases :: "'p list"
    and can :: "'p \<Rightarrow> 'p \<Rightarrow> bool"
    and succs :: "'p \<Rightarrow> 'p list"
    and terminal :: "'p \<Rightarrow> bool"
  assumes listed: "p \<in> set phases"
    and can_iff: "can p q \<longleftrightarrow> q \<in> set (succs p)"
    and no_loop: "\<not> can p p"
    and terminal_iff: "terminal p \<longleftrightarrow> succs p = []"
begin

lemma progress: "\<not> terminal p \<Longrightarrow> \<exists>q. can p q"
  using can_iff terminal_iff by (metis list.set_sel(1))

lemma terminal_no_edge: "terminal p \<Longrightarrow> \<not> can p q"
  by (simp add: can_iff terminal_iff)

lemma terminal_stuck: "can\<^sup>*\<^sup>* p q \<Longrightarrow> terminal p \<Longrightarrow> q = p"
  by (induction rule: converse_rtranclp_induct) (use terminal_no_edge in blast)+

lemma closed_reach: "can\<^sup>*\<^sup>* p q \<Longrightarrow> (\<And>a b. can a b \<Longrightarrow> S a \<Longrightarrow> S b) \<Longrightarrow> S p \<Longrightarrow> S q"
  by (induction rule: rtranclp_induct) blast+

end

text \<open>A machine whose edges all descend: every run is finite and can be completed.\<close>

locale ranked_machine = phase_machine +
  fixes rank :: "'p \<Rightarrow> nat"
  assumes descends: "can p q \<Longrightarrow> rank q < rank p"
begin

lemma run_bounded: "successively can (p # ps) \<Longrightarrow> length ps \<le> rank p"
proof (induction ps arbitrary: p)
  case (Cons q ps)
  then have "can p q" "length ps \<le> rank q" by (auto simp: successively_Cons)
  then show ?case using descends [of p q] by simp
qed simp

lemma completes: "\<exists>q. can\<^sup>*\<^sup>* p q \<and> terminal q"
proof (induction "rank p" arbitrary: p rule: less_induct)
  case less
  show ?case
  proof (cases "terminal p")
    case False
    then obtain q where "can p q" using progress by blast
    with less [OF descends] show ?thesis by (meson converse_rtranclp_into_rtranclp)
  qed blast
qed

end

text \<open>
  A machine with one gate: the phases before it are never entered again once left, so no run
  passes the gate twice.
\<close>

locale gated_machine = phase_machine +
  fixes before :: "'p \<Rightarrow> bool" and gate :: 'p
  assumes gate_before: "before gate"
    and no_return: "can p q \<Longrightarrow> \<not> before p \<Longrightarrow> \<not> before q"
    and gate_leaves: "can gate q \<Longrightarrow> \<not> before q"
begin

lemma stays_past: "successively can (p # ps) \<Longrightarrow> \<not> before p \<Longrightarrow> gate \<notin> set (p # ps)"
  by (induction ps arbitrary: p) (use no_return gate_before in \<open>auto simp: successively_Cons\<close>)

lemma gate_once: "successively can ps \<Longrightarrow> length (filter ((=) gate) ps) \<le> 1"
proof (induction ps)
  case (Cons p ps)
  show ?case
  proof (cases "p = gate")
    case True
    have "gate \<notin> set ps"
    proof (cases ps)
      case (Cons q qs)
      then have "can gate q" "successively can (q # qs)" using Cons.prems True by (auto simp: successively_Cons)
      then show ?thesis using stays_past gate_leaves Cons by blast
    qed simp
    then have "filter ((=) gate) ps = []" by (auto simp: filter_empty_conv)
    then show ?thesis using True by simp
  qed (use Cons in \<open>auto simp: successively_Cons\<close>)
qed simp

end

text \<open>A phase with a single predecessor is entered through it.\<close>

lemma successively_snoc: "successively P (xs @ [x, y]) \<longleftrightarrow> successively P (xs @ [x]) \<and> P x y"
  by (auto simp: successively_append_iff)

lemma single_predecessor:
  assumes "successively P (s # xs @ [y])" "\<And>x. P x y \<Longrightarrow> x = z" "z \<noteq> s"
  obtains ys where "xs = ys @ [z]" "successively P (s # ys @ [z])"
proof (cases xs rule: rev_cases)
  case Nil
  then show ?thesis using assms by auto
next
  case (snoc ys x)
  then have "successively P ((s # ys) @ [x, y])" using assms(1) by simp
  then have "successively P (s # ys @ [x])" "P x y" unfolding successively_snoc by auto
  then show ?thesis using that snoc assms(2) by auto
qed

end
