(* ===== verification/Execution_Phases.thy ===== *)
theory Execution_Phases
  imports Phase_Machine
begin

text \<open>
  The two lifecycles of a settlement: the phases before broadcast,
  \<^verbatim>\<open>src/hybrid_v2/execution/state.rs\<close>, and those of the broadcast transaction,
  \<^verbatim>\<open>src/hybrid_v2/execution/broadcast_state.rs\<close>.
\<close>


section \<open>Phases before broadcast\<close>

datatype execution_phase =
    Discovered | Validating | ReadyToSimulate | Simulating | SimulationSucceeded | SimulationFailed
  | AwaitingSignature | Signing | SignatureVerified | ReadyForBroadcast | BroadcastDisabled
  | ExecCancelled | Stale | ExecFailed

datatype phase_error = PhaseParseError string

definition phase_as_str :: "execution_phase \<Rightarrow> string" where
  "phase_as_str p = (case p of
     Discovered \<Rightarrow> ''DISCOVERED''
   | Validating \<Rightarrow> ''VALIDATING''
   | ReadyToSimulate \<Rightarrow> ''READY_TO_SIMULATE''
   | Simulating \<Rightarrow> ''SIMULATING''
   | SimulationSucceeded \<Rightarrow> ''SIMULATION_SUCCEEDED''
   | SimulationFailed \<Rightarrow> ''SIMULATION_FAILED''
   | AwaitingSignature \<Rightarrow> ''AWAITING_SIGNATURE''
   | Signing \<Rightarrow> ''SIGNING''
   | SignatureVerified \<Rightarrow> ''SIGNATURE_VERIFIED''
   | ReadyForBroadcast \<Rightarrow> ''READY_FOR_BROADCAST''
   | BroadcastDisabled \<Rightarrow> ''BROADCAST_DISABLED''
   | ExecCancelled \<Rightarrow> ''CANCELLED''
   | Stale \<Rightarrow> ''STALE''
   | ExecFailed \<Rightarrow> ''FAILED'')"

definition phase_parse :: "string \<Rightarrow> phase_error + execution_phase" where
  "phase_parse s =
     (if s = ''DISCOVERED'' then Ok Discovered
      else if s = ''VALIDATING'' then Ok Validating
      else if s = ''READY_TO_SIMULATE'' then Ok ReadyToSimulate
      else if s = ''SIMULATING'' then Ok Simulating
      else if s = ''SIMULATION_SUCCEEDED'' then Ok SimulationSucceeded
      else if s = ''SIMULATION_FAILED'' then Ok SimulationFailed
      else if s = ''AWAITING_SIGNATURE'' then Ok AwaitingSignature
      else if s = ''SIGNING'' then Ok Signing
      else if s = ''SIGNATURE_VERIFIED'' then Ok SignatureVerified
      else if s = ''READY_FOR_BROADCAST'' then Ok ReadyForBroadcast
      else if s = ''BROADCAST_DISABLED'' then Ok BroadcastDisabled
      else if s = ''CANCELLED'' then Ok ExecCancelled
      else if s = ''STALE'' then Ok Stale
      else if s = ''FAILED'' then Ok ExecFailed
      else Err (PhaseParseError s))"

definition phase_is_terminal :: "execution_phase \<Rightarrow> bool" where
  "phase_is_terminal p = (p \<in> {BroadcastDisabled, ExecCancelled, Stale, ExecFailed})"

definition phase_edge :: "execution_phase \<Rightarrow> execution_phase \<Rightarrow> bool" where
  "phase_edge p q = ((p, q) \<in> set
     [(Discovered, Validating), (Discovered, ExecCancelled), (Discovered, ExecFailed),
      (Validating, ReadyToSimulate), (Validating, ExecFailed), (Validating, ExecCancelled), (Validating, Stale),
      (ReadyToSimulate, Simulating), (ReadyToSimulate, ExecCancelled), (ReadyToSimulate, Stale),
      (Simulating, SimulationSucceeded), (Simulating, SimulationFailed), (Simulating, ExecFailed),
      (SimulationSucceeded, AwaitingSignature), (SimulationSucceeded, ExecCancelled), (SimulationSucceeded, Stale),
      (SimulationFailed, ExecFailed),
      (AwaitingSignature, Signing), (AwaitingSignature, ExecCancelled), (AwaitingSignature, Stale),
      (Signing, SignatureVerified), (Signing, ExecFailed),
      (SignatureVerified, ReadyForBroadcast), (SignatureVerified, ExecFailed),
      (ReadyForBroadcast, BroadcastDisabled)])"

definition phase_can_transition_to :: "execution_phase \<Rightarrow> execution_phase \<Rightarrow> bool" where
  "phase_can_transition_to p q =
     (if p = q then False else if phase_is_terminal p then False else phase_edge p q)"

definition phase_legal_successors :: "execution_phase \<Rightarrow> execution_phase list" where
  "phase_legal_successors p = (case p of
     Discovered \<Rightarrow> [Validating, ExecCancelled, ExecFailed]
   | Validating \<Rightarrow> [ReadyToSimulate, ExecFailed, ExecCancelled, Stale]
   | ReadyToSimulate \<Rightarrow> [Simulating, ExecCancelled, Stale]
   | Simulating \<Rightarrow> [SimulationSucceeded, SimulationFailed, ExecFailed]
   | SimulationSucceeded \<Rightarrow> [AwaitingSignature, ExecCancelled, Stale]
   | SimulationFailed \<Rightarrow> [ExecFailed]
   | AwaitingSignature \<Rightarrow> [Signing, ExecCancelled, Stale]
   | Signing \<Rightarrow> [SignatureVerified, ExecFailed]
   | SignatureVerified \<Rightarrow> [ReadyForBroadcast, ExecFailed]
   | ReadyForBroadcast \<Rightarrow> [BroadcastDisabled]
   | BroadcastDisabled \<Rightarrow> [] | ExecCancelled \<Rightarrow> [] | Stale \<Rightarrow> [] | ExecFailed \<Rightarrow> [])"

definition ALL_PHASES :: "execution_phase list" where
  "ALL_PHASES = [Discovered, Validating, ReadyToSimulate, Simulating, SimulationSucceeded, SimulationFailed,
     AwaitingSignature, Signing, SignatureVerified, ReadyForBroadcast, BroadcastDisabled, ExecCancelled, Stale, ExecFailed]"


section \<open>Phases of the broadcast\<close>

datatype broadcast_phase =
    BcDisabled | BcReady | Broadcasting | SubmissionUnknown | Submitted | BcPending | MinedSuccess
  | MinedReverted | Confirming | Confirmed | Reorged | Dropped | ManualInterventionRequired | CancelledBeforeBroadcast

datatype broadcast_phase_error = BroadcastPhaseParseError string

definition broadcast_as_str :: "broadcast_phase \<Rightarrow> string" where
  "broadcast_as_str p = (case p of
     BcDisabled \<Rightarrow> ''BROADCAST_DISABLED''
   | BcReady \<Rightarrow> ''READY_FOR_BROADCAST''
   | Broadcasting \<Rightarrow> ''BROADCASTING''
   | SubmissionUnknown \<Rightarrow> ''SUBMISSION_UNKNOWN''
   | Submitted \<Rightarrow> ''SUBMITTED''
   | BcPending \<Rightarrow> ''PENDING''
   | MinedSuccess \<Rightarrow> ''MINED_SUCCESS''
   | MinedReverted \<Rightarrow> ''MINED_REVERTED''
   | Confirming \<Rightarrow> ''CONFIRMING''
   | Confirmed \<Rightarrow> ''CONFIRMED''
   | Reorged \<Rightarrow> ''REORGED''
   | Dropped \<Rightarrow> ''DROPPED''
   | ManualInterventionRequired \<Rightarrow> ''MANUAL_INTERVENTION_REQUIRED''
   | CancelledBeforeBroadcast \<Rightarrow> ''CANCELLED_BEFORE_BROADCAST'')"

definition broadcast_parse :: "string \<Rightarrow> broadcast_phase_error + broadcast_phase" where
  "broadcast_parse s =
     (if s = ''BROADCAST_DISABLED'' then Ok BcDisabled
      else if s = ''READY_FOR_BROADCAST'' then Ok BcReady
      else if s = ''BROADCASTING'' then Ok Broadcasting
      else if s = ''SUBMISSION_UNKNOWN'' then Ok SubmissionUnknown
      else if s = ''SUBMITTED'' then Ok Submitted
      else if s = ''PENDING'' then Ok BcPending
      else if s = ''MINED_SUCCESS'' then Ok MinedSuccess
      else if s = ''MINED_REVERTED'' then Ok MinedReverted
      else if s = ''CONFIRMING'' then Ok Confirming
      else if s = ''CONFIRMED'' then Ok Confirmed
      else if s = ''REORGED'' then Ok Reorged
      else if s = ''DROPPED'' then Ok Dropped
      else if s = ''MANUAL_INTERVENTION_REQUIRED'' then Ok ManualInterventionRequired
      else if s = ''CANCELLED_BEFORE_BROADCAST'' then Ok CancelledBeforeBroadcast
      else Err (BroadcastPhaseParseError s))"

definition broadcast_is_terminal :: "broadcast_phase \<Rightarrow> bool" where
  "broadcast_is_terminal p = (p \<in> {MinedReverted, Dropped, CancelledBeforeBroadcast, ManualInterventionRequired})"

definition broadcast_edge :: "broadcast_phase \<Rightarrow> broadcast_phase \<Rightarrow> bool" where
  "broadcast_edge p q = ((p, q) \<in> set
     [(BcDisabled, BcReady), (BcDisabled, CancelledBeforeBroadcast), (BcDisabled, Broadcasting), (BcDisabled, ManualInterventionRequired),
      (BcReady, Broadcasting), (BcReady, CancelledBeforeBroadcast), (BcReady, ManualInterventionRequired),
      (Broadcasting, Submitted), (Broadcasting, SubmissionUnknown), (Broadcasting, ManualInterventionRequired),
      (SubmissionUnknown, Submitted), (SubmissionUnknown, BcPending), (SubmissionUnknown, MinedSuccess), (SubmissionUnknown, MinedReverted), (SubmissionUnknown, Dropped), (SubmissionUnknown, ManualInterventionRequired),
      (Submitted, BcPending), (Submitted, MinedSuccess), (Submitted, MinedReverted), (Submitted, Dropped), (Submitted, Reorged), (Submitted, ManualInterventionRequired),
      (BcPending, MinedSuccess), (BcPending, MinedReverted), (BcPending, Dropped), (BcPending, Reorged), (BcPending, ManualInterventionRequired),
      (MinedSuccess, Confirming), (MinedSuccess, Reorged), (MinedSuccess, ManualInterventionRequired),
      (Confirming, Confirmed), (Confirming, Reorged), (Confirming, ManualInterventionRequired),
      (Confirmed, Reorged), (Confirmed, ManualInterventionRequired),
      (Reorged, BcPending), (Reorged, Confirming), (Reorged, ManualInterventionRequired)])"

definition broadcast_can_transition_to :: "broadcast_phase \<Rightarrow> broadcast_phase \<Rightarrow> bool" where
  "broadcast_can_transition_to p q =
     (if p = q then False else if broadcast_is_terminal p then False else broadcast_edge p q)"

definition broadcast_legal_successors :: "broadcast_phase \<Rightarrow> broadcast_phase list" where
  "broadcast_legal_successors p = (case p of
     BcDisabled \<Rightarrow> [BcReady, CancelledBeforeBroadcast, Broadcasting, ManualInterventionRequired]
   | BcReady \<Rightarrow> [Broadcasting, CancelledBeforeBroadcast, ManualInterventionRequired]
   | Broadcasting \<Rightarrow> [Submitted, SubmissionUnknown, ManualInterventionRequired]
   | SubmissionUnknown \<Rightarrow> [Submitted, BcPending, MinedSuccess, MinedReverted, Dropped, ManualInterventionRequired]
   | Submitted \<Rightarrow> [BcPending, MinedSuccess, MinedReverted, Dropped, Reorged, ManualInterventionRequired]
   | BcPending \<Rightarrow> [MinedSuccess, MinedReverted, Dropped, Reorged, ManualInterventionRequired]
   | MinedSuccess \<Rightarrow> [Confirming, Reorged, ManualInterventionRequired]
   | Confirming \<Rightarrow> [Confirmed, Reorged, ManualInterventionRequired]
   | Confirmed \<Rightarrow> [Reorged, ManualInterventionRequired]
   | Reorged \<Rightarrow> [BcPending, Confirming, ManualInterventionRequired]
   | MinedReverted \<Rightarrow> [] | Dropped \<Rightarrow> [] | CancelledBeforeBroadcast \<Rightarrow> [] | ManualInterventionRequired \<Rightarrow> [])"

definition ALL_BROADCAST :: "broadcast_phase list" where
  "ALL_BROADCAST = [BcDisabled, BcReady, Broadcasting, SubmissionUnknown, Submitted, BcPending, MinedSuccess, MinedReverted,
     Confirming, Confirmed, Reorged, Dropped, ManualInterventionRequired, CancelledBeforeBroadcast]"


section \<open>The machines\<close>

definition phase_rank :: "execution_phase \<Rightarrow> nat" where
  "phase_rank p = (case p of
     Discovered \<Rightarrow> 9 | Validating \<Rightarrow> 8 | ReadyToSimulate \<Rightarrow> 7 | Simulating \<Rightarrow> 6 | SimulationSucceeded \<Rightarrow> 5
   | SimulationFailed \<Rightarrow> 1 | AwaitingSignature \<Rightarrow> 4 | Signing \<Rightarrow> 3 | SignatureVerified \<Rightarrow> 2 | ReadyForBroadcast \<Rightarrow> 1
   | BroadcastDisabled \<Rightarrow> 0 | ExecCancelled \<Rightarrow> 0 | Stale \<Rightarrow> 0 | ExecFailed \<Rightarrow> 0)"

lemmas phase_defs = phase_edge_def phase_can_transition_to_def phase_is_terminal_def phase_legal_successors_def ALL_PHASES_def phase_rank_def
lemmas broadcast_defs = broadcast_edge_def broadcast_can_transition_to_def broadcast_is_terminal_def broadcast_legal_successors_def ALL_BROADCAST_def

lemma phase_can_iff: "phase_can_transition_to p q \<longleftrightarrow> q \<in> set (phase_legal_successors p)"
  by (cases p; cases q) (simp_all add: phase_defs)

interpretation exec_machine: ranked_machine ALL_PHASES phase_can_transition_to phase_legal_successors phase_is_terminal phase_rank
proof
  fix p q
  show "p \<in> set ALL_PHASES" by (cases p) (simp_all add: ALL_PHASES_def)
  show "phase_can_transition_to p q \<longleftrightarrow> q \<in> set (phase_legal_successors p)" by (rule phase_can_iff)
  show "\<not> phase_can_transition_to p p" by (simp add: phase_can_transition_to_def)
  show "phase_is_terminal p \<longleftrightarrow> phase_legal_successors p = []" by (cases p) (simp_all add: phase_defs)
  show "phase_can_transition_to p q \<Longrightarrow> phase_rank q < phase_rank p"
    unfolding phase_can_iff by (cases p) (auto simp: phase_legal_successors_def phase_rank_def)
qed

definition not_submitted :: "broadcast_phase \<Rightarrow> bool" where
  "not_submitted p = (p \<in> {BcDisabled, BcReady, Broadcasting})"

lemma broadcast_can_iff: "broadcast_can_transition_to p q \<longleftrightarrow> q \<in> set (broadcast_legal_successors p)"
  by (cases p; cases q) (simp_all add: broadcast_defs)

interpretation bc_machine: gated_machine ALL_BROADCAST broadcast_can_transition_to broadcast_legal_successors
  broadcast_is_terminal not_submitted Broadcasting
proof
  fix p q
  show "p \<in> set ALL_BROADCAST" by (cases p) (simp_all add: ALL_BROADCAST_def)
  show "broadcast_can_transition_to p q \<longleftrightarrow> q \<in> set (broadcast_legal_successors p)" by (rule broadcast_can_iff)
  show "\<not> broadcast_can_transition_to p p" by (simp add: broadcast_can_transition_to_def)
  show "broadcast_is_terminal p \<longleftrightarrow> broadcast_legal_successors p = []" by (cases p) (simp_all add: broadcast_defs)
  show "not_submitted Broadcasting" by (simp add: not_submitted_def)
  show "broadcast_can_transition_to p q \<Longrightarrow> \<not> not_submitted p \<Longrightarrow> \<not> not_submitted q"
    unfolding broadcast_can_iff by (cases p) (auto simp: broadcast_legal_successors_def not_submitted_def)
  show "broadcast_can_transition_to Broadcasting q \<Longrightarrow> \<not> not_submitted q"
    unfolding broadcast_can_iff by (auto simp: broadcast_legal_successors_def not_submitted_def)
qed

interpretation phase_codec: text_codec phase_as_str phase_parse
proof
  show "phase_parse (phase_as_str x) = Ok x" for x
    by (cases x) (simp_all add: phase_parse_def phase_as_str_def)
  show "phase_parse s = Ok x \<Longrightarrow> s = phase_as_str x" for s x
    by (auto simp: phase_parse_def phase_as_str_def split: if_splits)
qed

interpretation broadcast_codec: text_codec broadcast_as_str broadcast_parse
proof
  show "broadcast_parse (broadcast_as_str x) = Ok x" for x
    by (cases x) (simp_all add: broadcast_parse_def broadcast_as_str_def)
  show "broadcast_parse s = Ok x \<Longrightarrow> s = broadcast_as_str x" for s x
    by (auto simp: broadcast_parse_def broadcast_as_str_def split: if_splits)
qed


section \<open>Properties\<close>

lemma single_predecessors:
  "phase_can_transition_to p ReadyForBroadcast \<Longrightarrow> p = SignatureVerified"
  "phase_can_transition_to p SignatureVerified \<Longrightarrow> p = Signing"
  "phase_can_transition_to p Signing \<Longrightarrow> p = AwaitingSignature"
  "phase_can_transition_to p AwaitingSignature \<Longrightarrow> p = SimulationSucceeded"
  "phase_can_transition_to p SimulationSucceeded \<Longrightarrow> p = Simulating"
  "phase_can_transition_to p Simulating \<Longrightarrow> p = ReadyToSimulate"
  "phase_can_transition_to p ReadyToSimulate \<Longrightarrow> p = Validating"
  "phase_can_transition_to p Validating \<Longrightarrow> p = Discovered"
  "\<not> phase_can_transition_to p Discovered"
  unfolding phase_can_iff by (cases p; simp add: phase_legal_successors_def)+

definition broadcast_path :: "execution_phase list" where
  "broadcast_path = [Validating, ReadyToSimulate, Simulating, SimulationSucceeded, AwaitingSignature, Signing, SignatureVerified]"

text \<open>
  There is exactly one way for a new execution to become ready for broadcast: through
  validation, a successful simulation and a verified signature, in that order and without detour.
\<close>

theorem one_path_to_broadcast:
  "successively phase_can_transition_to (Discovered # ps @ [ReadyForBroadcast]) \<longleftrightarrow> ps = broadcast_path"
proof
  assume r: "successively phase_can_transition_to (Discovered # ps @ [ReadyForBroadcast])"
  obtain ps1 where 1: "ps = ps1 @ [SignatureVerified]" "successively phase_can_transition_to (Discovered # ps1 @ [SignatureVerified])"
    by (rule single_predecessor [OF r single_predecessors(1)]) auto
  obtain ps2 where 2: "ps1 = ps2 @ [Signing]" "successively phase_can_transition_to (Discovered # ps2 @ [Signing])"
    by (rule single_predecessor [OF 1(2) single_predecessors(2)]) auto
  obtain ps3 where 3: "ps2 = ps3 @ [AwaitingSignature]" "successively phase_can_transition_to (Discovered # ps3 @ [AwaitingSignature])"
    by (rule single_predecessor [OF 2(2) single_predecessors(3)]) auto
  obtain ps4 where 4: "ps3 = ps4 @ [SimulationSucceeded]" "successively phase_can_transition_to (Discovered # ps4 @ [SimulationSucceeded])"
    by (rule single_predecessor [OF 3(2) single_predecessors(4)]) auto
  obtain ps5 where 5: "ps4 = ps5 @ [Simulating]" "successively phase_can_transition_to (Discovered # ps5 @ [Simulating])"
    by (rule single_predecessor [OF 4(2) single_predecessors(5)]) auto
  obtain ps6 where 6: "ps5 = ps6 @ [ReadyToSimulate]" "successively phase_can_transition_to (Discovered # ps6 @ [ReadyToSimulate])"
    by (rule single_predecessor [OF 5(2) single_predecessors(6)]) auto
  obtain ps7 where 7: "ps6 = ps7 @ [Validating]" "successively phase_can_transition_to (Discovered # ps7 @ [Validating])"
    by (rule single_predecessor [OF 6(2) single_predecessors(7)]) auto
  have "ps7 = []"
  proof (cases ps7 rule: rev_cases)
    case (snoc qs q)
    then have "successively phase_can_transition_to ((Discovered # qs) @ [q, Validating])" using 7(2) by simp
    then have "successively phase_can_transition_to (Discovered # qs @ [q])" "q = Discovered"
      unfolding successively_snoc using single_predecessors(8) by auto
    then have "phase_can_transition_to (last (Discovered # qs)) Discovered"
      using successively_append_iff [of phase_can_transition_to "Discovered # qs" "[q]"] by simp
    then show ?thesis using single_predecessors(9) by blast
  qed
  then show "ps = broadcast_path" using 1 2 3 4 5 6 7 by (simp add: broadcast_path_def)
qed (simp add: broadcast_path_def phase_defs)

text \<open>
  C30: The pipeline before broadcast always ends: from any phase at most nine legal transitions are
  possible, a terminal phase can be reached, a phase without a legal transition is terminal, and a
  terminal phase is never left.
\<close>

theorem execution_phases_end:
  "(successively phase_can_transition_to (p # ps) \<longrightarrow> length ps \<le> 9) \<and>
   (\<exists>q. phase_can_transition_to\<^sup>*\<^sup>* p q \<and> phase_is_terminal q) \<and>
   ((\<forall>q. \<not> phase_can_transition_to p q) \<longleftrightarrow> phase_is_terminal p) \<and>
   (phase_is_terminal p \<longrightarrow> phase_can_transition_to\<^sup>*\<^sup>* p q \<longrightarrow> q = p)"
proof (intro conjI impI)
  assume "successively phase_can_transition_to (p # ps)"
  then have "length ps \<le> phase_rank p" by (rule exec_machine.run_bounded)
  also have "\<dots> \<le> 9" by (cases p) (simp_all add: phase_rank_def)
  finally show "length ps \<le> 9" .
qed (use exec_machine.completes exec_machine.progress exec_machine.terminal_no_edge exec_machine.terminal_stuck in blast)+

theorem execution_phases_end_witness:
  "length [Validating, ReadyToSimulate, Stale] \<le> 9 \<and> \<not> phase_can_transition_to\<^sup>*\<^sup>* Stale Validating"
  using execution_phases_end [of Discovered "[Validating, ReadyToSimulate, Stale]"] execution_phases_end [of Stale "[]" Validating]
  by (auto simp: phase_defs)

text \<open>
  A transaction is handed to the network at most once: no sequence of legal broadcast phases
  enters broadcasting twice, and after it the row is never again ready, disabled or cancelled
  before broadcast.  Every phase that is not terminal can be escalated to an operator.
\<close>

theorem broadcast_at_most_once:
  "(successively broadcast_can_transition_to ps \<longrightarrow> length (filter ((=) Broadcasting) ps) \<le> 1) \<and>
   (broadcast_can_transition_to\<^sup>*\<^sup>* Broadcasting q \<longrightarrow> q \<notin> {BcDisabled, BcReady, CancelledBeforeBroadcast}) \<and>
   (\<not> broadcast_is_terminal p \<longleftrightarrow> broadcast_can_transition_to p ManualInterventionRequired)"
proof (intro conjI impI)
  let ?S = "\<lambda>p. p \<notin> {BcDisabled, BcReady, CancelledBeforeBroadcast}"
  assume "broadcast_can_transition_to\<^sup>*\<^sup>* Broadcasting q"
  moreover have "?S b" if "broadcast_can_transition_to a b" "?S a" for a b
    using that unfolding broadcast_can_iff by (cases a) (auto simp: broadcast_legal_successors_def)
  ultimately show "?S q" by (rule bc_machine.closed_reach) simp_all
next
  show "\<not> broadcast_is_terminal p \<longleftrightarrow> broadcast_can_transition_to p ManualInterventionRequired"
    by (cases p) (simp_all add: broadcast_defs)
qed (rule bc_machine.gate_once)

theorem broadcast_at_most_once_witness:
  "length (filter ((=) Broadcasting) [BcDisabled, BcReady, Broadcasting, Submitted, Reorged, BcPending]) \<le> 1"
  using broadcast_at_most_once [of "[BcDisabled, BcReady, Broadcasting, Submitted, Reorged, BcPending]"]
  by (simp add: broadcast_defs)

end
