(* ===== verification/Execution_Store.thy ===== *)
theory Execution_Store
  imports Execution_Phases Signing "HOL-Library.List_Lexorder" "HOL-Library.Char_ord" "HOL-Library.Product_Lexorder"
begin

text \<open>
  The rows of a settlement, \<^verbatim>\<open>src/hybrid_v2/execution/persistence.rs\<close> and
  \<^verbatim>\<open>src/hybrid_v2/execution/broadcast_state.rs\<close>, and the execution surface of the in-memory store,
  \<^verbatim>\<open>InMemoryProjectionStore\<close> in \<^verbatim>\<open>src/hybrid_v2/persistence.rs\<close>.  A JSON value is kept as its text,
  which the store never inspects; the keys of the ordered maps compare as byte strings do.
\<close>


section \<open>Rows and patches\<close>

type_synonym i16 = int
type_synonym i32 = int
type_synonym json = string

record execution_request_row =
  er_canonical_execution_id :: string
  er_deployment_id :: i64
  er_chain_id :: i64
  er_execution_kind :: string
  er_buyer_order_hash :: string
  er_seller_order_hash :: string
  er_buyer_subkey :: string
  er_seller_subkey :: string
  er_series_id :: string
  er_fill_quantity_1e8 :: string
  er_premium_amount :: string
  er_fee_schedule_epoch :: "i64 option"
  er_source_matched_execution_id :: "string option"
  er_target_contract :: string
  er_selector :: string
  er_calldata_hash :: "string option"
  er_calldata_bytes :: "bytes option"
  er_plan_hash :: "string option"
  er_tx_value_wei :: string
  er_simulation_block_number :: "i64 option"
  er_simulation_block_hash :: "string option"
  er_simulation_gas_estimate :: "i64 option"
  er_simulation_result_json :: "json option"
  er_signer_identity :: "string option"
  er_signing_payload_hash :: "string option"
  er_signature_r :: "string option"
  er_signature_s :: "string option"
  er_signature_v :: "i16 option"
  er_recovered_signer :: "string option"
  er_gas_limit :: "i64 option"
  er_max_fee_per_gas_wei :: "string option"
  er_max_priority_fee_per_gas_wei :: "string option"
  er_reserved_nonce :: "i64 option"
  er_phase :: execution_phase
  er_failure_class :: "string option"
  er_failure_detail :: "string option"
  er_retry_count :: i32
  er_holder_epoch :: "i64 option"
  er_signer_request_idempotency_key :: "string option"
  er_created_at_ms :: timestamp_ms
  er_updated_at_ms :: timestamp_ms

record execution_request_patch =
  ep_target_contract :: "string option"
  ep_selector :: "string option"
  ep_calldata_hash :: "string option"
  ep_calldata_bytes :: "bytes option"
  ep_plan_hash :: "string option"
  ep_tx_value_wei :: "string option"
  ep_simulation_block_number :: "i64 option"
  ep_simulation_block_hash :: "string option"
  ep_simulation_gas_estimate :: "i64 option"
  ep_simulation_result_json :: "json option"
  ep_signer_identity :: "string option"
  ep_signing_payload_hash :: "string option"
  ep_signature_r :: "string option"
  ep_signature_s :: "string option"
  ep_signature_v :: "i16 option"
  ep_recovered_signer :: "string option"
  ep_gas_limit :: "i64 option"
  ep_max_fee_per_gas_wei :: "string option"
  ep_max_priority_fee_per_gas_wei :: "string option"
  ep_reserved_nonce :: "i64 option"
  ep_failure_class :: "string option"
  ep_failure_detail :: "string option"
  ep_holder_epoch :: "i64 option"
  ep_retry_count :: "i32 option"
  ep_signer_request_idempotency_key :: "string option"

record broadcast_state_row =
  br_canonical_execution_id :: string
  br_tx_hash :: "string option"
  br_envelope_hash :: "string option"
  br_envelope_bytes_hash :: "string option"
  br_phase :: broadcast_phase
  br_submission_attempt_count :: i32
  br_first_submission_at_ms :: "timestamp_ms option"
  br_last_submission_at_ms :: "timestamp_ms option"
  br_provider_classification :: "string option"
  br_receipt_tx_hash :: "string option"
  br_receipt_block_number :: "i64 option"
  br_receipt_block_hash :: "string option"
  br_receipt_status :: "i16 option"
  br_gas_used :: "i64 option"
  br_effective_gas_price_wei :: "string option"
  br_actual_tx_cost_wei :: "string option"
  br_confirmation_count :: i32
  br_canonicality_state :: string
  br_correlated_execution_status :: "string option"
  br_last_checked_head :: "i64 option"
  br_last_checked_finalized_head :: "i64 option"
  br_reorg_count :: i32
  br_failure_class :: "string option"
  br_failure_detail :: "string option"
  br_terminal_at_ms :: "timestamp_ms option"
  br_created_at_ms :: timestamp_ms
  br_updated_at_ms :: timestamp_ms

record broadcast_state_patch =
  bp_submission_attempt_count :: "i32 option"
  bp_first_submission_at_ms :: "timestamp_ms option"
  bp_last_submission_at_ms :: "timestamp_ms option"
  bp_provider_classification :: "string option"
  bp_receipt_tx_hash :: "string option"
  bp_receipt_block_number :: "i64 option"
  bp_receipt_block_hash :: "string option"
  bp_receipt_status :: "i16 option"
  bp_gas_used :: "i64 option"
  bp_effective_gas_price_wei :: "string option"
  bp_actual_tx_cost_wei :: "string option"
  bp_confirmation_count :: "i32 option"
  bp_canonicality_state :: "string option"
  bp_correlated_execution_status :: "string option"
  bp_last_checked_head :: "i64 option"
  bp_last_checked_finalized_head :: "i64 option"
  bp_reorg_count :: "i32 option"
  bp_failure_class :: "string option"
  bp_failure_detail :: "string option"
  bp_terminal_at_ms :: "timestamp_ms option"

record execution_store =
  hs_execution_requests :: "(string, execution_request_row) btreemap"
  hs_execution_attempts :: "(i64, string \<times> i32 \<times> execution_phase \<times> timestamp_ms \<times> json option) btreemap"
  hs_next_execution_attempt_id :: i64
  hs_executor_nonces :: "(i64 \<times> string \<times> i64, string option \<times> timestamp_ms \<times> string) btreemap"
  hs_broadcast_states :: "(string, broadcast_state_row) btreemap"

definition new_execution_store :: execution_store where
  "new_execution_store = \<lparr> hs_execution_requests = [], hs_execution_attempts = [], hs_next_execution_attempt_id = 0,
     hs_executor_nonces = [], hs_broadcast_states = [] \<rparr>"


section \<open>Execution requests\<close>

definition insert_execution_request :: "execution_request_row \<Rightarrow> execution_store \<Rightarrow> bool \<times> execution_store" where
  "insert_execution_request row st =
     (case bt_get (hs_execution_requests st) (er_canonical_execution_id row) of
        Some _ \<Rightarrow> (False, st)
      | None \<Rightarrow> (True, st\<lparr>hs_execution_requests := bt_insert (er_canonical_execution_id row) row (hs_execution_requests st)\<rparr>))"

definition get_execution_request :: "execution_store \<Rightarrow> string \<Rightarrow> execution_request_row option" where
  "get_execution_request st execution_id = bt_get (hs_execution_requests st) execution_id"

text \<open>A field that may be set once: a patch conflicts with a different value already there.\<close>

definition conflicts :: "'a option \<Rightarrow> 'a option \<Rightarrow> bool" where
  "conflicts patch existing = (case (patch, existing) of (Some new_value, Some old) \<Rightarrow> old \<noteq> new_value | _ \<Rightarrow> False)"

definition set_if_some :: "'a option \<Rightarrow> 'a option \<Rightarrow> 'a option" where
  "set_if_some patch old = (case patch of Some v \<Rightarrow> Some v | None \<Rightarrow> old)"

definition value_or :: "'a option \<Rightarrow> 'a \<Rightarrow> 'a" where
  "value_or patch old = (case patch of Some v \<Rightarrow> v | None \<Rightarrow> old)"

definition apply_request_patch :: "execution_request_patch \<Rightarrow> execution_request_row \<Rightarrow> execution_request_row" where
  "apply_request_patch patch row =
     row\<lparr>er_target_contract := value_or (ep_target_contract patch) (er_target_contract row),
       er_selector := value_or (ep_selector patch) (er_selector row),
       er_calldata_hash := set_if_some (ep_calldata_hash patch) (er_calldata_hash row),
       er_calldata_bytes := set_if_some (ep_calldata_bytes patch) (er_calldata_bytes row),
       er_plan_hash := set_if_some (ep_plan_hash patch) (er_plan_hash row),
       er_tx_value_wei := value_or (ep_tx_value_wei patch) (er_tx_value_wei row),
       er_simulation_block_number := set_if_some (ep_simulation_block_number patch) (er_simulation_block_number row),
       er_simulation_block_hash := set_if_some (ep_simulation_block_hash patch) (er_simulation_block_hash row),
       er_simulation_gas_estimate := set_if_some (ep_simulation_gas_estimate patch) (er_simulation_gas_estimate row),
       er_simulation_result_json := set_if_some (ep_simulation_result_json patch) (er_simulation_result_json row),
       er_signer_identity := set_if_some (ep_signer_identity patch) (er_signer_identity row),
       er_signing_payload_hash := set_if_some (ep_signing_payload_hash patch) (er_signing_payload_hash row),
       er_signature_r := set_if_some (ep_signature_r patch) (er_signature_r row),
       er_signature_s := set_if_some (ep_signature_s patch) (er_signature_s row),
       er_signature_v := set_if_some (ep_signature_v patch) (er_signature_v row),
       er_recovered_signer := set_if_some (ep_recovered_signer patch) (er_recovered_signer row),
       er_gas_limit := set_if_some (ep_gas_limit patch) (er_gas_limit row),
       er_max_fee_per_gas_wei := set_if_some (ep_max_fee_per_gas_wei patch) (er_max_fee_per_gas_wei row),
       er_max_priority_fee_per_gas_wei := set_if_some (ep_max_priority_fee_per_gas_wei patch) (er_max_priority_fee_per_gas_wei row),
       er_reserved_nonce := set_if_some (ep_reserved_nonce patch) (er_reserved_nonce row),
       er_failure_class := set_if_some (ep_failure_class patch) (er_failure_class row),
       er_failure_detail := set_if_some (ep_failure_detail patch) (er_failure_detail row),
       er_holder_epoch := set_if_some (ep_holder_epoch patch) (er_holder_epoch row),
       er_retry_count := value_or (ep_retry_count patch) (er_retry_count row)\<rparr>"

definition put_request :: "string \<Rightarrow> execution_request_row \<Rightarrow> execution_store \<Rightarrow> execution_store" where
  "put_request i row st = st\<lparr>hs_execution_requests := bt_modify i (\<lambda>_. row) (hs_execution_requests st)\<rparr>"

definition update_execution_phase ::
  "string \<Rightarrow> execution_phase \<Rightarrow> execution_phase \<Rightarrow> timestamp_ms \<Rightarrow> execution_request_patch \<Rightarrow> execution_store
     \<Rightarrow> (backend_error + bool) \<times> execution_store" where
  "update_execution_phase execution_id p_from p_to now patch st =
     (if \<not> phase_can_transition_to p_from p_to then (Err Persistence, st)
      else case bt_get (hs_execution_requests st) execution_id of
             None \<Rightarrow> (Ok False, st)
           | Some row \<Rightarrow>
               if er_phase row \<noteq> p_from then (Ok False, st)
               else if conflicts (ep_plan_hash patch) (er_plan_hash row) then (Err Persistence, st)
               else if conflicts (ep_calldata_hash patch) (er_calldata_hash row) then (Err Persistence, st)
               else if conflicts (ep_calldata_bytes patch) (er_calldata_bytes row) then (Err Persistence, st)
               else let row' = apply_request_patch patch row
                    in if conflicts (ep_signer_request_idempotency_key patch) (er_signer_request_idempotency_key row')
                       then (Err Persistence, put_request execution_id row' st)
                       else (Ok True, put_request execution_id
                              (row'\<lparr>er_signer_request_idempotency_key :=
                                  set_if_some (ep_signer_request_idempotency_key patch) (er_signer_request_idempotency_key row'),
                                er_phase := p_to, er_updated_at_ms := now\<rparr>) st))"

definition i32_next :: "nat \<Rightarrow> i32" where
  "i32_next n = sint (of_nat n + 1 :: 32 word)"

definition i64_next :: "i64 \<Rightarrow> i64" where
  "i64_next x = sint (word_of_int x + 1 :: 64 word)"

definition append_execution_attempt ::
  "string \<Rightarrow> execution_phase \<Rightarrow> json option \<Rightarrow> timestamp_ms \<Rightarrow> execution_store \<Rightarrow> (backend_error + i64) \<times> execution_store" where
  "append_execution_attempt execution_id phase detail now st =
     (if bt_get (hs_execution_requests st) execution_id = None then (Err Persistence, st)
      else let attempt_number = i32_next (length (filter (\<lambda>(_, v). fst v = execution_id) (hs_execution_attempts st)));
               i = i64_next (hs_next_execution_attempt_id st)
           in (Ok i, st\<lparr>hs_next_execution_attempt_id := i,
                 hs_execution_attempts := bt_insert i (execution_id, attempt_number, phase, now, detail) (hs_execution_attempts st)\<rparr>))"

definition truncate_limit :: "i64 \<Rightarrow> 'a list \<Rightarrow> 'a list" where
  "truncate_limit limit rows = (if limit > 0 then take (nat limit) rows else rows)"

definition list_execution_requests_by_deployment :: "execution_store \<Rightarrow> i64 \<Rightarrow> i64 \<Rightarrow> execution_request_row list" where
  "list_execution_requests_by_deployment st deployment_id limit =
     truncate_limit limit (sort_key (\<lambda>r. - er_updated_at_ms r)
       (filter (\<lambda>r. er_deployment_id r = deployment_id) (map snd (hs_execution_requests st))))"


section \<open>Nonces of the executor\<close>

definition reserve_executor_nonce ::
  "i64 \<Rightarrow> string \<Rightarrow> i64 \<Rightarrow> string \<Rightarrow> timestamp_ms \<Rightarrow> execution_store \<Rightarrow> bool \<times> execution_store" where
  "reserve_executor_nonce chain_id signer nonce execution_id now st =
     (case bt_get (hs_executor_nonces st) (chain_id, signer, nonce) of
        Some _ \<Rightarrow> (False, st)
      | None \<Rightarrow> (True, st\<lparr>hs_executor_nonces :=
          bt_insert (chain_id, signer, nonce) (Some execution_id, now, ''RESERVED'') (hs_executor_nonces st)\<rparr>))"

definition mark_executor_nonce_abandoned :: "i64 \<Rightarrow> string \<Rightarrow> i64 \<Rightarrow> execution_store \<Rightarrow> execution_store" where
  "mark_executor_nonce_abandoned chain_id signer nonce st =
     st\<lparr>hs_executor_nonces := bt_modify (chain_id, signer, nonce) (\<lambda>(i, t, _). (i, t, ''ABANDONED'')) (hs_executor_nonces st)\<rparr>"

definition get_reserved_nonces_for :: "execution_store \<Rightarrow> i64 \<Rightarrow> string \<Rightarrow> i64 list" where
  "get_reserved_nonces_for st chain_id signer =
     sort (map (\<lambda>(_, _, n). n) (filter (\<lambda>(c, s, _). c = chain_id \<and> s = signer) (bt_keys (hs_executor_nonces st))))"


section \<open>Broadcast states\<close>

definition new_broadcast_row :: "string \<Rightarrow> timestamp_ms \<Rightarrow> broadcast_state_row" where
  "new_broadcast_row execution_id now =
     \<lparr> br_canonical_execution_id = execution_id,
       br_tx_hash = None,
       br_envelope_hash = None,
       br_envelope_bytes_hash = None,
       br_phase = BcDisabled,
       br_submission_attempt_count = 0,
       br_first_submission_at_ms = None,
       br_last_submission_at_ms = None,
       br_provider_classification = None,
       br_receipt_tx_hash = None,
       br_receipt_block_number = None,
       br_receipt_block_hash = None,
       br_receipt_status = None,
       br_gas_used = None,
       br_effective_gas_price_wei = None,
       br_actual_tx_cost_wei = None,
       br_confirmation_count = 0,
       br_canonicality_state = ''UNKNOWN'',
       br_correlated_execution_status = None,
       br_last_checked_head = None,
       br_last_checked_finalized_head = None,
       br_reorg_count = 0,
       br_failure_class = None,
       br_failure_detail = None,
       br_terminal_at_ms = None,
       br_created_at_ms = now,
       br_updated_at_ms = now \<rparr>"

definition insert_broadcast_state :: "string \<Rightarrow> timestamp_ms \<Rightarrow> execution_store \<Rightarrow> (backend_error + bool) \<times> execution_store" where
  "insert_broadcast_state execution_id now st =
     (if bt_get (hs_execution_requests st) execution_id = None then (Err Persistence, st)
      else case bt_get (hs_broadcast_states st) execution_id of
             Some _ \<Rightarrow> (Ok False, st)
           | None \<Rightarrow> (Ok True, st\<lparr>hs_broadcast_states :=
               bt_insert execution_id (new_broadcast_row execution_id now) (hs_broadcast_states st)\<rparr>))"

definition get_broadcast_state :: "execution_store \<Rightarrow> string \<Rightarrow> broadcast_state_row option" where
  "get_broadcast_state st execution_id = bt_get (hs_broadcast_states st) execution_id"

definition get_broadcast_state_by_tx_hash :: "execution_store \<Rightarrow> string \<Rightarrow> broadcast_state_row option" where
  "get_broadcast_state_by_tx_hash st tx_hash =
     List.find (\<lambda>r. br_tx_hash r = Some tx_hash) (map snd (hs_broadcast_states st))"

definition apply_broadcast_patch :: "broadcast_state_patch \<Rightarrow> broadcast_state_row \<Rightarrow> broadcast_state_row" where
  "apply_broadcast_patch patch row =
     row\<lparr>br_submission_attempt_count := value_or (bp_submission_attempt_count patch) (br_submission_attempt_count row),
       br_first_submission_at_ms := set_if_some (bp_first_submission_at_ms patch) (br_first_submission_at_ms row),
       br_last_submission_at_ms := set_if_some (bp_last_submission_at_ms patch) (br_last_submission_at_ms row),
       br_provider_classification := set_if_some (bp_provider_classification patch) (br_provider_classification row),
       br_receipt_tx_hash := set_if_some (bp_receipt_tx_hash patch) (br_receipt_tx_hash row),
       br_receipt_block_number := set_if_some (bp_receipt_block_number patch) (br_receipt_block_number row),
       br_receipt_block_hash := set_if_some (bp_receipt_block_hash patch) (br_receipt_block_hash row),
       br_receipt_status := set_if_some (bp_receipt_status patch) (br_receipt_status row),
       br_gas_used := set_if_some (bp_gas_used patch) (br_gas_used row),
       br_effective_gas_price_wei := set_if_some (bp_effective_gas_price_wei patch) (br_effective_gas_price_wei row),
       br_actual_tx_cost_wei := set_if_some (bp_actual_tx_cost_wei patch) (br_actual_tx_cost_wei row),
       br_confirmation_count := value_or (bp_confirmation_count patch) (br_confirmation_count row),
       br_canonicality_state := value_or (bp_canonicality_state patch) (br_canonicality_state row),
       br_correlated_execution_status := set_if_some (bp_correlated_execution_status patch) (br_correlated_execution_status row),
       br_last_checked_head := set_if_some (bp_last_checked_head patch) (br_last_checked_head row),
       br_last_checked_finalized_head := set_if_some (bp_last_checked_finalized_head patch) (br_last_checked_finalized_head row),
       br_reorg_count := value_or (bp_reorg_count patch) (br_reorg_count row),
       br_failure_class := set_if_some (bp_failure_class patch) (br_failure_class row),
       br_failure_detail := set_if_some (bp_failure_detail patch) (br_failure_detail row),
       br_terminal_at_ms := set_if_some (bp_terminal_at_ms patch) (br_terminal_at_ms row)\<rparr>"

definition put_broadcast :: "string \<Rightarrow> broadcast_state_row \<Rightarrow> execution_store \<Rightarrow> execution_store" where
  "put_broadcast i row st = st\<lparr>hs_broadcast_states := bt_modify i (\<lambda>_. row) (hs_broadcast_states st)\<rparr>"

definition update_broadcast_phase ::
  "string \<Rightarrow> broadcast_phase \<Rightarrow> broadcast_phase \<Rightarrow> timestamp_ms \<Rightarrow> broadcast_state_patch \<Rightarrow> execution_store
     \<Rightarrow> (backend_error + bool) \<times> execution_store" where
  "update_broadcast_phase execution_id p_from p_to now patch st =
     (if \<not> broadcast_can_transition_to p_from p_to then (Err Persistence, st)
      else case bt_get (hs_broadcast_states st) execution_id of
             None \<Rightarrow> (Ok False, st)
           | Some row \<Rightarrow>
               if br_phase row \<noteq> p_from then (Ok False, st)
               else (Ok True, put_broadcast execution_id
                       ((apply_broadcast_patch patch row)\<lparr>br_phase := p_to, br_updated_at_ms := now\<rparr>) st))"

definition list_pending_broadcast_states ::
  "execution_store \<Rightarrow> i64 \<Rightarrow> broadcast_phase list \<Rightarrow> i64 \<Rightarrow> broadcast_state_row list" where
  "list_pending_broadcast_states st deployment_id phase_set limit =
     truncate_limit limit (sort_key (\<lambda>r. - br_updated_at_ms r)
       (filter (\<lambda>r. (case bt_get (hs_execution_requests st) (br_canonical_execution_id r) of
                       Some er \<Rightarrow> er_deployment_id er = deployment_id
                     | None \<Rightarrow> False) \<and> br_phase r \<in> set phase_set) (map snd (hs_broadcast_states st))))"

definition set_broadcast_tx_hash ::
  "string \<Rightarrow> string \<Rightarrow> string \<Rightarrow> string \<Rightarrow> timestamp_ms \<Rightarrow> execution_store \<Rightarrow> (backend_error + unit) \<times> execution_store" where
  "set_broadcast_tx_hash execution_id tx_hash envelope_hash envelope_bytes_hash now st =
     (case bt_get (hs_broadcast_states st) execution_id of
        None \<Rightarrow> (Err Persistence, st)
      | Some row \<Rightarrow>
          if list_ex (\<lambda>(existing, incoming). conflicts (Some incoming) existing)
               [(br_tx_hash row, tx_hash), (br_envelope_hash row, envelope_hash), (br_envelope_bytes_hash row, envelope_bytes_hash)]
          then (Err Persistence, st)
          else (Ok (), put_broadcast execution_id
                  (row\<lparr>br_tx_hash := Some tx_hash, br_envelope_hash := Some envelope_hash,
                     br_envelope_bytes_hash := Some envelope_bytes_hash, br_updated_at_ms := now\<rparr>) st))"


section \<open>Runs of the store\<close>

text \<open>The calls that change the store, in any order and from any number of workers.\<close>

datatype store_call =
    InsertRequest execution_request_row
  | UpdatePhase string execution_phase execution_phase timestamp_ms execution_request_patch
  | AppendAttempt string execution_phase "json option" timestamp_ms
  | ReserveNonce i64 string i64 string timestamp_ms
  | AbandonNonce i64 string i64
  | InsertBroadcast string timestamp_ms
  | UpdateBroadcast string broadcast_phase broadcast_phase timestamp_ms broadcast_state_patch
  | SetTxHash string string string string timestamp_ms

text \<open>The outcome tells whether the call reported that it took effect.\<close>

fun run_call :: "store_call \<Rightarrow> execution_store \<Rightarrow> bool \<times> execution_store" where
  "run_call (InsertRequest row) st = insert_execution_request row st"
| "run_call (UpdatePhase i f t now p) st = (case update_execution_phase i f t now p st of (r, st') \<Rightarrow> (r = Ok True, st'))"
| "run_call (AppendAttempt i ph d now) st = (case append_execution_attempt i ph d now st of (r, st') \<Rightarrow> (is_ok r, st'))"
| "run_call (ReserveNonce c s n i now) st = reserve_executor_nonce c s n i now st"
| "run_call (AbandonNonce c s n) st = (True, mark_executor_nonce_abandoned c s n st)"
| "run_call (InsertBroadcast i now) st = (case insert_broadcast_state i now st of (r, st') \<Rightarrow> (r = Ok True, st'))"
| "run_call (UpdateBroadcast i f t now p) st = (case update_broadcast_phase i f t now p st of (r, st') \<Rightarrow> (r = Ok True, st'))"
| "run_call (SetTxHash i a b c now) st = (case set_broadcast_tx_hash i a b c now st of (r, st') \<Rightarrow> (is_ok r, st'))"

primrec run_calls :: "store_call list \<Rightarrow> execution_store \<Rightarrow> execution_store" where
  "run_calls [] st = st"
| "run_calls (c # cs) st = run_calls cs (snd (run_call c st))"

text \<open>How many calls of a kind took effect in a run.\<close>

primrec took_effect :: "(store_call \<Rightarrow> bool) \<Rightarrow> store_call list \<Rightarrow> execution_store \<Rightarrow> nat" where
  "took_effect P [] st = 0"
| "took_effect P (c # cs) st = (if P c \<and> fst (run_call c st) then 1 else 0) + took_effect P cs (snd (run_call c st))"

text \<open>A budget that every call of a kind uses up bounds their number.\<close>

lemma took_effect_bound:
  assumes "\<And>c st. ok st \<Longrightarrow> ok (snd (run_call c st)) \<and> (if P c \<and> fst (run_call c st) then 1 else 0) + budget (snd (run_call c st)) \<le> budget st"
    and "ok st"
  shows "took_effect P cs st \<le> budget st"
  using assms(2)
proof (induction cs arbitrary: st)
  case (Cons c cs)
  from assms(1) [OF Cons.prems, of c] Cons.IH [of "snd (run_call c st)"] show ?case by simp
qed simp


section \<open>The invariant\<close>

definition execution_store_inv :: "execution_store \<Rightarrow> bool" where
  "execution_store_inv st =
     (bt_ok (hs_execution_requests st) \<and> bt_ok (hs_executor_nonces st) \<and> bt_ok (hs_broadcast_states st) \<and>
      (\<forall>i r. bt_get (hs_execution_requests st) i = Some r \<longrightarrow> er_canonical_execution_id r = i) \<and>
      (\<forall>i r. bt_get (hs_broadcast_states st) i = Some r \<longrightarrow>
         br_canonical_execution_id r = i \<and> bt_get (hs_execution_requests st) i \<noteq> None))"

lemma new_execution_store_inv: "execution_store_inv new_execution_store"
  by (simp add: execution_store_inv_def new_execution_store_def)

lemma patched_ids [simp]:
  "er_canonical_execution_id (apply_request_patch p r) = er_canonical_execution_id r"
  "er_phase (apply_request_patch p r) = er_phase r"
  "br_canonical_execution_id (apply_broadcast_patch q b) = br_canonical_execution_id b"
  "br_tx_hash (apply_broadcast_patch q b) = br_tx_hash b"
  "br_envelope_hash (apply_broadcast_patch q b) = br_envelope_hash b"
  "br_envelope_bytes_hash (apply_broadcast_patch q b) = br_envelope_bytes_hash b"
  "er_signer_request_idempotency_key (apply_request_patch p r) = er_signer_request_idempotency_key r"
  by (simp_all add: apply_request_patch_def apply_broadcast_patch_def)

lemma put_simps [simp]:
  "hs_executor_nonces (put_request i r st) = hs_executor_nonces st" "hs_broadcast_states (put_request i r st) = hs_broadcast_states st"
  "hs_executor_nonces (put_broadcast i b st) = hs_executor_nonces st"
  "hs_execution_requests (put_broadcast i b st) = hs_execution_requests st"
  by (simp_all add: put_request_def put_broadcast_def)

lemma put_request_inv:
  assumes "execution_store_inv st" "bt_get (hs_execution_requests st) i = Some r" "er_canonical_execution_id r' = er_canonical_execution_id r"
  shows "execution_store_inv (put_request i r' st)"
  using assms by (auto simp: execution_store_inv_def put_request_def bt_get_modify)

lemma put_broadcast_inv:
  assumes "execution_store_inv st" "bt_get (hs_broadcast_states st) i = Some r" "br_canonical_execution_id r' = br_canonical_execution_id r"
  shows "execution_store_inv (put_broadcast i r' st)"
  using assms by (auto simp: execution_store_inv_def put_broadcast_def bt_get_modify)


section \<open>What one call can do\<close>

text \<open>How a row may change: along legal phases only, and never in a field that is set once.\<close>

definition request_evolves :: "execution_request_row \<Rightarrow> execution_request_row \<Rightarrow> bool" where
  "request_evolves r r' =
     (er_canonical_execution_id r' = er_canonical_execution_id r \<and> phase_can_transition_to\<^sup>*\<^sup>* (er_phase r) (er_phase r') \<and>
      (\<forall>x. er_plan_hash r = Some x \<longrightarrow> er_plan_hash r' = Some x) \<and>
      (\<forall>x. er_calldata_hash r = Some x \<longrightarrow> er_calldata_hash r' = Some x) \<and>
      (\<forall>x. er_calldata_bytes r = Some x \<longrightarrow> er_calldata_bytes r' = Some x) \<and>
      (\<forall>x. er_signer_request_idempotency_key r = Some x \<longrightarrow> er_signer_request_idempotency_key r' = Some x))"

definition broadcast_evolves :: "broadcast_state_row \<Rightarrow> broadcast_state_row \<Rightarrow> bool" where
  "broadcast_evolves r r' =
     (br_canonical_execution_id r' = br_canonical_execution_id r \<and> broadcast_can_transition_to\<^sup>*\<^sup>* (br_phase r) (br_phase r') \<and>
      (\<forall>x. br_tx_hash r = Some x \<longrightarrow> br_tx_hash r' = Some x) \<and>
      (\<forall>x. br_envelope_hash r = Some x \<longrightarrow> br_envelope_hash r' = Some x) \<and>
      (\<forall>x. br_envelope_bytes_hash r = Some x \<longrightarrow> br_envelope_bytes_hash r' = Some x))"

lemma evolves_refl [simp]: "request_evolves r r" "broadcast_evolves b b"
  by (simp_all add: request_evolves_def broadcast_evolves_def)

lemma evolves_trans:
  "request_evolves a b \<Longrightarrow> request_evolves b c \<Longrightarrow> request_evolves a c"
  "broadcast_evolves x y \<Longrightarrow> broadcast_evolves y z \<Longrightarrow> broadcast_evolves x z"
  by (auto simp: request_evolves_def broadcast_evolves_def)

lemma kept_unless_conflict: "\<not> conflicts patch old \<Longrightarrow> old = Some x \<Longrightarrow> set_if_some patch old = Some x"
  by (auto simp: conflicts_def set_if_some_def split: option.splits)

lemma patch_keeps_hashes:
  assumes "\<not> conflicts (ep_plan_hash p) (er_plan_hash r)" "\<not> conflicts (ep_calldata_hash p) (er_calldata_hash r)"
    "\<not> conflicts (ep_calldata_bytes p) (er_calldata_bytes r)"
  shows "request_evolves r (apply_request_patch p r)"
  using assms [THEN kept_unless_conflict] by (simp add: request_evolves_def apply_request_patch_def)

lemma update_execution_phase_cases:
  obtains (none) "snd (update_execution_phase i f t now p st) = st" "fst (update_execution_phase i f t now p st) \<noteq> Ok True"
  | (put) r r' where "bt_get (hs_execution_requests st) i = Some r" "snd (update_execution_phase i f t now p st) = put_request i r' st"
      "request_evolves r r'" "fst (update_execution_phase i f t now p st) = Ok True \<Longrightarrow> er_phase r = f \<and> er_phase r' = t"
proof (cases "\<exists>r. phase_can_transition_to f t \<and> bt_get (hs_execution_requests st) i = Some r \<and> er_phase r = f \<and>
    \<not> conflicts (ep_plan_hash p) (er_plan_hash r) \<and> \<not> conflicts (ep_calldata_hash p) (er_calldata_hash r) \<and>
    \<not> conflicts (ep_calldata_bytes p) (er_calldata_bytes r)")
  case False
  then show ?thesis by (intro none) (auto simp: update_execution_phase_def split: option.splits)
next
  case True
  then obtain r where r: "phase_can_transition_to f t" "bt_get (hs_execution_requests st) i = Some r" "er_phase r = f"
    "\<not> conflicts (ep_plan_hash p) (er_plan_hash r)" "\<not> conflicts (ep_calldata_hash p) (er_calldata_hash r)"
    "\<not> conflicts (ep_calldata_bytes p) (er_calldata_bytes r)" by blast
  let ?r = "apply_request_patch p r"
  have e: "request_evolves r ?r" by (rule patch_keeps_hashes [OF r(4-6)])
  show ?thesis
  proof (cases "conflicts (ep_signer_request_idempotency_key p) (er_signer_request_idempotency_key r)")
    case True
    then show ?thesis using r e by (intro put [of r ?r]) (simp_all add: update_execution_phase_def)
  next
    case False
    let ?r' = "?r\<lparr>er_signer_request_idempotency_key := set_if_some (ep_signer_request_idempotency_key p) (er_signer_request_idempotency_key r),
        er_phase := t, er_updated_at_ms := now\<rparr>"
    have "request_evolves r ?r'" using e r(1,3) kept_unless_conflict [OF False] by (auto simp: request_evolves_def)
    then show ?thesis using r False by (intro put [of r ?r']) (simp_all add: update_execution_phase_def)
  qed
qed

lemma update_broadcast_phase_cases:
  obtains (none) "snd (update_broadcast_phase i f t now p st) = st" "fst (update_broadcast_phase i f t now p st) \<noteq> Ok True"
  | (put) r r' where "bt_get (hs_broadcast_states st) i = Some r" "snd (update_broadcast_phase i f t now p st) = put_broadcast i r' st"
      "broadcast_evolves r r'" "br_phase r = f" "br_phase r' = t" "broadcast_can_transition_to f t"
proof (cases "\<exists>r. broadcast_can_transition_to f t \<and> bt_get (hs_broadcast_states st) i = Some r \<and> br_phase r = f")
  case False
  then show ?thesis by (intro none) (auto simp: update_broadcast_phase_def split: option.splits)
next
  case True
  then obtain r where r: "broadcast_can_transition_to f t" "bt_get (hs_broadcast_states st) i = Some r" "br_phase r = f" by blast
  let ?r = "(apply_broadcast_patch p r)\<lparr>br_phase := t, br_updated_at_ms := now\<rparr>"
  have "broadcast_evolves r ?r" using r by (auto simp: broadcast_evolves_def)
  then show ?thesis using r by (intro put [of r ?r]) (simp_all add: update_broadcast_phase_def)
qed

lemma set_broadcast_tx_hash_cases:
  obtains (none) "snd (set_broadcast_tx_hash i a b c now st) = st"
  | (put) r r' where "bt_get (hs_broadcast_states st) i = Some r" "snd (set_broadcast_tx_hash i a b c now st) = put_broadcast i r' st"
      "broadcast_evolves r r'" "br_phase r' = br_phase r"
proof (cases "bt_get (hs_broadcast_states st) i")
  case None
  then show ?thesis by (intro none) (simp add: set_broadcast_tx_hash_def)
next
  case (Some r)
  let ?r = "r\<lparr>br_tx_hash := Some a, br_envelope_hash := Some b, br_envelope_bytes_hash := Some c, br_updated_at_ms := now\<rparr>"
  show ?thesis
  proof (cases "conflicts (Some a) (br_tx_hash r) \<or> conflicts (Some b) (br_envelope_hash r) \<or> conflicts (Some c) (br_envelope_bytes_hash r)")
    case True
    then show ?thesis using Some by (intro none) (auto simp: set_broadcast_tx_hash_def)
  next
    case False
    then have "broadcast_evolves r ?r" by (auto simp: broadcast_evolves_def conflicts_def)
    then show ?thesis using Some False by (intro put [of r ?r]) (auto simp: set_broadcast_tx_hash_def)
  qed
qed

text \<open>Rows are never dropped, and each evolves; a nonce stays on record.\<close>

definition store_evolves :: "execution_store \<Rightarrow> execution_store \<Rightarrow> bool" where
  "store_evolves st st' =
     ((\<forall>i r. get_execution_request st i = Some r \<longrightarrow> (\<exists>r'. get_execution_request st' i = Some r' \<and> request_evolves r r')) \<and>
      (\<forall>i b. get_broadcast_state st i = Some b \<longrightarrow> (\<exists>b'. get_broadcast_state st' i = Some b' \<and> broadcast_evolves b b')) \<and>
      (\<forall>k. bt_get (hs_executor_nonces st) k \<noteq> None \<longrightarrow> bt_get (hs_executor_nonces st') k \<noteq> None))"

lemma store_evolves_refl [simp]: "store_evolves st st"
  unfolding store_evolves_def using evolves_refl by blast

lemma store_evolves_trans: "store_evolves a b \<Longrightarrow> store_evolves b c \<Longrightarrow> store_evolves a c"
  unfolding store_evolves_def using evolves_trans by meson

lemma store_evolves_put:
  assumes "execution_store_inv st"
  shows "bt_get (hs_execution_requests st) i = Some r \<Longrightarrow> request_evolves r r' \<Longrightarrow> store_evolves st (put_request i r' st)"
    and "bt_get (hs_broadcast_states st) i = Some b \<Longrightarrow> broadcast_evolves b b' \<Longrightarrow> store_evolves st (put_broadcast i b' st)"
  using assms by (auto simp: store_evolves_def get_execution_request_def get_broadcast_state_def put_request_def put_broadcast_def
    execution_store_inv_def)

lemma run_call_step:
  assumes inv: "execution_store_inv st"
  shows "execution_store_inv (snd (run_call c st)) \<and> store_evolves st (snd (run_call c st))"
proof (cases c)
  case (InsertRequest row)
  then show ?thesis using inv
    by (auto simp: insert_execution_request_def execution_store_inv_def store_evolves_def get_execution_request_def
      get_broadcast_state_def split: option.splits)
next
  case (UpdatePhase i f t now p)
  have eq: "snd (run_call c st) = snd (update_execution_phase i f t now p st)" by (simp add: UpdatePhase split: prod.splits)
  show ?thesis
  proof (cases rule: update_execution_phase_cases [of i f t now p st])
    case (put r r')
    from put(3) have "er_canonical_execution_id r' = er_canonical_execution_id r" by (simp add: request_evolves_def)
    with put show ?thesis unfolding eq by (simp add: put_request_inv [OF inv] store_evolves_put [OF inv])
  qed (use inv eq in simp)
next
  case (AppendAttempt i ph d now)
  then show ?thesis using inv
    by (auto simp: append_execution_attempt_def execution_store_inv_def store_evolves_def get_execution_request_def
      get_broadcast_state_def Let_def)
next
  case (ReserveNonce ch s n i now)
  then show ?thesis using inv
    by (auto simp: reserve_executor_nonce_def execution_store_inv_def store_evolves_def get_execution_request_def
      get_broadcast_state_def split: option.splits)
next
  case (AbandonNonce ch s n)
  then show ?thesis using inv
    by (auto simp: mark_executor_nonce_abandoned_def execution_store_inv_def store_evolves_def get_execution_request_def
      get_broadcast_state_def)
next
  case (InsertBroadcast i now)
  then show ?thesis using inv
    by (auto simp: insert_broadcast_state_def execution_store_inv_def store_evolves_def get_execution_request_def
      get_broadcast_state_def new_broadcast_row_def split: option.splits)
next
  case (UpdateBroadcast i f t now p)
  have eq: "snd (run_call c st) = snd (update_broadcast_phase i f t now p st)" by (simp add: UpdateBroadcast split: prod.splits)
  show ?thesis
  proof (cases rule: update_broadcast_phase_cases [of i f t now p st])
    case (put r r')
    from put(3) have "br_canonical_execution_id r' = br_canonical_execution_id r" by (simp add: broadcast_evolves_def)
    with put show ?thesis unfolding eq by (simp add: put_broadcast_inv [OF inv] store_evolves_put [OF inv])
  qed (use inv eq in simp)
next
  case (SetTxHash i x y z now)
  have eq: "snd (run_call c st) = snd (set_broadcast_tx_hash i x y z now st)" by (simp add: SetTxHash split: prod.splits)
  show ?thesis
  proof (cases rule: set_broadcast_tx_hash_cases [of i x y z now st])
    case (put r r')
    from put(3) have "br_canonical_execution_id r' = br_canonical_execution_id r" by (simp add: broadcast_evolves_def)
    with put show ?thesis unfolding eq by (simp add: put_broadcast_inv [OF inv] store_evolves_put [OF inv])
  qed (use inv eq in simp)
qed

lemma run_calls_step:
  "execution_store_inv st \<Longrightarrow> execution_store_inv (run_calls cs st) \<and> store_evolves st (run_calls cs st)"
proof (induction cs arbitrary: st)
  case (Cons c cs)
  from run_call_step [OF Cons.prems, of c] Cons.IH show ?case by (auto intro: store_evolves_trans)
qed simp

lemma run_calls_append: "run_calls (cs @ cs') st = run_calls cs' (run_calls cs st)"
  by (induction cs arbitrary: st) simp_all

lemmas started = run_calls_step [OF new_execution_store_inv, THEN conjunct1]


section \<open>Budgets\<close>

definition submission_budget :: "string \<Rightarrow> execution_store \<Rightarrow> nat" where
  "submission_budget i st =
     (case get_broadcast_state st i of Some b \<Rightarrow> if br_phase b \<in> {BcDisabled, BcReady} then 1 else 0 | None \<Rightarrow> 1)"

definition nonce_budget :: "i64 \<times> string \<times> i64 \<Rightarrow> execution_store \<Rightarrow> nat" where
  "nonce_budget k st = (if bt_get (hs_executor_nonces st) k = None then 1 else 0)"

fun submits :: "string \<Rightarrow> store_call \<Rightarrow> bool" where
  "submits i (UpdateBroadcast j _ t _ _) = (j = i \<and> t = Broadcasting)"
| "submits i _ = False"

fun reserves :: "i64 \<times> string \<times> i64 \<Rightarrow> store_call \<Rightarrow> bool" where
  "reserves k (ReserveNonce c s n _ _) = ((c, s, n) = k)"
| "reserves k _ = False"

lemma left_ready:
  assumes "broadcast_can_transition_to\<^sup>*\<^sup>* p q" "p \<notin> {BcDisabled, BcReady}"
  shows "q \<notin> {BcDisabled, BcReady}"
proof (rule bc_machine.closed_reach [OF assms(1)])
  fix a b
  assume "broadcast_can_transition_to a b" "a \<notin> {BcDisabled, BcReady}"
  then show "b \<notin> {BcDisabled, BcReady}" unfolding broadcast_can_iff by (cases a) (auto simp: broadcast_legal_successors_def)
qed (rule assms(2))

lemma budget_falls:
  assumes "store_evolves st st'"
  shows "submission_budget i st' \<le> submission_budget i st" "nonce_budget k st' \<le> nonce_budget k st"
proof -
  show "submission_budget i st' \<le> submission_budget i st"
  proof (cases "get_broadcast_state st i")
    case None
    then show ?thesis by (simp add: submission_budget_def split: option.splits)
  next
    case (Some b)
    then obtain b' where "get_broadcast_state st' i = Some b'" "broadcast_evolves b b'" using assms unfolding store_evolves_def by blast
    then show ?thesis using Some left_ready [of "br_phase b" "br_phase b'"]
      by (auto simp: submission_budget_def broadcast_evolves_def)
  qed
next
  have "bt_get (hs_executor_nonces st) k \<noteq> None \<longrightarrow> bt_get (hs_executor_nonces st') k \<noteq> None"
    using assms unfolding store_evolves_def by blast
  then show "nonce_budget k st' \<le> nonce_budget k st" by (auto simp: nonce_budget_def)
qed

lemma submission_uses_budget:
  assumes inv: "execution_store_inv st" and c: "submits i c" "fst (run_call c st)"
  shows "submission_budget i st = 1" "submission_budget i (snd (run_call c st)) = 0"
proof -
  from c(1) obtain f now p where u: "c = UpdateBroadcast i f Broadcasting now p" by (cases c) auto
  let ?u = "update_broadcast_phase i f Broadcasting now p st"
  have eq: "fst ?u = Ok True" "snd (run_call c st) = snd ?u" using c(2) by (simp_all add: u split: prod.splits)
  have "submission_budget i st = 1 \<and> submission_budget i (snd ?u) = 0"
  proof (cases rule: update_broadcast_phase_cases [of i f Broadcasting now p st])
    case (put r r')
    have "f \<in> {BcDisabled, BcReady}" using put(6) unfolding broadcast_can_iff by (cases f) (simp_all add: broadcast_legal_successors_def)
    then show ?thesis using put inv
      by (auto simp: submission_budget_def get_broadcast_state_def put_broadcast_def execution_store_inv_def)
  qed (use eq in simp)
  then show "submission_budget i st = 1" "submission_budget i (snd (run_call c st)) = 0" by (simp_all add: eq)
qed

lemma reservation_uses_budget:
  assumes "execution_store_inv st" "reserves k c" "fst (run_call c st)"
  shows "nonce_budget k st = 1" "nonce_budget k (snd (run_call c st)) = 0"
  using assms by (cases c; auto simp: nonce_budget_def reserve_executor_nonce_def execution_store_inv_def split: option.splits)+


section \<open>Properties\<close>

text \<open>
  C29: Whatever calls reach the store, in whatever order, a row that once existed still exists
  afterwards, has moved along legal phases only and has kept every hash, calldata, idempotency key
  and transaction hash that was set on it; a terminal phase is never left.  Every broadcast row
  belongs to an execution request.
\<close>

theorem execution_rows_frozen:
  fixes cs cs' :: "store_call list"
  defines "st \<equiv> run_calls cs new_execution_store" and "st' \<equiv> run_calls (cs @ cs') new_execution_store"
  shows "execution_store_inv st' \<and> store_evolves st st' \<and>
    (get_execution_request st i = Some r \<and> phase_is_terminal (er_phase r) \<longrightarrow>
       (\<exists>r'. get_execution_request st' i = Some r' \<and> er_phase r' = er_phase r))"
proof -
  have eq: "st' = run_calls cs' st" by (simp add: st_def st'_def run_calls_append)
  have "execution_store_inv st" unfolding st_def by (rule started)
  then have step: "execution_store_inv st'" "store_evolves st st'" unfolding eq using run_calls_step by blast+
  moreover have "\<exists>r'. get_execution_request st' i = Some r' \<and> er_phase r' = er_phase r"
    if "get_execution_request st i = Some r" "phase_is_terminal (er_phase r)"
    using that step(2) exec_machine.terminal_stuck unfolding store_evolves_def request_evolves_def by blast
  ultimately show ?thesis by blast
qed

text \<open>A request as discovery stores it, and a patch that changes nothing.\<close>

definition sample_request :: execution_request_row where
  "sample_request =
     \<lparr> er_canonical_execution_id = ''e1'', er_deployment_id = 1, er_chain_id = 84532, er_execution_kind = ''MATCH'',
       er_buyer_order_hash = ''0xb'', er_seller_order_hash = ''0xs'', er_buyer_subkey = ''0x1'', er_seller_subkey = ''0x2'',
       er_series_id = ''1'', er_fill_quantity_1e8 = ''100'', er_premium_amount = ''5'', er_fee_schedule_epoch = None,
       er_source_matched_execution_id = None, er_target_contract = [], er_selector = [], er_calldata_hash = None,
       er_calldata_bytes = None, er_plan_hash = None, er_tx_value_wei = ''0'', er_simulation_block_number = None,
       er_simulation_block_hash = None, er_simulation_gas_estimate = None, er_simulation_result_json = None,
       er_signer_identity = None, er_signing_payload_hash = None, er_signature_r = None, er_signature_s = None,
       er_signature_v = None, er_recovered_signer = None, er_gas_limit = None, er_max_fee_per_gas_wei = None,
       er_max_priority_fee_per_gas_wei = None, er_reserved_nonce = None, er_phase = Discovered, er_failure_class = None,
       er_failure_detail = None, er_retry_count = 0, er_holder_epoch = None, er_signer_request_idempotency_key = None,
       er_created_at_ms = 1, er_updated_at_ms = 1 \<rparr>"

definition no_patch :: execution_request_patch where
  "no_patch =
     \<lparr> ep_target_contract = None, ep_selector = None, ep_calldata_hash = None, ep_calldata_bytes = None, ep_plan_hash = None,
       ep_tx_value_wei = None, ep_simulation_block_number = None, ep_simulation_block_hash = None,
       ep_simulation_gas_estimate = None, ep_simulation_result_json = None, ep_signer_identity = None,
       ep_signing_payload_hash = None, ep_signature_r = None, ep_signature_s = None, ep_signature_v = None,
       ep_recovered_signer = None, ep_gas_limit = None, ep_max_fee_per_gas_wei = None, ep_max_priority_fee_per_gas_wei = None,
       ep_reserved_nonce = None, ep_failure_class = None, ep_failure_detail = None, ep_holder_epoch = None,
       ep_retry_count = None, ep_signer_request_idempotency_key = None \<rparr>"

text \<open>A request that was planned and found stale keeps its plan hash and its phase.\<close>

definition sample_calls :: "store_call list" where
  "sample_calls =
     [InsertRequest sample_request, UpdatePhase ''e1'' Discovered Validating 2 (no_patch\<lparr>ep_plan_hash := Some ''0xaa''\<rparr>),
      UpdatePhase ''e1'' Validating Stale 3 no_patch]"

lemma sample_calls_run:
  "map_option er_phase (get_execution_request (run_calls sample_calls new_execution_store) ''e1'') = Some Stale \<and>
   map_option er_plan_hash (get_execution_request (run_calls sample_calls new_execution_store) ''e1'') = Some (Some ''0xaa'')"
  by code_simp

theorem execution_rows_frozen_witness:
  "\<exists>r'. get_execution_request (run_calls (sample_calls @ [UpdatePhase ''e1'' Stale Validating 4 no_patch, InsertRequest sample_request])
           new_execution_store) ''e1'' = Some r' \<and> er_phase r' = Stale \<and> er_plan_hash r' = Some ''0xaa''"
proof -
  from sample_calls_run obtain r where r: "get_execution_request (run_calls sample_calls new_execution_store) ''e1'' = Some r"
    "er_phase r = Stale" "er_plan_hash r = Some ''0xaa''" by (auto simp: map_option_case split: option.splits)
  have "phase_is_terminal (er_phase r)" by (simp add: r(2) phase_defs)
  with execution_rows_frozen [of sample_calls "[UpdatePhase ''e1'' Stale Validating 4 no_patch, InsertRequest sample_request]" "''e1''" r] r
  show ?thesis unfolding store_evolves_def request_evolves_def by fastforce
qed

text \<open>
  A patch whose idempotency key is refused has by then been applied in its other fields: the call
  reports an error and the row has changed.
\<close>

lemma refused_key_leaves_patch:
  defines "st \<equiv> run_calls [InsertRequest (sample_request\<lparr>er_signer_request_idempotency_key := Some ''k1''\<rparr>)] new_execution_store"
    and "p \<equiv> no_patch\<lparr>ep_plan_hash := Some ''0xaa'', ep_signer_request_idempotency_key := Some ''k2''\<rparr>"
  shows "fst (update_execution_phase ''e1'' Discovered Validating 2 p st) = Err Persistence \<and>
    map_option er_plan_hash (get_execution_request (snd (update_execution_phase ''e1'' Discovered Validating 2 p st)) ''e1'') = Some (Some ''0xaa'')"
  unfolding st_def p_def by code_simp

text \<open>
  C28: Over any run of the store, from any number of workers, at most one caller is told that it
  moved the row of an execution into broadcasting: the transaction is handed over at most once.
\<close>

theorem broadcast_submitted_once: "took_effect (submits i) cs new_execution_store \<le> 1"
proof -
  have "took_effect (submits i) cs new_execution_store \<le> submission_budget i new_execution_store"
  proof (rule took_effect_bound [where ok = execution_store_inv])
    fix c st
    assume inv: "execution_store_inv st"
    note step = run_call_step [OF inv, of c]
    show "execution_store_inv (snd (run_call c st)) \<and>
      (if submits i c \<and> fst (run_call c st) then 1 else 0) + submission_budget i (snd (run_call c st)) \<le> submission_budget i st"
      using step budget_falls(1) [OF conjunct2 [OF step], of i] submission_uses_budget [OF inv, of i c] by simp
  qed (rule new_execution_store_inv)
  then show ?thesis by (simp add: submission_budget_def get_broadcast_state_def new_execution_store_def)
qed

text \<open>
  A nonce of the executor is handed out at most once per chain and signer, also after it was
  marked abandoned.
\<close>

theorem nonce_reserved_once: "took_effect (reserves k) cs new_execution_store \<le> 1"
proof -
  have "took_effect (reserves k) cs new_execution_store \<le> nonce_budget k new_execution_store"
  proof (rule took_effect_bound [where ok = execution_store_inv])
    fix c st
    assume inv: "execution_store_inv st"
    note step = run_call_step [OF inv, of c]
    show "execution_store_inv (snd (run_call c st)) \<and>
      (if reserves k c \<and> fst (run_call c st) then 1 else 0) + nonce_budget k (snd (run_call c st)) \<le> nonce_budget k st"
      using step budget_falls(2) [OF conjunct2 [OF step], of k] reservation_uses_budget [OF inv, of k c] by simp
  qed (rule new_execution_store_inv)
  then show ?thesis by (simp add: nonce_budget_def new_execution_store_def)
qed

end
