(* ===== verification/Uint256.thy ===== *)
theory Uint256
  imports Types
begin

text \<open>
  Arithmetic on the decimal texts of 256-bit numbers, the last part of
  \<^verbatim>\<open>src/hybrid_v2/reducer.rs\<close>.  A number is an array of bytes, the most significant one first; the
  loops run over the array in the order of the code, with the carry at its width.
\<close>

unbundle bit_operations_syntax


section \<open>Operations\<close>

type_synonym u16 = "16 word"
type_synonym byte_array = "8 word list"

datatype ordering = OrdLess | OrdEqual | OrdGreater

definition is_ascii_digit :: "char \<Rightarrow> bool" where
  "is_ascii_digit c = (let n = (of_char c :: nat) in 48 \<le> n \<and> n \<le> 57)"

text \<open>One digit is appended: every byte times ten plus the carry, from the last byte on.\<close>

fun times_ten_plus :: "byte_array \<Rightarrow> u16 \<Rightarrow> u16 \<times> byte_array" where
  "times_ten_plus [] carry = (carry, [])"
| "times_ten_plus (byte # rest) carry =
     (let (carry', out) = times_ten_plus rest carry;
          product = ucast byte * 10 + carry'
      in (drop_bit 8 product, ucast (product AND 255) # out))"

fun parse_digits :: "byte_array \<Rightarrow> string \<Rightarrow> byte_array \<times> bool" where
  "parse_digits out [] = (out, True)"
| "parse_digits out (ch # chs) =
     (if \<not> is_ascii_digit ch then (replicate 32 0, False)
      else let (carry, out') = times_ten_plus out (of_nat (of_char ch - 48))
           in if carry \<noteq> 0 then (replicate 32 0, False) else parse_digits out' chs)"

definition parse_dec_uint256 :: "string \<Rightarrow> byte_array \<times> bool" where
  "parse_dec_uint256 s0 =
     (let s = trim s0 in if s = [] then (replicate 32 0, True) else parse_digits (replicate 32 0) s)"

text \<open>Division of the array by ten, from the first byte on, until nothing is left.\<close>

fun div_ten :: "u32 \<Rightarrow> byte_array \<Rightarrow> u32 \<times> byte_array" where
  "div_ten rem [] = (rem, [])"
| "div_ten rem (byte # rest) =
     (let acc = push_bit 8 rem OR ucast byte;
          (rem', out) = div_ten (acc mod 10) rest
      in (rem', ucast (acc div 10) # out))"

definition be_val :: "byte_array \<Rightarrow> nat" where
  "be_val bs = foldl (\<lambda>n b. 256 * n + unat b) 0 bs"

lemma be_val_foldl: "foldl (\<lambda>n b. 256 * n + unat b) m bs = m * 256 ^ length bs + be_val (bs :: byte_array)"
proof (induction bs arbitrary: m)
  case (Cons b bs)
  show ?case using Cons [of "256 * m + unat b"] Cons [of "unat b"] by (simp add: be_val_def algebra_simps)
qed (simp add: be_val_def)

lemma be_val_simps [simp]: "be_val [] = 0" "be_val (b # bs) = unat b * 256 ^ length bs + be_val bs"
  using be_val_foldl [of "unat b" bs] by (simp_all add: be_val_def)

lemma unat_byte [simp]: "unat (b :: 8 word) < 256"
  using unsigned_less [of b] by simp

lemma be_val_less: "be_val bs < 256 ^ length bs"
proof (induction bs)
  case (Cons b bs)
  have "unat b * 256 ^ length bs + be_val bs < (unat b + 1) * 256 ^ length bs" using Cons by (simp add: algebra_simps)
  also have "\<dots> \<le> 256 * 256 ^ length bs"
  proof (rule mult_right_mono)
    show "unat b + 1 \<le> 256" using unat_byte [of b] by linarith
  qed simp
  finally show ?case by simp
qed simp

lemma be_val_zero: "be_val bs = 0 \<longleftrightarrow> (\<forall>b\<in>set bs. b = 0)"
  by (induction bs) (auto simp: unat_eq_0)

lemma unat_widen [simp]:
  "unat (ucast (b :: 8 word) :: 16 word) = unat b" "unat (ucast b :: 32 word) = unat b" "unat (ucast b :: 128 word) = unat b"
  using unat_byte [of b] by (simp_all add: unsigned_ucast_eq take_bit_nat_def del: unat_byte)

lemma unat_low_byte [simp]:
  "unat (ucast (x :: 16 word) :: 8 word) = unat x mod 256" "unat (ucast (y :: 32 word) :: 8 word) = unat y mod 256"
  by (simp_all add: unsigned_ucast_eq take_bit_nat_def)

lemma push_or_byte:
  fixes r :: "'a :: len word"
  assumes "LENGTH('a) \<ge> 8"
  shows "push_bit 8 r OR ucast (b :: 8 word) = r * 256 + ucast b"
proof -
  have "push_bit 8 r AND ucast b = 0" by (rule bit_word_eqI) (auto simp: bit_simps dest: bit_imp_le_length)
  then show ?thesis by (simp add: disjunctive_add_eq_or push_bit_eq_mult [symmetric] flip: disjunctive_add_eq_or) (simp add: push_bit_eq_mult)
qed

lemma acc_value:
  assumes "unat (r :: u32) < 10"
  shows "unat (push_bit 8 r OR ucast (b :: 8 word) :: u32) = unat r * 256 + unat b"
proof -
  have "unat r * 256 + unat b < 2560" using assms unat_byte [of b] by linarith
  then show ?thesis by (simp add: push_or_byte unat_word_ariths mod_simps)
qed

lemma div_ten_value:
  assumes "unat r < 10" "div_ten r bs = (r', bs')"
  shows "length bs' = length bs \<and> unat r' < 10 \<and> 10 * be_val bs' + unat r' = unat r * 256 ^ length bs + be_val bs"
  using assms
proof (induction bs arbitrary: r bs')
  case (Cons b bs)
  let ?acc = "push_bit 8 r OR ucast b :: u32"
  have acc: "unat ?acc = unat r * 256 + unat b" by (rule acc_value [OF Cons.prems(1)])
  then have bound: "unat ?acc < 2560" using Cons.prems(1) unat_byte [of b] by linarith
  obtain out where o: "div_ten (?acc mod 10) bs = (r', out)" "bs' = ucast (?acc div 10) # out"
    using Cons.prems(2) by (auto simp: Let_def split: prod.splits)
  have m: "unat (?acc mod 10) = unat ?acc mod 10" "unat (?acc div 10) = unat ?acc div 10" by (simp_all add: unat_mod unat_div)
  have q: "unat (ucast (?acc div 10) :: 8 word) = unat ?acc div 10" using bound by (simp add: m)
  from Cons.IH [OF _ o(1)] m(1) have IH: "length out = length bs" "unat r' < 10"
    "10 * be_val out + unat r' = (unat ?acc mod 10) * 256 ^ length bs + be_val bs" by simp_all
  have "10 * (unat ?acc div 10) + unat ?acc mod 10 = unat ?acc" by simp
  then have "10 * (unat ?acc div 10 * 256 ^ length bs) + unat ?acc mod 10 * 256 ^ length bs = unat ?acc * 256 ^ length bs"
    by (metis (no_types) distrib_right mult.assoc)
  moreover have "be_val bs' = unat ?acc div 10 * 256 ^ length bs + be_val out" unfolding o(2) by (simp only: be_val_simps q IH(1))
  ultimately show ?case using IH acc by (simp add: o(2) algebra_simps)
qed simp

lemma div_ten_decreases: "0 < be_val n \<Longrightarrow> be_val (snd (div_ten 0 n)) < be_val n"
  using div_ten_value [of 0 n] by (cases "div_ten 0 n") auto

function decimal_digits :: "byte_array \<Rightarrow> nat list" where
  "decimal_digits n =
     (if list_ex (\<lambda>b. b \<noteq> 0) n then (case div_ten 0 n of (rem, n') \<Rightarrow> unat rem # decimal_digits n') else [])"
  by auto
termination
proof (relation "measure be_val")
  fix n rem n'
  assume "list_ex (\<lambda>b. b \<noteq> 0) n" and eq: "(rem, n') = div_ten 0 n"
  then have "0 < be_val n" using be_val_zero [of n] by (auto simp: list_ex_iff)
  then show "(n', n) \<in> measure be_val" using div_ten_decreases [of n] by (simp flip: eq)
qed simp

declare decimal_digits.simps [simp del]

definition u256_be_to_decimal_public :: "byte_array \<Rightarrow> string" where
  "u256_be_to_decimal_public bytes =
     (if list_all (\<lambda>b. b = 0) (take 16 bytes)
      then decimal (unat (foldl (\<lambda>hi b. push_bit 8 hi OR ucast b) (0 :: u128) (drop 16 bytes)))
      else let digits = decimal_digits bytes
           in if digits = [] then ''0'' else map (\<lambda>d. char_of (48 + d)) (rev digits))"

fun add_bytes :: "byte_array \<Rightarrow> byte_array \<Rightarrow> u16 \<times> byte_array" where
  "add_bytes (a # as) (b # bs) =
     (let (carry, out) = add_bytes as bs; sum = ucast a + ucast b + carry
      in (drop_bit 8 sum, ucast (sum AND 255) # out))"
| "add_bytes _ _ = (0, [])"

definition u256_add :: "string \<Rightarrow> string \<Rightarrow> string option" where
  "u256_add a b =
     (let (bits_a, ok_a) = parse_dec_uint256 a; (bits_b, ok_b) = parse_dec_uint256 b
      in if \<not> ok_a \<or> \<not> ok_b then None
         else let (carry, out) = add_bytes bits_a bits_b
              in if carry \<noteq> 0 then None else Some (u256_be_to_decimal_public out))"

fun u256_cmp :: "byte_array \<Rightarrow> byte_array \<Rightarrow> ordering" where
  "u256_cmp (a # as) (b # bs) = (if a = b then u256_cmp as bs else if a < b then OrdLess else OrdGreater)"
| "u256_cmp _ _ = OrdEqual"

fun sub_bytes :: "byte_array \<Rightarrow> byte_array \<Rightarrow> int \<times> byte_array" where
  "sub_bytes (a # as) (b # bs) =
     (let (borrow, out) = sub_bytes as bs; diff = uint a - uint b - borrow
      in if diff < 0 then (1, word_of_int (diff + 256) # out) else (0, word_of_int diff # out))"
| "sub_bytes _ _ = (0, [])"

definition u256_sub :: "string \<Rightarrow> string \<Rightarrow> string option" where
  "u256_sub a b =
     (let (bits_a, ok_a) = parse_dec_uint256 a; (bits_b, ok_b) = parse_dec_uint256 b
      in if \<not> ok_a \<or> \<not> ok_b then None
         else if u256_cmp bits_a bits_b = OrdLess then None
         else Some (u256_be_to_decimal_public (snd (sub_bytes bits_a bits_b))))"

definition u256_lt :: "string \<Rightarrow> string \<Rightarrow> bool" where
  "u256_lt a b =
     (let (bits_a, ok_a) = parse_dec_uint256 a; (bits_b, ok_b) = parse_dec_uint256 b
      in if \<not> ok_a \<or> \<not> ok_b then False else u256_cmp bits_a bits_b = OrdLess)"

definition or_and_mask :: "byte_array \<Rightarrow> byte_array \<Rightarrow> byte_array \<Rightarrow> byte_array" where
  "or_and_mask cs as rs = map2 (\<lambda>(c, a) r. (c OR a) AND NOT r) (zip cs as) rs"

definition u256_bitwise_or_and_mask :: "string \<Rightarrow> string \<Rightarrow> string \<Rightarrow> string" where
  "u256_bitwise_or_and_mask current add remove =
     u256_be_to_decimal_public
       (or_and_mask (fst (parse_dec_uint256 current)) (fst (parse_dec_uint256 add)) (fst (parse_dec_uint256 remove)))"


section \<open>What the loops compute\<close>

lemma split_byte: "x div 256 * (256 * k) + x mod 256 * k = x * (k :: nat)"
  by (metis div_mult_mod_eq distrib_right mult.assoc)

lemma byte_of_u16:
  "unat (drop_bit 8 (x :: u16)) = unat x div 256" "unat (ucast (x AND 255) :: 8 word) = unat x mod 256"
proof -
  show "unat (drop_bit 8 x) = unat x div 256" by (simp add: unat_drop_bit_eq drop_bit_nat_def)
  have "x AND 255 = take_bit 8 x" by (simp add: take_bit_eq_mask mask_eq_exp_minus_1)
  then show "unat (ucast (x AND 255) :: 8 word) = unat x mod 256" by (simp add: unsigned_take_bit_eq take_bit_nat_def)
qed

lemma times_ten_plus_value:
  assumes "unat c < 10" "times_ten_plus bs c = (c', bs')"
  shows "length bs' = length bs \<and> unat c' < 10 \<and> unat c' * 256 ^ length bs + be_val bs' = 10 * be_val bs + unat c"
  using assms(2)
proof (induction bs arbitrary: c' bs')
  case Nil
  then show ?case using assms(1) by simp
next
  case (Cons b bs)
  obtain d out where o: "times_ten_plus bs c = (d, out)" by fastforce
  let ?p = "ucast b * 10 + d :: u16"
  from Cons.IH [OF o] have IH: "length out = length bs" "unat d < 10" "unat d * 256 ^ length bs + be_val out = 10 * be_val bs + unat c"
    by simp_all
  have "unat b * 10 + unat d < 2560" using IH(2) unat_byte [of b] by linarith
  then have p: "unat ?p = unat b * 10 + unat d" "unat ?p < 2560" by (simp_all add: unat_word_ariths mod_simps)
  have r: "c' = drop_bit 8 ?p" "bs' = ucast (?p AND 255) # out" using Cons.prems o by (simp_all add: Let_def)
  have h: "unat c' = unat ?p div 256" unfolding r(1) by (rule byte_of_u16)
  have v: "be_val bs' = unat ?p mod 256 * 256 ^ length bs + be_val out" unfolding r(2) by (simp only: be_val_simps byte_of_u16 IH(1))
  have "unat c' * 256 ^ length (b # bs) + be_val bs' = unat ?p * 256 ^ length bs + be_val out"
    using split_byte [of "unat ?p" "256 ^ length bs"] by (simp add: h v)
  also have "\<dots> = 10 * be_val (b # bs) + unat c" using IH(3) unfolding p(1) by (simp add: algebra_simps)
  finally show ?case using p(2) IH(1) r(2) h by simp
qed

lemma add_bytes_value:
  assumes "add_bytes as bs = (c, out)" "length as = length bs"
  shows "length out = length as \<and> unat c < 2 \<and> unat c * 256 ^ length as + be_val out = be_val as + be_val bs"
  using assms
proof (induction as bs arbitrary: c out rule: add_bytes.induct)
  case (1 a as b bs)
  obtain d o' where o: "add_bytes as bs = (d, o')" by fastforce
  let ?p = "ucast a + ucast b + d :: u16"
  from 1 o have IH: "length o' = length as" "unat d < 2" "unat d * 256 ^ length as + be_val o' = be_val as + be_val bs"
    by simp_all
  have "unat a + unat b + unat d < 512" using IH(2) unat_byte [of b] unat_byte [of a] by linarith
  then have p: "unat ?p = unat a + unat b + unat d" "unat ?p < 512" by (simp_all add: unat_word_ariths mod_simps)
  have r: "c = drop_bit 8 ?p" "out = ucast (?p AND 255) # o'" using 1(2) o by (simp_all add: Let_def)
  have h: "unat c = unat ?p div 256" unfolding r(1) by (rule byte_of_u16)
  have v: "be_val out = unat ?p mod 256 * 256 ^ length as + be_val o'" unfolding r(2) by (simp only: be_val_simps byte_of_u16 IH(1))
  have "unat c * 256 ^ length (a # as) + be_val out = unat ?p * 256 ^ length as + be_val o'"
    using split_byte [of "unat ?p" "256 ^ length as"] by (simp add: h v)
  also have "\<dots> = be_val (a # as) + be_val (b # bs)" using IH(3) 1(3) unfolding p(1) by (simp add: algebra_simps)
  finally show ?case using p(2) IH(1) r(2) h by simp
qed auto

lemma u256_cmp_value: "length as = length bs \<Longrightarrow> u256_cmp as bs = OrdLess \<longleftrightarrow> be_val as < be_val bs"
proof (induction as bs rule: u256_cmp.induct)
  case (1 a as b bs)
  let ?k = "256 ^ length bs"
  have less: "be_val as < ?k" "be_val bs < ?k" using be_val_less 1(2) by (metis length_Cons nat.inject, metis)
  show ?case
  proof (cases "a = b")
    case False
    have "x * ?k + be_val as < y * ?k + be_val bs" if "x < y" for x y :: nat
    proof -
      have "x * ?k + be_val as < (x + 1) * ?k" using less by (simp add: algebra_simps)
      also have "\<dots> \<le> y * ?k" using that by (intro mult_right_mono) auto
      finally show ?thesis by simp
    qed
    moreover have "y * ?k + be_val bs < x * ?k + be_val as" if "y < x" for x y :: nat
    proof -
      have "y * ?k + be_val bs < (y + 1) * ?k" using less by (simp add: algebra_simps)
      also have "\<dots> \<le> x * ?k" using that by (intro mult_right_mono) auto
      finally show ?thesis by simp
    qed
    moreover have "a < b \<longleftrightarrow> unat a < unat b" "unat a \<noteq> unat b"
      using False by (auto simp: word_less_nat_alt dest: unsigned_word_eqI)
    ultimately show ?thesis using False 1(2) by (auto simp: not_less_iff_gr_or_eq)
  qed (use 1 in auto)
qed auto

lemma byte_of_int: "0 \<le> x \<Longrightarrow> x < 256 \<Longrightarrow> int (unat (word_of_int x :: 8 word)) = x"
  by (simp add: uint_word_of_int)

lemma sub_bytes_value:
  assumes "sub_bytes as bs = (c, out)" "length as = length bs"
  shows "length out = length as \<and> c \<in> {0, 1} \<and> int (be_val out) - c * 256 ^ length as = int (be_val as) - int (be_val bs)"
  using assms
proof (induction as bs arbitrary: c out rule: sub_bytes.induct)
  case (1 a as b bs)
  obtain d o' where o: "sub_bytes as bs = (d, o')" by fastforce
  from 1 o have IH: "length o' = length as" "d \<in> {0, 1}" "int (be_val o') - d * 256 ^ length as = int (be_val as) - int (be_val bs)"
    by simp_all
  let ?d = "uint a - uint b - d"
  have "uint a < 256" "uint b < 256" "0 \<le> uint a" "0 \<le> uint b" "0 \<le> d" "d \<le> 1"
    using IH(2) uint_lt2p [of a] uint_lt2p [of b] by auto
  then have b: "- 256 \<le> ?d" "?d < 256" by linarith+
  have r: "c = (if ?d < 0 then 1 else 0)" "out = word_of_int (if ?d < 0 then ?d + 256 else ?d) # o'"
    using 1(2) o by (auto simp: Let_def split: if_splits)
  have "0 \<le> ?d + c * 256" "?d + c * 256 < 256" "(if ?d < 0 then ?d + 256 else ?d) = ?d + c * 256" using b by (auto simp: r(1))
  then have h: "int (unat (word_of_int (if ?d < 0 then ?d + 256 else ?d) :: 8 word)) = ?d + c * 256"
    by (simp only: byte_of_int)
  have "int (be_val out) = (?d + c * 256) * 256 ^ length as + int (be_val o')" unfolding r(2)
    by (simp only: be_val_simps of_nat_add of_nat_mult of_nat_power of_nat_numeral h IH(1))
  then have "int (be_val out) - c * 256 ^ length (a # as) = int (be_val (a # as)) - int (be_val (b # bs))"
    using IH(3) 1(3) by (simp add: algebra_simps)
  then show ?case using r IH(1) by simp
qed auto


section \<open>Reading and printing\<close>

text \<open>The number that a text denotes, if it denotes one of 256 bits.\<close>

definition dec_value :: "string \<Rightarrow> nat option" where
  "dec_value s = (let t = trim s in if list_all is_ascii_digit t \<and> read_decimal t < 2 ^ 256 then Some (read_decimal t) else None)"

lemma read_decimal_Cons: "foldl (\<lambda>n c. 10 * n + (of_char c - 48)) m s = m * 10 ^ length s + read_decimal s"
proof (induction s arbitrary: m)
  case (Cons c s)
  show ?case using Cons [of "10 * m + (of_char c - 48)"] Cons [of "of_char c - 48"] by (simp add: read_decimal_def algebra_simps)
qed (simp add: read_decimal_def)

definition parsed_as :: "byte_array \<times> bool \<Rightarrow> nat option \<Rightarrow> bool" where
  "parsed_as r v =
     (case v of Some n \<Rightarrow> snd r \<and> length (fst r) = 32 \<and> be_val (fst r) = n | None \<Rightarrow> r = (replicate 32 0, False))"

lemma digit_value: "is_ascii_digit c \<Longrightarrow> (of_char c :: nat) - 48 < 10"
  by (auto simp: is_ascii_digit_def Let_def)

lemma parse_digits_value:
  assumes "length out = 32"
  shows "parsed_as (parse_digits out s)
    (let n = be_val out * 10 ^ length s + read_decimal s in if list_all is_ascii_digit s \<and> n < 2 ^ 256 then Some n else None)"
  using assms
proof (induction s arbitrary: out)
  case Nil
  have "be_val out < 2 ^ 256" using be_val_less [of out] Nil by simp
  then show ?case using Nil by (simp add: parsed_as_def read_decimal_def Let_def)
next
  case (Cons ch s)
  show ?case
  proof (cases "is_ascii_digit ch")
    case True
    let ?d = "of_nat (of_char ch - 48) :: u16"
    let ?v = "\<lambda>k. k * 10 ^ length s + read_decimal s"
    have d: "unat ?d = of_char ch - 48" using digit_value [OF True] by (simp add: unsigned_of_nat take_bit_nat_def)
    obtain c out' where o: "times_ten_plus out ?d = (c, out')" by fastforce
    have "unat ?d < 10" using digit_value [OF True] by (simp add: d)
    from times_ten_plus_value [OF this o] have t: "length out' = 32" "unat c * 2 ^ 256 + be_val out' = 10 * be_val out + (of_char ch - 48)"
      using Cons.prems d by simp_all
    have n: "be_val out * 10 ^ length (ch # s) + read_decimal (ch # s) = ?v (unat c * 2 ^ 256 + be_val out')"
      unfolding t(2) using read_decimal_Cons [of "of_char ch - 48" s] by (simp add: read_decimal_def algebra_simps)
    show ?thesis
    proof (cases "c = 0")
      case True
      then show ?thesis using Cons.IH [OF t(1)] o \<open>is_ascii_digit ch\<close> n by simp
    next
      case False
      then have "1 \<le> unat c" by (simp add: Suc_le_eq unat_gt_0)
      then have "2 ^ 256 \<le> unat c * 2 ^ 256 + be_val out'" by (simp add: trans_le_add1)
      moreover have "unat c * 2 ^ 256 + be_val out' \<le> ?v (unat c * 2 ^ 256 + be_val out')" by (simp add: trans_le_add1)
      ultimately have "\<not> ?v (unat c * 2 ^ 256 + be_val out') < 2 ^ 256" by linarith
      then show ?thesis using o False \<open>is_ascii_digit ch\<close> n by (simp add: parsed_as_def Let_def)
    qed
  qed (simp add: parsed_as_def)
qed

lemma be_val_zeros [simp]: "be_val (replicate n 0) = 0"
  by (simp add: be_val_zero)

lemma parse_dec_uint256_value: "parsed_as (parse_dec_uint256 s) (dec_value s)"
proof -
  have "parse_dec_uint256 s = parse_digits (replicate 32 0) (trim s)" by (simp add: parse_dec_uint256_def Let_def)
  then show ?thesis using parse_digits_value [of "replicate 32 0" "trim s"] by (simp add: dec_value_def Let_def)
qed

lemma parse_cases:
  obtains (bad) "parse_dec_uint256 s = (replicate 32 0, False)" "dec_value s = None"
  | (good) bs where "parse_dec_uint256 s = (bs, True)" "length bs = 32" "dec_value s = Some (be_val bs)" "be_val bs < 2 ^ 256"
proof (cases "dec_value s")
  case None
  then show ?thesis using parse_dec_uint256_value [of s] bad by (simp add: parsed_as_def)
next
  case (Some n)
  then show ?thesis using parse_dec_uint256_value [of s] be_val_less [of "fst (parse_dec_uint256 s)"] good
    by (cases "parse_dec_uint256 s") (simp add: parsed_as_def)
qed

text \<open>The two ways of printing agree with the decimal text of the number.\<close>

lemma decimal_digits_value: "0 < be_val n \<Longrightarrow> map (\<lambda>d. char_of (48 + d)) (rev (decimal_digits n)) = decimal (be_val n)"
proof (induction n rule: decimal_digits.induct)
  case (1 n)
  have some: "list_ex (\<lambda>b. b \<noteq> 0) n" using 1(2) be_val_zero [of n] by (auto simp: list_ex_iff)
  obtain r n' where d: "div_ten 0 n = (r, n')" by fastforce
  have v: "unat r < 10" "10 * be_val n' + unat r = be_val n" using div_ten_value [OF _ d] by simp_all
  have dv: "be_val n div 10 = be_val n'" "be_val n mod 10 = unat r" unfolding v(2) [symmetric] using v(1) by simp_all
  have digits: "decimal_digits n = unat r # decimal_digits n'" by (subst decimal_digits.simps) (simp add: some d)
  show ?case
  proof (cases "be_val n' = 0")
    case True
    then have "decimal_digits n' = []" by (subst decimal_digits.simps) (auto simp: list_ex_iff be_val_zero)
    moreover have "decimal (be_val n) = [char_of (48 + unat r)]" using v True by (subst decimal.simps) simp
    ultimately show ?thesis by (simp add: digits)
  next
    case False
    then have "decimal (be_val n) = decimal (be_val n') @ [char_of (48 + unat r)]" using v dv by (subst decimal.simps) auto
    then show ?thesis using 1(1) [OF some d [symmetric]] False by (simp add: digits)
  qed
qed

lemma fold_u128_value:
  "be_val bs < 2 ^ 128 \<Longrightarrow> unat (foldl (\<lambda>hi b. push_bit 8 hi OR ucast b) (0 :: u128) bs) = be_val bs"
proof (induction bs rule: rev_induct)
  case (snoc b bs)
  have v: "be_val (bs @ [b]) = 256 * be_val bs + unat b" by (simp add: be_val_def)
  then have "be_val bs < 2 ^ 128" using snoc.prems by linarith
  then have "unat (foldl (\<lambda>hi b. push_bit 8 hi OR ucast b) (0 :: u128) bs) = be_val bs" by (rule snoc.IH)
  then show ?case using snoc.prems v by (simp add: push_or_byte unat_word_ariths mod_simps)
qed simp

lemma be_val_append: "be_val (xs @ ys) = be_val xs * 256 ^ length ys + be_val ys"
  using be_val_foldl [of "be_val xs" ys] by (simp add: be_val_def)

lemma printed: "length bs = 32 \<Longrightarrow> u256_be_to_decimal_public bs = decimal (be_val bs)"
proof -
  assume l: "length bs = 32"
  have e: "be_val bs = be_val (take 16 bs) * 256 ^ 16 + be_val (drop 16 bs)"
    using be_val_append [of "take 16 bs" "drop 16 bs"] l by simp
  show ?thesis
  proof (cases "list_all (\<lambda>b. b = 0) (take 16 bs)")
    case True
    then have "be_val (take 16 bs) = 0" unfolding be_val_zero by (simp add: list_all_iff)
    then have "be_val bs = be_val (drop 16 bs)" using e by simp
    moreover have "be_val (drop 16 bs) < 2 ^ 128" using be_val_less [of "drop 16 bs"] l by simp
    ultimately show ?thesis using True by (simp add: u256_be_to_decimal_public_def fold_u128_value del: unat_widen)
  next
    case False
    then have "be_val (take 16 bs) \<noteq> 0" unfolding be_val_zero by (auto simp: list_all_iff)
    then have pos: "0 < be_val bs" using e by simp
    have "decimal (be_val bs) \<noteq> []" by (subst decimal.simps) simp
    then show ?thesis using False decimal_digits_value [OF pos] by (auto simp: u256_be_to_decimal_public_def Let_def)
  qed
qed


section \<open>Properties\<close>

text \<open>The decimal text of a number is read back as it.\<close>

lemma decimal_digit_text: "list_all is_ascii_digit (decimal n)"
proof (induction n rule: decimal.induct)
  case (1 n)
  have d: "is_ascii_digit (char_of (48 + m))" if "m < 10" for m :: nat using that by (simp add: is_ascii_digit_def Let_def)
  show ?case using 1 d [of n] d [of "n mod 10"] by (subst decimal.simps) simp
qed

lemma trim_no_space: "list_all (\<lambda>c. \<not> is_whitespace c) s \<Longrightarrow> trim s = s"
proof -
  have drop: "dropWhile P xs = xs" if "list_all (\<lambda>c. \<not> P c) xs" for P :: "char \<Rightarrow> bool" and xs using that by (cases xs) simp_all
  assume "list_all (\<lambda>c. \<not> is_whitespace c) s"
  then have "dropWhile is_whitespace s = s" "dropWhile is_whitespace (rev s) = rev s" by (auto intro!: drop simp: list_all_iff)
  then show ?thesis by (simp add: trim_def)
qed

lemma digit_no_space: "is_ascii_digit c \<Longrightarrow> \<not> is_whitespace c"
  by (auto simp: is_ascii_digit_def is_whitespace_def Let_def)

lemma trim_decimal [simp]: "trim (decimal n) = decimal n"
  by (rule trim_no_space) (use decimal_digit_text [of n] digit_no_space in \<open>auto simp: list_all_iff\<close>)

lemma dec_value_decimal [simp]: "dec_value (decimal n) = (if n < 2 ^ 256 then Some n else None)"
  by (simp add: dec_value_def Let_def decimal_digit_text)

lemma dec_value_less: "dec_value s = Some n \<Longrightarrow> n < 2 ^ 256"
  by (auto simp: dec_value_def Let_def split: if_splits)

lemma u256_add_value:
  "u256_add a b = (case (dec_value a, dec_value b) of
     (Some m, Some n) \<Rightarrow> if m + n < 2 ^ 256 then Some (decimal (m + n)) else None | _ \<Rightarrow> None)"
proof (cases rule: parse_cases [of a])
  case (good as)
  note ga = good
  show ?thesis
  proof (cases rule: parse_cases [of b])
    case (good bs)
    obtain c out where o: "add_bytes as bs = (c, out)" by fastforce
    have v: "length out = 32" "unat c < 2" "unat c * 2 ^ 256 + be_val out = be_val as + be_val bs"
      using add_bytes_value [OF o] ga(2) good(2) by simp_all
    have lt: "be_val out < 2 ^ 256" using be_val_less [of out] v(1) by simp
    have "c = 0 \<longleftrightarrow> be_val as + be_val bs < 2 ^ 256"
    proof
      assume "be_val as + be_val bs < 2 ^ 256"
      then have "unat c * 2 ^ 256 < 1 * 2 ^ 256" using v(3) by linarith
      then show "c = 0" by (simp add: unat_eq_0)
    qed (use v lt in simp)
    then show ?thesis using ga good o v by (auto simp: u256_add_def printed)
  qed (use ga in \<open>simp add: u256_add_def\<close>)
qed (simp add: u256_add_def)

lemma u256_sub_value:
  "u256_sub a b = (case (dec_value a, dec_value b) of
     (Some m, Some n) \<Rightarrow> if n \<le> m then Some (decimal (m - n)) else None | _ \<Rightarrow> None)"
proof (cases rule: parse_cases [of a])
  case (good as)
  note ga = good
  show ?thesis
  proof (cases rule: parse_cases [of b])
    case (good bs)
    obtain c out where o: "sub_bytes as bs = (c, out)" by fastforce
    have v: "length out = 32" "c \<in> {0, 1}" "int (be_val out) - c * 2 ^ 256 = int (be_val as) - int (be_val bs)"
      using sub_bytes_value [OF o] ga(2) good(2) by simp_all
    have lt: "be_val out < 2 ^ 256" using be_val_less [of out] v(1) by simp
    have "be_val out = be_val as - be_val bs" if "be_val bs \<le> be_val as"
    proof -
      have "int (be_val out) < 2 ^ 256" using lt by (simp add: nat_less_iff flip: of_nat_less_iff)
      then have "c = 0" using v(2,3) that by auto
      then show ?thesis using v(3) that by simp
    qed
    then show ?thesis using ga good o v u256_cmp_value [of as bs] by (auto simp: u256_sub_def printed not_less)
  qed (use ga in \<open>simp add: u256_sub_def\<close>)
qed (simp add: u256_sub_def)

lemma u256_lt_value:
  "u256_lt a b = (case (dec_value a, dec_value b) of (Some m, Some n) \<Rightarrow> m < n | _ \<Rightarrow> False)"
proof (cases rule: parse_cases [of a])
  case (good as)
  note ga = good
  show ?thesis by (cases rule: parse_cases [of b]) (use ga u256_cmp_value in \<open>simp_all add: u256_lt_def\<close>)
qed (simp add: u256_lt_def)

text \<open>
  C31: The byte-wise operations on decimal texts compute exactly addition, subtraction and
  comparison of the numbers the texts denote, refuse exactly what is no number of 256 bits, a sum
  beyond 256 bits and a negative difference, and print results in the one form without leading
  zeros, which reads back as the same number.
\<close>

theorem u256_arithmetic_exact:
  "u256_add a b = (case (dec_value a, dec_value b) of
     (Some m, Some n) \<Rightarrow> if m + n < 2 ^ 256 then Some (decimal (m + n)) else None | _ \<Rightarrow> None) \<and>
   u256_sub a b = (case (dec_value a, dec_value b) of
     (Some m, Some n) \<Rightarrow> if n \<le> m then Some (decimal (m - n)) else None | _ \<Rightarrow> None) \<and>
   u256_lt a b = (case (dec_value a, dec_value b) of (Some m, Some n) \<Rightarrow> m < n | _ \<Rightarrow> False) \<and>
   dec_value (decimal k) = (if k < 2 ^ 256 then Some k else None)"
  using u256_add_value u256_sub_value u256_lt_value by simp

end
