(* ===== verification/Hybrid_Events.thy ===== *)
theory Hybrid_Events
  imports Uint256 "HOL-Library.List_Lexorder" "HOL-Library.Char_ord" "HOL-Library.Product_Lexorder" Maps
begin

text \<open>
  Decoded chain events, \<^verbatim>\<open>src/hybrid_v2/events.rs\<close>, with the part of \<^verbatim>\<open>serde_json::Value\<close> and of
  number parsing that their readers in \<^verbatim>\<open>src/hybrid_v2/reducer.rs\<close> use.
\<close>


section \<open>Kinds of events\<close>

datatype event_kind =
    SubaccountCreated | SubaccountLazyRegistered | Deposit | Withdraw
  | InternalTransfer | CollateralLocked | CollateralUnlocked | EngineCapabilityChanged
  | EngineGuardianRevoked | GuardianChanged | OrphanedLockReleased | SupportedTokenAdded
  | SupportedTokenRemoved | CollateralTokenEnteredUniverse | OptionPremiumTransferred | OptionFeeCharged
  | OptionRebatePaid | RecoveryFinalizationWithdrawn | PauseFlagChanged | BadDebtSocialized
  | ProtocolSubaccountsInitialized | EscapeControllerInitialized | RecoveryFinalizerInitialized | OptionPositionOpened
  | OptionPositionModified | OptionPositionClosed | OptionExercised | OptionSettled
  | OptionPositionLiquidated | OptionOrderPairExecuted | OptionOrderFilled | OptionOrderCancelled
  | OptionSubaccountMinValidOrderNonceAdvanced | RecoveryRequested | RecoveryActivated | RecoveryCancelled
  | RecoveryEpochIncremented | RecoveryPauseSet | RecoveryFinalized | IntentConsumed
  | NonceCancelled | OwnerRecoveryEpochAdvanced | SubaccountRecoveryEpochAdvanced | RiskParamsSet
  | RiskModuleActivated | LiquidationTriggered | DeploymentManifestDeclared

definition event_kind_all :: "event_kind list" where
  "event_kind_all =
     [SubaccountCreated, SubaccountLazyRegistered, Deposit, Withdraw,
      InternalTransfer, CollateralLocked, CollateralUnlocked, EngineCapabilityChanged,
      EngineGuardianRevoked, GuardianChanged, OrphanedLockReleased, SupportedTokenAdded,
      SupportedTokenRemoved, CollateralTokenEnteredUniverse, OptionPremiumTransferred, OptionFeeCharged,
      OptionRebatePaid, RecoveryFinalizationWithdrawn, PauseFlagChanged, BadDebtSocialized,
      ProtocolSubaccountsInitialized, EscapeControllerInitialized, RecoveryFinalizerInitialized, OptionPositionOpened,
      OptionPositionModified, OptionPositionClosed, OptionExercised, OptionSettled,
      OptionPositionLiquidated, OptionOrderPairExecuted, OptionOrderFilled, OptionOrderCancelled,
      OptionSubaccountMinValidOrderNonceAdvanced, RecoveryRequested, RecoveryActivated, RecoveryCancelled,
      RecoveryEpochIncremented, RecoveryPauseSet, RecoveryFinalized, IntentConsumed,
      NonceCancelled, OwnerRecoveryEpochAdvanced, SubaccountRecoveryEpochAdvanced, RiskParamsSet,
      RiskModuleActivated, LiquidationTriggered, DeploymentManifestDeclared]"

primrec event_kind_as_str :: "event_kind \<Rightarrow> string" where
  "event_kind_as_str SubaccountCreated = ''SubaccountCreated''"
| "event_kind_as_str SubaccountLazyRegistered = ''SubaccountLazyRegistered''"
| "event_kind_as_str Deposit = ''Deposit''"
| "event_kind_as_str Withdraw = ''Withdraw''"
| "event_kind_as_str InternalTransfer = ''InternalTransfer''"
| "event_kind_as_str CollateralLocked = ''CollateralLocked''"
| "event_kind_as_str CollateralUnlocked = ''CollateralUnlocked''"
| "event_kind_as_str EngineCapabilityChanged = ''EngineCapabilityChanged''"
| "event_kind_as_str EngineGuardianRevoked = ''EngineGuardianRevoked''"
| "event_kind_as_str GuardianChanged = ''GuardianChanged''"
| "event_kind_as_str OrphanedLockReleased = ''OrphanedLockReleased''"
| "event_kind_as_str SupportedTokenAdded = ''SupportedTokenAdded''"
| "event_kind_as_str SupportedTokenRemoved = ''SupportedTokenRemoved''"
| "event_kind_as_str CollateralTokenEnteredUniverse = ''CollateralTokenEnteredUniverse''"
| "event_kind_as_str OptionPremiumTransferred = ''OptionPremiumTransferred''"
| "event_kind_as_str OptionFeeCharged = ''OptionFeeCharged''"
| "event_kind_as_str OptionRebatePaid = ''OptionRebatePaid''"
| "event_kind_as_str RecoveryFinalizationWithdrawn = ''RecoveryFinalizationWithdrawn''"
| "event_kind_as_str PauseFlagChanged = ''PauseFlagChanged''"
| "event_kind_as_str BadDebtSocialized = ''BadDebtSocialized''"
| "event_kind_as_str ProtocolSubaccountsInitialized = ''ProtocolSubaccountsInitialized''"
| "event_kind_as_str EscapeControllerInitialized = ''EscapeControllerInitialized''"
| "event_kind_as_str RecoveryFinalizerInitialized = ''RecoveryFinalizerInitialized''"
| "event_kind_as_str OptionPositionOpened = ''OptionPositionOpened''"
| "event_kind_as_str OptionPositionModified = ''OptionPositionModified''"
| "event_kind_as_str OptionPositionClosed = ''OptionPositionClosed''"
| "event_kind_as_str OptionExercised = ''OptionExercised''"
| "event_kind_as_str OptionSettled = ''OptionSettled''"
| "event_kind_as_str OptionPositionLiquidated = ''OptionPositionLiquidated''"
| "event_kind_as_str OptionOrderPairExecuted = ''OptionOrderPairExecuted''"
| "event_kind_as_str OptionOrderFilled = ''OptionOrderFilled''"
| "event_kind_as_str OptionOrderCancelled = ''OptionOrderCancelled''"
| "event_kind_as_str OptionSubaccountMinValidOrderNonceAdvanced = ''OptionSubaccountMinValidOrderNonceAdvanced''"
| "event_kind_as_str RecoveryRequested = ''RecoveryRequested''"
| "event_kind_as_str RecoveryActivated = ''RecoveryActivated''"
| "event_kind_as_str RecoveryCancelled = ''RecoveryCancelled''"
| "event_kind_as_str RecoveryEpochIncremented = ''RecoveryEpochIncremented''"
| "event_kind_as_str RecoveryPauseSet = ''RecoveryPauseSet''"
| "event_kind_as_str RecoveryFinalized = ''RecoveryFinalized''"
| "event_kind_as_str IntentConsumed = ''IntentConsumed''"
| "event_kind_as_str NonceCancelled = ''NonceCancelled''"
| "event_kind_as_str OwnerRecoveryEpochAdvanced = ''OwnerRecoveryEpochAdvanced''"
| "event_kind_as_str SubaccountRecoveryEpochAdvanced = ''SubaccountRecoveryEpochAdvanced''"
| "event_kind_as_str RiskParamsSet = ''RiskParamsSet''"
| "event_kind_as_str RiskModuleActivated = ''RiskModuleActivated''"
| "event_kind_as_str LiquidationTriggered = ''LiquidationTriggered''"
| "event_kind_as_str DeploymentManifestDeclared = ''DeploymentManifestDeclared''"

definition event_kind_parse :: "string \<Rightarrow> event_kind option" where
  "event_kind_parse s = List.find (\<lambda>kind. event_kind_as_str kind = s) event_kind_all"


section \<open>Payloads\<close>

datatype json_value =
    JNull | JBool bool | JPosInt u64 | JNegInt i64 | JFloat string | JString string
  | JArray "json_value list" | JObject "(string \<times> json_value) list"

definition json_get :: "json_value \<Rightarrow> string \<Rightarrow> json_value option" where
  "json_get v key = (case v of JObject kvs \<Rightarrow> map_of kvs key | _ \<Rightarrow> None)"

definition json_as_str :: "json_value \<Rightarrow> string option" where
  "json_as_str v = (case v of JString s \<Rightarrow> Some s | _ \<Rightarrow> None)"

definition json_as_bool :: "json_value \<Rightarrow> bool option" where
  "json_as_bool v = (case v of JBool b \<Rightarrow> Some b | _ \<Rightarrow> None)"

definition json_as_u64 :: "json_value \<Rightarrow> u64 option" where
  "json_as_u64 v = (case v of JPosInt n \<Rightarrow> Some n | _ \<Rightarrow> None)"

definition json_as_i64 :: "json_value \<Rightarrow> i64 option" where
  "json_as_i64 v = (case v of JPosInt n \<Rightarrow> if uint n < 2 ^ 63 then Some (uint n) else None | JNegInt i \<Rightarrow> Some i | _ \<Rightarrow> None)"

text \<open>\<^verbatim>\<open>str::parse\<close> for integers: an optional sign, then digits only, within the range of the type.\<close>

definition parse_below :: "int \<Rightarrow> string \<Rightarrow> nat option" where
  "parse_below bound t = (if t \<noteq> [] \<and> list_all is_ascii_digit t \<and> int (read_decimal t) < bound then Some (read_decimal t) else None)"

definition parse_unsigned :: "int \<Rightarrow> string \<Rightarrow> nat option" where
  "parse_unsigned bound s = (case s of c # t \<Rightarrow> if c = CHR ''+'' then parse_below bound t else parse_below bound s | [] \<Rightarrow> None)"

definition parse_i128 :: "string \<Rightarrow> i128 option" where
  "parse_i128 s =
     (case s of
        c # t \<Rightarrow> if c = CHR ''-'' then map_option (\<lambda>n. - int n) (parse_below (2 ^ 127 + 1) t)
                  else map_option int (parse_unsigned (2 ^ 127) s)
      | [] \<Rightarrow> None)"

definition payload_string :: "json_value \<Rightarrow> string \<Rightarrow> string option" where
  "payload_string payload key = Option.bind (json_get payload key) json_as_str"

definition payload_bool :: "json_value \<Rightarrow> string \<Rightarrow> bool option" where
  "payload_bool payload key = Option.bind (json_get payload key) json_as_bool"

definition payload_u8 :: "json_value \<Rightarrow> string \<Rightarrow> 8 word option" where
  "payload_u8 payload key = map_option ucast (Option.bind (json_get payload key) json_as_u64)"

definition payload_i128 :: "json_value \<Rightarrow> string \<Rightarrow> i128 option" where
  "payload_i128 payload key =
     Option.bind (json_get payload key) (\<lambda>v.
       case json_as_i64 v of
         Some n \<Rightarrow> Some n
       | None \<Rightarrow> (case json_as_str v of Some s \<Rightarrow> parse_i128 s | None \<Rightarrow> None))"


section \<open>Events\<close>

record hybrid_v2_event =
  he_kind :: event_kind
  he_event_version :: u16
  he_subkey :: "string option"
  he_owner :: "string option"
  he_subaccount_id :: "u32 option"
  he_token :: "string option"
  he_engine :: "string option"
  he_execution_id :: "string option"
  he_order_hash :: "string option"
  he_series_id :: "string option"
  he_payload :: json_value

lemma event_kind_all_complete: "k \<in> set event_kind_all"
  by (cases k) (simp_all add: event_kind_all_def)

lemma event_kinds_distinct: "distinct (map event_kind_as_str event_kind_all)"
  by code_simp

text \<open>The name of a kind determines it, and only the name of a kind is read as one.\<close>

lemma find_unique: "distinct (map f xs) \<Longrightarrow> x \<in> set xs \<Longrightarrow> List.find (\<lambda>y. f y = f x) xs = Some x"
  by (induction xs) (auto simp: rev_image_eqI)

lemma event_kind_parse_as_str [simp]: "event_kind_parse (event_kind_as_str k) = Some k"
  unfolding event_kind_parse_def by (rule find_unique [OF event_kinds_distinct event_kind_all_complete])

lemma event_kind_parse_only: "event_kind_parse s = Some k \<Longrightarrow> s = event_kind_as_str k"
  unfolding event_kind_parse_def find_Some_iff by auto

lemma parse_i128_range: "parse_i128 s = Some d \<Longrightarrow> - (2 ^ 127) \<le> d \<and> d < 2 ^ 127"
  by (auto simp: parse_i128_def parse_unsigned_def parse_below_def split: list.splits if_splits)

end
