(* ===== verification/Projection.thy ===== *)
theory Projection
  imports Hybrid_Events
begin

text \<open>
  The projection of the chain events, \<^verbatim>\<open>src/hybrid_v2/reducer.rs\<close>: the state, and the reducer that
  applies one event.  The reducer returns its result with the state it leaves behind; where the code
  writes before it fails, so does the model.  Amounts stay the decimal texts that the code keeps.
\<close>


section \<open>State\<close>

record subaccount_meta =
  sm_materialised_via_created :: bool
  sm_materialised_via_lazy :: bool

record position_row =
  pr_long_qty_1e8 :: string
  pr_short_qty_1e8 :: string
  pr_last_event_block :: u64

record order_lifecycle_row =
  ol_subkey :: string
  ol_owner :: string
  ol_series_id :: "string option"
  ol_side :: "8 word"
  ol_time_in_force :: "8 word"
  ol_total_qty_1e8 :: string
  ol_filled_qty_1e8 :: string
  ol_cancelled :: bool
  ol_terminal :: bool
  ol_first_seen_block :: u64
  ol_last_event_block :: u64

datatype execution_completion = Incomplete | Complete | InvalidatedByReorg

record matched_execution_row =
  mx_buyer_order_hash :: string
  mx_seller_order_hash :: string
  mx_buyer_subkey :: string
  mx_seller_subkey :: string
  mx_series_id :: string
  mx_matched_qty_1e8 :: string
  mx_premium_amount :: string
  mx_fee_amount :: string
  mx_rebate_amount :: string
  mx_block_number :: u64
  mx_tx_hash :: string
  mx_completion_status :: execution_completion

record fee_event_row =
  fe_kind :: string
  fe_payer_subkey :: "string option"
  fe_receiver_subkey :: "string option"
  fe_token :: string
  fe_amount :: string
  fe_block_number :: u64
  fe_tx_hash :: string
  fe_log_index :: u32
  fe_execution_id :: "string option"

datatype recovery_state_projection = RecoveryNormal | RecoveryPending | RecoveryActive | RecoveryStateCancelled | Recovered

record escape_state_row =
  es_state :: string
  es_requested_ts :: "u64 option"
  es_activation_eligible_at :: "u64 option"
  es_activated_ts :: "u64 option"
  es_cancelled_ts :: "u64 option"
  es_finalized_ts :: "u64 option"
  es_last_event_block :: u64

record epoch_row =
  ep_epoch_count :: u64
  ep_min_valid_nonce :: string
  ep_last_event_block :: u64

record recovery_pause_row =
  rp_paused :: bool
  rp_until_ts :: u64
  rp_last_event_block :: u64

record projection_state =
  ps_subaccounts :: "(string \<times> u32, string) btreemap"
  ps_subaccount_meta :: "(string, subaccount_meta) btreemap"
  ps_balances :: "(string \<times> string, string) btreemap"
  ps_reservations :: "(string \<times> string \<times> string, string) btreemap"
  ps_capability_grants :: "(string, string) btreemap"
  ps_collateral_universe :: "(string, u32) btreemap"
  ps_disabled_tokens :: "string set"
  ps_pause_flags :: "(string, bool) btreemap"
  ps_bad_debt :: "(string \<times> string, string) btreemap"
  ps_positions :: "(string \<times> string, position_row) btreemap"
  ps_active_series :: "(string, string set) btreemap"
  ps_order_lifecycle :: "(string, order_lifecycle_row) btreemap"
  ps_min_valid_nonce :: "(string, string) btreemap"
  ps_matched_executions :: "(string, matched_execution_row) btreemap"
  ps_fee_events :: "fee_event_row list"
  ps_recovery_state :: "(string, recovery_state_projection) btreemap"
  ps_escape_state :: "(string, escape_state_row) btreemap"
  ps_owner_recovery_epochs :: "(string, epoch_row) btreemap"
  ps_subaccount_recovery_epochs :: "(string, epoch_row) btreemap"
  ps_recovery_finalization_withdrawals :: "(string, u32) btreemap"
  ps_recovery_pause :: "recovery_pause_row option"

definition default_projection :: projection_state where
  "default_projection =
     \<lparr> ps_subaccounts = [], ps_subaccount_meta = [], ps_balances = [], ps_reservations = [], ps_capability_grants = [],
       ps_collateral_universe = [], ps_disabled_tokens = {}, ps_pause_flags = [], ps_bad_debt = [], ps_positions = [],
       ps_active_series = [], ps_order_lifecycle = [], ps_min_valid_nonce = [], ps_matched_executions = [],
       ps_fee_events = [], ps_recovery_state = [], ps_escape_state = [], ps_owner_recovery_epochs = [],
       ps_subaccount_recovery_epochs = [], ps_recovery_finalization_withdrawals = [], ps_recovery_pause = None \<rparr>"

definition default_meta :: subaccount_meta where
  "default_meta = \<lparr> sm_materialised_via_created = False, sm_materialised_via_lazy = False \<rparr>"

definition default_position :: position_row where
  "default_position = \<lparr> pr_long_qty_1e8 = [], pr_short_qty_1e8 = [], pr_last_event_block = 0 \<rparr>"

definition default_order_row :: order_lifecycle_row where
  "default_order_row =
     \<lparr> ol_subkey = [], ol_owner = [], ol_series_id = None, ol_side = 0, ol_time_in_force = 0, ol_total_qty_1e8 = [],
       ol_filled_qty_1e8 = [], ol_cancelled = False, ol_terminal = False, ol_first_seen_block = 0, ol_last_event_block = 0 \<rparr>"

definition default_escape :: escape_state_row where
  "default_escape =
     \<lparr> es_state = [], es_requested_ts = None, es_activation_eligible_at = None, es_activated_ts = None,
       es_cancelled_ts = None, es_finalized_ts = None, es_last_event_block = 0 \<rparr>"

definition default_epoch :: epoch_row where
  "default_epoch = \<lparr> ep_epoch_count = 0, ep_min_valid_nonce = [], ep_last_event_block = 0 \<rparr>"

datatype reducer_error =
    Underflow string string string string
  | MissingField string string
  | FinalizedSubaccountCredit string string
  | IllegalRecoveryTransition string "recovery_state_projection option" recovery_state_projection string
  | Overflow string string
  | FilledQtyDecrease string string string
  | MinNonceDecrease string string string string
  | PositionUnderflow string string string string string
  | ActiveSeriesCapacity string nat nat
  | CollateralUniverseCapacity nat nat

definition MAX_ACTIVE_SERIES :: nat where
  "MAX_ACTIVE_SERIES = 32"

definition MAX_COLLATERAL_TOKENS :: nat where
  "MAX_COLLATERAL_TOKENS = 8"

record apply_context =
  ac_block_number :: u64
  ac_tx_hash :: string
  ac_log_index :: u32
  ac_block_timestamp :: u64

type_synonym reducer_result = "(reducer_error + unit) \<times> projection_state"


section \<open>Shared steps\<close>

text \<open>The question mark in a function that changes the state, and \<^verbatim>\<open>entry(k).or_default()\<close> followed by a write.\<close>

definition try_in :: "projection_state \<Rightarrow> reducer_error + 'a \<Rightarrow> ('a \<Rightarrow> reducer_result) \<Rightarrow> reducer_result" where
  "try_in st r f = (case r of Ok x \<Rightarrow> f x | Err e \<Rightarrow> (Err e, st))"

definition get_or :: "'v \<Rightarrow> ('k, 'v) btreemap \<Rightarrow> 'k \<Rightarrow> 'v" where
  "get_or d m k = (case bt_get m k of Some v \<Rightarrow> v | None \<Rightarrow> d)"

definition upsert :: "'v \<Rightarrow> 'k :: linorder \<Rightarrow> ('v \<Rightarrow> 'v) \<Rightarrow> ('k, 'v) btreemap \<Rightarrow> ('k, 'v) btreemap" where
  "upsert d k f m = bt_insert k (f (get_or d m k)) m"

definition bt_retain :: "('k \<Rightarrow> bool) \<Rightarrow> ('k, 'v) btreemap \<Rightarrow> ('k, 'v) btreemap" where
  "bt_retain P m = filter (\<lambda>kv. P (fst kv)) m"

definition or_zero :: "string option \<Rightarrow> string" where
  "or_zero s = (case s of Some v \<Rightarrow> v | None \<Rightarrow> ''0'')"

definition saturating_inc_u64 :: "u64 \<Rightarrow> u64" where
  "saturating_inc_u64 n = (if n = - 1 then n else n + 1)"

definition saturating_inc_u32 :: "u32 \<Rightarrow> u32" where
  "saturating_inc_u32 n = (if n = - 1 then n else n + 1)"

definition require :: "'a option \<Rightarrow> event_kind \<Rightarrow> string \<Rightarrow> reducer_error + 'a" where
  "require opt kind field = ok_or opt (MissingField (event_kind_as_str kind) field)"

definition require_identity :: "hybrid_v2_event \<Rightarrow> reducer_error + (string \<times> u32 \<times> string)" where
  "require_identity e =
     and_then (require (he_owner e) (he_kind e) ''owner'') (\<lambda>owner.
     and_then (require (he_subaccount_id e) (he_kind e) ''subaccount_id'') (\<lambda>sid.
     and_then (require (he_subkey e) (he_kind e) ''subkey'') (\<lambda>subkey.
     Ok (owner, sid, subkey))))"

definition require_amount :: "json_value \<Rightarrow> event_kind \<Rightarrow> reducer_error + string" where
  "require_amount payload kind = require (Option.bind (json_get payload ''amount'') json_as_str) kind ''amount''"

definition is_finalized :: "projection_state \<Rightarrow> string \<Rightarrow> bool" where
  "is_finalized st subkey = (bt_get (ps_recovery_state st) subkey = Some Recovered)"

definition credit_balance :: "string \<Rightarrow> string \<Rightarrow> string \<Rightarrow> projection_state \<Rightarrow> reducer_result" where
  "credit_balance subkey token amount st =
     try_in st (ok_or (u256_add (get_or ''0'' (ps_balances st) (subkey, token)) amount) (Overflow subkey token)) (\<lambda>next_amount.
       (Ok (), st\<lparr>ps_balances := bt_insert (subkey, token) next_amount (ps_balances st)\<rparr>))"

definition debit_balance :: "string \<Rightarrow> string \<Rightarrow> string \<Rightarrow> projection_state \<Rightarrow> reducer_result" where
  "debit_balance subkey token amount st =
     (let cur = get_or ''0'' (ps_balances st) (subkey, token)
      in try_in st (ok_or (u256_sub cur amount) (Underflow subkey token cur amount)) (\<lambda>next_amount.
           (Ok (), st\<lparr>ps_balances := bt_insert (subkey, token) next_amount (ps_balances st)\<rparr>)))"


section \<open>Handlers\<close>

definition apply_identity :: "(subaccount_meta \<Rightarrow> subaccount_meta) \<Rightarrow> hybrid_v2_event \<Rightarrow> projection_state \<Rightarrow> reducer_result" where
  "apply_identity mark e st =
     try_in st (require_identity e) (\<lambda>(owner, sid, subkey).
       (Ok (), st\<lparr>ps_subaccounts := bt_insert (owner, sid) subkey (ps_subaccounts st),
                 ps_subaccount_meta := upsert default_meta subkey mark (ps_subaccount_meta st)\<rparr>))"

definition apply_deposit :: "hybrid_v2_event \<Rightarrow> projection_state \<Rightarrow> reducer_result" where
  "apply_deposit e st =
     try_in st (require (he_subkey e) (he_kind e) ''subkey'') (\<lambda>subkey.
     try_in st (require (he_token e) (he_kind e) ''token'') (\<lambda>token.
     if is_finalized st subkey then (Err (FinalizedSubaccountCredit subkey (event_kind_as_str (he_kind e))), st)
     else try_in st (require_amount (he_payload e) (he_kind e)) (\<lambda>amount.
     credit_balance subkey token amount st)))"

definition apply_withdraw :: "hybrid_v2_event \<Rightarrow> projection_state \<Rightarrow> reducer_result" where
  "apply_withdraw e st =
     try_in st (require (he_subkey e) (he_kind e) ''subkey'') (\<lambda>subkey.
     try_in st (require (he_token e) (he_kind e) ''token'') (\<lambda>token.
     try_in st (require_amount (he_payload e) (he_kind e)) (\<lambda>amount.
     debit_balance subkey token amount st)))"

definition credit_opt :: "string option \<Rightarrow> string \<Rightarrow> string \<Rightarrow> projection_state \<Rightarrow> reducer_result" where
  "credit_opt to_key token amount st = (case to_key of None \<Rightarrow> (Ok (), st) | Some k \<Rightarrow> credit_balance k token amount st)"

definition debit_opt :: "string option \<Rightarrow> string \<Rightarrow> string \<Rightarrow> projection_state \<Rightarrow> reducer_result" where
  "debit_opt from_key token amount st = (case from_key of None \<Rightarrow> (Ok (), st) | Some k \<Rightarrow> debit_balance k token amount st)"

definition apply_internal_transfer :: "hybrid_v2_event \<Rightarrow> projection_state \<Rightarrow> reducer_result" where
  "apply_internal_transfer e st =
     (let from_key = payload_string (he_payload e) ''from_subkey''; to_key = payload_string (he_payload e) ''to_subkey''
      in try_in st (require (he_token e) (he_kind e) ''token'') (\<lambda>token.
         try_in st (require_amount (he_payload e) (he_kind e)) (\<lambda>amount.
           case debit_opt from_key token amount st of
             (Err x, st') \<Rightarrow> (Err x, st')
           | (Ok _, st') \<Rightarrow> credit_opt to_key token amount st')))"

definition adjust_reservation :: "hybrid_v2_event \<Rightarrow> bool \<Rightarrow> projection_state \<Rightarrow> reducer_result" where
  "adjust_reservation e add st =
     try_in st (require (he_subkey e) (he_kind e) ''subkey'') (\<lambda>subkey.
     try_in st (require (he_token e) (he_kind e) ''token'') (\<lambda>token.
     try_in st (require (he_engine e) (he_kind e) ''engine'') (\<lambda>engine.
     try_in st (require_amount (he_payload e) (he_kind e)) (\<lambda>amount.
       let key = (subkey, token, engine); cur = get_or ''0'' (ps_reservations st) key
       in try_in st (if add then ok_or (u256_add cur amount) (Overflow subkey token)
                     else ok_or (u256_sub cur amount) (Underflow subkey token cur amount)) (\<lambda>next_amount.
            (Ok (), st\<lparr>ps_reservations := bt_insert key next_amount (ps_reservations st)\<rparr>))))))"

definition apply_universe :: "hybrid_v2_event \<Rightarrow> projection_state \<Rightarrow> reducer_result" where
  "apply_universe e st =
     try_in st (require (he_token e) (he_kind e) ''token'') (\<lambda>token.
       let fallback = of_nat (length (ps_collateral_universe st));
           idx = (case Option.bind (payload_string (he_payload e) ''universe_index'') (parse_unsigned (2 ^ 32)) of
                    Some n \<Rightarrow> of_nat n | None \<Rightarrow> fallback)
       in if bt_get (ps_collateral_universe st) token = None \<and> length (ps_collateral_universe st) \<ge> MAX_COLLATERAL_TOKENS
          then (Err (CollateralUniverseCapacity (length (ps_collateral_universe st) + 1) MAX_COLLATERAL_TOKENS), st)
          else (Ok (), st\<lparr>ps_collateral_universe := upsert idx token id (ps_collateral_universe st),
                          ps_disabled_tokens := ps_disabled_tokens st - {token}\<rparr>))"

definition apply_token_support :: "bool \<Rightarrow> hybrid_v2_event \<Rightarrow> projection_state \<Rightarrow> projection_state" where
  "apply_token_support supported e st =
     (case he_token e of
        None \<Rightarrow> st
      | Some token \<Rightarrow> st\<lparr>ps_disabled_tokens := (if supported then ps_disabled_tokens st - {token} else insert token (ps_disabled_tokens st))\<rparr>)"

definition apply_capability :: "hybrid_v2_event \<Rightarrow> projection_state \<Rightarrow> reducer_result" where
  "apply_capability e st =
     try_in st (require (he_engine e) (he_kind e) ''engine'') (\<lambda>engine.
       let added = or_zero (payload_string (he_payload e) ''added_bits'');
           removed = or_zero (payload_string (he_payload e) ''removed_bits'');
           cur = get_or ''0'' (ps_capability_grants st) engine
       in (Ok (), st\<lparr>ps_capability_grants := bt_insert engine (u256_bitwise_or_and_mask cur added removed) (ps_capability_grants st)\<rparr>))"

definition apply_pause_flag :: "hybrid_v2_event \<Rightarrow> projection_state \<Rightarrow> reducer_result" where
  "apply_pause_flag e st =
     try_in st (require (he_subkey e) (he_kind e) ''subkey'') (\<lambda>subkey.
       (Ok (), st\<lparr>ps_pause_flags := bt_insert subkey (payload_bool (he_payload e) ''paused'' = Some True) (ps_pause_flags st)\<rparr>))"

definition apply_bad_debt :: "hybrid_v2_event \<Rightarrow> projection_state \<Rightarrow> reducer_result" where
  "apply_bad_debt e st =
     try_in st (require (he_subkey e) (he_kind e) ''subkey'') (\<lambda>subkey.
     try_in st (require (he_token e) (he_kind e) ''token'') (\<lambda>token.
     try_in st (require_amount (he_payload e) (he_kind e)) (\<lambda>amount.
     try_in st (ok_or (u256_add (get_or ''0'' (ps_bad_debt st) (subkey, token)) amount) (Overflow subkey token)) (\<lambda>next_amount.
       (Ok (), st\<lparr>ps_bad_debt := bt_insert (subkey, token) next_amount (ps_bad_debt st)\<rparr>)))))"

text \<open>A series leaves the active set of its subaccount, and an empty set leaves the map.\<close>

definition deactivate_series :: "string \<Rightarrow> string \<Rightarrow> (string, string set) btreemap \<Rightarrow> (string, string set) btreemap" where
  "deactivate_series subkey series m =
     (case bt_get m subkey of
        None \<Rightarrow> m
      | Some xs \<Rightarrow> if xs - {series} = {} then bt_remove subkey m else bt_modify subkey (\<lambda>s. s - {series}) m)"

definition apply_position_open :: "hybrid_v2_event \<Rightarrow> apply_context \<Rightarrow> projection_state \<Rightarrow> reducer_result" where
  "apply_position_open e ctx st =
     try_in st (require (he_subkey e) (he_kind e) ''subkey'') (\<lambda>subkey.
     try_in st (require (he_series_id e) (he_kind e) ''series_id'') (\<lambda>series.
       let long_delta = or_zero (payload_string (he_payload e) ''long_delta_1e8'');
           short_delta = or_zero (payload_string (he_payload e) ''short_delta_1e8'');
           k = (subkey, series); row = get_or default_position (ps_positions st) k;
           st0 = st\<lparr>ps_positions := bt_insert k row (ps_positions st)\<rparr>
       in try_in st0 (ok_or (u256_add (pr_long_qty_1e8 row) long_delta) (Overflow subkey series)) (\<lambda>long_qty.
          let row = row\<lparr>pr_long_qty_1e8 := long_qty\<rparr>; st1 = st0\<lparr>ps_positions := bt_insert k row (ps_positions st0)\<rparr>
          in try_in st1 (ok_or (u256_add (pr_short_qty_1e8 row) short_delta) (Overflow subkey series)) (\<lambda>short_qty.
             let row = row\<lparr>pr_short_qty_1e8 := short_qty, pr_last_event_block := ac_block_number ctx\<rparr>;
                 xs = insert series (get_or {} (ps_active_series st) subkey);
                 st2 = st1\<lparr>ps_positions := bt_insert k row (ps_positions st1),
                          ps_active_series := bt_insert subkey xs (ps_active_series st1)\<rparr>
             in if card xs > MAX_ACTIVE_SERIES then (Err (ActiveSeriesCapacity subkey (card xs) MAX_ACTIVE_SERIES), st2)
                else (Ok (), st2)))))"

definition apply_signed_delta :: "string \<Rightarrow> i128 \<Rightarrow> string \<Rightarrow> string \<Rightarrow> string \<Rightarrow> reducer_error + string" where
  "apply_signed_delta current delta subkey series side =
     (if delta \<ge> 0 then ok_or (u256_add current (decimal_int delta)) (Overflow subkey series)
      else let amount = decimal (nat \<bar>delta\<bar>)
           in ok_or (u256_sub current amount) (PositionUnderflow subkey series side current amount))"

definition apply_delta_opt :: "string \<Rightarrow> i128 option \<Rightarrow> string \<Rightarrow> string \<Rightarrow> string \<Rightarrow> reducer_error + string" where
  "apply_delta_opt current delta subkey series side =
     (case delta of Some d \<Rightarrow> apply_signed_delta current d subkey series side | None \<Rightarrow> Ok current)"

definition apply_position_modify :: "hybrid_v2_event \<Rightarrow> apply_context \<Rightarrow> projection_state \<Rightarrow> reducer_result" where
  "apply_position_modify e ctx st =
     try_in st (require (he_subkey e) (he_kind e) ''subkey'') (\<lambda>subkey.
     try_in st (require (he_series_id e) (he_kind e) ''series_id'') (\<lambda>series.
       let k = (subkey, series); row = get_or default_position (ps_positions st) k;
           st0 = st\<lparr>ps_positions := bt_insert k row (ps_positions st)\<rparr>
       in try_in st0 (apply_delta_opt (pr_long_qty_1e8 row) (payload_i128 (he_payload e) ''long_delta_1e8_signed'') subkey series ''long'') (\<lambda>long_qty.
          let row = row\<lparr>pr_long_qty_1e8 := long_qty\<rparr>; st1 = st0\<lparr>ps_positions := bt_insert k row (ps_positions st0)\<rparr>
          in try_in st1 (apply_delta_opt (pr_short_qty_1e8 row) (payload_i128 (he_payload e) ''short_delta_1e8_signed'') subkey series ''short'') (\<lambda>short_qty.
             let row = row\<lparr>pr_short_qty_1e8 := short_qty, pr_last_event_block := ac_block_number ctx\<rparr>
             in if pr_long_qty_1e8 row = ''0'' \<and> pr_short_qty_1e8 row = ''0''
                then (Ok (), st1\<lparr>ps_positions := bt_remove k (ps_positions st1),
                                ps_active_series := deactivate_series subkey series (ps_active_series st1)\<rparr>)
                else (Ok (), st1\<lparr>ps_positions := bt_insert k row (ps_positions st1)\<rparr>)))))"

definition apply_position_close :: "hybrid_v2_event \<Rightarrow> projection_state \<Rightarrow> reducer_result" where
  "apply_position_close e st =
     try_in st (require (he_subkey e) (he_kind e) ''subkey'') (\<lambda>subkey.
     try_in st (require (he_series_id e) (he_kind e) ''series_id'') (\<lambda>series.
       (Ok (), st\<lparr>ps_positions := bt_remove (subkey, series) (ps_positions st),
                 ps_active_series := deactivate_series subkey series (ps_active_series st)\<rparr>)))"

definition apply_position_liquidated :: "hybrid_v2_event \<Rightarrow> apply_context \<Rightarrow> projection_state \<Rightarrow> reducer_result" where
  "apply_position_liquidated e ctx st =
     try_in st (require (he_subkey e) (he_kind e) ''subkey'') (\<lambda>subkey.
     try_in st (require (he_series_id e) (he_kind e) ''series_id'') (\<lambda>series.
       (Ok (), st\<lparr>ps_positions := bt_modify (subkey, series)
                   (\<lambda>row. row\<lparr>pr_long_qty_1e8 := ''0'', pr_short_qty_1e8 := ''0'', pr_last_event_block := ac_block_number ctx\<rparr>) (ps_positions st),
                 ps_active_series := deactivate_series subkey series (ps_active_series st)\<rparr>)))"

definition seen_at :: "apply_context \<Rightarrow> order_lifecycle_row \<Rightarrow> order_lifecycle_row" where
  "seen_at ctx row = (if ol_first_seen_block row = 0 then row\<lparr>ol_first_seen_block := ac_block_number ctx\<rparr> else row)"

definition set_parties :: "hybrid_v2_event \<Rightarrow> order_lifecycle_row \<Rightarrow> order_lifecycle_row" where
  "set_parties e row =
     row\<lparr>ol_subkey := (case he_subkey e of Some sk \<Rightarrow> sk | None \<Rightarrow> ol_subkey row),
        ol_owner := (case he_owner e of Some ow \<Rightarrow> ow | None \<Rightarrow> ol_owner row)\<rparr>"

definition apply_order_filled :: "hybrid_v2_event \<Rightarrow> apply_context \<Rightarrow> projection_state \<Rightarrow> reducer_result" where
  "apply_order_filled e ctx st =
     try_in st (require (he_order_hash e) (he_kind e) ''order_hash'') (\<lambda>order_hash.
       let filled_delta = or_zero (payload_string (he_payload e) ''filled_delta_1e8'');
           row = seen_at ctx (get_or default_order_row (ps_order_lifecycle st) order_hash);
           st0 = st\<lparr>ps_order_lifecycle := bt_insert order_hash row (ps_order_lifecycle st)\<rparr>
       in try_in st0 (ok_or (u256_add (ol_filled_qty_1e8 row) filled_delta) (Overflow order_hash ''filled'')) (\<lambda>candidate.
          if u256_lt candidate (ol_filled_qty_1e8 row)
          then (Err (FilledQtyDecrease order_hash (ol_filled_qty_1e8 row) candidate), st0)
          else
            let total = (case payload_string (he_payload e) ''total_qty_1e8'' of
                           Some t \<Rightarrow> if ol_total_qty_1e8 row = ''0'' \<or> u256_lt (ol_total_qty_1e8 row) t then t else ol_total_qty_1e8 row
                         | None \<Rightarrow> ol_total_qty_1e8 row);
                row' = (set_parties e row)\<lparr>ol_filled_qty_1e8 := candidate, ol_total_qty_1e8 := total,
                         ol_series_id := (case he_series_id e of Some s \<Rightarrow> Some s | None \<Rightarrow> ol_series_id row),
                         ol_side := (case payload_u8 (he_payload e) ''side'' of Some n \<Rightarrow> n | None \<Rightarrow> 0),
                         ol_time_in_force := (case payload_u8 (he_payload e) ''time_in_force'' of Some n \<Rightarrow> n | None \<Rightarrow> 0),
                         ol_terminal := ol_terminal row \<or> payload_bool (he_payload e) ''terminal'' = Some True,
                         ol_last_event_block := ac_block_number ctx\<rparr>
            in (Ok (), st0\<lparr>ps_order_lifecycle := bt_insert order_hash row' (ps_order_lifecycle st0)\<rparr>)))"

definition apply_order_cancelled :: "hybrid_v2_event \<Rightarrow> apply_context \<Rightarrow> projection_state \<Rightarrow> reducer_result" where
  "apply_order_cancelled e ctx st =
     try_in st (require (he_order_hash e) (he_kind e) ''order_hash'') (\<lambda>order_hash.
       (Ok (), st\<lparr>ps_order_lifecycle := upsert default_order_row order_hash
          (\<lambda>row. (set_parties e (seen_at ctx row))\<lparr>ol_cancelled := True, ol_terminal := True, ol_last_event_block := ac_block_number ctx\<rparr>)
          (ps_order_lifecycle st)\<rparr>))"

definition apply_min_nonce :: "hybrid_v2_event \<Rightarrow> projection_state \<Rightarrow> reducer_result" where
  "apply_min_nonce e st =
     try_in st (require (he_subkey e) (he_kind e) ''subkey'') (\<lambda>subkey.
       let incoming = or_zero (payload_string (he_payload e) ''new_min_valid_nonce'');
           cur = get_or ''0'' (ps_min_valid_nonce st) subkey
       in if u256_lt incoming cur then (Err (MinNonceDecrease ''SUBACCOUNT'' subkey cur incoming), st)
          else (Ok (), st\<lparr>ps_min_valid_nonce := bt_insert subkey incoming (ps_min_valid_nonce st)\<rparr>))"

definition push_fee_event ::
  "string \<Rightarrow> string option \<Rightarrow> string option \<Rightarrow> hybrid_v2_event \<Rightarrow> apply_context \<Rightarrow> projection_state \<Rightarrow> reducer_result" where
  "push_fee_event label payer receiver e ctx st =
     try_in st (require (he_token e) (he_kind e) ''token'') (\<lambda>token.
     try_in st (require_amount (he_payload e) (he_kind e)) (\<lambda>amount.
       (Ok (), st\<lparr>ps_fee_events := ps_fee_events st @
          [\<lparr> fe_kind = label, fe_payer_subkey = payer, fe_receiver_subkey = receiver, fe_token = token, fe_amount = amount,
             fe_block_number = ac_block_number ctx, fe_tx_hash = ac_tx_hash ctx, fe_log_index = ac_log_index ctx,
             fe_execution_id = he_execution_id e \<rparr>]\<rparr>)))"

text \<open>A step of the recovery lifecycle: the state of the subaccount and its escape row.\<close>

definition set_recovery ::
  "string \<Rightarrow> recovery_state_projection \<Rightarrow> (escape_state_row \<Rightarrow> escape_state_row) \<Rightarrow> apply_context \<Rightarrow> projection_state \<Rightarrow> projection_state" where
  "set_recovery subkey to_state f ctx st =
     st\<lparr>ps_recovery_state := bt_insert subkey to_state (ps_recovery_state st),
        ps_escape_state := upsert default_escape subkey (\<lambda>row. (f row)\<lparr>es_last_event_block := ac_block_number ctx\<rparr>) (ps_escape_state st)\<rparr>"

definition parse_u64 :: "string \<Rightarrow> u64 option" where
  "parse_u64 s = map_option of_nat (parse_unsigned (2 ^ 64) s)"

definition apply_recovery_requested :: "hybrid_v2_event \<Rightarrow> apply_context \<Rightarrow> projection_state \<Rightarrow> reducer_result" where
  "apply_recovery_requested e ctx st =
     try_in st (require (he_subkey e) (he_kind e) ''subkey'') (\<lambda>subkey.
       (Ok (), set_recovery subkey RecoveryPending
          (\<lambda>row. row\<lparr>es_state := ''REQUESTED'', es_requested_ts := Some (ac_block_timestamp ctx),
             es_activation_eligible_at := Option.bind (payload_string (he_payload e) ''activation_eligible_at'') parse_u64\<rparr>) ctx st))"

definition apply_recovery_activated :: "hybrid_v2_event \<Rightarrow> apply_context \<Rightarrow> projection_state \<Rightarrow> reducer_result" where
  "apply_recovery_activated e ctx st =
     try_in st (require (he_subkey e) (he_kind e) ''subkey'') (\<lambda>subkey.
       (Ok (), set_recovery subkey RecoveryActive
          (\<lambda>row. row\<lparr>es_state := ''ACTIVATED'', es_activated_ts := Some (ac_block_timestamp ctx)\<rparr>) ctx st))"

definition apply_recovery_cancelled :: "hybrid_v2_event \<Rightarrow> apply_context \<Rightarrow> projection_state \<Rightarrow> reducer_result" where
  "apply_recovery_cancelled e ctx st =
     try_in st (require (he_subkey e) (he_kind e) ''subkey'') (\<lambda>subkey.
       let prior = bt_get (ps_recovery_state st) subkey
       in if prior = Some Recovered
          then (Err (IllegalRecoveryTransition subkey prior RecoveryStateCancelled (event_kind_as_str (he_kind e))), st)
          else (Ok (), set_recovery subkey RecoveryStateCancelled
                 (\<lambda>row. row\<lparr>es_state := ''CANCELLED'', es_cancelled_ts := Some (ac_block_timestamp ctx)\<rparr>) ctx st))"

definition apply_recovery_finalized :: "hybrid_v2_event \<Rightarrow> apply_context \<Rightarrow> projection_state \<Rightarrow> reducer_result" where
  "apply_recovery_finalized e ctx st =
     try_in st (require (he_subkey e) (he_kind e) ''subkey'') (\<lambda>subkey.
       let prior = bt_get (ps_recovery_state st) subkey
       in if prior = Some Recovered
          then (Err (IllegalRecoveryTransition subkey prior Recovered (event_kind_as_str (he_kind e))), st)
          else let st' = set_recovery subkey Recovered
                     (\<lambda>row. row\<lparr>es_state := ''FINALIZED'', es_finalized_ts := Some (ac_block_timestamp ctx)\<rparr>) ctx st
               in (Ok (), st'\<lparr>ps_balances := bt_retain (\<lambda>(s, _). s \<noteq> subkey) (ps_balances st'),
                             ps_reservations := bt_retain (\<lambda>(s, _, _). s \<noteq> subkey) (ps_reservations st')\<rparr>))"

definition advance_epoch :: "apply_context \<Rightarrow> epoch_row \<Rightarrow> epoch_row" where
  "advance_epoch ctx row = row\<lparr>ep_epoch_count := saturating_inc_u64 (ep_epoch_count row), ep_last_event_block := ac_block_number ctx\<rparr>"

definition apply_subaccount_epoch :: "hybrid_v2_event \<Rightarrow> apply_context \<Rightarrow> projection_state \<Rightarrow> reducer_result" where
  "apply_subaccount_epoch e ctx st =
     try_in st (require (he_subkey e) (he_kind e) ''subkey'') (\<lambda>subkey.
       (Ok (), st\<lparr>ps_subaccount_recovery_epochs := upsert default_epoch subkey (advance_epoch ctx) (ps_subaccount_recovery_epochs st)\<rparr>))"

definition apply_owner_epoch :: "hybrid_v2_event \<Rightarrow> apply_context \<Rightarrow> projection_state \<Rightarrow> reducer_result" where
  "apply_owner_epoch e ctx st =
     try_in st (require (he_owner e) (he_kind e) ''owner'') (\<lambda>owner.
       (Ok (), st\<lparr>ps_owner_recovery_epochs := upsert default_epoch owner (advance_epoch ctx) (ps_owner_recovery_epochs st)\<rparr>))"

definition apply_nonce_cancelled :: "hybrid_v2_event \<Rightarrow> apply_context \<Rightarrow> projection_state \<Rightarrow> reducer_result" where
  "apply_nonce_cancelled e ctx st =
     try_in st (require (he_owner e) (he_kind e) ''owner'') (\<lambda>owner.
       let incoming = or_zero (payload_string (he_payload e) ''new_min_valid_nonce'');
           cur = (case bt_get (ps_owner_recovery_epochs st) owner of Some r \<Rightarrow> ep_min_valid_nonce r | None \<Rightarrow> ''0'')
       in if u256_lt incoming cur then (Err (MinNonceDecrease ''OWNER'' owner cur incoming), st)
          else (Ok (), st\<lparr>ps_owner_recovery_epochs := upsert default_epoch owner
                 (\<lambda>row. row\<lparr>ep_min_valid_nonce := incoming, ep_last_event_block := ac_block_number ctx\<rparr>) (ps_owner_recovery_epochs st)\<rparr>))"

definition apply_recovery_pause :: "hybrid_v2_event \<Rightarrow> apply_context \<Rightarrow> projection_state \<Rightarrow> projection_state" where
  "apply_recovery_pause e ctx st =
     st\<lparr>ps_recovery_pause := Some \<lparr> rp_paused = (payload_bool (he_payload e) ''paused'' = Some True),
          rp_until_ts = (case Option.bind (payload_string (he_payload e) ''until_ts'') parse_u64 of Some n \<Rightarrow> n | None \<Rightarrow> 0),
          rp_last_event_block = ac_block_number ctx \<rparr>\<rparr>"

definition apply_finalization_withdrawn :: "hybrid_v2_event \<Rightarrow> projection_state \<Rightarrow> reducer_result" where
  "apply_finalization_withdrawn e st =
     try_in st (require (he_subkey e) (he_kind e) ''subkey'') (\<lambda>subkey.
       (Ok (), st\<lparr>ps_recovery_finalization_withdrawals :=
          upsert 0 subkey saturating_inc_u32 (ps_recovery_finalization_withdrawals st)\<rparr>))"


section \<open>The reducer\<close>

definition apply_event :: "projection_state \<Rightarrow> hybrid_v2_event \<Rightarrow> apply_context \<Rightarrow> reducer_result" where
  "apply_event st e ctx =
     (case he_kind e of
        SubaccountCreated \<Rightarrow> apply_identity (\<lambda>meta. meta\<lparr>sm_materialised_via_created := True\<rparr>) e st
      | SubaccountLazyRegistered \<Rightarrow> apply_identity (\<lambda>meta. meta\<lparr>sm_materialised_via_lazy := True\<rparr>) e st
      | Deposit \<Rightarrow> apply_deposit e st
      | Withdraw \<Rightarrow> apply_withdraw e st
      | InternalTransfer \<Rightarrow> apply_internal_transfer e st
      | CollateralLocked \<Rightarrow> adjust_reservation e True st
      | CollateralUnlocked \<Rightarrow> adjust_reservation e False st
      | OrphanedLockReleased \<Rightarrow> adjust_reservation e False st
      | CollateralTokenEnteredUniverse \<Rightarrow> apply_universe e st
      | SupportedTokenAdded \<Rightarrow> (Ok (), apply_token_support True e st)
      | SupportedTokenRemoved \<Rightarrow> (Ok (), apply_token_support False e st)
      | EngineCapabilityChanged \<Rightarrow> apply_capability e st
      | EngineGuardianRevoked \<Rightarrow> try_in st (require (he_engine e) (he_kind e) ''engine'') (\<lambda>_. (Ok (), st))
      | GuardianChanged \<Rightarrow> (Ok (), st)
      | PauseFlagChanged \<Rightarrow> apply_pause_flag e st
      | BadDebtSocialized \<Rightarrow> apply_bad_debt e st
      | ProtocolSubaccountsInitialized \<Rightarrow> (Ok (), st)
      | EscapeControllerInitialized \<Rightarrow> (Ok (), st)
      | RecoveryFinalizerInitialized \<Rightarrow> (Ok (), st)
      | DeploymentManifestDeclared \<Rightarrow> (Ok (), st)
      | RiskParamsSet \<Rightarrow> (Ok (), st)
      | RiskModuleActivated \<Rightarrow> (Ok (), st)
      | LiquidationTriggered \<Rightarrow> (Ok (), st)
      | OptionPositionOpened \<Rightarrow> apply_position_open e ctx st
      | OptionPositionModified \<Rightarrow> apply_position_modify e ctx st
      | OptionPositionClosed \<Rightarrow> apply_position_close e st
      | OptionExercised \<Rightarrow> (Ok (), st)
      | OptionSettled \<Rightarrow> (Ok (), st)
      | OptionPositionLiquidated \<Rightarrow> apply_position_liquidated e ctx st
      | OptionOrderFilled \<Rightarrow> apply_order_filled e ctx st
      | OptionOrderCancelled \<Rightarrow> apply_order_cancelled e ctx st
      | OptionOrderPairExecuted \<Rightarrow> (Ok (), st)
      | OptionSubaccountMinValidOrderNonceAdvanced \<Rightarrow> apply_min_nonce e st
      | OptionPremiumTransferred \<Rightarrow> push_fee_event ''OPTION_PREMIUM_TRANSFERRED''
          (payload_string (he_payload e) ''from_subkey'') (payload_string (he_payload e) ''to_subkey'') e ctx st
      | OptionFeeCharged \<Rightarrow> push_fee_event ''OPTION_FEE_CHARGED''
          (he_subkey e) (payload_string (he_payload e) ''fee_subkey'') e ctx st
      | OptionRebatePaid \<Rightarrow> push_fee_event ''OPTION_REBATE_PAID''
          (payload_string (he_payload e) ''rebate_subkey'') (he_subkey e) e ctx st
      | RecoveryRequested \<Rightarrow> apply_recovery_requested e ctx st
      | RecoveryActivated \<Rightarrow> apply_recovery_activated e ctx st
      | RecoveryCancelled \<Rightarrow> apply_recovery_cancelled e ctx st
      | RecoveryEpochIncremented \<Rightarrow> apply_subaccount_epoch e ctx st
      | RecoveryPauseSet \<Rightarrow> (Ok (), apply_recovery_pause e ctx st)
      | RecoveryFinalized \<Rightarrow> apply_recovery_finalized e ctx st
      | RecoveryFinalizationWithdrawn \<Rightarrow> apply_finalization_withdrawn e st
      | IntentConsumed \<Rightarrow> (Ok (), st)
      | NonceCancelled \<Rightarrow> apply_nonce_cancelled e ctx st
      | OwnerRecoveryEpochAdvanced \<Rightarrow> apply_owner_epoch e ctx st
      | SubaccountRecoveryEpochAdvanced \<Rightarrow> apply_subaccount_epoch e ctx st)"

end
