(* ===== verification/Projection_Inv.thy ===== *)
theory Projection_Inv
  imports Projection
begin

text \<open>
  The invariant of the projection: ordered tables, amounts in the one canonical decimal form, bounded
  universe and active series, and agreement of the tables that the code keeps side by side.
\<close>


section \<open>Canonical amounts\<close>

definition canonical :: "string \<Rightarrow> bool" where
  "canonical s = (case dec_value s of Some n \<Rightarrow> s = decimal n | None \<Rightarrow> False)"

definition qty_ok :: "string \<Rightarrow> bool" where
  "qty_ok s = (s = [] \<or> canonical s)"

lemma canonical_iff: "canonical s \<longleftrightarrow> (\<exists>n < 2 ^ 256. s = decimal n)"
proof
  assume "canonical s"
  then obtain n where "dec_value s = Some n" "s = decimal n" by (auto simp: canonical_def split: option.splits)
  then show "\<exists>n < 2 ^ 256. s = decimal n" using dec_value_less by blast
qed (auto simp: canonical_def)

lemma canonical_value: "canonical s \<Longrightarrow> \<exists>n. dec_value s = Some n \<and> s = decimal n"
  by (auto simp: canonical_def split: option.splits)

lemma canonical_decimal [simp]: "canonical (decimal n) \<longleftrightarrow> n < 2 ^ 256"
  by (auto simp: canonical_iff)

lemma decimal_0 [simp]: "decimal 0 = ''0''"
  by code_simp

lemma canonical_zero [simp]: "canonical ''0''"
  using canonical_decimal [of 0] by simp

lemma dec_value_zero [simp]: "dec_value ''0'' = Some 0" "dec_value [] = Some 0"
  using dec_value_decimal [of 0] by (simp_all add: dec_value_def trim_def read_decimal_def)

lemma u256_add_Some: "u256_add a b = Some c \<longleftrightarrow> (\<exists>m n. dec_value a = Some m \<and> dec_value b = Some n \<and> m + n < 2 ^ 256 \<and> c = decimal (m + n))"
  by (auto simp: u256_add_value split: option.splits if_splits)

lemma u256_sub_Some: "u256_sub a b = Some c \<longleftrightarrow> (\<exists>m n. dec_value a = Some m \<and> dec_value b = Some n \<and> n \<le> m \<and> c = decimal (m - n))"
  by (auto simp: u256_sub_value split: option.splits if_splits)

lemma u256_results_canonical: "u256_add a b = Some c \<Longrightarrow> canonical c" "u256_sub a b = Some c \<Longrightarrow> canonical c"
proof -
  show "u256_sub a b = Some c \<Longrightarrow> canonical c" unfolding u256_sub_Some using dec_value_less by fastforce
qed (auto simp: u256_add_Some)

lemma length_parsed [simp]: "length (fst (parse_dec_uint256 s)) = 32"
  by (cases rule: parse_cases [of s]) simp_all

lemma mask_canonical: "canonical (u256_bitwise_or_and_mask c a r)"
proof -
  let ?bs = "or_and_mask (fst (parse_dec_uint256 c)) (fst (parse_dec_uint256 a)) (fst (parse_dec_uint256 r))"
  have l: "length ?bs = 32" by (simp add: or_and_mask_def)
  show ?thesis using be_val_less [of ?bs] by (simp add: u256_bitwise_or_and_mask_def printed [OF l] l)
qed


section \<open>Tables\<close>

definition table_ok :: "('v \<Rightarrow> bool) \<Rightarrow> ('k :: linorder, 'v) btreemap \<Rightarrow> bool" where
  "table_ok P m = (bt_ok m \<and> (\<forall>(k, v) \<in> set m. P v))"

lemma table_ok_get: "table_ok P m \<Longrightarrow> bt_get m k = Some v \<Longrightarrow> P v"
  by (auto simp: table_ok_def bt_get_iff)

lemma table_ok_bt_ok: "table_ok P m \<Longrightarrow> bt_ok m"
  by (simp add: table_ok_def)

lemma table_ok_get_or: "table_ok P m \<Longrightarrow> P d \<Longrightarrow> P (get_or d m k)"
  by (auto simp: get_or_def dest: table_ok_get split: option.splits)

lemma table_ok_Nil [simp]: "table_ok P []"
  by (simp add: table_ok_def)

lemma table_ok_insert: "table_ok P m \<Longrightarrow> P v \<Longrightarrow> table_ok P (bt_insert k v m)"
  by (auto simp: table_ok_def set_bt_insert)

lemma table_ok_upsert: "table_ok P m \<Longrightarrow> P d \<Longrightarrow> (\<And>v. P v \<Longrightarrow> P (f v)) \<Longrightarrow> table_ok P (upsert d k f m)"
  by (simp add: upsert_def table_ok_insert table_ok_get_or)

lemma table_ok_remove: "table_ok P m \<Longrightarrow> table_ok P (bt_remove k m)"
  by (auto simp: table_ok_def) (auto simp: bt_remove_def)

lemma table_ok_modify: "table_ok P m \<Longrightarrow> (\<And>v. P v \<Longrightarrow> P (f v)) \<Longrightarrow> table_ok P (bt_modify k f m)"
  by (auto simp: table_ok_def) (auto simp: bt_modify_def)

lemma table_ok_modify_at: "table_ok P m \<Longrightarrow> bt_get m k = Some v \<Longrightarrow> P (f v) \<Longrightarrow> table_ok P (bt_modify k f m)"
proof -
  assume ok: "table_ok P m" and v: "bt_get m k = Some v" "P (f v)"
  have "w = v" if "(k, w) \<in> set m" for w using that ok v(1) by (simp add: table_ok_def bt_get_iff [THEN iffD2])
  moreover have "set (bt_modify k f m) = (\<lambda>kv. if fst kv = k then (k, f (snd kv)) else kv) ` set m" by (simp add: bt_modify_def)
  ultimately show ?thesis using ok v(2) by (auto simp: table_ok_def)
qed

lemma bt_ok_retain [simp]: "bt_ok m \<Longrightarrow> bt_ok (bt_retain P m)"
  by (induction m) (auto simp: bt_ok_Cons bt_retain_def)

lemma table_ok_retain: "table_ok P m \<Longrightarrow> table_ok P (bt_retain Q m)"
  by (auto simp: table_ok_def) (auto simp: bt_retain_def)

lemma bt_get_retain: "bt_get (bt_retain Q m) k = (if Q k then bt_get m k else None)"
  by (induction m) (auto simp: bt_get_def bt_retain_def)

lemma upsert_get [simp]: "bt_ok m \<Longrightarrow> bt_get (upsert d k f m) k' = (if k' = k then Some (f (get_or d m k)) else bt_get m k')"
  by (simp add: upsert_def)

lemma upsert_bt_ok [simp]: "bt_ok m \<Longrightarrow> bt_ok (upsert d k f m)"
  by (simp add: upsert_def)

lemmas table_intros = table_ok_insert table_ok_upsert table_ok_remove table_ok_modify table_ok_retain


section \<open>The invariant\<close>

definition position_ok :: "position_row \<Rightarrow> bool" where
  "position_ok r = (qty_ok (pr_long_qty_1e8 r) \<and> qty_ok (pr_short_qty_1e8 r))"

definition order_row_ok :: "order_lifecycle_row \<Rightarrow> bool" where
  "order_row_ok r = (qty_ok (ol_filled_qty_1e8 r) \<and> (ol_cancelled r \<longrightarrow> ol_terminal r))"

definition series_ok :: "string set \<Rightarrow> bool" where
  "series_ok xs = (finite xs \<and> xs \<noteq> {} \<and> card xs \<le> MAX_ACTIVE_SERIES)"

definition recovery_text :: "recovery_state_projection \<Rightarrow> string" where
  "recovery_text s = (case s of RecoveryNormal \<Rightarrow> ''NORMAL'' | RecoveryPending \<Rightarrow> ''REQUESTED'' | RecoveryActive \<Rightarrow> ''ACTIVATED''
     | RecoveryStateCancelled \<Rightarrow> ''CANCELLED'' | Recovered \<Rightarrow> ''FINALIZED'')"

definition identities_ok :: "(string \<times> u32, string) btreemap \<Rightarrow> (string, subaccount_meta) btreemap \<Rightarrow> bool" where
  "identities_ok subs metas =
     (bt_ok subs \<and> table_ok (\<lambda>m. sm_materialised_via_created m \<or> sm_materialised_via_lazy m) metas \<and>
      (\<forall>k sk. bt_get subs k = Some sk \<longrightarrow> bt_get metas sk \<noteq> None))"

definition recovery_ok :: "(string, recovery_state_projection) btreemap \<Rightarrow> (string, escape_state_row) btreemap \<Rightarrow> bool" where
  "recovery_ok rs es =
     (bt_ok rs \<and> bt_ok es \<and> (\<forall>k. map_option recovery_text (bt_get rs k) = map_option es_state (bt_get es k)))"

definition projection_ok :: "projection_state \<Rightarrow> bool" where
  "projection_ok st =
     (identities_ok (ps_subaccounts st) (ps_subaccount_meta st) \<and>
      table_ok canonical (ps_balances st) \<and> table_ok canonical (ps_reservations st) \<and>
      table_ok canonical (ps_bad_debt st) \<and> table_ok canonical (ps_capability_grants st) \<and>
      bt_ok (ps_collateral_universe st) \<and> length (ps_collateral_universe st) \<le> MAX_COLLATERAL_TOKENS \<and>
      table_ok position_ok (ps_positions st) \<and> table_ok series_ok (ps_active_series st) \<and>
      table_ok order_row_ok (ps_order_lifecycle st) \<and> recovery_ok (ps_recovery_state st) (ps_escape_state st) \<and>
      bt_ok (ps_pause_flags st) \<and> bt_ok (ps_min_valid_nonce st) \<and> bt_ok (ps_matched_executions st) \<and>
      bt_ok (ps_owner_recovery_epochs st) \<and> bt_ok (ps_subaccount_recovery_epochs st) \<and>
      bt_ok (ps_recovery_finalization_withdrawals st))"

lemma default_projection_ok: "projection_ok default_projection"
  by (simp add: projection_ok_def default_projection_def identities_ok_def recovery_ok_def MAX_COLLATERAL_TOKENS_def)


section \<open>Preservation\<close>

lemma try_in_simps [simp]: "try_in st (Ok x) f = f x" "try_in st (Err e) f = (Err e, st)"
  by (simp_all add: try_in_def)

lemma try_in_Ok: "try_in st r f = (Ok u, st') \<longleftrightarrow> (\<exists>x. r = Ok x \<and> f x = (Ok u, st'))"
  by (cases r) auto

lemma chain_Ok: "(case r of (Err x, s) \<Rightarrow> (Err x, s) | (Ok _, s) \<Rightarrow> f s) = (Ok u, st') \<longleftrightarrow> (\<exists>s. r = (Ok (), s) \<and> f s = (Ok u, st'))"
  by (cases r; cases "fst r") auto

lemmas reducer_simps = try_in_Ok ok_or_Ok_iff Let_def require_def require_amount_def

text \<open>What every successful handler writes.\<close>

lemma credit_balance_Ok: "credit_balance sk t a st = (Ok (), st') \<longleftrightarrow>
    (\<exists>m n. dec_value (get_or ''0'' (ps_balances st) (sk, t)) = Some m \<and> dec_value a = Some n \<and> m + n < 2 ^ 256 \<and>
       st' = st\<lparr>ps_balances := bt_insert (sk, t) (decimal (m + n)) (ps_balances st)\<rparr>)"
  by (auto simp: credit_balance_def reducer_simps u256_add_Some)

lemma debit_balance_Ok: "debit_balance sk t a st = (Ok (), st') \<longleftrightarrow>
    (\<exists>m n. dec_value (get_or ''0'' (ps_balances st) (sk, t)) = Some m \<and> dec_value a = Some n \<and> n \<le> m \<and>
       st' = st\<lparr>ps_balances := bt_insert (sk, t) (decimal (m - n)) (ps_balances st)\<rparr>)"
  by (auto simp: debit_balance_def reducer_simps u256_sub_Some)

text \<open>A write to one group of tables keeps the invariant of the others.\<close>

lemma projection_updates:
  assumes "projection_ok st"
  shows "table_ok canonical m \<Longrightarrow> projection_ok (st\<lparr>ps_balances := m\<rparr>)"
    and "table_ok canonical rm \<Longrightarrow> projection_ok (st\<lparr>ps_reservations := rm\<rparr>)"
    and "table_ok canonical m \<Longrightarrow> projection_ok (st\<lparr>ps_bad_debt := m\<rparr>)"
    and "table_ok canonical cm \<Longrightarrow> projection_ok (st\<lparr>ps_capability_grants := cm\<rparr>)"
    and "table_ok position_ok pm \<Longrightarrow> table_ok series_ok am \<Longrightarrow> projection_ok (st\<lparr>ps_positions := pm, ps_active_series := am\<rparr>)"
    and "table_ok position_ok pm \<Longrightarrow> projection_ok (st\<lparr>ps_positions := pm\<rparr>)"
    and "table_ok order_row_ok om \<Longrightarrow> projection_ok (st\<lparr>ps_order_lifecycle := om\<rparr>)"
    and "recovery_ok rs es \<Longrightarrow> projection_ok (st\<lparr>ps_recovery_state := rs, ps_escape_state := es\<rparr>)"
    and "identities_ok subs metas \<Longrightarrow> projection_ok (st\<lparr>ps_subaccounts := subs, ps_subaccount_meta := metas\<rparr>)"
    and "bt_ok um \<Longrightarrow> length um \<le> MAX_COLLATERAL_TOKENS \<Longrightarrow> projection_ok (st\<lparr>ps_collateral_universe := um, ps_disabled_tokens := dt\<rparr>)"
    and "projection_ok (st\<lparr>ps_disabled_tokens := dt\<rparr>)" "projection_ok (st\<lparr>ps_fee_events := fe\<rparr>)" "projection_ok (st\<lparr>ps_recovery_pause := rp\<rparr>)"
    and "bt_ok bm \<Longrightarrow> projection_ok (st\<lparr>ps_pause_flags := bm\<rparr>)" "bt_ok nm \<Longrightarrow> projection_ok (st\<lparr>ps_min_valid_nonce := nm\<rparr>)"
    and "bt_ok xm \<Longrightarrow> projection_ok (st\<lparr>ps_matched_executions := xm\<rparr>)"
    and "bt_ok em \<Longrightarrow> projection_ok (st\<lparr>ps_owner_recovery_epochs := em\<rparr>)"
    and "bt_ok em \<Longrightarrow> projection_ok (st\<lparr>ps_subaccount_recovery_epochs := em\<rparr>)"
    and "bt_ok wm \<Longrightarrow> projection_ok (st\<lparr>ps_recovery_finalization_withdrawals := wm\<rparr>)"
  using assms unfolding projection_ok_def by simp_all

lemma projection_parts:
  assumes "projection_ok st"
  shows "identities_ok (ps_subaccounts st) (ps_subaccount_meta st)" "table_ok canonical (ps_balances st)"
    "table_ok canonical (ps_reservations st)" "table_ok canonical (ps_bad_debt st)" "table_ok canonical (ps_capability_grants st)"
    "bt_ok (ps_collateral_universe st)" "length (ps_collateral_universe st) \<le> MAX_COLLATERAL_TOKENS"
    "table_ok position_ok (ps_positions st)" "table_ok series_ok (ps_active_series st)"
    "table_ok order_row_ok (ps_order_lifecycle st)" "recovery_ok (ps_recovery_state st) (ps_escape_state st)"
    "bt_ok (ps_pause_flags st)" "bt_ok (ps_min_valid_nonce st)" "bt_ok (ps_matched_executions st)"
    "bt_ok (ps_owner_recovery_epochs st)" "bt_ok (ps_subaccount_recovery_epochs st)"
    "bt_ok (ps_recovery_finalization_withdrawals st)"
  using assms unfolding projection_ok_def by simp_all

lemma balance_writes_ok:
  "credit_balance sk t a st = (Ok (), st') \<Longrightarrow> projection_ok st \<Longrightarrow> projection_ok st'"
  "debit_balance sk t a st = (Ok (), st') \<Longrightarrow> projection_ok st \<Longrightarrow> projection_ok st'"
  by (auto simp: credit_balance_def debit_balance_def reducer_simps dest: u256_results_canonical
    intro!: projection_updates table_ok_insert projection_parts)

lemma apply_deposit_ok: "apply_deposit e st = (Ok (), st') \<Longrightarrow> projection_ok st \<Longrightarrow> projection_ok st'"
  by (auto simp: apply_deposit_def reducer_simps intro: balance_writes_ok split: if_splits)

lemma apply_withdraw_ok: "apply_withdraw e st = (Ok (), st') \<Longrightarrow> projection_ok st \<Longrightarrow> projection_ok st'"
  by (auto simp: apply_withdraw_def reducer_simps intro: balance_writes_ok)

lemma opt_writes_ok:
  "credit_opt k t a st = (Ok (), st') \<Longrightarrow> projection_ok st \<Longrightarrow> projection_ok st'"
  "debit_opt k t a st = (Ok (), st') \<Longrightarrow> projection_ok st \<Longrightarrow> projection_ok st'"
  by (auto simp: credit_opt_def debit_opt_def intro: balance_writes_ok split: option.splits)

lemma apply_internal_transfer_Ok: "apply_internal_transfer e st = (Ok (), st') \<longleftrightarrow>
    (\<exists>t a st1. he_token e = Some t \<and> payload_string (he_payload e) ''amount'' = Some a \<and>
       debit_opt (payload_string (he_payload e) ''from_subkey'') t a st = (Ok (), st1) \<and>
       credit_opt (payload_string (he_payload e) ''to_subkey'') t a st1 = (Ok (), st'))"
  by (auto simp: apply_internal_transfer_def reducer_simps payload_string_def chain_Ok)

lemma apply_internal_transfer_ok: "apply_internal_transfer e st = (Ok (), st') \<Longrightarrow> projection_ok st \<Longrightarrow> projection_ok st'"
  unfolding apply_internal_transfer_Ok using opt_writes_ok by blast

lemma adjust_reservation_ok: "adjust_reservation e add st = (Ok (), st') \<Longrightarrow> projection_ok st \<Longrightarrow> projection_ok st'"
  by (auto simp: adjust_reservation_def reducer_simps dest: u256_results_canonical split: if_splits
    intro!: projection_updates table_ok_insert projection_parts)

lemma apply_identity_ok:
  assumes "apply_identity mark e st = (Ok (), st')" "projection_ok st"
    and mark: "\<And>m. sm_materialised_via_created (mark m) \<or> sm_materialised_via_lazy (mark m)"
  shows "projection_ok st'"
proof -
  obtain ow sid sk where st': "st' = st\<lparr>ps_subaccounts := bt_insert (ow, sid) sk (ps_subaccounts st),
      ps_subaccount_meta := upsert default_meta sk mark (ps_subaccount_meta st)\<rparr>"
    using assms(1) by (auto simp: apply_identity_def reducer_simps)
  have "identities_ok (ps_subaccounts st) (ps_subaccount_meta st)" by (rule projection_parts [OF assms(2)])
  then show ?thesis unfolding st' using mark
    by (intro projection_updates assms(2)) (auto simp: identities_ok_def upsert_def dest: table_ok_bt_ok intro!: table_ok_insert)
qed

lemma length_bt_insert:
  "bt_ok m \<Longrightarrow> length (bt_insert k v m) = (if bt_get m k = None then Suc (length m) else length m)"
proof (induction m)
  case (Cons kv m)
  then show ?case by (cases kv) (auto simp: bt_insert_Cons bt_ok_Cons bt_get_def map_of_eq_None_iff)
qed (simp add: bt_insert_def)

lemma apply_universe_ok: "apply_universe e st = (Ok (), st') \<Longrightarrow> projection_ok st \<Longrightarrow> projection_ok st'"
  using projection_parts(6,7) [of st]
  by (auto simp: apply_universe_def reducer_simps upsert_def length_bt_insert split: if_splits intro!: projection_updates(10))

lemma apply_capability_ok: "apply_capability e st = (Ok (), st') \<Longrightarrow> projection_ok st \<Longrightarrow> projection_ok st'"
  by (auto simp: apply_capability_def reducer_simps mask_canonical intro!: projection_updates table_ok_insert projection_parts)

lemma apply_bad_debt_ok: "apply_bad_debt e st = (Ok (), st') \<Longrightarrow> projection_ok st \<Longrightarrow> projection_ok st'"
  by (auto simp: apply_bad_debt_def reducer_simps dest: u256_results_canonical
    intro!: projection_updates(3) table_ok_insert projection_parts)

lemma deactivate_series_ok:
  assumes ok: "table_ok series_ok m"
  shows "table_ok series_ok (deactivate_series sk s m)"
proof (cases "bt_get m sk")
  case (Some xs)
  then have xs: "series_ok xs" by (rule table_ok_get [OF ok])
  show ?thesis
  proof (cases "xs - {s} = {}")
    case True
    then have "deactivate_series sk s m = bt_remove sk m" using Some by (simp only: deactivate_series_def option.case if_True simp_thms)
    then show ?thesis by (simp only: table_ok_remove [OF ok])
  next
    case False
    then have eq: "deactivate_series sk s m = bt_modify sk (\<lambda>s'. s' - {s}) m"
      using Some by (simp only: deactivate_series_def option.case if_False simp_thms)
    have "series_ok (xs - {s})" using xs False card_Diff1_le [of xs s] unfolding series_ok_def by (metis finite_Diff le_trans)
    then show ?thesis unfolding eq by (rule table_ok_modify_at [OF ok Some])
  qed
qed (use ok in \<open>simp add: deactivate_series_def\<close>)

lemma qty_added: "u256_add a b = Some c \<Longrightarrow> qty_ok c" "u256_sub a b = Some c \<Longrightarrow> qty_ok c"
  using u256_results_canonical by (auto simp: qty_ok_def)

lemma default_rows_ok [simp]: "position_ok default_position" "order_row_ok default_order_row"
  by (simp_all add: position_ok_def order_row_ok_def default_position_def default_order_row_def qty_ok_def)

lemma apply_delta_ok: "apply_delta_opt q d sk s side = Ok q' \<Longrightarrow> qty_ok q \<Longrightarrow> qty_ok q'"
  by (auto simp: apply_delta_opt_def apply_signed_delta_def ok_or_Ok_iff Let_def dest: qty_added split: option.splits if_splits)

lemma apply_position_open_ok:
  assumes "apply_position_open e ctx st = (Ok (), st')" "projection_ok st"
  shows "projection_ok st'"
proof -
  obtain sk s l sh lq sq where row: "u256_add (pr_long_qty_1e8 (get_or default_position (ps_positions st) (sk, s))) l = Some lq"
      "u256_add (pr_short_qty_1e8 (get_or default_position (ps_positions st) (sk, s))) sh = Some sq"
    and xs: "card (insert s (get_or {} (ps_active_series st) sk)) \<le> MAX_ACTIVE_SERIES"
    and st': "st' = st\<lparr>ps_positions := bt_insert (sk, s) ((get_or default_position (ps_positions st) (sk, s))
        \<lparr>pr_long_qty_1e8 := lq, pr_short_qty_1e8 := sq, pr_last_event_block := ac_block_number ctx\<rparr>)
        (bt_insert (sk, s) ((get_or default_position (ps_positions st) (sk, s))\<lparr>pr_long_qty_1e8 := lq\<rparr>)
          (bt_insert (sk, s) (get_or default_position (ps_positions st) (sk, s)) (ps_positions st))),
        ps_active_series := bt_insert sk (insert s (get_or {} (ps_active_series st) sk)) (ps_active_series st)\<rparr>"
    using assms(1) by (auto simp: apply_position_open_def reducer_simps not_less split: if_splits)
  note pos = projection_parts(8) [OF assms(2)] and act = projection_parts(9) [OF assms(2)]
  have r: "position_ok (get_or default_position (ps_positions st) (sk, s))" by (rule table_ok_get_or [OF pos]) simp
  have q: "qty_ok lq" "qty_ok sq" using row qty_added by blast+
  have "finite (get_or {} (ps_active_series st) sk)"
    by (cases "bt_get (ps_active_series st) sk") (use table_ok_get [OF act] in \<open>auto simp: get_or_def series_ok_def\<close>)
  then have "series_ok (insert s (get_or {} (ps_active_series st) sk))" using xs by (simp add: series_ok_def)
  then show ?thesis unfolding st' using r q
    by (intro projection_updates assms(2) table_ok_insert pos act) (auto simp: position_ok_def)
qed

lemma apply_position_modify_ok:
  assumes "apply_position_modify e ctx st = (Ok (), st')" "projection_ok st"
  shows "projection_ok st'"
proof -
  note pos = projection_parts(8) [OF assms(2)] and act = projection_parts(9) [OF assms(2)]
  obtain sk s dl ds lq sq where row: "apply_delta_opt (pr_long_qty_1e8 (get_or default_position (ps_positions st) (sk, s))) dl sk s ''long'' = Ok lq"
      "apply_delta_opt (pr_short_qty_1e8 (get_or default_position (ps_positions st) (sk, s))) ds sk s ''short'' = Ok sq"
    and st': "st' = (let m = bt_insert (sk, s) ((get_or default_position (ps_positions st) (sk, s))\<lparr>pr_long_qty_1e8 := lq\<rparr>)
          (bt_insert (sk, s) (get_or default_position (ps_positions st) (sk, s)) (ps_positions st))
        in if lq = ''0'' \<and> sq = ''0''
           then st\<lparr>ps_positions := bt_remove (sk, s) m, ps_active_series := deactivate_series sk s (ps_active_series st)\<rparr>
           else st\<lparr>ps_positions := bt_insert (sk, s) ((get_or default_position (ps_positions st) (sk, s))
             \<lparr>pr_long_qty_1e8 := lq, pr_short_qty_1e8 := sq, pr_last_event_block := ac_block_number ctx\<rparr>) m\<rparr>)"
    using assms(1) by (auto simp: apply_position_modify_def reducer_simps split: if_splits)
  have r: "position_ok (get_or default_position (ps_positions st) (sk, s))" by (rule table_ok_get_or [OF pos]) simp
  have q: "qty_ok lq" "qty_ok sq" using row r apply_delta_ok unfolding position_ok_def by blast+
  have m: "table_ok position_ok (bt_insert (sk, s) ((get_or default_position (ps_positions st) (sk, s))\<lparr>pr_long_qty_1e8 := lq\<rparr>)
      (bt_insert (sk, s) (get_or default_position (ps_positions st) (sk, s)) (ps_positions st)))"
    by (intro table_ok_insert pos) (use r q in \<open>auto simp: position_ok_def\<close>)
  show ?thesis
  proof (cases "lq = ''0'' \<and> sq = ''0''")
    case True
    then show ?thesis unfolding st' Let_def
      by (subst if_P) (assumption, intro projection_updates assms(2) table_ok_remove m deactivate_series_ok act)
  next
    case False
    then show ?thesis unfolding st' Let_def
      by (simp only: simp_thms if_False) (intro projection_updates assms(2) table_ok_insert m, use q in \<open>simp add: position_ok_def\<close>)
  qed
qed

lemma apply_position_close_ok: "apply_position_close e st = (Ok (), st') \<Longrightarrow> projection_ok st \<Longrightarrow> projection_ok st'"
  by (auto simp: apply_position_close_def reducer_simps intro!: projection_updates(5) table_ok_remove deactivate_series_ok projection_parts)

lemma apply_position_liquidated_ok: "apply_position_liquidated e ctx st = (Ok (), st') \<Longrightarrow> projection_ok st \<Longrightarrow> projection_ok st'"
  by (auto simp: apply_position_liquidated_def reducer_simps position_ok_def qty_ok_def
    intro!: projection_updates(5) table_ok_modify deactivate_series_ok projection_parts)

lemma order_rows_ok [simp]:
  "order_row_ok (seen_at ctx r) = order_row_ok r" "ol_filled_qty_1e8 (seen_at ctx r) = ol_filled_qty_1e8 r"
  "ol_cancelled (seen_at ctx r) = ol_cancelled r" "ol_terminal (seen_at ctx r) = ol_terminal r"
  "order_row_ok (set_parties e r) = order_row_ok r" "ol_cancelled (set_parties e r) = ol_cancelled r"
  "ol_terminal (set_parties e r) = ol_terminal r" "ol_filled_qty_1e8 (set_parties e r) = ol_filled_qty_1e8 r"
  by (simp_all add: seen_at_def set_parties_def order_row_ok_def)

lemma apply_order_cancelled_ok: "apply_order_cancelled e ctx st = (Ok (), st') \<Longrightarrow> projection_ok st \<Longrightarrow> projection_ok st'"
  by (auto simp: apply_order_cancelled_def reducer_simps intro!: projection_updates(7) table_ok_upsert projection_parts)
    (simp add: order_row_ok_def)

lemma apply_order_filled_Ok:
  assumes "apply_order_filled e ctx st = (Ok (), st')"
  obtains h m n tot sid sd tif fin where "he_order_hash e = Some h"
    "dec_value (ol_filled_qty_1e8 (get_or default_order_row (ps_order_lifecycle st) h)) = Some m" "m + n < 2 ^ 256"
    "st' = st\<lparr>ps_order_lifecycle := bt_insert h ((set_parties e (seen_at ctx (get_or default_order_row (ps_order_lifecycle st) h)))
       \<lparr>ol_filled_qty_1e8 := decimal (m + n), ol_total_qty_1e8 := tot, ol_series_id := sid, ol_side := sd, ol_time_in_force := tif,
        ol_terminal := ol_terminal (get_or default_order_row (ps_order_lifecycle st) h) \<or> fin, ol_last_event_block := ac_block_number ctx\<rparr>)
       (bt_insert h (seen_at ctx (get_or default_order_row (ps_order_lifecycle st) h)) (ps_order_lifecycle st))\<rparr>"
proof -
  obtain h c where c: "he_order_hash e = Some h"
    "u256_add (ol_filled_qty_1e8 (get_or default_order_row (ps_order_lifecycle st) h)) (or_zero (payload_string (he_payload e) ''filled_delta_1e8'')) = Some c"
    using assms by (auto simp: apply_order_filled_def reducer_simps)
  obtain m n where mn: "dec_value (ol_filled_qty_1e8 (get_or default_order_row (ps_order_lifecycle st) h)) = Some m" "m + n < 2 ^ 256" "c = decimal (m + n)"
    using c(2) unfolding u256_add_Some by blast
  show ?thesis
    by (rule that [OF c(1) mn(1,2)], use assms in \<open>simp add: apply_order_filled_def require_def c Let_def mn(3) split: if_splits\<close>, erule sym)
qed

lemma apply_order_filled_ok:
  assumes "apply_order_filled e ctx st = (Ok (), st')" "projection_ok st"
  shows "projection_ok st'"
  using assms(1)
proof (rule apply_order_filled_Ok)
  fix h m n tot sid sd tif fin
  note rows = projection_parts(10) [OF assms(2)]
  let ?r = "get_or default_order_row (ps_order_lifecycle st) h"
  have r: "order_row_ok ?r" by (rule table_ok_get_or [OF rows]) simp
  assume "m + n < 2 ^ 256" and st': "st' = st\<lparr>ps_order_lifecycle := bt_insert h ((set_parties e (seen_at ctx ?r))
       \<lparr>ol_filled_qty_1e8 := decimal (m + n), ol_total_qty_1e8 := tot, ol_series_id := sid, ol_side := sd, ol_time_in_force := tif,
        ol_terminal := ol_terminal ?r \<or> fin, ol_last_event_block := ac_block_number ctx\<rparr>)
       (bt_insert h (seen_at ctx ?r) (ps_order_lifecycle st))\<rparr>"
  then show ?thesis unfolding st' using r
    by (intro projection_updates assms(2) table_ok_insert rows) (auto simp: order_row_ok_def qty_ok_def)
qed

lemma set_recovery_ok:
  assumes "projection_ok st" "\<And>r. es_state (f r) = recovery_text s"
  shows "projection_ok (set_recovery sk s f ctx st)"
proof -
  have "recovery_ok (ps_recovery_state st) (ps_escape_state st)" by (rule projection_parts [OF assms(1)])
  then show ?thesis unfolding set_recovery_def using assms(2)
    by (intro projection_updates assms(1)) (auto simp: recovery_ok_def)
qed

lemma recovery_handlers_ok:
  "apply_recovery_requested e ctx st = (Ok (), st') \<Longrightarrow> projection_ok st \<Longrightarrow> projection_ok st'"
  "apply_recovery_activated e ctx st = (Ok (), st') \<Longrightarrow> projection_ok st \<Longrightarrow> projection_ok st'"
  "apply_recovery_cancelled e ctx st = (Ok (), st') \<Longrightarrow> projection_ok st \<Longrightarrow> projection_ok st'"
  by (auto simp: apply_recovery_requested_def apply_recovery_activated_def apply_recovery_cancelled_def reducer_simps
    recovery_text_def intro!: set_recovery_ok split: if_splits)

lemma apply_recovery_finalized_ok: "apply_recovery_finalized e ctx st = (Ok (), st') \<Longrightarrow> projection_ok st \<Longrightarrow> projection_ok st'"
proof -
  assume "apply_recovery_finalized e ctx st = (Ok (), st')" "projection_ok st"
  then obtain sk f where st': "st' = (set_recovery sk Recovered f ctx st)
      \<lparr>ps_balances := bt_retain (\<lambda>(s, _). s \<noteq> sk) (ps_balances (set_recovery sk Recovered f ctx st)),
       ps_reservations := bt_retain (\<lambda>(s, _, _). s \<noteq> sk) (ps_reservations (set_recovery sk Recovered f ctx st))\<rparr>"
    and f: "\<And>r. es_state (f r) = recovery_text Recovered"
    by (auto simp: apply_recovery_finalized_def reducer_simps recovery_text_def split: if_splits)
  have ok: "projection_ok (set_recovery sk Recovered f ctx st)" by (rule set_recovery_ok) (use \<open>projection_ok st\<close> f in auto)
  show ?thesis unfolding st' by (intro projection_updates(2) projection_updates(1) table_ok_retain projection_parts ok)
qed

lemma table_handlers_ok:
  "apply_pause_flag e st = (Ok (), st') \<Longrightarrow> projection_ok st \<Longrightarrow> projection_ok st'"
  "apply_min_nonce e st = (Ok (), st') \<Longrightarrow> projection_ok st \<Longrightarrow> projection_ok st'"
  "push_fee_event l p r e ctx st = (Ok (), st') \<Longrightarrow> projection_ok st \<Longrightarrow> projection_ok st'"
  "apply_subaccount_epoch e ctx st = (Ok (), st') \<Longrightarrow> projection_ok st \<Longrightarrow> projection_ok st'"
  "apply_owner_epoch e ctx st = (Ok (), st') \<Longrightarrow> projection_ok st \<Longrightarrow> projection_ok st'"
  "apply_nonce_cancelled e ctx st = (Ok (), st') \<Longrightarrow> projection_ok st \<Longrightarrow> projection_ok st'"
  "apply_finalization_withdrawn e st = (Ok (), st') \<Longrightarrow> projection_ok st \<Longrightarrow> projection_ok st'"
  by (auto simp: apply_pause_flag_def apply_min_nonce_def push_fee_event_def apply_subaccount_epoch_def apply_owner_epoch_def
    apply_nonce_cancelled_def apply_finalization_withdrawn_def reducer_simps
    intro!: projection_updates(12,14,15,17,18,19) bt_ok_insert upsert_bt_ok projection_parts split: if_splits)

lemma plain_updates_ok:
  "projection_ok st \<Longrightarrow> projection_ok (apply_token_support b e st)" "projection_ok st \<Longrightarrow> projection_ok (apply_recovery_pause e ctx st)"
  by (auto simp: apply_token_support_def apply_recovery_pause_def intro!: projection_updates(11,13) split: option.splits)

lemmas handlers_ok = apply_deposit_ok apply_withdraw_ok apply_internal_transfer_ok adjust_reservation_ok
  apply_universe_ok apply_capability_ok apply_bad_debt_ok apply_position_open_ok apply_position_modify_ok apply_position_close_ok
  apply_position_liquidated_ok apply_order_filled_ok apply_order_cancelled_ok recovery_handlers_ok apply_recovery_finalized_ok
  table_handlers_ok

lemma apply_event_ok: "apply_event st e ctx = (Ok (), st') \<Longrightarrow> projection_ok st \<Longrightarrow> projection_ok st'"
  by (cases "he_kind e"; simp only: apply_event_def event_kind.case;
    ((erule (1) handlers_ok)
     | (erule (1) apply_identity_ok, simp)
     | (clarsimp simp: try_in_Ok plain_updates_ok)))

end
