(* ===== verification/Projection_Props.thy ===== *)
theory Projection_Props
  imports Projection_Inv
begin

text \<open>
  What the projection shows of the chain: balances add up to what was deposited and withdrawn, orders
  only progress, and the recovery of a subaccount closes it.
\<close>


section \<open>Which events touch which tables\<close>

definition core :: "projection_state \<Rightarrow> _" where
  "core st = (ps_balances st, ps_order_lifecycle st, ps_recovery_state st, ps_min_valid_nonce st)"

lemma core_simps [simp]:
  "core (st\<lparr>ps_subaccounts := a\<rparr>) = core st" "core (st\<lparr>ps_subaccount_meta := b\<rparr>) = core st" "core (st\<lparr>ps_reservations := c\<rparr>) = core st"
  "core (st\<lparr>ps_capability_grants := d\<rparr>) = core st" "core (st\<lparr>ps_collateral_universe := f\<rparr>) = core st"
  "core (st\<lparr>ps_disabled_tokens := g\<rparr>) = core st" "core (st\<lparr>ps_pause_flags := h\<rparr>) = core st" "core (st\<lparr>ps_bad_debt := i\<rparr>) = core st"
  "core (st\<lparr>ps_positions := j\<rparr>) = core st" "core (st\<lparr>ps_active_series := k\<rparr>) = core st" "core (st\<lparr>ps_matched_executions := l\<rparr>) = core st"
  "core (st\<lparr>ps_fee_events := m\<rparr>) = core st" "core (st\<lparr>ps_escape_state := n\<rparr>) = core st" "core (st\<lparr>ps_owner_recovery_epochs := p\<rparr>) = core st"
  "core (st\<lparr>ps_subaccount_recovery_epochs := p\<rparr>) = core st" "core (st\<lparr>ps_recovery_finalization_withdrawals := q\<rparr>) = core st"
  "core (st\<lparr>ps_recovery_pause := r\<rparr>) = core st"
  by (simp_all add: core_def)

lemma core_try_in: "core s = c \<Longrightarrow> (\<And>x. core (snd (f x)) = c) \<Longrightarrow> core (snd (try_in s r f)) = c"
  by (cases r) auto

lemma core_frames:
  "core (snd (apply_identity mark e st)) = core st" "core (snd (adjust_reservation e add st)) = core st"
  "core (snd (apply_universe e st)) = core st" "core (apply_token_support b e st) = core st"
  "core (snd (apply_capability e st)) = core st" "core (snd (apply_pause_flag e st)) = core st"
  "core (snd (apply_bad_debt e st)) = core st" "core (snd (apply_position_open e ctx st)) = core st"
  "core (snd (apply_position_modify e ctx st)) = core st" "core (snd (apply_position_close e st)) = core st"
  "core (snd (apply_position_liquidated e ctx st)) = core st" "core (snd (push_fee_event l p r e ctx st)) = core st"
  "core (snd (apply_subaccount_epoch e ctx st)) = core st" "core (snd (apply_owner_epoch e ctx st)) = core st"
  "core (snd (apply_nonce_cancelled e ctx st)) = core st" "core (apply_recovery_pause e ctx st) = core st"
  "core (snd (apply_finalization_withdrawn e st)) = core st"
  by (auto simp: apply_identity_def adjust_reservation_def apply_universe_def apply_token_support_def apply_capability_def
    apply_pause_flag_def apply_bad_debt_def apply_position_open_def apply_position_modify_def apply_position_close_def
    apply_position_liquidated_def push_fee_event_def apply_subaccount_epoch_def apply_owner_epoch_def apply_nonce_cancelled_def
    apply_recovery_pause_def apply_finalization_withdrawn_def Let_def intro!: core_try_in split: option.splits prod.splits)

text \<open>The events that write to balances, orders, recovery states or nonces.\<close>

definition core_kinds :: "event_kind set" where
  "core_kinds = {Deposit, Withdraw, InternalTransfer, OptionOrderFilled, OptionOrderCancelled,
     OptionSubaccountMinValidOrderNonceAdvanced, RecoveryRequested, RecoveryActivated, RecoveryCancelled, RecoveryFinalized}"

lemma other_events: "he_kind e \<notin> core_kinds \<Longrightarrow> core (snd (apply_event st e ctx)) = core st"
  by (cases "he_kind e") (simp_all add: core_kinds_def apply_event_def core_frames core_try_in)

lemma frame_of_core:
  assumes "apply_event st e ctx = (Ok (), st')" "he_kind e \<notin> core_kinds"
  shows "ps_balances st' = ps_balances st" "ps_order_lifecycle st' = ps_order_lifecycle st"
    "ps_recovery_state st' = ps_recovery_state st" "ps_min_valid_nonce st' = ps_min_valid_nonce st"
  using other_events [OF assms(2), of st ctx] assms(1) by (simp_all add: core_def)

lemma balance_writes_frame:
  "credit_balance k t a st = (r, st') \<Longrightarrow> ps_order_lifecycle st' = ps_order_lifecycle st \<and>
     ps_recovery_state st' = ps_recovery_state st \<and> ps_min_valid_nonce st' = ps_min_valid_nonce st"
  "debit_balance k t a st = (r, st') \<Longrightarrow> ps_order_lifecycle st' = ps_order_lifecycle st \<and>
     ps_recovery_state st' = ps_recovery_state st \<and> ps_min_valid_nonce st' = ps_min_valid_nonce st"
  by (auto simp: credit_balance_def debit_balance_def Let_def try_in_def split: sum.splits)

lemma balance_events_frame:
  assumes "apply_event st e ctx = (Ok (), st')" "he_kind e \<in> {Deposit, Withdraw, InternalTransfer}"
  shows "ps_order_lifecycle st' = ps_order_lifecycle st" "ps_recovery_state st' = ps_recovery_state st"
    "ps_min_valid_nonce st' = ps_min_valid_nonce st"
proof -
  have "ps_order_lifecycle st' = ps_order_lifecycle st \<and> ps_recovery_state st' = ps_recovery_state st \<and>
    ps_min_valid_nonce st' = ps_min_valid_nonce st"
    using assms by (auto simp: apply_event_def apply_deposit_def apply_withdraw_def apply_internal_transfer_Ok credit_opt_def
      debit_opt_def reducer_simps dest!: balance_writes_frame split: if_splits option.splits)
  then show "ps_order_lifecycle st' = ps_order_lifecycle st" "ps_recovery_state st' = ps_recovery_state st"
    "ps_min_valid_nonce st' = ps_min_valid_nonce st" by simp_all
qed

lemma order_events_frame:
  assumes "apply_event st e ctx = (Ok (), st')"
    "he_kind e \<in> {OptionOrderFilled, OptionOrderCancelled, OptionSubaccountMinValidOrderNonceAdvanced}"
  shows "ps_balances st' = ps_balances st" "ps_recovery_state st' = ps_recovery_state st"
    "he_kind e = OptionSubaccountMinValidOrderNonceAdvanced \<Longrightarrow> ps_order_lifecycle st' = ps_order_lifecycle st"
    "he_kind e \<noteq> OptionSubaccountMinValidOrderNonceAdvanced \<Longrightarrow> ps_min_valid_nonce st' = ps_min_valid_nonce st"
  using assms
  by (auto simp: apply_event_def apply_order_cancelled_def apply_min_nonce_def reducer_simps split: if_splits elim!: apply_order_filled_Ok)

lemma recovery_events_frame:
  assumes "apply_event st e ctx = (Ok (), st')"
    "he_kind e \<in> {RecoveryRequested, RecoveryActivated, RecoveryCancelled, RecoveryFinalized}"
  shows "ps_order_lifecycle st' = ps_order_lifecycle st" "ps_min_valid_nonce st' = ps_min_valid_nonce st"
    "he_kind e \<noteq> RecoveryFinalized \<Longrightarrow> ps_balances st' = ps_balances st"
  using assms
  by (auto simp: apply_event_def apply_recovery_requested_def apply_recovery_activated_def apply_recovery_cancelled_def
    apply_recovery_finalized_def set_recovery_def reducer_simps split: if_splits)

lemma balances_unchanged:
  assumes "apply_event st e ctx = (Ok (), st')" "he_kind e \<notin> {Deposit, Withdraw, InternalTransfer, RecoveryFinalized}"
  shows "ps_balances st' = ps_balances st"
  using assms frame_of_core(1) order_events_frame(1) recovery_events_frame(3) by (cases "he_kind e \<in> core_kinds") (auto simp: core_kinds_def)


section \<open>Totals\<close>

definition amount_of :: "string \<Rightarrow> nat" where
  "amount_of s = (case dec_value s of Some n \<Rightarrow> n | None \<Rightarrow> 0)"

definition weight :: "('k \<Rightarrow> bool) \<Rightarrow> ('k, string) btreemap \<Rightarrow> nat" where
  "weight P m = sum_list (map (\<lambda>kv. if P (fst kv) then amount_of (snd kv) else 0) m)"


definition subaccount_balance :: "string \<Rightarrow> string \<Rightarrow> projection_state \<Rightarrow> nat" where
  "subaccount_balance sk t st = weight (\<lambda>k. k = (sk, t)) (ps_balances st)"



lemma weight_point: "bt_ok m \<Longrightarrow> weight (\<lambda>k. k = k0) m = amount_of (get_or ''0'' m k0)"
proof (induction m)
  case (Cons kv m)
  have "weight (\<lambda>k. k = k0) m = amount_of (get_or ''0'' m k0)" using Cons by (simp add: bt_ok_Cons)
  moreover have "get_or ''0'' m (fst kv) = ''0''"
    using Cons.prems by (cases "bt_get m (fst kv)") (force simp: get_or_def bt_get_def bt_ok_Cons dest!: map_of_SomeD)+
  ultimately show ?case by (cases kv) (auto simp: weight_def get_or_def bt_get_def amount_of_def)
qed (simp add: weight_def get_or_def amount_of_def)





lemma balances_bt_ok: "projection_ok st \<Longrightarrow> bt_ok (ps_balances st)"
  using projection_parts(2) table_ok_bt_ok by blast




section \<open>Orders and nonces\<close>

lemma order_progress:
  assumes "apply_event st e ctx = (Ok (), st')" "projection_ok st" "bt_get (ps_order_lifecycle st) h = Some r"
  shows "\<exists>r'. bt_get (ps_order_lifecycle st') h = Some r' \<and> amount_of (ol_filled_qty_1e8 r) \<le> amount_of (ol_filled_qty_1e8 r') \<and>
    (ol_cancelled r \<longrightarrow> ol_cancelled r') \<and> (ol_terminal r \<longrightarrow> ol_terminal r')"
proof (cases "he_kind e = OptionOrderFilled \<or> he_kind e = OptionOrderCancelled")
  case False
  then have "ps_order_lifecycle st' = ps_order_lifecycle st"
    using assms(1) frame_of_core(2) order_events_frame(3) recovery_events_frame(1) balance_events_frame(1)
    by (cases "he_kind e \<in> core_kinds") (auto simp: core_kinds_def)
  then show ?thesis using assms(3) by auto
next
  case True
  have ok: "bt_ok (ps_order_lifecycle st)" using projection_parts(10) [OF assms(2)] by (rule table_ok_bt_ok)
  from True show ?thesis
  proof
    assume k: "he_kind e = OptionOrderFilled"
    then have "apply_order_filled e ctx st = (Ok (), st')" using assms(1) by (simp add: apply_event_def)
    then show ?thesis
    proof (rule apply_order_filled_Ok)
      fix h' m n tot sid sd tif fin
      let ?r = "get_or default_order_row (ps_order_lifecycle st) h'"
      assume "dec_value (ol_filled_qty_1e8 ?r) = Some m" "m + n < 2 ^ 256"
        "st' = st\<lparr>ps_order_lifecycle := bt_insert h' ((set_parties e (seen_at ctx ?r))
           \<lparr>ol_filled_qty_1e8 := decimal (m + n), ol_total_qty_1e8 := tot, ol_series_id := sid, ol_side := sd, ol_time_in_force := tif,
            ol_terminal := ol_terminal ?r \<or> fin, ol_last_event_block := ac_block_number ctx\<rparr>)
           (bt_insert h' (seen_at ctx ?r) (ps_order_lifecycle st))\<rparr>"
      then show ?thesis using assms(3) ok by (auto simp: get_or_def amount_of_def)
    qed
  next
    assume "he_kind e = OptionOrderCancelled"
    then obtain h' where "st' = st\<lparr>ps_order_lifecycle := upsert default_order_row h'
          (\<lambda>row. (set_parties e (seen_at ctx row))\<lparr>ol_cancelled := True, ol_terminal := True, ol_last_event_block := ac_block_number ctx\<rparr>)
          (ps_order_lifecycle st)\<rparr>"
      using assms(1) by (auto simp: apply_event_def apply_order_cancelled_def reducer_simps)
    then show ?thesis using assms(3) ok by (auto simp: get_or_def)
  qed
qed

lemma try_in_Err: "fst (try_in st r f) = Err x \<longleftrightarrow> r = Err x \<or> (\<exists>y. r = Ok y \<and> fst (f y) = Err x)"
  by (cases r) auto

lemma try_in_Err_pair: "try_in st r f = (Err x, s) \<longleftrightarrow> r = Err x \<and> s = st \<or> (\<exists>y. r = Ok y \<and> f y = (Err x, s))"
  by (cases r) auto

lemma ok_or_Err: "ok_or v x = Err y \<longleftrightarrow> v = None \<and> x = y"
  by (cases v) auto

lemma and_then_Err: "and_then r f = Err x \<longleftrightarrow> r = Err x \<or> (\<exists>y. r = Ok y \<and> f y = Err x)"
  by (cases r) auto

lemmas error_simps = try_in_Err try_in_Err_pair ok_or_Err and_then_Err require_def require_amount_def require_identity_def Let_def

lemma no_decrease_elsewhere:
  "fst (apply_identity mark e st) \<noteq> Err (FilledQtyDecrease a b c)" "fst (adjust_reservation e add st) \<noteq> Err (FilledQtyDecrease a b c)"
  "fst (apply_universe e st) \<noteq> Err (FilledQtyDecrease a b c)" "fst (apply_capability e st) \<noteq> Err (FilledQtyDecrease a b c)"
  "fst (apply_pause_flag e st) \<noteq> Err (FilledQtyDecrease a b c)" "fst (apply_bad_debt e st) \<noteq> Err (FilledQtyDecrease a b c)"
  "fst (apply_position_open e ctx st) \<noteq> Err (FilledQtyDecrease a b c)" "fst (apply_position_modify e ctx st) \<noteq> Err (FilledQtyDecrease a b c)"
  "fst (apply_position_close e st) \<noteq> Err (FilledQtyDecrease a b c)" "fst (apply_position_liquidated e ctx st) \<noteq> Err (FilledQtyDecrease a b c)"
  "fst (apply_order_cancelled e ctx st) \<noteq> Err (FilledQtyDecrease a b c)" "fst (apply_min_nonce e st) \<noteq> Err (FilledQtyDecrease a b c)"
  "fst (push_fee_event l p r e ctx st) \<noteq> Err (FilledQtyDecrease a b c)" "fst (apply_recovery_requested e ctx st) \<noteq> Err (FilledQtyDecrease a b c)"
  "fst (apply_recovery_activated e ctx st) \<noteq> Err (FilledQtyDecrease a b c)" "fst (apply_recovery_cancelled e ctx st) \<noteq> Err (FilledQtyDecrease a b c)"
  "fst (apply_recovery_finalized e ctx st) \<noteq> Err (FilledQtyDecrease a b c)" "fst (apply_subaccount_epoch e ctx st) \<noteq> Err (FilledQtyDecrease a b c)"
  "fst (apply_owner_epoch e ctx st) \<noteq> Err (FilledQtyDecrease a b c)" "fst (apply_nonce_cancelled e ctx st) \<noteq> Err (FilledQtyDecrease a b c)"
  "fst (apply_finalization_withdrawn e st) \<noteq> Err (FilledQtyDecrease a b c)" "fst (apply_deposit e st) \<noteq> Err (FilledQtyDecrease a b c)"
  "fst (apply_withdraw e st) \<noteq> Err (FilledQtyDecrease a b c)" "fst (apply_internal_transfer e st) \<noteq> Err (FilledQtyDecrease a b c)"
  by (auto simp: apply_identity_def adjust_reservation_def apply_universe_def apply_capability_def apply_pause_flag_def apply_bad_debt_def
    apply_position_open_def apply_position_modify_def apply_delta_opt_def apply_signed_delta_def apply_position_close_def
    apply_position_liquidated_def apply_order_cancelled_def apply_min_nonce_def push_fee_event_def apply_recovery_requested_def
    apply_recovery_activated_def apply_recovery_cancelled_def apply_recovery_finalized_def apply_subaccount_epoch_def
    apply_owner_epoch_def apply_nonce_cancelled_def apply_finalization_withdrawn_def apply_deposit_def apply_withdraw_def
    apply_internal_transfer_def credit_opt_def debit_opt_def credit_balance_def debit_balance_def error_simps
    split: if_splits option.splits prod.splits sum.splits)

lemma never_decreases: "fst (apply_event s e ctx) \<noteq> Err (FilledQtyDecrease a b c)"
proof (cases "he_kind e = OptionOrderFilled")
  case True
  have "\<not> u256_lt x y" if "u256_add y z = Some x" for x y z
    using that unfolding u256_add_Some by (auto simp: u256_lt_value)
  then show ?thesis using True by (auto simp: apply_event_def apply_order_filled_def try_in_def require_def ok_or_def Let_def
    split: option.splits sum.splits if_splits)
next
  case False
  then show ?thesis by (cases "he_kind e") (auto simp: apply_event_def no_decrease_elsewhere try_in_Err ok_or_Err require_def)
qed

text \<open>Runs of the reducer over decoded events, stopping at the first failure.\<close>

primrec apply_events :: "(hybrid_v2_event \<times> apply_context) list \<Rightarrow> projection_state \<Rightarrow> projection_state option" where
  "apply_events [] st = Some st"
| "apply_events (x # xs) st =
     (case apply_event st (fst x) (snd x) of (Ok _, st') \<Rightarrow> apply_events xs st' | (Err _, _) \<Rightarrow> None)"

lemma apply_events_Cons: "apply_events (x # xs) st = Some st' \<longleftrightarrow>
    (\<exists>st1. apply_event st (fst x) (snd x) = (Ok (), st1) \<and> apply_events xs st1 = Some st')"
  by (auto split: prod.splits sum.splits)

lemma apply_events_ok: "apply_events xs st = Some st' \<Longrightarrow> projection_ok st \<Longrightarrow> projection_ok st'"
proof (induction xs arbitrary: st)
  case (Cons x xs)
  then show ?case unfolding apply_events_Cons using apply_event_ok by blast
qed simp

lemma apply_events_orders:
  "apply_events xs st = Some st' \<Longrightarrow> projection_ok st \<Longrightarrow> bt_get (ps_order_lifecycle st) h = Some r \<Longrightarrow>
   \<exists>r'. bt_get (ps_order_lifecycle st') h = Some r' \<and> amount_of (ol_filled_qty_1e8 r) \<le> amount_of (ol_filled_qty_1e8 r') \<and>
    (ol_cancelled r \<longrightarrow> ol_cancelled r') \<and> (ol_terminal r \<longrightarrow> ol_terminal r')"
proof (induction xs arbitrary: st r)
  case (Cons x xs)
  then obtain st1 where 1: "apply_event st (fst x) (snd x) = (Ok (), st1)" "apply_events xs st1 = Some st'"
    unfolding apply_events_Cons by blast
  obtain r1 where r1: "bt_get (ps_order_lifecycle st1) h = Some r1" "amount_of (ol_filled_qty_1e8 r) \<le> amount_of (ol_filled_qty_1e8 r1)"
    "ol_cancelled r \<longrightarrow> ol_cancelled r1" "ol_terminal r \<longrightarrow> ol_terminal r1"
    using order_progress [OF 1(1) Cons.prems(2,3)] by blast
  obtain r' where "bt_get (ps_order_lifecycle st') h = Some r'" "amount_of (ol_filled_qty_1e8 r1) \<le> amount_of (ol_filled_qty_1e8 r')"
    "ol_cancelled r1 \<longrightarrow> ol_cancelled r'" "ol_terminal r1 \<longrightarrow> ol_terminal r'"
    using Cons.IH [OF 1(2) apply_event_ok [OF 1(1) Cons.prems(2)] r1(1)] by blast
  then show ?case using r1 by (meson le_trans)
qed auto


section \<open>Closed subaccounts\<close>

lemma credit_other: "credit_balance k t a st = (Ok (), st') \<Longrightarrow> bt_ok (ps_balances st) \<Longrightarrow> k \<noteq> sk \<Longrightarrow>
    get_or ''0'' (ps_balances st') (sk, t') = get_or ''0'' (ps_balances st) (sk, t')"
  unfolding credit_balance_Ok by (auto simp: get_or_def)

lemma debit_below: "debit_balance k t a st = (Ok (), st') \<Longrightarrow> bt_ok (ps_balances st) \<Longrightarrow>
    amount_of (get_or ''0'' (ps_balances st') (sk, t')) \<le> amount_of (get_or ''0'' (ps_balances st) (sk, t'))"
  unfolding debit_balance_Ok using dec_value_less by (fastforce simp: get_or_def amount_of_def split: option.splits)

lemma finalized_stays:
  assumes "apply_event st e ctx = (Ok (), st')" "projection_ok st" "is_finalized st sk"
    "he_kind e \<notin> {RecoveryRequested, RecoveryActivated}"
  shows "is_finalized st' sk"
proof (cases "he_kind e \<in> {RecoveryCancelled, RecoveryFinalized}")
  case True
  have "bt_ok (ps_recovery_state st)" using projection_parts(11) [OF assms(2)] by (simp add: recovery_ok_def)
  then show ?thesis using assms True
    by (auto simp: apply_event_def apply_recovery_cancelled_def apply_recovery_finalized_def set_recovery_def is_finalized_def
      reducer_simps split: if_splits)
next
  case False
  then have "ps_recovery_state st' = ps_recovery_state st"
    using assms(1,4) frame_of_core(3) order_events_frame(2) balance_events_frame(2)
    by (cases "he_kind e \<in> core_kinds") (auto simp: core_kinds_def)
  then show ?thesis using assms(3) by (simp add: is_finalized_def)
qed

lemma finalized_stays_empty:
  assumes "apply_event st e ctx = (Ok (), st')" "projection_ok st" "is_finalized st sk" "subaccount_balance sk t st = 0"
    "he_kind e \<noteq> InternalTransfer"
  shows "subaccount_balance sk t st' = 0"
proof -
  note ok = balances_bt_ok [OF assms(2)] and ok' = balances_bt_ok [OF apply_event_ok [OF assms(1,2)]]
  have z: "amount_of (get_or ''0'' (ps_balances st) (sk, t)) = 0" using assms(4) by (simp add: subaccount_balance_def weight_point [OF ok])
  have "amount_of (get_or ''0'' (ps_balances st') (sk, t)) = 0"
  proof (cases "he_kind e \<in> {Deposit, Withdraw, RecoveryFinalized}")
    case False
    then have "ps_balances st' = ps_balances st" using assms(5) by (intro balances_unchanged [OF assms(1)]) simp
    then show ?thesis using z by simp
  next
    case True
    then consider (d) "apply_deposit e st = (Ok (), st')" | (w) "apply_withdraw e st = (Ok (), st')"
      | (f) "apply_recovery_finalized e ctx st = (Ok (), st')"
      using assms(1) by (auto simp: apply_event_def)
    then show ?thesis
    proof cases
      case d
      then obtain k tk a where k: "\<not> is_finalized st k" "credit_balance k tk a st = (Ok (), st')"
        by (auto simp: apply_deposit_def reducer_simps split: if_splits)
      then have "k \<noteq> sk" using assms(3) by auto
      then show ?thesis using credit_other [OF k(2) ok] z by simp
    next
      case w
      then obtain k tk a where "debit_balance k tk a st = (Ok (), st')" by (auto simp: apply_withdraw_def reducer_simps)
      then show ?thesis using debit_below [OF _ ok] z by (metis le_zero_eq)
    next
      case f
      then have "\<exists>Q. ps_balances st' = bt_retain Q (ps_balances st)"
        by (auto simp: apply_recovery_finalized_def set_recovery_def reducer_simps split: if_splits)
      then show ?thesis using z by (auto simp: get_or_def bt_get_retain amount_of_def split: option.splits)
    qed
  qed
  then show ?thesis by (simp add: subaccount_balance_def weight_point [OF ok'])
qed


section \<open>Properties\<close>

text \<open>Events for the examples.\<close>

definition sample_event :: "event_kind \<Rightarrow> string \<Rightarrow> (string \<times> string) list \<Rightarrow> hybrid_v2_event" where
  "sample_event k sk kvs =
     \<lparr> he_kind = k, he_event_version = 1, he_subkey = Some sk, he_owner = Some ''alice'', he_subaccount_id = Some 0,
       he_token = Some ''usdc'', he_engine = Some ''engine'', he_execution_id = None, he_order_hash = Some ''0x1'',
       he_series_id = Some ''s1'', he_payload = JObject (map (\<lambda>(f, v). (f, JString v)) kvs) \<rparr>"

definition sample_ctx :: apply_context where
  "sample_ctx = \<lparr> ac_block_number = 7, ac_tx_hash = ''0xt'', ac_log_index = 0, ac_block_timestamp = 9 \<rparr>"

definition sample_run :: "(hybrid_v2_event \<times> apply_context) list" where
  "sample_run = map (\<lambda>e. (e, sample_ctx))
     [sample_event SubaccountCreated ''a'' [], sample_event Deposit ''a'' [(''amount'', ''100'')],
      sample_event Withdraw ''a'' [(''amount'', ''58'')], sample_event OptionOrderFilled ''a'' [(''filled_delta_1e8'', ''7'')],
      sample_event OptionOrderCancelled ''a'' [], sample_event OptionPositionOpened ''a'' [(''long_delta_1e8'', ''3'')]]"

lemma sample_run_result:
  "map_option (\<lambda>st. (ps_balances st, length (ps_positions st), map (\<lambda>r. (ol_filled_qty_1e8 (snd r), ol_cancelled (snd r))) (ps_order_lifecycle st)))
     (apply_events sample_run default_projection) = Some ([((''a'', ''usdc''), ''42'')], 1, [(''7'', True)])"
  by code_simp



lemma sample_run_state:
  obtains st where "apply_events sample_run default_projection = Some st" "ps_balances st = [((''a'', ''usdc''), ''42'')]"
    "\<exists>r. bt_get (ps_order_lifecycle st) ''0x1'' = Some r \<and> ol_cancelled r" "projection_ok st"
proof -
  have 1: "map_option (\<lambda>st. map_option ol_cancelled (bt_get (ps_order_lifecycle st) ''0x1'')) (apply_events sample_run default_projection) = Some (Some True)"
    by code_simp
  obtain st where st: "apply_events sample_run default_projection = Some st" "ps_balances st = [((''a'', ''usdc''), ''42'')]"
    using sample_run_result by (auto simp: map_option_case split: option.splits)
  show ?thesis using that [OF st] 1 apply_events_ok [OF st(1) default_projection_ok] st(1) by auto
qed


text \<open>
  C34: Orders only progress: over any further events a known order stays known, its filled quantity
  never decreases, and a cancelled or terminal order stays so; the error for a decreasing filled
  quantity is never raised.
\<close>

theorem orders_only_progress:
  "(apply_events xs default_projection = Some st \<longrightarrow> apply_events ys st = Some st' \<longrightarrow> bt_get (ps_order_lifecycle st) h = Some r \<longrightarrow>
     (\<exists>r'. bt_get (ps_order_lifecycle st') h = Some r' \<and> amount_of (ol_filled_qty_1e8 r) \<le> amount_of (ol_filled_qty_1e8 r') \<and>
        (ol_cancelled r \<longrightarrow> ol_cancelled r') \<and> (ol_terminal r \<longrightarrow> ol_terminal r'))) \<and>
   fst (apply_event s e ctx) \<noteq> Err (FilledQtyDecrease a b c)"
proof
  show "apply_events xs default_projection = Some st \<longrightarrow> apply_events ys st = Some st' \<longrightarrow> bt_get (ps_order_lifecycle st) h = Some r \<longrightarrow>
     (\<exists>r'. bt_get (ps_order_lifecycle st') h = Some r' \<and> amount_of (ol_filled_qty_1e8 r) \<le> amount_of (ol_filled_qty_1e8 r') \<and>
        (ol_cancelled r \<longrightarrow> ol_cancelled r') \<and> (ol_terminal r \<longrightarrow> ol_terminal r'))"
    using apply_events_ok [OF _ default_projection_ok] apply_events_orders by blast
  show "fst (apply_event s e ctx) \<noteq> Err (FilledQtyDecrease a b c)" by (rule never_decreases)
qed

theorem orders_only_progress_witness:
  "\<exists>st st' r'. apply_events sample_run default_projection = Some st \<and> apply_events sample_run st = Some st' \<and>
     bt_get (ps_order_lifecycle st') ''0x1'' = Some r' \<and> ol_cancelled r'"
proof (rule sample_run_state)
  fix st
  assume st: "apply_events sample_run default_projection = Some st" "\<exists>r. bt_get (ps_order_lifecycle st) ''0x1'' = Some r \<and> ol_cancelled r"
  have "map_option (\<lambda>st. apply_events sample_run st \<noteq> None) (apply_events sample_run default_projection) = Some True" by code_simp
  then obtain st' where st': "apply_events sample_run st = Some st'" using st(1) by auto
  obtain r where r: "bt_get (ps_order_lifecycle st) ''0x1'' = Some r" "ol_cancelled r" using st(2) by blast
  show ?thesis using orders_only_progress [of sample_run st sample_run st' "''0x1''" r] st(1) st' r by blast
qed

text \<open>
  C35: A finalized subaccount is closed: as long as no new recovery is requested or activated for it
  and no internal transfer is booked, it stays finalized and its balance stays zero whatever other
  events are applied; a deposit to it is refused.
\<close>

theorem finalized_subaccount_closed:
  assumes "apply_event st e ctx = (Ok (), st')" "projection_ok st" "is_finalized st sk" "subaccount_balance sk t st = 0"
    and "he_kind e \<notin> {RecoveryRequested, RecoveryActivated, InternalTransfer}"
  shows "is_finalized st' sk \<and> subaccount_balance sk t st' = 0 \<and> \<not> (he_kind e = Deposit \<and> he_subkey e = Some sk)"
proof (intro conjI notI)
  assume "he_kind e = Deposit \<and> he_subkey e = Some sk"
  then show False using assms(1,3) by (auto simp: apply_event_def apply_deposit_def reducer_simps)
qed (use finalized_stays [OF assms(1-3)] finalized_stays_empty [OF assms(1-4)] assms(5) in auto)

definition finalized_sample :: projection_state where
  "finalized_sample = snd (apply_event default_projection (sample_event RecoveryFinalized ''a'' []) sample_ctx)"

lemma finalized_sample_facts:
  "apply_event default_projection (sample_event RecoveryFinalized ''a'' []) sample_ctx = (Ok (), finalized_sample)"
  "is_finalized finalized_sample ''a''" "ps_balances finalized_sample = []" "projection_ok finalized_sample"
proof -
  have "fst (apply_event default_projection (sample_event RecoveryFinalized ''a'' []) sample_ctx) = Ok ()"
    by (simp add: apply_event_def sample_event_def apply_recovery_finalized_def require_def default_projection_def Let_def)
  then show r: "apply_event default_projection (sample_event RecoveryFinalized ''a'' []) sample_ctx = (Ok (), finalized_sample)"
    by (simp add: finalized_sample_def prod_eq_iff)
  show "projection_ok finalized_sample" by (rule apply_event_ok [OF r default_projection_ok])
qed (simp_all add: finalized_sample_def apply_event_def sample_event_def apply_recovery_finalized_def require_def default_projection_def
  Let_def is_finalized_def set_recovery_def bt_retain_def)

theorem finalized_subaccount_closed_witness:
  "\<exists>st'. apply_event finalized_sample (sample_event OptionOrderCancelled ''a'' []) sample_ctx = (Ok (), st') \<and>
     is_finalized st' ''a'' \<and> subaccount_balance ''a'' ''usdc'' st' = 0"
proof -
  let ?e = "sample_event OptionOrderCancelled ''a'' []"
  obtain st' where st': "apply_event finalized_sample ?e sample_ctx = (Ok (), st')"
    by (simp add: apply_event_def sample_event_def apply_order_cancelled_def require_def)
  have "subaccount_balance ''a'' ''usdc'' finalized_sample = 0" by (simp add: subaccount_balance_def weight_def finalized_sample_facts(3))
  then show ?thesis using finalized_subaccount_closed [OF st' finalized_sample_facts(4,2)] st' by (simp add: sample_event_def)
qed

text \<open>
  Recovered is not terminal in the projection: a later request moves the subaccount back, and an
  internal transfer credits a finalized subaccount although a deposit to it is refused.
\<close>

lemma recovered_can_be_left:
  "bt_get (ps_recovery_state (snd (apply_event finalized_sample (sample_event RecoveryRequested ''a'' []) sample_ctx))) ''a'' = Some RecoveryPending"
  using projection_parts(11) [OF finalized_sample_facts(4)]
  by (simp add: apply_event_def sample_event_def apply_recovery_requested_def require_def set_recovery_def recovery_ok_def)

lemma transfer_credits_finalized:
  "fst (apply_event finalized_sample (sample_event InternalTransfer ''b'' [(''amount'', ''5''), (''to_subkey'', ''a'')]) sample_ctx) = Ok ()"
  "fst (apply_event finalized_sample (sample_event Deposit ''a'' [(''amount'', ''5'')]) sample_ctx) \<noteq> Ok ()"
  by code_simp+

text \<open>
  A nonce that is not a number passes the monotonicity check, and so does then every nonce: the
  minimum valid nonce of a subaccount can decrease.
\<close>

lemma min_nonce_can_decrease:
  "map_option (\<lambda>st. bt_get (ps_min_valid_nonce st) ''a'')
     (apply_events (map (\<lambda>n. (sample_event OptionSubaccountMinValidOrderNonceAdvanced ''a'' [(''new_min_valid_nonce'', n)], sample_ctx))
        [''100'', ''x'', ''5'']) default_projection) = Some (Some ''5'')"
  by code_simp

text \<open>
  A position that a modification opens on one side only keeps an empty text on the other, so that
  reducing it to zero does not remove it.
\<close>

lemma zero_position_stays:
  "map_option (\<lambda>st. map snd (ps_positions st))
     (apply_events (map (\<lambda>n. (sample_event OptionPositionModified ''a'' [(''long_delta_1e8_signed'', n)], sample_ctx))
        [''3'', ''-3'']) default_projection)
   = Some [\<lparr> pr_long_qty_1e8 = ''0'', pr_short_qty_1e8 = [], pr_last_event_block = 7 \<rparr>]"
  by code_simp

end
