(* ===== verification/Topics.thy ===== *)
theory Topics
  imports Signing Hybrid_Events
begin

text \<open>
  The catalogue of event topics, \<^verbatim>\<open>src/hybrid_v2/topics.rs\<close>, and the pinned file it is loaded from,
  \<^verbatim>\<open>resources/hybrid-v2/event-topics-v1.json\<close>.  A panic of the loader is the value \<^verbatim>\<open>None\<close>.
\<close>


section \<open>Catalogue\<close>

record topic_row =
  tr_contract :: string
  tr_event :: string
  tr_signature :: string
  tr_topic0 :: string

record topic_entry =
  te_contract :: string
  te_event :: string
  te_signature :: string
  te_topic0 :: byte_array
  te_topic0_hex_lower :: string

record topic_catalogue =
  tc_schema_version :: u16
  tc_entries :: "topic_entry list"
  tc_by_topic :: "(byte_array, nat) hashmap"
  tc_by_event :: "(string, nat) hashmap"

text \<open>\<^verbatim>\<open>u8::from_str_radix\<close> on two characters: a leading plus sign is skipped.\<close>

definition byte_from_hex :: "char \<Rightarrow> char \<Rightarrow> 8 word option" where
  "byte_from_hex a b =
     (if a = CHR ''+'' then decode_hex_nibble (of_char b)
      else Option.bind (decode_hex_nibble (of_char a)) (\<lambda>h. map_option (\<lambda>l. h * 16 + l) (decode_hex_nibble (of_char b))))"

fun bytes_from_hex :: "string \<Rightarrow> byte_array option" where
  "bytes_from_hex (a # b # rest) =
     Option.bind (byte_from_hex a b) (\<lambda>x. map_option (Cons x) (bytes_from_hex rest))"
| "bytes_from_hex _ = Some []"

definition parse_hex32 :: "string \<Rightarrow> byte_array option" where
  "parse_hex32 hex0 =
     (let hex = (case strip_prefix ''0x'' hex0 of Some h \<Rightarrow> h | None \<Rightarrow> hex0)
      in if length hex \<noteq> 64 then None else bytes_from_hex hex)"

definition catalogue_add :: "topic_row \<Rightarrow> byte_array \<Rightarrow> topic_catalogue \<Rightarrow> topic_catalogue" where
  "catalogue_add row topic0 c =
     (let idx = length (tc_entries c);
          entry = \<lparr> te_contract = tr_contract row, te_event = tr_event row, te_signature = tr_signature row,
                    te_topic0 = topic0, te_topic0_hex_lower = tr_topic0 row \<rparr>
      in c\<lparr>tc_entries := tc_entries c @ [entry],
           tc_by_topic := hm_insert topic0 idx (tc_by_topic c),
           tc_by_event := hm_insert (tr_event row) idx (tc_by_event c)\<rparr>)"

primrec load_rows :: "topic_row list \<Rightarrow> topic_catalogue \<Rightarrow> topic_catalogue option" where
  "load_rows [] c = Some c"
| "load_rows (row # rows) c =
     (case parse_hex32 (tr_topic0 row) of None \<Rightarrow> None | Some topic0 \<Rightarrow> load_rows rows (catalogue_add row topic0 c))"

definition load_catalogue :: "u16 \<Rightarrow> topic_row list \<Rightarrow> topic_catalogue option" where
  "load_catalogue schema_version rows =
     load_rows rows \<lparr> tc_schema_version = schema_version, tc_entries = [], tc_by_topic = [], tc_by_event = [] \<rparr>"

definition lookup_by_topic0 :: "topic_catalogue \<Rightarrow> byte_array \<Rightarrow> topic_entry option" where
  "lookup_by_topic0 c topic0 = map_option (\<lambda>i. tc_entries c ! i) (hm_get (tc_by_topic c) topic0)"

definition lookup_by_event :: "topic_catalogue \<Rightarrow> string \<Rightarrow> topic_entry option" where
  "lookup_by_event c event = map_option (\<lambda>i. tc_entries c ! i) (hm_get (tc_by_event c) event)"


section \<open>The pinned file\<close>

definition topic_of :: "string \<Rightarrow> string \<Rightarrow> string \<Rightarrow> string \<Rightarrow> topic_row" where
  "topic_of contract event signature topic0 =
     \<lparr> tr_contract = contract, tr_event = event, tr_signature = signature, tr_topic0 = topic0 \<rparr>"

definition event_topics_v1 :: "topic_row list" where
  "event_topics_v1 =
    [
     topic_of ''SubaccountRegistry'' ''SubaccountCreated''
       ''SubaccountCreated(address,uint32,bytes32,uint256,uint16)''
       ''0x8a4452859e48c40ee605ebd412f3f41b7e31d06e79a555f6ecfb9b20c712e499'',
     topic_of ''SubaccountRegistry'' ''SubaccountLazyRegistered''
       ''SubaccountLazyRegistered(address,uint32,bytes32,uint256,address,uint16)''
       ''0x73877816803f49c60a5d3cec46723b9b1071d38fabd08818c2cc9efd67956c65'',
     topic_of ''CollateralVaultV2'' ''Deposit''
       ''Deposit(bytes32,address,uint32,address,uint256,address,uint16)''
       ''0x774b18d5c0a5d41384d85f57a6cb80146a2d07b438593f2a31d5984d31ca2588'',
     topic_of ''CollateralVaultV2'' ''Withdraw''
       ''Withdraw(bytes32,address,uint32,address,uint256,address,uint16)''
       ''0x8a1b643fe55c1af823e441f3547c965154725bfa5f705c9563854c03f6905c62'',
     topic_of ''CollateralVaultV2'' ''InternalTransfer''
       ''InternalTransfer(bytes32,bytes32,address,uint256,address,uint32,uint32,uint16)''
       ''0x32624e5751759c1a980b8f332fcaa0abdd6aabdbc1d0e95f75ff89f87bb31407'',
     topic_of ''CollateralVaultV2'' ''CollateralLocked''
       ''CollateralLocked(bytes32,address,address,uint256,uint16)''
       ''0xb257f3ca707cbe1b79d4d385bbb6d7615658afed8a00fbd33d1516a88fc4b3c0'',
     topic_of ''CollateralVaultV2'' ''CollateralUnlocked''
       ''CollateralUnlocked(bytes32,address,address,uint256,uint16)''
       ''0xd02c6a9b0ac6fd79e994a04c03b1cd268c1a5199733f8d8980b5b05dbc0d1b25'',
     topic_of ''VaultCapabilityController'' ''EngineCapabilityChanged''
       ''EngineCapabilityChanged(address,uint256,uint256,uint16)''
       ''0x00b5fb0400bc62e078fe1a30911831bea11f2a129c8de6928c5dee777b11ed7b'',
     topic_of ''VaultCapabilityController'' ''EngineGuardianRevoked''
       ''EngineGuardianRevoked(address,address,uint16)''
       ''0x231111d13e03d6b628cfc1b76167de74d2ee3795853f17c98990b1c12d0dee0d'',
     topic_of ''VaultCapabilityController'' ''GuardianChanged''
       ''GuardianChanged(address,address,uint16)''
       ''0xe5981a96dcee521a9e755eaeab8c8d4844435c46489abe3a764730fd105ded60'',
     topic_of ''CollateralVaultV2'' ''OrphanedLockReleased''
       ''OrphanedLockReleased(bytes32,address,address,uint256,string,uint16)''
       ''0x5363d70c437a3c4d6a3245067c3c6d5a9344122c7d39532e231b79ec61487827'',
     topic_of ''CollateralVaultV2Core'' ''SupportedTokenAdded''
       ''SupportedTokenAdded(address,uint16)''
       ''0x542bbac8ffbfa75b7935c7b77e757a22d548cd26ed83e8659ce332c0267e2abe'',
     topic_of ''CollateralVaultV2Core'' ''SupportedTokenRemoved''
       ''SupportedTokenRemoved(address,uint16)''
       ''0x4915d8bab7c4f6da1041eaf7792b1186794f8f387a88679117a1f59983e84e13'',
     topic_of ''CollateralVaultV2Core'' ''CollateralTokenEnteredUniverse''
       ''CollateralTokenEnteredUniverse(address,uint256,uint16)''
       ''0x6bc46ba5fe2bba7da05311369d1a31316991feb74c5c32b9244d622e05414471'',
     topic_of ''CollateralVaultV2'' ''OptionPremiumTransferred''
       ''OptionPremiumTransferred(bytes32,bytes32,address,uint256,address,uint16)''
       ''0x2af00d3662f61faae04420ad8fbd08dd2efd15c1f286c2f7af28f5c399893676'',
     topic_of ''CollateralVaultV2'' ''OptionFeeCharged''
       ''OptionFeeCharged(bytes32,bytes32,address,uint256,address,uint16)''
       ''0x693ee9b6475a640e28b94f71fdc3d3588c523c6c6d464eab4181837d72252b18'',
     topic_of ''CollateralVaultV2'' ''OptionRebatePaid''
       ''OptionRebatePaid(bytes32,bytes32,address,uint256,address,uint16)''
       ''0xf65e7293067ac7ca92cfee2632423d2a37c8d276bda04348563704df384b5f9b'',
     topic_of ''CollateralVaultV2'' ''RecoveryFinalizationWithdrawn''
       ''RecoveryFinalizationWithdrawn(bytes32,address,address,uint256,address,uint16)''
       ''0xecd608119704e10d37afc48dd8597b2a98d20d6c749b48f412872fa7bf43daa4'',
     topic_of ''CollateralVaultV2'' ''PauseFlagChanged''
       ''PauseFlagChanged(bytes32,bool,address,uint16)''
       ''0x104e853a70614248dd9d5db302653788320a9ff75241a0f7530c7112b285b4f7'',
     topic_of ''CollateralVaultV2'' ''BadDebtSocialized''
       ''BadDebtSocialized(bytes32,address,uint256,uint16)''
       ''0xbf5a4b0b49b3c727af1ee9fbd3dcb46bba0e55ab3cf5b2fce9c03ce1e3cb3eac'',
     topic_of ''CollateralVaultV2Core'' ''ProtocolSubaccountsInitialized''
       ''ProtocolSubaccountsInitialized(bytes32,bytes32,bytes32,uint16)''
       ''0x01884fa7db04aab7156225a786e04d6af4c29c76307fd0b2f851844d2edd338b'',
     topic_of ''CollateralVaultV2Core'' ''EscapeControllerInitialized''
       ''EscapeControllerInitialized(address,uint16)''
       ''0xb7187495435bb60109ec5b301d3b6e44ebad5b3f615a76c6034413364de2beb2'',
     topic_of ''CollateralVaultV2Core'' ''RecoveryFinalizerInitialized''
       ''RecoveryFinalizerInitialized(address,uint16)''
       ''0x3e79856244e45d113d0f94626aaf46100fc1bc74fd482cc4c609f2371cf11410'',
     topic_of ''OptionsPositionsLedger'' ''OptionPositionOpened''
       ''OptionPositionOpened(bytes32,uint256,uint8,uint128,uint128,address,address,uint32,uint16)''
       ''0x883f3ba81bf89b4b8440b5662a218a076dea8f0475d7fbb5ac73ad687848f566'',
     topic_of ''OptionsPositionsLedger'' ''OptionPositionModified''
       ''OptionPositionModified(bytes32,uint256,uint8,int128,uint128,address,address,uint32,uint16)''
       ''0xa29da332d2948ce8cd946d9496707d9341d0e99ea98ce59658c687145ab01a99'',
     topic_of ''OptionsPositionsLedger'' ''OptionPositionClosed''
       ''OptionPositionClosed(bytes32,uint256,uint8,address,address,uint32,uint16)''
       ''0x9614fc5262919739afc0198492b6b4856aa14cfd9822655633fac090083e4915'',
     topic_of ''OptionsPositionsLedger'' ''OptionExercised''
       ''OptionExercised(bytes32,uint256,uint128,uint128,int256,address,uint32,uint16)''
       ''0xa18d04ca4d11d009d4db2f95c286dab19e9bec8ff5bb5938fda4be17e5aea01b'',
     topic_of ''OptionsPositionsLedger'' ''OptionSettled''
       ''OptionSettled(bytes32,uint256,uint128,int256,address,uint32,uint16)''
       ''0x8b81624db7bb8fa4d479d51909f23e3e846d91f1c5d11d59ba54230bd3e6aec2'',
     topic_of ''OptionsPositionsLedger'' ''OptionPositionLiquidated''
       ''OptionPositionLiquidated(bytes32,uint256,uint128,uint128,bytes32,uint16)''
       ''0xa3ca0dc331ebaafd54be6e3de63f6bb42d6151273b8b84fe1e63cf00c64e61aa'',
     topic_of ''OptionMatchingEngineV2'' ''OptionOrderPairExecuted''
       ''OptionOrderPairExecuted(bytes32,bytes32,bytes32,uint256,bytes32,bytes32,address,address,uint32,uint32,uint128,uint128,uint256,address,uint8,uint8,uint128,uint128,address,uint16)''
       ''0x5f1468e41f3dc2025f66566667670e60b71846f79df1f84a457bf6b3a8eefe75'',
     topic_of ''OptionMatchingEngineV2'' ''OptionOrderFilled''
       ''OptionOrderFilled(bytes32,bytes32,uint256,uint8,uint8,uint128,uint128,uint128,uint128,bool,uint8,address,uint16)''
       ''0xfcb24be7e88ddbe667d00e7cab6f148072ed803e28e88fdde36cd66b032f307d'',
     topic_of ''OptionMatchingEngineV2'' ''OptionOrderCancelled''
       ''OptionOrderCancelled(bytes32,bytes32,address,address,uint16)''
       ''0x5f1da788a264c52c59e6bb9ff247b6bee5a5ff1eb711bc1c8c818ddaab76006f'',
     topic_of ''OptionMatchingEngineV2'' ''OptionSubaccountMinValidOrderNonceAdvanced''
       ''OptionSubaccountMinValidOrderNonceAdvanced(bytes32,address,uint256,uint256,address,uint16)''
       ''0x047ff718fb46155865411d4da6985a211e86524f977d21a35ef88ab27ba7ef8a'',
     topic_of ''EscapeControllerV1'' ''RecoveryRequested''
       ''RecoveryRequested(bytes32,address,uint32,uint256,uint64,uint16)''
       ''0x99272b7b0936c1be21184e3b8303e95653f0b27fffeb821141f4709ee161764a'',
     topic_of ''EscapeControllerV1'' ''RecoveryActivated''
       ''RecoveryActivated(bytes32,address,uint32,uint256,uint16)''
       ''0x3b0e643751f917ed7143bfa4a093c94ce3974b7323936d1e9157be88f61c04c9'',
     topic_of ''EscapeControllerV1'' ''RecoveryCancelled''
       ''RecoveryCancelled(bytes32,address,uint32,uint16)''
       ''0x28cb5de9a9e210d529153dcda10f91684b09ff392ed3767218878ef472863ac4'',
     topic_of ''EscapeControllerV1'' ''RecoveryEpochIncremented''
       ''RecoveryEpochIncremented(bytes32,address,uint8,uint256,uint16)''
       ''0x2c4274d2cd1ce327b679899225a385eede7d99e7077fea624e305ec5b120a0c2'',
     topic_of ''EscapeControllerV1'' ''RecoveryPauseSet''
       ''RecoveryPauseSet(bool,uint64,address,uint16)''
       ''0x660fb13c236ffc96f03d35730c19036d2ba11bc7fa424824ab74209ed7dccbc7'',
     topic_of ''RecoveryFinalizerV1'' ''RecoveryFinalized''
       ''RecoveryFinalized(bytes32,address,uint32,uint256,uint64,uint8,address,uint16)''
       ''0x5d8bf05ccd48556b2a1560dfb9a6b16238cd8b21e91ac6120f6a59de06a1e44a'',
     topic_of ''ReplayAndEpochController'' ''IntentConsumed''
       ''IntentConsumed(bytes32,address,address,bytes32,uint16)''
       ''0x9c3a45f7859c37449925685b802d35970473d4c3a8382fadb445bec8ceddd121'',
     topic_of ''ReplayAndEpochController'' ''NonceCancelled''
       ''NonceCancelled(address,uint256,uint256,address,uint16)''
       ''0x180904c26fd4aa4a2a17cfa7b96092d3a951c13c6367b175f6a2865179c0d08f'',
     topic_of ''ReplayAndEpochController'' ''OwnerRecoveryEpochAdvanced''
       ''OwnerRecoveryEpochAdvanced(address,uint256,uint256,address,uint16)''
       ''0xa3cd3ecafc2b5057fcab67c408f2a97890fec7c6c0ae6b8db41de79980dd8b0f'',
     topic_of ''ReplayAndEpochController'' ''SubaccountRecoveryEpochAdvanced''
       ''SubaccountRecoveryEpochAdvanced(bytes32,address,uint32,uint256,uint256,address,uint16)''
       ''0x6c7ce309e96fc02fca79f1d6ca2f961525a081588475bc1a226cfd2e13bafcc5'',
     topic_of ''IRiskModule'' ''RiskParamsSet''
       ''RiskParamsSet(bytes32,bytes,uint16)''
       ''0x51e6ef537abfa0113555b58f416e2901616e96f3c2a2c34a74555b4e5d36bd03'',
     topic_of ''IRiskModule'' ''RiskModuleActivated''
       ''RiskModuleActivated(uint16,uint16,uint16)''
       ''0x098813cdf332b96a958469f45ae58a0fa0207cb89d8486c359dda570abc81f80'',
     topic_of ''IRiskModule'' ''LiquidationTriggered''
       ''LiquidationTriggered(bytes32,uint8,uint16)''
       ''0x8d20b6e898ef2ca1feee7aa63235c785a54cfe6197e8467c97f950080eb8d74e'',
     topic_of ''DeploymentManifestV1'' ''DeploymentManifestDeclared''
       ''DeploymentManifestDeclared(bytes32,uint256,address,bytes32,uint16,uint16,uint16,bytes32,bytes32,uint64,uint64,uint16)''
       ''0x0c7768f8f3d5c0493e4b4a4f84996f6f7da7402f439d0fe28494c8a5bf0367aa'']"

section \<open>Loading\<close>

text \<open>What the loader makes of its rows: one entry per row, found by its topic and by its name.\<close>

definition entry_of :: "topic_row \<Rightarrow> byte_array \<Rightarrow> topic_entry" where
  "entry_of row t =
     \<lparr> te_contract = tr_contract row, te_event = tr_event row, te_signature = tr_signature row,
       te_topic0 = t, te_topic0_hex_lower = tr_topic0 row \<rparr>"

definition catalogue_ok :: "topic_catalogue \<Rightarrow> bool" where
  "catalogue_ok c \<longleftrightarrow> hm_ok (tc_by_topic c) \<and> hm_ok (tc_by_event c)
     \<and> (\<forall>t i. hm_get (tc_by_topic c) t = Some i \<longrightarrow> i < length (tc_entries c) \<and> te_topic0 (tc_entries c ! i) = t)
     \<and> (\<forall>e i. hm_get (tc_by_event c) e = Some i \<longrightarrow> i < length (tc_entries c) \<and> te_event (tc_entries c ! i) = e)
     \<and> (\<forall>e \<in> set (tc_entries c). hm_get (tc_by_topic c) (te_topic0 e) \<noteq> None \<and> hm_get (tc_by_event c) (te_event e) \<noteq> None)"

lemma catalogue_add_ok: "catalogue_ok c \<Longrightarrow> catalogue_ok (catalogue_add row t c)"
  by (auto simp: catalogue_ok_def catalogue_add_def Let_def nth_append intro: less_SucI split: if_splits)

lemma load_rows_ok: "load_rows rows c = Some c' \<Longrightarrow> catalogue_ok c \<Longrightarrow> catalogue_ok c'"
  by (induction rows arbitrary: c) (auto split: option.splits intro: catalogue_add_ok)

lemma load_ok: "load_catalogue v rows = Some c \<Longrightarrow> catalogue_ok c"
  unfolding load_catalogue_def by (erule load_rows_ok) (simp add: catalogue_ok_def)

lemma load_rows_entries:
  "load_rows rows c = Some c' \<Longrightarrow>
   tc_entries c' = tc_entries c @ map (\<lambda>row. entry_of row (the (parse_hex32 (tr_topic0 row)))) rows"
  by (induction rows arbitrary: c) (auto simp: catalogue_add_def Let_def entry_of_def split: option.splits)

lemma load_rows_total: "list_all (\<lambda>row. parse_hex32 (tr_topic0 row) \<noteq> None) rows \<Longrightarrow> \<exists>c'. load_rows rows c = Some c'"
  by (induction rows arbitrary: c) auto

lemma entry_found_by_event:
  assumes "catalogue_ok c" "distinct (map te_event (tc_entries c))" "e \<in> set (tc_entries c)"
  shows "lookup_by_event c (te_event e) = Some e"
proof -
  obtain i where i: "hm_get (tc_by_event c) (te_event e) = Some i" using assms unfolding catalogue_ok_def by blast
  then have n: "i < length (tc_entries c)" "te_event (tc_entries c ! i) = te_event e"
    using assms(1) unfolding catalogue_ok_def by blast+
  moreover obtain j where "j < length (tc_entries c)" "e = tc_entries c ! j" using assms(3) by (metis in_set_conv_nth)
  ultimately have "tc_entries c ! i = e" using assms(2) by (metis distinct_conv_nth length_map nth_map)
  then show ?thesis by (simp add: lookup_by_event_def i)
qed

lemma entry_found_by_topic:
  assumes "catalogue_ok c" "distinct (map te_topic0 (tc_entries c))" "e \<in> set (tc_entries c)"
  shows "lookup_by_topic0 c (te_topic0 e) = Some e"
proof -
  obtain i where i: "hm_get (tc_by_topic c) (te_topic0 e) = Some i" using assms unfolding catalogue_ok_def by blast
  then have n: "i < length (tc_entries c)" "te_topic0 (tc_entries c ! i) = te_topic0 e"
    using assms(1) unfolding catalogue_ok_def by blast+
  moreover obtain j where "j < length (tc_entries c)" "e = tc_entries c ! j" using assms(3) by (metis in_set_conv_nth)
  ultimately have "tc_entries c ! i = e" using assms(2) by (metis distinct_conv_nth length_map nth_map)
  then show ?thesis by (simp add: lookup_by_topic0_def i)
qed

lemma lookup_topic_member:
  "catalogue_ok c \<Longrightarrow> lookup_by_topic0 c t = Some e \<Longrightarrow> e \<in> set (tc_entries c) \<and> te_topic0 e = t"
  unfolding catalogue_ok_def lookup_by_topic0_def by (auto dest: nth_mem)

end
