(* ===== verification/Decoder.thy ===== *)
theory Decoder
  imports Topics Projection
begin

text \<open>
  The decoder of raw chain logs, \<^verbatim>\<open>src/hybrid_v2/decoder.rs\<close>: the layout of every event, the extraction
  of topics and data words, and the packing helpers that build logs.  Topics are arrays of 32 bytes.
  The catalogue that the code keeps in a process-wide cell is the argument \<^verbatim>\<open>cat\<close>.
\<close>

unbundle bit_operations_syntax


section \<open>Layouts\<close>

record canonical_raw_log =
  rl_emitter :: string
  rl_topics :: "byte_array list"
  rl_data :: byte_array

datatype decoder_error =
    NoTopics
  | UnknownTopic string
  | UnimplementedForVariant string
  | IndexedTopicCountMismatch string nat nat
  | DataTooShort string nat nat
  | EventVersionMismatch string u16 u16
  | WrongEmitter string string string

datatype indexed_field =
    IxSubKey | IxOtherSubKey | IxOwner | IxSubaccountId | IxToken | IxEngine
  | IxOrderHash | IxExecutionId | IxSeriesId | IxIntentHash | IxActor | IxSkip

primrec indexed_label :: "indexed_field \<Rightarrow> string" where
  "indexed_label IxSubKey = ''subkey''"
| "indexed_label IxOtherSubKey = ''other_subkey''"
| "indexed_label IxOwner = ''owner''"
| "indexed_label IxSubaccountId = ''subaccount_id''"
| "indexed_label IxToken = ''token''"
| "indexed_label IxEngine = ''engine''"
| "indexed_label IxOrderHash = ''order_hash''"
| "indexed_label IxExecutionId = ''execution_id''"
| "indexed_label IxSeriesId = ''series_id''"
| "indexed_label IxIntentHash = ''intent_hash''"
| "indexed_label IxActor = ''actor''"
| "indexed_label IxSkip = ''_skip''"

datatype data_field =
    DfAddress string | DfU256 string | DfI256 string | DfU128 string | DfU64 string | DfU32 string
  | DfU16 string | DfU8 string | DfBool string | DfBytes32 string | DfSkip

record event_layout =
  el_indexed :: "indexed_field list"
  el_data :: "data_field list"

definition new_layout :: "indexed_field list \<Rightarrow> data_field list \<Rightarrow> event_layout" where
  "new_layout ix df = \<lparr> el_indexed = ix, el_data = df \<rparr>"

primrec layout_for :: "event_kind \<Rightarrow> event_layout" where
  "layout_for SubaccountCreated = new_layout [IxOwner, IxSubaccountId, IxSubKey]
     [DfU256 ''nonce'', DfU16 ''_ev'']"
| "layout_for SubaccountLazyRegistered = new_layout [IxOwner, IxSubaccountId, IxSubKey]
     [DfU256 ''nonce'', DfAddress ''materialiser'', DfU16 ''_ev'']"
| "layout_for Deposit = new_layout [IxSubKey, IxOwner, IxSubaccountId]
     [DfAddress ''token'', DfU256 ''amount'', DfAddress ''actor'', DfU16 ''_ev'']"
| "layout_for Withdraw = new_layout [IxSubKey, IxOwner, IxSubaccountId]
     [DfAddress ''token'', DfU256 ''amount'', DfAddress ''actor'', DfU16 ''_ev'']"
| "layout_for InternalTransfer = new_layout [IxSubKey, IxOtherSubKey, IxToken]
     [DfU256 ''amount'', DfAddress ''actor'', DfU32 ''from_subaccount_id'', DfU32 ''to_subaccount_id'',
      DfU16 ''_ev'']"
| "layout_for CollateralLocked = new_layout [IxSubKey, IxToken, IxEngine]
     [DfU256 ''amount'', DfU16 ''_ev'']"
| "layout_for CollateralUnlocked = new_layout [IxSubKey, IxToken, IxEngine]
     [DfU256 ''amount'', DfU16 ''_ev'']"
| "layout_for EngineCapabilityChanged = new_layout [IxEngine]
     [DfU256 ''added_bits'', DfU256 ''removed_bits'', DfU16 ''_ev'']"
| "layout_for EngineGuardianRevoked = new_layout [IxEngine, IxActor]
     [DfU16 ''_ev'']"
| "layout_for GuardianChanged = new_layout [IxActor, IxSkip]
     [DfU16 ''_ev'']"
| "layout_for OrphanedLockReleased = new_layout [IxSubKey, IxToken, IxEngine]
     [DfU256 ''amount'', DfSkip, DfU16 ''_ev'']"
| "layout_for SupportedTokenAdded = new_layout [IxToken]
     [DfU16 ''_ev'']"
| "layout_for SupportedTokenRemoved = new_layout [IxToken]
     [DfU16 ''_ev'']"
| "layout_for CollateralTokenEnteredUniverse = new_layout [IxToken]
     [DfU256 ''universe_index'', DfU16 ''_ev'']"
| "layout_for OptionPremiumTransferred = new_layout [IxSubKey, IxOtherSubKey, IxToken]
     [DfU256 ''amount'', DfAddress ''actor'', DfU16 ''_ev'']"
| "layout_for OptionFeeCharged = new_layout [IxSubKey, IxOtherSubKey, IxToken]
     [DfU256 ''amount'', DfAddress ''actor'', DfU16 ''_ev'']"
| "layout_for OptionRebatePaid = new_layout [IxSubKey, IxOtherSubKey, IxToken]
     [DfU256 ''amount'', DfAddress ''actor'', DfU16 ''_ev'']"
| "layout_for RecoveryFinalizationWithdrawn = new_layout [IxSubKey, IxOwner, IxToken]
     [DfU256 ''amount'', DfAddress ''actor'', DfU16 ''_ev'']"
| "layout_for PauseFlagChanged = new_layout [IxSubKey]
     [DfBool ''paused'', DfAddress ''actor'', DfU16 ''_ev'']"
| "layout_for BadDebtSocialized = new_layout [IxSubKey, IxToken]
     [DfU256 ''amount'', DfU16 ''_ev'']"
| "layout_for ProtocolSubaccountsInitialized = new_layout []
     [DfBytes32 ''protocol_fee_subkey'', DfBytes32 ''rebate_budget_subkey'',
      DfBytes32 ''insurance_fund_subkey'', DfU16 ''_ev'']"
| "layout_for EscapeControllerInitialized = new_layout [IxActor]
     [DfU16 ''_ev'']"
| "layout_for RecoveryFinalizerInitialized = new_layout [IxActor]
     [DfU16 ''_ev'']"
| "layout_for OptionPositionOpened = new_layout [IxSubKey, IxSeriesId]
     [DfU8 ''kind'', DfU128 ''long_delta_1e8'', DfU128 ''short_delta_1e8'', DfAddress ''actor'',
      DfAddress ''engine'', DfU32 ''subaccount_id'', DfU16 ''_ev'']"
| "layout_for OptionPositionModified = new_layout [IxSubKey, IxSeriesId]
     [DfU8 ''kind'', DfI256 ''long_delta_1e8_signed'', DfU128 ''short_delta_1e8'', DfAddress ''actor'',
      DfAddress ''engine'', DfU32 ''subaccount_id'', DfU16 ''_ev'']"
| "layout_for OptionPositionClosed = new_layout [IxSubKey, IxSeriesId]
     [DfU8 ''kind'', DfAddress ''actor'', DfAddress ''engine'', DfU32 ''subaccount_id'', DfU16 ''_ev'']"
| "layout_for OptionExercised = new_layout [IxSubKey, IxSeriesId]
     [DfU128 ''qty_1e8'', DfU128 ''proceeds'', DfI256 ''pnl_1e8'', DfAddress ''actor'',
      DfU32 ''subaccount_id'', DfU16 ''_ev'']"
| "layout_for OptionSettled = new_layout [IxSubKey, IxSeriesId]
     [DfU128 ''qty_1e8'', DfI256 ''pnl_1e8'', DfAddress ''actor'', DfU32 ''subaccount_id'',
      DfU16 ''_ev'']"
| "layout_for OptionPositionLiquidated = new_layout [IxSubKey, IxSeriesId]
     [DfU128 ''qty_1e8'', DfU128 ''proceeds'', DfBytes32 ''reason_tag'', DfU16 ''_ev'']"
| "layout_for OptionOrderPairExecuted = new_layout [IxExecutionId, IxOrderHash, IxSubKey]
     [DfU256 ''seller_execution_seed'', DfBytes32 ''buyer_order_hash'', DfBytes32 ''seller_order_hash'',
      DfAddress ''buyer_owner'', DfAddress ''seller_owner'', DfU32 ''buyer_subaccount_id'',
      DfU32 ''seller_subaccount_id'', DfU128 ''matched_qty_1e8'', DfU128 ''premium_1e8'',
      DfU256 ''series_id'', DfAddress ''token'', DfU8 ''buyer_side'', DfU8 ''seller_side'',
      DfU128 ''buyer_fee'', DfU128 ''seller_rebate'', DfAddress ''actor'', DfU16 ''_ev'']"
| "layout_for OptionOrderFilled = new_layout [IxSubKey, IxOrderHash]
     [DfU256 ''series_id'', DfU8 ''side'', DfU8 ''time_in_force'', DfU128 ''filled_delta_1e8'',
      DfU128 ''total_qty_1e8'', DfU128 ''filled_qty_1e8'', DfU128 ''remaining_qty_1e8'',
      DfBool ''terminal'', DfU8 ''terminal_reason'', DfAddress ''actor'', DfU16 ''_ev'']"
| "layout_for OptionOrderCancelled = new_layout [IxSubKey, IxOrderHash]
     [DfAddress ''owner'', DfAddress ''actor'', DfU16 ''_ev'']"
| "layout_for OptionSubaccountMinValidOrderNonceAdvanced = new_layout [IxSubKey, IxOwner]
     [DfU256 ''previous_min_valid_nonce'', DfU256 ''new_min_valid_nonce'', DfAddress ''actor'',
      DfU16 ''_ev'']"
| "layout_for RecoveryRequested = new_layout [IxSubKey, IxOwner, IxSubaccountId]
     [DfU256 ''nonce'', DfU64 ''activation_eligible_at'', DfU16 ''_ev'']"
| "layout_for RecoveryActivated = new_layout [IxSubKey, IxOwner, IxSubaccountId]
     [DfU256 ''nonce'', DfU16 ''_ev'']"
| "layout_for RecoveryCancelled = new_layout [IxSubKey, IxOwner, IxSubaccountId]
     [DfU16 ''_ev'']"
| "layout_for RecoveryEpochIncremented = new_layout [IxSubKey, IxOwner]
     [DfU8 ''scope'', DfU256 ''new_epoch'', DfU16 ''_ev'']"
| "layout_for RecoveryPauseSet = new_layout []
     [DfBool ''paused'', DfU64 ''until_ts'', DfAddress ''actor'', DfU16 ''_ev'']"
| "layout_for RecoveryFinalized = new_layout [IxSubKey, IxOwner, IxSubaccountId]
     [DfU256 ''nonce'', DfU64 ''finalized_ts'', DfU8 ''terminal_reason'', DfAddress ''actor'',
      DfU16 ''_ev'']"
| "layout_for IntentConsumed = new_layout [IxIntentHash, IxOwner]
     [DfAddress ''actor'', DfBytes32 ''scope'', DfU16 ''_ev'']"
| "layout_for NonceCancelled = new_layout [IxOwner]
     [DfU256 ''previous_min_valid_nonce'', DfU256 ''new_min_valid_nonce'', DfAddress ''actor'',
      DfU16 ''_ev'']"
| "layout_for OwnerRecoveryEpochAdvanced = new_layout [IxOwner]
     [DfU256 ''previous_epoch'', DfU256 ''new_epoch'', DfAddress ''actor'', DfU16 ''_ev'']"
| "layout_for SubaccountRecoveryEpochAdvanced = new_layout [IxSubKey, IxOwner]
     [DfU32 ''subaccount_id'', DfU256 ''previous_epoch'', DfU256 ''new_epoch'', DfAddress ''actor'',
      DfU16 ''_ev'']"
| "layout_for RiskParamsSet = new_layout [IxSkip]
     [DfSkip, DfU16 ''_ev'']"
| "layout_for RiskModuleActivated = new_layout []
     [DfU16 ''architecture_version'', DfU16 ''storage_version'', DfU16 ''_ev'']"
| "layout_for LiquidationTriggered = new_layout [IxSubKey]
     [DfU8 ''kind'', DfU16 ''_ev'']"
| "layout_for DeploymentManifestDeclared = new_layout [IxSkip]
     [DfU256 ''chain_id'', DfAddress ''deployer'', DfBytes32 ''manifest_hash'',
      DfU16 ''architecture_version'', DfU16 ''storage_version'', DfU16 ''event_version'',
      DfBytes32 ''module_addresses_hash'', DfBytes32 ''critical_config_hash'',
      DfU64 ''deployment_block'', DfU64 ''deployment_timestamp'', DfU16 ''_ev'']"


section \<open>Words\<close>

definition hex_lower :: "byte_array \<Rightarrow> string" where
  "hex_lower bs = concat (map (\<lambda>b. [hex_digit (drop_bit 4 b), hex_digit (b AND 15)]) bs)"

definition bytes32_hex :: "byte_array \<Rightarrow> string" where
  "bytes32_hex topic = ''0x'' @ hex_lower topic"

definition topic_to_address_hex :: "byte_array \<Rightarrow> string" where
  "topic_to_address_hex topic = ''0x'' @ hex_lower (drop 12 topic)"

definition word_to_address :: "byte_array \<Rightarrow> string" where
  "word_to_address w = ''0x'' @ hex_lower (drop 12 (take 32 w))"

definition topic_to_u32_low :: "byte_array \<Rightarrow> u32" where
  "topic_to_u32_low topic = of_nat (be_val [topic ! 28, topic ! 29, topic ! 30, topic ! 31])"

definition read_u32_be :: "byte_array \<Rightarrow> u32" where
  "read_u32_be bs = of_nat (be_val [bs ! 0, bs ! 1, bs ! 2, bs ! 3])"

definition read_u64_be :: "byte_array \<Rightarrow> u64" where
  "read_u64_be bs = of_nat (be_val (take 8 bs))"

definition u256_bytes_to_decimal :: "byte_array \<Rightarrow> string" where
  "u256_bytes_to_decimal bytes =
     (if list_all (\<lambda>b. b = 0) (take 16 bytes)
      then decimal (unat (foldl (\<lambda>hi b. push_bit 8 hi OR ucast b) (0 :: u128) (drop 16 bytes)))
      else let digits = decimal_digits bytes
           in if digits = [] then ''0'' else map (\<lambda>d. char_of (48 + d)) (rev digits))"

definition pad32 :: "byte_array \<Rightarrow> byte_array" where
  "pad32 bytes = (let n = min (length bytes) 32 in replicate (32 - n) 0 @ take n bytes)"

definition u256_be_to_decimal :: "byte_array \<Rightarrow> string" where
  "u256_be_to_decimal bytes = u256_bytes_to_decimal (pad32 bytes)"

text \<open>Adding one, from the last byte on, and the two's-complement negation of an array.\<close>

fun inc_bytes :: "byte_array \<Rightarrow> u16 \<times> byte_array" where
  "inc_bytes [] = (1, [])"
| "inc_bytes (b # bs) =
     (let (carry, out) = inc_bytes bs; s = ucast b + carry
      in (drop_bit 8 s, ucast (s AND 255) # out))"

definition negate_bytes :: "byte_array \<Rightarrow> byte_array" where
  "negate_bytes bs = snd (inc_bytes (map (\<lambda>b. NOT b) bs))"

definition i256_be_to_decimal :: "byte_array \<Rightarrow> string" where
  "i256_be_to_decimal bytes =
     (let buf = pad32 bytes
      in if (buf ! 0) AND 128 = 0 then u256_bytes_to_decimal buf
         else ''-'' @ u256_bytes_to_decimal (negate_bytes buf))"


section \<open>Decoding\<close>

record extraction =
  xt_payload :: "(string, json_value) btreemap"
  xt_subkey :: "string option"
  xt_owner :: "string option"
  xt_subaccount_id :: "u32 option"
  xt_token :: "string option"
  xt_engine :: "string option"
  xt_execution_id :: "string option"
  xt_order_hash :: "string option"
  xt_series_id :: "string option"
  xt_event_version :: u16

definition CANONICAL_EVENT_VERSION :: u16 where
  "CANONICAL_EVENT_VERSION = 1"

definition empty_extraction :: extraction where
  "empty_extraction =
     \<lparr> xt_payload = [], xt_subkey = None, xt_owner = None, xt_subaccount_id = None, xt_token = None, xt_engine = None,
       xt_execution_id = None, xt_order_hash = None, xt_series_id = None, xt_event_version = CANONICAL_EVENT_VERSION \<rparr>"

definition put :: "string \<Rightarrow> json_value \<Rightarrow> extraction \<Rightarrow> extraction" where
  "put key v x = x\<lparr>xt_payload := bt_insert key v (xt_payload x)\<rparr>"

definition or_else :: "'a option \<Rightarrow> 'a \<Rightarrow> 'a option" where
  "or_else cur v = (case cur of Some w \<Rightarrow> Some w | None \<Rightarrow> Some v)"

definition take_indexed :: "nat \<Rightarrow> indexed_field \<Rightarrow> byte_array \<Rightarrow> extraction \<Rightarrow> extraction" where
  "take_indexed i field topic x =
     (case field of
        IxSubKey \<Rightarrow> x\<lparr>xt_subkey := Some (bytes32_hex topic)\<rparr>
      | IxOtherSubKey \<Rightarrow>
          put (indexed_label field) (JString (bytes32_hex topic)) (x\<lparr>xt_subkey := or_else (xt_subkey x) (bytes32_hex topic)\<rparr>)
      | IxOwner \<Rightarrow> x\<lparr>xt_owner := Some (topic_to_address_hex topic)\<rparr>
      | IxSubaccountId \<Rightarrow> x\<lparr>xt_subaccount_id := Some (topic_to_u32_low topic)\<rparr>
      | IxToken \<Rightarrow> x\<lparr>xt_token := Some (topic_to_address_hex topic)\<rparr>
      | IxEngine \<Rightarrow> x\<lparr>xt_engine := Some (topic_to_address_hex topic)\<rparr>
      | IxOrderHash \<Rightarrow> x\<lparr>xt_order_hash := Some (bytes32_hex topic)\<rparr>
      | IxExecutionId \<Rightarrow> x\<lparr>xt_execution_id := Some (bytes32_hex topic)\<rparr>
      | IxSeriesId \<Rightarrow> x\<lparr>xt_series_id := Some (bytes32_hex topic)\<rparr>
      | IxIntentHash \<Rightarrow> put ''intent_hash'' (JString (bytes32_hex topic)) x
      | IxActor \<Rightarrow> put ''actor'' (JString (topic_to_address_hex topic)) x
      | IxSkip \<Rightarrow> put (''indexed_slot_'' @ decimal i) (JString (bytes32_hex topic)) x)"

definition take_data :: "data_field \<Rightarrow> byte_array \<Rightarrow> extraction \<Rightarrow> extraction" where
  "take_data field w x =
     (case field of
        DfAddress name \<Rightarrow>
          (let y = put name (JString (word_to_address w)) x
           in if name = ''token'' then y\<lparr>xt_token := or_else (xt_token y) (word_to_address w)\<rparr> else y)
      | DfU256 name \<Rightarrow>
          (let y = put name (JString (u256_be_to_decimal w)) x
           in if name = ''series_id'' then y\<lparr>xt_series_id := or_else (xt_series_id y) (bytes32_hex w)\<rparr> else y)
      | DfI256 name \<Rightarrow> put name (JString (i256_be_to_decimal w)) x
      | DfU128 name \<Rightarrow> put name (JString (u256_be_to_decimal w)) x
      | DfU64 name \<Rightarrow> put name (JPosInt (read_u64_be (drop 24 w))) x
      | DfU32 name \<Rightarrow> put name (JPosInt (ucast (read_u32_be (drop 28 w)))) x
      | DfU16 name \<Rightarrow>
          (let n = of_nat (be_val [w ! 30, w ! 31]) :: u16
           in if name = ''_ev'' then x\<lparr>xt_event_version := n\<rparr> else put name (JPosInt (ucast n)) x)
      | DfU8 name \<Rightarrow> put name (JPosInt (ucast (w ! 31))) x
      | DfBool name \<Rightarrow> put name (JBool (w ! 31 \<noteq> 0)) x
      | DfBytes32 name \<Rightarrow>
          (let y = put name (JString (bytes32_hex w)) x
           in if name = ''buyer_order_hash'' then y\<lparr>xt_order_hash := or_else (xt_order_hash y) (bytes32_hex w)\<rparr> else y)
      | DfSkip \<Rightarrow> x)"

definition data_word :: "byte_array \<Rightarrow> nat \<Rightarrow> byte_array" where
  "data_word data i = take 32 (drop (i * 32) data)"

definition extract_fields :: "event_layout \<Rightarrow> canonical_raw_log \<Rightarrow> extraction" where
  "extract_fields layout log =
     fold (\<lambda>(i, field). take_data field (data_word (rl_data log) i)) (enumerate 0 (el_data layout))
       (fold (\<lambda>(i, field). take_indexed i field (rl_topics log ! (i + 1))) (enumerate 0 (el_indexed layout)) empty_extraction)"

definition rewrite_payload :: "event_kind \<Rightarrow> canonical_raw_log \<Rightarrow> extraction \<Rightarrow> extraction" where
  "rewrite_payload kind log x =
     (let topic = (\<lambda>i. JString (bytes32_hex (rl_topics log ! i)))
      in if kind = InternalTransfer \<or> kind = OptionPremiumTransferred then put ''to_subkey'' (topic 2) (put ''from_subkey'' (topic 1) x)
         else if kind = OptionFeeCharged then put ''fee_subkey'' (topic 2) x
         else if kind = OptionRebatePaid then put ''rebate_subkey'' (topic 2) x
         else if kind = OptionOrderPairExecuted then
           (let y = put ''buyer_subkey'' (topic 3) x
            in case bt_get (xt_payload y) ''series_id'' of Some s \<Rightarrow> put ''series_id_uint'' s y | None \<Rightarrow> y)
         else x)"

definition to_event :: "event_kind \<Rightarrow> extraction \<Rightarrow> hybrid_v2_event" where
  "to_event kind x =
     \<lparr> he_kind = kind, he_event_version = xt_event_version x, he_subkey = xt_subkey x, he_owner = xt_owner x,
       he_subaccount_id = xt_subaccount_id x, he_token = xt_token x, he_engine = xt_engine x,
       he_execution_id = xt_execution_id x, he_order_hash = xt_order_hash x, he_series_id = xt_series_id x,
       he_payload = JObject (xt_payload x) \<rparr>"

definition addr_eq :: "string \<Rightarrow> string \<Rightarrow> bool" where
  "addr_eq a b = (to_lowercase a = to_lowercase b)"

definition decode_log_with ::
  "topic_catalogue \<Rightarrow> canonical_raw_log \<Rightarrow> string option \<Rightarrow> u16 \<Rightarrow> decoder_error + hybrid_v2_event" where
  "decode_log_with cat log expected_emitter expected_event_version =
     (case rl_topics log of
        [] \<Rightarrow> Err NoTopics
      | topic0 # _ \<Rightarrow>
        and_then (ok_or (lookup_by_topic0 cat topic0) (UnknownTopic (''0x'' @ hex_lower topic0))) (\<lambda>entry.
        and_then (ok_or (event_kind_parse (te_event entry)) (UnimplementedForVariant (te_event entry))) (\<lambda>kind.
          if (case expected_emitter of Some exp \<Rightarrow> \<not> addr_eq exp (rl_emitter log) | None \<Rightarrow> False)
          then Err (WrongEmitter (te_event entry) (the expected_emitter) (rl_emitter log))
          else let layout = layout_for kind; indexed_actual = length (rl_topics log) - 1; min_bytes = length (el_data layout) * 32
            in if indexed_actual \<noteq> length (el_indexed layout)
               then Err (IndexedTopicCountMismatch (te_event entry) (length (el_indexed layout)) indexed_actual)
               else if length (rl_data log) < min_bytes then Err (DataTooShort (te_event entry) min_bytes (length (rl_data log)))
               else let x = rewrite_payload kind log (extract_fields layout log)
                 in if xt_event_version x \<noteq> expected_event_version
                    then Err (EventVersionMismatch (te_event entry) expected_event_version (xt_event_version x))
                    else Ok (to_event kind x))))"

definition decode_log :: "topic_catalogue \<Rightarrow> canonical_raw_log \<Rightarrow> decoder_error + hybrid_v2_event" where
  "decode_log cat log = decode_log_with cat log None CANONICAL_EVENT_VERSION"


section \<open>Packing\<close>

datatype pack_field =
    PkU256 string | PkI256 string | PkU128 string | PkU64 u64 | PkU32 u32 | PkU16 u16 | PkU8 "8 word"
  | PkBool bool | PkAddress string | PkBytes32 string

fun trim_0x :: "string \<Rightarrow> string" where
  "trim_0x (a # b # rest) = (if a = CHR ''0'' \<and> b = CHR ''x'' then trim_0x rest else a # b # rest)"
| "trim_0x s = s"

definition pad_hex :: "string \<Rightarrow> nat \<Rightarrow> string" where
  "pad_hex s width =
     (if length s \<ge> width then to_lowercase s else replicate (width - length s) (CHR ''0'') @ to_lowercase s)"

text \<open>The first bytes of a hexadecimal text; a pair that is not a number counts as zero.\<close>

fun hex_bytes :: "nat \<Rightarrow> string \<Rightarrow> byte_array" where
  "hex_bytes 0 s = []"
| "hex_bytes (Suc n) (a # b # rest) = (case byte_from_hex a b of Some x \<Rightarrow> x | None \<Rightarrow> 0) # hex_bytes n rest"
| "hex_bytes (Suc n) _ = 0 # hex_bytes n []"

primrec to_be_bytes :: "nat \<Rightarrow> nat \<Rightarrow> byte_array" where
  "to_be_bytes 0 n = []"
| "to_be_bytes (Suc k) n = to_be_bytes k (n div 256) @ [of_nat (n mod 256)]"

definition pack_dec_uint256 :: "string \<Rightarrow> byte_array" where
  "pack_dec_uint256 s =
     foldl (\<lambda>out ch. if is_ascii_digit ch then snd (times_ten_plus out (of_nat (of_char ch - 48))) else out) (replicate 32 0) s"

definition pack_dec_int256 :: "string \<Rightarrow> byte_array" where
  "pack_dec_int256 s =
     (case strip_prefix ''-'' s of
        Some digits \<Rightarrow> negate_bytes (pack_dec_uint256 digits)
      | None \<Rightarrow> pack_dec_uint256 s)"

definition pack_word :: "pack_field \<Rightarrow> byte_array" where
  "pack_word f =
     (case f of
        PkU256 dec \<Rightarrow> pack_dec_uint256 dec
      | PkI256 dec \<Rightarrow> pack_dec_int256 dec
      | PkU128 v \<Rightarrow> replicate 16 0 @ to_be_bytes 16 (case parse_unsigned (2 ^ 128) v of Some n \<Rightarrow> n | None \<Rightarrow> 0)
      | PkU64 v \<Rightarrow> replicate 24 0 @ to_be_bytes 8 (unat v)
      | PkU32 v \<Rightarrow> replicate 28 0 @ to_be_bytes 4 (unat v)
      | PkU16 v \<Rightarrow> replicate 30 0 @ to_be_bytes 2 (unat v)
      | PkU8 v \<Rightarrow> replicate 31 0 @ [v]
      | PkBool b \<Rightarrow> replicate 31 0 @ [if b then 1 else 0]
      | PkAddress addr \<Rightarrow> replicate 12 0 @ hex_bytes 20 (pad_hex (trim_0x addr) 40)
      | PkBytes32 hex \<Rightarrow> hex_bytes 32 (pad_hex (trim_0x hex) 64))"

definition pack_data :: "pack_field list \<Rightarrow> byte_array" where
  "pack_data fs = concat (map pack_word fs)"

text \<open>An odd number of data digits makes the slice go out of range.\<close>

fun hex_data :: "string \<Rightarrow> byte_array option" where
  "hex_data [] = Some []"
| "hex_data [a] = None"
| "hex_data (a # b # rest) = map_option (Cons (case byte_from_hex a b of Some x \<Rightarrow> x | None \<Rightarrow> 0)) (hex_data rest)"

definition build_raw_log :: "string \<Rightarrow> string list \<Rightarrow> string \<Rightarrow> canonical_raw_log option" where
  "build_raw_log emitter topics data_hex =
     map_option (\<lambda>data.
       \<lparr> rl_emitter = ''0x'' @ pad_hex (trim_0x emitter) 40,
         rl_topics = map (\<lambda>t. hex_bytes 32 (pad_hex (trim_0x t) 64)) topics,
         rl_data = data \<rparr>) (hex_data (trim_0x data_hex))"

end
