(* ===== verification/Decoder_Props.thy ===== *)
theory Decoder_Props
  imports Decoder
begin

text \<open>
  What the decoder of \<^verbatim>\<open>src/hybrid_v2/decoder.rs\<close> returns: the numbers of a word, the fields of a payload,
  and the logs that are accepted.
\<close>

unbundle bit_operations_syntax


section \<open>Numbers\<close>

lemma u256_bytes_printed: "length bs = 32 \<Longrightarrow> u256_bytes_to_decimal bs = decimal (be_val bs)"
  using printed [of bs] unfolding u256_bytes_to_decimal_def u256_be_to_decimal_public_def .

lemma pad32_full [simp]: "length bs = 32 \<Longrightarrow> pad32 bs = bs"
  by (simp add: pad32_def Let_def)

lemma u256_printed: "length bs = 32 \<Longrightarrow> u256_be_to_decimal bs = decimal (be_val bs)"
  by (simp add: u256_be_to_decimal_def u256_bytes_printed)

lemma unat_not_byte: "unat (NOT (b :: 8 word)) = 255 - unat b"
proof -
  have "NOT b = 255 - b" by (simp add: minus_eq_not_minus_1 [symmetric] not_eq_complement)
  moreover have "b \<le> 255" using unat_byte [of b] by (simp add: word_le_nat_alt del: unat_byte)
  ultimately show ?thesis by (simp add: unat_sub)
qed

lemma be_val_not: "be_val (map (\<lambda>b. NOT b) bs) + be_val bs + 1 = 256 ^ length bs"
proof (induction bs)
  case (Cons b bs)
  have "unat b \<le> 255" using unat_byte [of b] by linarith
  then have "(255 - unat b) * 256 ^ length bs + unat b * 256 ^ length bs = 255 * 256 ^ length bs"
    by (simp add: distrib_right [symmetric])
  then show ?case using Cons by (simp add: unat_not_byte)
qed simp

lemma inc_bytes_value:
  "inc_bytes bs = (c, out) \<Longrightarrow> length out = length bs \<and> unat c \<le> 1 \<and> unat c * 256 ^ length bs + be_val out = be_val bs + 1"
proof (induction bs arbitrary: c out)
  case (Cons b bs)
  obtain c0 out0 where r: "inc_bytes bs = (c0, out0)" by fastforce
  note ih = Cons.IH [OF r]
  let ?s = "ucast b + c0 :: u16"
  have s: "unat ?s = unat b + unat c0" using ih unat_byte [of b] by (simp add: unat_word_ariths del: unat_byte)
  have split: "unat ?s div 256 * (256 * k) + unat ?s mod 256 * k = unat ?s * k" for k :: nat by (rule split_byte)
  have c: "c = drop_bit 8 ?s" "out = ucast (?s AND 255) # out0" using Cons.prems r by (simp_all add: Let_def)
  have "unat ?s div 256 \<le> 1" using s ih unat_byte [of b] by linarith
  moreover have "unat ?s * 256 ^ length bs + be_val out0 = unat b * 256 ^ length bs + (be_val bs + 1)"
    using ih by (simp add: s distrib_right)
  ultimately show ?case using ih split [of "256 ^ length bs"] by (simp add: c byte_of_u16 del: unat_low_byte)
qed simp

lemma negate_value:
  assumes "0 < be_val bs"
  shows "length (negate_bytes bs) = length bs" "be_val (negate_bytes bs) = 256 ^ length bs - be_val bs"
proof -
  obtain c out where r: "inc_bytes (map (\<lambda>b. NOT b) bs) = (c, out)" by fastforce
  note v = inc_bytes_value [OF r, simplified]
  have l: "be_val out < 256 ^ length bs" using v be_val_less [of out] by simp
  have "be_val (map (\<lambda>b. NOT b) bs) + 1 < 256 ^ length bs" using be_val_not [of bs] assms by simp
  then have "c = 0" using v by (cases "unat c") (auto simp: unat_eq_0)
  then show "length (negate_bytes bs) = length bs" "be_val (negate_bytes bs) = 256 ^ length bs - be_val bs"
    using v r be_val_not [of bs] by (simp_all add: negate_bytes_def)
qed

text \<open>The number that 32 bytes stand for in two's complement.\<close>

definition signed_val :: "byte_array \<Rightarrow> int" where
  "signed_val bs = (if be_val bs < 2 ^ 255 then int (be_val bs) else int (be_val bs) - 2 ^ 256)"

lemma top_bit: "(b :: 8 word) AND 128 = 0 \<longleftrightarrow> unat b < 128"
proof -
  have "b AND 128 = 0 \<longleftrightarrow> \<not> bit b 7"
    using and_exp_eq_0_iff_not_bit [of b 7] by simp
  also have "\<dots> \<longleftrightarrow> unat b < 128"
  proof -
    have "bit b 7 \<longleftrightarrow> bit (unat b) 7" by (simp add: bit_unsigned_iff)
    then have "bit b 7 \<longleftrightarrow> odd (unat b div 128)" by (simp add: bit_iff_odd)
    moreover have "unat b div 128 \<in> {0, 1}" using unat_byte [of b] by (simp del: unat_byte) linarith
    ultimately show ?thesis by (auto simp: div_eq_0_iff)
  qed
  finally show ?thesis .
qed


lemma be_val_split: "length bs = 32 \<Longrightarrow> be_val bs = unat (bs ! 0) * 2 ^ 248 + be_val (tl bs) \<and> be_val (tl bs) < 2 ^ 248"
proof -
  assume l: "length bs = 32"
  then obtain b bs' where b: "bs = b # bs'" "length bs' = 31" by (cases bs) auto
  then show ?thesis using be_val_less [of bs'] by simp
qed

lemma sign_bit: "length bs = 32 \<Longrightarrow> (bs ! 0) AND 128 = 0 \<longleftrightarrow> be_val bs < 2 ^ 255"
  using be_val_split [of bs] unfolding top_bit by (simp add: linorder_not_less [symmetric]) linarith

lemma i256_printed:
  assumes "length bs = 32"
  shows "i256_be_to_decimal bs = decimal_int (signed_val bs)"
proof (cases "be_val bs < 2 ^ 255")
  case True
  then show ?thesis
    using assms sign_bit [of bs] u256_bytes_printed [of bs]
    by (simp add: i256_be_to_decimal_def signed_val_def decimal_int_def)
next
  case False
  then have p: "0 < be_val bs" by (cases "be_val bs = 0") simp_all
  note v = negate_value [OF p]
  have lt: "be_val bs < 2 ^ 256" using be_val_less [of bs] assms by simp
  have "nat (- (int (be_val bs) - 2 ^ 256)) = 2 ^ 256 - be_val bs"
    using lt by (simp add: nat_diff_distrib')
  then show ?thesis
    using False assms sign_bit [of bs] u256_bytes_printed [of "negate_bytes bs"] v lt
    by (simp add: i256_be_to_decimal_def signed_val_def decimal_int_def Let_def)
qed


section \<open>Packed words\<close>

lemma pack_digits: "snd (parse_digits out s) \<Longrightarrow>
    foldl (\<lambda>out ch. if is_ascii_digit ch then snd (times_ten_plus out (of_nat (of_char ch - 48))) else out) out s = fst (parse_digits out s)"
  by (induction s arbitrary: out) (auto split: prod.splits if_splits)

lemma packed_decimal:
  assumes "n < 2 ^ 256"
  shows "length (pack_dec_uint256 (decimal n)) = 32" "be_val (pack_dec_uint256 (decimal n)) = n"
proof -
  have "parsed_as (parse_digits (replicate 32 0) (decimal n)) (Some n)"
    using parse_digits_value [of "replicate 32 0" "decimal n"] decimal_digit_text [of n] assms by simp
  then show "length (pack_dec_uint256 (decimal n)) = 32" "be_val (pack_dec_uint256 (decimal n)) = n"
    unfolding parsed_as_def pack_dec_uint256_def using pack_digits [of "replicate 32 0" "decimal n"] by auto
qed

lemma length_to_be_bytes [simp]: "length (to_be_bytes k n) = k"
  by (induction k arbitrary: n) simp_all

lemma be_val_to_be_bytes [simp]: "be_val (to_be_bytes k n) = n mod 256 ^ k"
proof (induction k arbitrary: n)
  case (Suc k)
  have "n mod (256 * 256 ^ k) = 256 * (n div 256 mod 256 ^ k) + n mod 256" by (rule mod_mult2_eq)
  moreover have "unat (of_nat (n mod 256) :: 8 word) = n mod 256" by (simp add: unat_of_nat)
  ultimately show ?case by (simp add: be_val_append Suc)
qed simp

lemma decimal_nonempty: "decimal n \<noteq> []"
  by (subst decimal.simps) simp

lemma packed_int:
  assumes "- (2 ^ 255) \<le> z" "z < 2 ^ 255"
  shows "length (pack_dec_int256 (decimal_int z)) = 32" "signed_val (pack_dec_int256 (decimal_int z)) = z"
proof -
  let ?w = "pack_dec_int256 (decimal_int z)"
  have "length ?w = 32 \<and> signed_val ?w = z"
  proof (cases "z < 0")
    case True
    let ?n = "nat (- z)"
    have n: "0 < ?n" "?n \<le> 2 ^ 255" using assms True by (simp_all add: nat_le_iff)
    have m: "?n < 2 ^ 256" by (rule order_le_less_trans [OF n(2)]) simp
    have "?w = negate_bytes (pack_dec_uint256 (decimal ?n))"
      using True by (simp add: pack_dec_int256_def decimal_int_def strip_prefix_def)
    moreover note packed_decimal [OF m] negate_value [of "pack_dec_uint256 (decimal ?n)"] n
    ultimately have v: "length ?w = 32" "be_val ?w = 2 ^ 256 - ?n" by simp_all
    have "int (be_val ?w) = 2 ^ 256 + z" using v m True by (simp add: of_nat_diff)
    moreover have "(2 :: int) ^ 256 = 2 * 2 ^ 255" by simp
    ultimately have "2 ^ 255 \<le> int (be_val ?w)" using assms(1) by linarith
    then have "\<not> be_val ?w < 2 ^ 255" by (metis of_nat_le_iff of_nat_numeral of_nat_power linorder_not_less)
    then show ?thesis using v(1) \<open>int (be_val ?w) = 2 ^ 256 + z\<close> by (simp add: signed_val_def)
  next
    case False
    then have m: "nat z < 2 ^ 255" using assms by (simp add: nat_less_iff)
    then have m2: "nat z < 2 ^ 256" by (rule order_less_trans) simp
    obtain c s where d: "decimal (nat z) = c # s" "is_ascii_digit c"
      using decimal_digit_text [of "nat z"] by (cases "decimal (nat z)") (auto simp: decimal_nonempty)
    then have "strip_prefix ''-'' (decimal (nat z)) = None" by (auto simp: strip_prefix_def is_ascii_digit_def Let_def)
    then have "?w = pack_dec_uint256 (decimal (nat z))" using False by (simp add: pack_dec_int256_def decimal_int_def)
    then show ?thesis using packed_decimal [OF m2] m False by (simp add: signed_val_def)
  qed
  then show "length ?w = 32" "signed_val ?w = z" by auto
qed


lemma hex_digit_facts:
  assumes "n < (16 :: 8 word)"
  shows "hex_digit n \<noteq> CHR ''+'' \<and> hex_digit n \<noteq> CHR ''x'' \<and> lower_char (hex_digit n) = hex_digit n"
proof -
  have "unat n < 16" using assms by (simp add: word_less_nat_alt)
  then have "unat n \<in> set [0 ..< 16]" by simp
  moreover have "list_all (\<lambda>i. ''0123456789abcdef'' ! i \<noteq> CHR ''+'' \<and> ''0123456789abcdef'' ! i \<noteq> CHR ''x'' \<and>
      lower_char (''0123456789abcdef'' ! i) = ''0123456789abcdef'' ! i) [0 ..< 16]" by code_simp
  ultimately show ?thesis by (auto simp: hex_digit_def list_all_iff)
qed

lemma byte_from_hex_lower: "byte_from_hex (hex_digit (drop_bit 4 b)) (hex_digit (b AND 15)) = Some b"
proof -
  have "b AND 15 = b mod 16" using take_bit_eq_mask [of 4 b] take_bit_eq_mod [of 4 b] by (simp add: mask_eq_exp_minus_1)
  moreover have "drop_bit 4 b = b div 16" by (simp add: drop_bit_eq_div)
  ultimately have "drop_bit 4 b * 16 + (b AND 15) = b" by (simp add: word_mod_div_equality)
  then show ?thesis
    using hex_digit_facts [OF nibbles_of_byte(1)] decode_hex_digit(1) [OF nibbles_of_byte(1)] decode_hex_digit(1) [OF nibbles_of_byte(2)]
    by (simp add: byte_from_hex_def)
qed

lemma length_hex_lower [simp]: "length (hex_lower bs) = 2 * length bs"
  by (induction bs) (simp_all add: hex_lower_def)

lemma hex_lower_Cons: "hex_lower (b # bs) = hex_digit (drop_bit 4 b) # hex_digit (b AND 15) # hex_lower bs"
  by (simp add: hex_lower_def)

lemma hex_bytes_lower: "hex_bytes (length bs) (hex_lower bs) = bs"
  by (induction bs) (simp_all add: hex_lower_Cons byte_from_hex_lower)

lemma lowercase_hex: "to_lowercase (hex_lower bs) = hex_lower bs"
  using hex_digit_facts nibbles_of_byte(1,2) by (induction bs) (simp_all add: hex_lower_Cons to_lowercase_def, simp add: hex_lower_def)

lemma trim_hex: "trim_0x (''0x'' @ hex_lower bs) = hex_lower bs"
  using hex_digit_facts nibbles_of_byte(1,2) by (cases bs) (simp_all add: hex_lower_Cons, simp add: hex_lower_def)

lemma packed_hex: "2 * length bs = n \<Longrightarrow> hex_bytes (length bs) (pad_hex (trim_0x (''0x'' @ hex_lower bs)) n) = bs"
  by (simp only: trim_hex) (simp add: pad_hex_def lowercase_hex hex_bytes_lower)

lemma length_hex_bytes [simp]: "length (hex_bytes n s) = n"
  by (induction n s rule: hex_bytes.induct) simp_all



section \<open>Payload fields\<close>

text \<open>The key that a data word is stored under, and the value it has there.\<close>

definition field_name :: "data_field \<Rightarrow> string option" where
  "field_name f =
     (case f of
        DfAddress n \<Rightarrow> Some n | DfU256 n \<Rightarrow> Some n | DfI256 n \<Rightarrow> Some n | DfU128 n \<Rightarrow> Some n | DfU64 n \<Rightarrow> Some n
      | DfU32 n \<Rightarrow> Some n | DfU16 n \<Rightarrow> if n = ''_ev'' then None else Some n | DfU8 n \<Rightarrow> Some n | DfBool n \<Rightarrow> Some n
      | DfBytes32 n \<Rightarrow> Some n | DfSkip \<Rightarrow> None)"

definition low_u16 :: "byte_array \<Rightarrow> u16" where
  "low_u16 w = of_nat (be_val [w ! 30, w ! 31])"

definition field_json :: "data_field \<Rightarrow> byte_array \<Rightarrow> json_value" where
  "field_json f w =
     (case f of
        DfAddress _ \<Rightarrow> JString (word_to_address w) | DfU256 _ \<Rightarrow> JString (u256_be_to_decimal w)
      | DfI256 _ \<Rightarrow> JString (i256_be_to_decimal w) | DfU128 _ \<Rightarrow> JString (u256_be_to_decimal w)
      | DfU64 _ \<Rightarrow> JPosInt (read_u64_be (drop 24 w)) | DfU32 _ \<Rightarrow> JPosInt (ucast (read_u32_be (drop 28 w)))
      | DfU16 _ \<Rightarrow> JPosInt (ucast (low_u16 w)) | DfU8 _ \<Rightarrow> JPosInt (ucast (w ! 31)) | DfBool _ \<Rightarrow> JBool (w ! 31 \<noteq> 0)
      | DfBytes32 _ \<Rightarrow> JString (bytes32_hex w) | DfSkip \<Rightarrow> JNull)"

definition take_words :: "(nat \<Rightarrow> byte_array) \<Rightarrow> nat \<Rightarrow> data_field list \<Rightarrow> extraction \<Rightarrow> extraction" where
  "take_words g k fs x = fold (\<lambda>(i, f). take_data f (g i)) (enumerate k fs) x"

definition take_topics :: "event_layout \<Rightarrow> canonical_raw_log \<Rightarrow> extraction" where
  "take_topics layout log =
     fold (\<lambda>(i, field). take_indexed i field (rl_topics log ! (i + 1))) (enumerate 0 (el_indexed layout)) empty_extraction"

lemma extract_fields_split:
  "extract_fields layout log = take_words (data_word (rl_data log)) 0 (el_data layout) (take_topics layout log)"
  by (simp add: extract_fields_def take_words_def take_topics_def)

lemma take_words_simps [simp]:
  "take_words g k [] x = x"
  "take_words g k (f # fs) x = take_words g (Suc k) fs (take_data f (g k) x)"
  by (simp_all add: take_words_def)

lemma take_words_snoc: "take_words g k (fs @ [f]) x = take_data f (g (k + length fs)) (take_words g k fs x)"
  by (induction fs arbitrary: k x) simp_all

lemma take_data_payload:
  "xt_payload (take_data f w x) =
     (case field_name f of Some n \<Rightarrow> bt_insert n (field_json f w) (xt_payload x) | None \<Rightarrow> xt_payload x)"
  by (cases f) (simp_all add: take_data_def field_name_def field_json_def put_def low_u16_def Let_def)

lemma take_data_keeps [simp]:
  "xt_subkey (take_data f w x) = xt_subkey x" "xt_owner (take_data f w x) = xt_owner x"
  "xt_subaccount_id (take_data f w x) = xt_subaccount_id x" "xt_engine (take_data f w x) = xt_engine x"
  "xt_execution_id (take_data f w x) = xt_execution_id x"
  by (cases f; simp add: take_data_def put_def Let_def)+

lemma take_words_keeps [simp]:
  "xt_subkey (take_words g k fs x) = xt_subkey x" "xt_owner (take_words g k fs x) = xt_owner x"
  "xt_subaccount_id (take_words g k fs x) = xt_subaccount_id x" "xt_engine (take_words g k fs x) = xt_engine x"
  "xt_execution_id (take_words g k fs x) = xt_execution_id x"
  by (induction fs arbitrary: k x) simp_all

lemma take_data_found:
  "xt_token x = Some t \<Longrightarrow> xt_token (take_data f w x) = Some t"
  "xt_order_hash x = Some h \<Longrightarrow> xt_order_hash (take_data f w x) = Some h"
  "xt_series_id x = Some h \<Longrightarrow> xt_series_id (take_data f w x) = Some h"
  by (cases f; simp add: take_data_def put_def Let_def or_else_def)+

lemma take_words_found:
  "xt_token x = Some t \<Longrightarrow> xt_token (take_words g k fs x) = Some t"
  "xt_order_hash x = Some h \<Longrightarrow> xt_order_hash (take_words g k fs x) = Some h"
  "xt_series_id x = Some h \<Longrightarrow> xt_series_id (take_words g k fs x) = Some h"
  by (induction fs arbitrary: k x) (simp_all add: take_data_found)

lemma take_words_ok: "bt_ok (xt_payload x) \<Longrightarrow> bt_ok (xt_payload (take_words g k fs x))"
  by (induction fs arbitrary: k x) (simp_all add: take_data_payload split: option.splits)

lemma take_indexed_ok: "bt_ok (xt_payload x) \<Longrightarrow> bt_ok (xt_payload (take_indexed i f t x))"
  by (cases f) (simp_all add: take_indexed_def put_def)

lemma take_topics_ok: "bt_ok (xt_payload (take_topics layout log))"
proof -
  have "bt_ok (xt_payload x) \<Longrightarrow> bt_ok (xt_payload (fold (\<lambda>(i, f). take_indexed i f (g i)) (enumerate k fs) x))" for g k fs x
    by (induction fs arbitrary: k x) (simp_all add: take_indexed_ok)
  then show ?thesis unfolding take_topics_def by (simp add: empty_extraction_def)
qed

lemma other_field: "bt_ok (xt_payload x) \<Longrightarrow> Some n \<notin> field_name ` set fs \<Longrightarrow>
    bt_get (xt_payload (take_words g k fs x)) n = bt_get (xt_payload x) n"
  by (induction fs arbitrary: k x) (auto simp: take_data_payload split: option.splits)

text \<open>No two words of a layout share a key.\<close>

definition names_ok :: "data_field list \<Rightarrow> bool" where
  "names_ok fs = distinct (filter (\<lambda>n. n \<noteq> None) (map field_name fs))"

lemma stored_field:
  "bt_ok (xt_payload x) \<Longrightarrow> names_ok fs \<Longrightarrow> i < length fs \<Longrightarrow> field_name (fs ! i) = Some n \<Longrightarrow>
   bt_get (xt_payload (take_words g k fs x)) n = Some (field_json (fs ! i) (g (k + i)))"
proof (induction fs arbitrary: k x i)
  case (Cons f fs)
  have ok: "bt_ok (xt_payload (take_data f (g k) x))" using Cons.prems(1) by (simp add: take_data_payload split: option.splits)
  have names: "names_ok fs" using Cons.prems(2) by (auto simp: names_ok_def split: if_splits)
  show ?case
  proof (cases i)
    case 0
    then have "Some n \<notin> field_name ` set fs" using Cons.prems by (auto simp: names_ok_def)
    then show ?thesis using 0 Cons.prems other_field [OF ok] by (simp add: take_data_payload)
  next
    case (Suc j)
    then show ?thesis using Cons.IH [OF ok names, of j "Suc k"] Cons.prems by simp
  qed
qed simp


text \<open>Every layout ends with the version, names its words differently and leaves the rewritten keys alone.\<close>

definition rewritten_keys :: "string list" where
  "rewritten_keys = [''from_subkey'', ''to_subkey'', ''fee_subkey'', ''rebate_subkey'', ''buyer_subkey'', ''series_id_uint'']"

definition layout_ok :: "event_layout \<Rightarrow> bool" where
  "layout_ok l \<longleftrightarrow> names_ok (el_data l) \<and> el_data l \<noteq> [] \<and> last (el_data l) = DfU16 ''_ev''
     \<and> list_all (\<lambda>f. \<forall>n \<in> set rewritten_keys. field_name f \<noteq> Some n) (el_data l)"

lemma layouts_ok: "layout_ok (layout_for k)"
proof -
  have "list_all (\<lambda>k. layout_ok (layout_for k)) event_kind_all" by code_simp
  then show ?thesis using event_kind_all_complete [of k] by (simp add: list_all_iff)
qed

lemma rewrite_keeps [simp]:
  "xt_subkey (rewrite_payload k log x) = xt_subkey x" "xt_owner (rewrite_payload k log x) = xt_owner x"
  "xt_subaccount_id (rewrite_payload k log x) = xt_subaccount_id x" "xt_token (rewrite_payload k log x) = xt_token x"
  "xt_engine (rewrite_payload k log x) = xt_engine x" "xt_execution_id (rewrite_payload k log x) = xt_execution_id x"
  "xt_order_hash (rewrite_payload k log x) = xt_order_hash x" "xt_series_id (rewrite_payload k log x) = xt_series_id x"
  "xt_event_version (rewrite_payload k log x) = xt_event_version x"
  by (simp_all add: rewrite_payload_def Let_def put_def split: option.splits)

lemma rewrite_other:
  "bt_ok (xt_payload x) \<Longrightarrow> n \<notin> set rewritten_keys \<Longrightarrow> bt_get (xt_payload (rewrite_payload k log x)) n = bt_get (xt_payload x) n"
  by (simp add: rewrite_payload_def rewritten_keys_def Let_def put_def split: option.splits)

lemma version_word:
  "xt_event_version (extract_fields (layout_for k) log) =
     low_u16 (data_word (rl_data log) (length (el_data (layout_for k)) - 1))"
proof -
  let ?fs = "el_data (layout_for k)"
  have "?fs = butlast ?fs @ [DfU16 ''_ev'']" using layouts_ok [of k] by (metis append_butlast_last_id layout_ok_def)
  then obtain fs where fs: "?fs = fs @ [DfU16 ''_ev'']" by blast
  show ?thesis unfolding extract_fields_split fs take_words_snoc by (simp add: take_data_def low_u16_def Let_def)
qed

definition decoded :: "event_kind \<Rightarrow> canonical_raw_log \<Rightarrow> hybrid_v2_event" where
  "decoded k log = to_event k (rewrite_payload k log (extract_fields (layout_for k) log))"

text \<open>The shape a log must have for its kind.\<close>

definition log_fits :: "event_kind \<Rightarrow> u16 \<Rightarrow> canonical_raw_log \<Rightarrow> bool" where
  "log_fits k v log \<longleftrightarrow>
     length (rl_topics log) = Suc (length (el_indexed (layout_for k)))
     \<and> length (el_data (layout_for k)) * 32 \<le> length (rl_data log)
     \<and> low_u16 (data_word (rl_data log) (length (el_data (layout_for k)) - 1)) = v"

lemma decode_Ok_iff:
  "decode_log_with cat log em v = Ok e \<longleftrightarrow>
     (\<exists>entry k. rl_topics log \<noteq> [] \<and> lookup_by_topic0 cat (hd (rl_topics log)) = Some entry \<and> event_kind_parse (te_event entry) = Some k
        \<and> (\<forall>x. em = Some x \<longrightarrow> addr_eq x (rl_emitter log)) \<and> log_fits k v log \<and> e = decoded k log)"
  by (cases "rl_topics log"; cases em)
    (auto simp: decode_log_with_def and_then_def ok_or_def Let_def log_fits_def decoded_def version_word not_less
       split: option.splits sum.splits if_splits)

lemma decoded_kind [simp]: "he_kind (decoded k log) = k"
  by (simp add: decoded_def to_event_def)

lemma decoded_field:
  assumes "i < length (el_data (layout_for k))" "field_name (el_data (layout_for k) ! i) = Some n"
  shows "json_get (he_payload (decoded k log)) n = Some (field_json (el_data (layout_for k) ! i) (data_word (rl_data log) i))"
proof -
  let ?x = "extract_fields (layout_for k) log"
  have ok: "bt_ok (xt_payload ?x)" unfolding extract_fields_split by (rule take_words_ok [OF take_topics_ok])
  have "\<forall>m \<in> set rewritten_keys. field_name (el_data (layout_for k) ! i) \<noteq> Some m"
    using layouts_ok [of k] assms(1) unfolding layout_ok_def list_all_length by blast
  then have "n \<notin> set rewritten_keys" using assms(2) by blast
  then have "bt_get (xt_payload (rewrite_payload k log ?x)) n = bt_get (xt_payload ?x) n" by (rule rewrite_other [OF ok])
  moreover have "bt_get (xt_payload ?x) n = Some (field_json (el_data (layout_for k) ! i) (data_word (rl_data log) (0 + i)))"
    unfolding extract_fields_split by (rule stored_field [OF take_topics_ok _ assms]) (use layouts_ok [of k] in \<open>simp add: layout_ok_def\<close>)
  ultimately show ?thesis by (simp add: decoded_def to_event_def json_get_def bt_get_def)
qed



section \<open>The pinned catalogue\<close>

definition hex_chars :: string where
  "hex_chars = ''0123456789abcdef''"

lemma byte_of_digits:
  assumes "a \<in> set hex_chars" "b \<in> set hex_chars"
  shows "\<exists>x. byte_from_hex a b = Some x \<and> hex_lower [x] = [a, b]"
proof -
  have "list_all (\<lambda>a. list_all (\<lambda>b. case byte_from_hex a b of Some x \<Rightarrow> hex_lower [x] = [a, b] | None \<Rightarrow> False)
      hex_chars) hex_chars" by code_simp
  then have "case byte_from_hex a b of Some x \<Rightarrow> hex_lower [x] = [a, b] | None \<Rightarrow> False"
    using assms unfolding list_all_iff by blast
  then show ?thesis by (auto split: option.splits)
qed

lemma bytes_of_digits:
  "list_all (\<lambda>c. c \<in> set hex_chars) s \<Longrightarrow> even (length s) \<Longrightarrow> \<exists>bs. bytes_from_hex s = Some bs \<and> hex_lower bs = s"
proof (induction s rule: bytes_from_hex.induct)
  case (1 a b rest)
  obtain x where x: "byte_from_hex a b = Some x" "hex_lower [x] = [a, b]" using byte_of_digits [of a b] 1 by auto
  then obtain bs where bs: "bytes_from_hex rest = Some bs" "hex_lower bs = rest" using 1 by auto
  have "hex_lower (x # bs) = hex_lower [x] @ hex_lower bs" by (simp add: hex_lower_def)
  then show ?case using bs x by simp
qed (simp_all add: hex_lower_def)

definition lower_topic :: "string \<Rightarrow> bool" where
  "lower_topic s \<longleftrightarrow> take 2 s = ''0x'' \<and> length s = 66 \<and> list_all (\<lambda>c. c \<in> set hex_chars) (drop 2 s)"

lemma parse_lower_topic:
  assumes "lower_topic s"
  shows "\<exists>bs. parse_hex32 s = Some bs \<and> bytes32_hex bs = s"
proof -
  obtain h where h: "s = ''0x'' @ h" using assms by (metis append_take_drop_id lower_topic_def)
  then have d: "length h = 64" "list_all (\<lambda>c. c \<in> set hex_chars) h" using assms by (simp_all add: lower_topic_def)
  then obtain bs where "bytes_from_hex h = Some bs" "hex_lower bs = h" using bytes_of_digits [of h] by auto
  then show ?thesis using h d by (simp add: parse_hex32_def strip_prefix_def bytes32_hex_def)
qed

lemma pinned_topics_lower: "list_all (\<lambda>row. lower_topic (tr_topic0 row)) event_topics_v1"
  by code_simp

lemma pinned_topics_distinct: "distinct (map tr_topic0 event_topics_v1)"
  by code_simp

lemma pinned_events: "map tr_event event_topics_v1 = map event_kind_as_str event_kind_all"
  by code_simp

text \<open>The Solidity types of a layout and of a signature.\<close>

primrec indexed_type :: "indexed_field \<Rightarrow> string list" where
  "indexed_type IxSubKey = [''bytes32'']"
| "indexed_type IxOtherSubKey = [''bytes32'']"
| "indexed_type IxOwner = [''address'']"
| "indexed_type IxSubaccountId = [''uint32'']"
| "indexed_type IxToken = [''address'']"
| "indexed_type IxEngine = [''address'']"
| "indexed_type IxOrderHash = [''bytes32'']"
| "indexed_type IxExecutionId = [''bytes32'']"
| "indexed_type IxSeriesId = [''bytes32'', ''uint256'']"
| "indexed_type IxIntentHash = [''bytes32'']"
| "indexed_type IxActor = [''address'']"
| "indexed_type IxSkip = [''bytes32'', ''address'']"

primrec data_type :: "data_field \<Rightarrow> string list" where
  "data_type (DfAddress n) = [''address'']"
| "data_type (DfU256 n) = [''uint256'']"
| "data_type (DfI256 n) = [''int256'', ''int128'']"
| "data_type (DfU128 n) = [''uint128'']"
| "data_type (DfU64 n) = [''uint64'']"
| "data_type (DfU32 n) = [''uint32'']"
| "data_type (DfU16 n) = [''uint16'']"
| "data_type (DfU8 n) = [''uint8'']"
| "data_type (DfBool n) = [''bool'']"
| "data_type (DfBytes32 n) = [''bytes32'']"
| "data_type DfSkip = [''string'', ''bytes'']"

fun split_commas :: "string \<Rightarrow> string list" where
  "split_commas [] = [[]]"
| "split_commas (c # cs) =
     (if c = CHR '','' then [] # split_commas cs else (case split_commas cs of s # ss \<Rightarrow> (c # s) # ss | [] \<Rightarrow> [[c]]))"

definition signature_types :: "string \<Rightarrow> string list" where
  "signature_types sig = split_commas (takeWhile (\<lambda>c. c \<noteq> CHR '')'') (tl (dropWhile (\<lambda>c. c \<noteq> CHR ''('') sig)))"

definition signature_fits :: "string \<Rightarrow> event_kind \<Rightarrow> bool" where
  "signature_fits sig k \<longleftrightarrow> takeWhile (\<lambda>c. c \<noteq> CHR ''('') sig = event_kind_as_str k
     \<and> list_all2 (\<lambda>t ts. t \<in> set ts) (signature_types sig)
         (map indexed_type (el_indexed (layout_for k)) @ map data_type (el_data (layout_for k)))"

lemma pinned_signatures:
  "list_all2 (\<lambda>row k. signature_fits (tr_signature row) k) event_topics_v1 event_kind_all"
  by code_simp


text \<open>The loaded catalogue, as a list: a row, its topic and its kind belong together.\<close>

lemma pinned_load:
  obtains cat where "load_catalogue 1 event_topics_v1 = Some cat" "catalogue_ok cat"
    "tc_entries cat = map (\<lambda>row. entry_of row (the (parse_hex32 (tr_topic0 row)))) event_topics_v1"
proof -
  have "list_all (\<lambda>row. parse_hex32 (tr_topic0 row) \<noteq> None) event_topics_v1"
    using pinned_topics_lower parse_lower_topic unfolding list_all_iff by fastforce
  then obtain cat where c: "load_catalogue 1 event_topics_v1 = Some cat"
    unfolding load_catalogue_def using load_rows_total by blast
  moreover have "tc_entries cat = map (\<lambda>row. entry_of row (the (parse_hex32 (tr_topic0 row)))) event_topics_v1"
    using load_rows_entries [OF c [unfolded load_catalogue_def]] by simp
  ultimately show ?thesis using load_ok that by blast
qed

lemma pinned_entries_distinct:
  assumes "tc_entries cat = map (\<lambda>row. entry_of row (the (parse_hex32 (tr_topic0 row)))) event_topics_v1"
  shows "distinct (map te_topic0 (tc_entries cat))" "distinct (map te_event (tc_entries cat))"
proof -
  have h: "map (\<lambda>row. bytes32_hex (the (parse_hex32 (tr_topic0 row)))) event_topics_v1 = map tr_topic0 event_topics_v1"
    using pinned_topics_lower parse_lower_topic unfolding list_all_iff by fastforce
  have "map bytes32_hex (map te_topic0 (tc_entries cat)) = map tr_topic0 event_topics_v1"
    unfolding h [symmetric] assms by (simp add: entry_of_def comp_def)
  then show "distinct (map te_topic0 (tc_entries cat))" using pinned_topics_distinct by (metis distinct_map)
  have "map te_event (tc_entries cat) = map event_kind_as_str event_kind_all"
    unfolding assms pinned_events [symmetric] by (simp add: entry_of_def comp_def)
  then show "distinct (map te_event (tc_entries cat))" using event_kinds_distinct by metis
qed

lemma kind_row:
  obtains row where "row \<in> set event_topics_v1" "tr_event row = event_kind_as_str k" "signature_fits (tr_signature row) k"
proof -
  obtain i where i: "i < length event_kind_all" "event_kind_all ! i = k"
    using event_kind_all_complete [of k] by (metis in_set_conv_nth)
  have l: "length event_topics_v1 = length event_kind_all" using pinned_signatures by (rule list_all2_lengthD)
  have "signature_fits (tr_signature (event_topics_v1 ! i)) k" using list_all2_nthD2 [OF pinned_signatures i(1)] i(2) by simp
  moreover have "tr_event (event_topics_v1 ! i) = event_kind_as_str k" using pinned_events i l by (metis nth_map)
  ultimately show ?thesis using that [of "event_topics_v1 ! i"] i l by simp
qed

lemma row_kind: "row \<in> set event_topics_v1 \<Longrightarrow> \<exists>k. tr_event row = event_kind_as_str k"
proof -
  assume "row \<in> set event_topics_v1"
  then have "tr_event row \<in> set (map tr_event event_topics_v1)" by simp
  then show ?thesis unfolding pinned_events by auto
qed

text \<open>
  C39: The pinned topic file loads.  In the catalogue every kind of event is found by its name and by
  its topic, with a signature whose types are those of the layout the decoder uses for the kind; and
  a topic that is found belongs to a kind the decoder knows.
\<close>

theorem pinned_catalogue_exact:
  "\<exists>cat. load_catalogue 1 event_topics_v1 = Some cat
     \<and> (\<forall>k. \<exists>entry. lookup_by_event cat (event_kind_as_str k) = Some entry \<and> lookup_by_topic0 cat (te_topic0 entry) = Some entry
              \<and> signature_fits (te_signature entry) k \<and> parse_hex32 (te_topic0_hex_lower entry) = Some (te_topic0 entry))
     \<and> (\<forall>t entry. lookup_by_topic0 cat t = Some entry \<longrightarrow>
              te_topic0 entry = t \<and> (\<exists>k. event_kind_parse (te_event entry) = Some k \<and> lookup_by_event cat (event_kind_as_str k) = Some entry))"
proof -
  obtain cat where c: "load_catalogue 1 event_topics_v1 = Some cat" "catalogue_ok cat"
    and es: "tc_entries cat = map (\<lambda>row. entry_of row (the (parse_hex32 (tr_topic0 row)))) event_topics_v1" by (rule pinned_load)
  note d = pinned_entries_distinct [OF es]
  have "\<exists>entry. lookup_by_event cat (event_kind_as_str k) = Some entry \<and> lookup_by_topic0 cat (te_topic0 entry) = Some entry
      \<and> signature_fits (te_signature entry) k \<and> parse_hex32 (te_topic0_hex_lower entry) = Some (te_topic0 entry)" for k
  proof -
    obtain row where row: "row \<in> set event_topics_v1" "tr_event row = event_kind_as_str k" "signature_fits (tr_signature row) k"
      by (rule kind_row)
    let ?e = "entry_of row (the (parse_hex32 (tr_topic0 row)))"
    have "?e \<in> set (tc_entries cat)" using row(1) es by simp
    moreover have "parse_hex32 (tr_topic0 row) = Some (the (parse_hex32 (tr_topic0 row)))"
      using pinned_topics_lower row(1) parse_lower_topic unfolding list_all_iff by fastforce
    ultimately show ?thesis
      using entry_found_by_event [OF c(2) d(2), of ?e] entry_found_by_topic [OF c(2) d(1), of ?e] row
      by (intro exI [of _ ?e]) (simp add: entry_of_def)
  qed
  moreover have "te_topic0 entry = t \<and> (\<exists>k. event_kind_parse (te_event entry) = Some k \<and> lookup_by_event cat (event_kind_as_str k) = Some entry)"
    if "lookup_by_topic0 cat t = Some entry" for t entry
  proof -
    have m: "entry \<in> set (tc_entries cat)" "te_topic0 entry = t" using lookup_topic_member [OF c(2) that] by auto
    then obtain row where "row \<in> set event_topics_v1" "te_event entry = tr_event row" using es by (auto simp: entry_of_def)
    then obtain k where "te_event entry = event_kind_as_str k" using row_kind by metis
    then show ?thesis using m entry_found_by_event [OF c(2) d(2) m(1)] by (metis event_kind_parse_as_str)
  qed
  ultimately show ?thesis using c(1) by blast
qed



section \<open>Packed logs\<close>

text \<open>A field of the packing helper, the data word it is meant for, and the value that is read back.\<close>

inductive packs :: "data_field \<Rightarrow> pack_field \<Rightarrow> json_value \<Rightarrow> bool" where
  packs_u256: "n < 2 ^ 256 \<Longrightarrow> packs (DfU256 x) (PkU256 (decimal n)) (JString (decimal n))"
| packs_i256: "- (2 ^ 255) \<le> z \<Longrightarrow> z < 2 ^ 255 \<Longrightarrow> packs (DfI256 x) (PkI256 (decimal_int z)) (JString (decimal_int z))"
| packs_u128: "n < 2 ^ 128 \<Longrightarrow> packs (DfU128 x) (PkU128 (decimal n)) (JString (decimal n))"
| packs_u64: "packs (DfU64 x) (PkU64 a) (JPosInt a)"
| packs_u32: "packs (DfU32 x) (PkU32 b) (JPosInt (ucast b))"
| packs_u16: "packs (DfU16 x) (PkU16 c) (JPosInt (ucast c))"
| packs_u8: "packs (DfU8 x) (PkU8 d) (JPosInt (ucast d))"
| packs_bool: "packs (DfBool x) (PkBool t) (JBool t)"
| packs_address: "length bs = 20 \<Longrightarrow> packs (DfAddress x) (PkAddress (''0x'' @ hex_lower bs)) (JString (''0x'' @ hex_lower bs))"
| packs_bytes32: "length bs = 32 \<Longrightarrow> packs (DfBytes32 x) (PkBytes32 (''0x'' @ hex_lower bs)) (JString (''0x'' @ hex_lower bs))"
| packs_skip: "length (pack_word f) = 32 \<Longrightarrow> packs DfSkip f JNull"

lemma parse_u128_decimal: "n < 2 ^ 128 \<Longrightarrow> parse_unsigned (2 ^ 128) (decimal n) = Some n"
proof -
  assume n: "n < 2 ^ 128"
  have "int n < 2 ^ 128" using n by (metis of_nat_less_iff of_nat_numeral of_nat_power)
  then have "parse_below (2 ^ 128) (decimal n) = Some n" by (simp add: parse_below_def decimal_nonempty decimal_digit_text)
  moreover obtain c s where "decimal n = c # s" "is_ascii_digit c"
    using decimal_digit_text [of n] by (cases "decimal n") (auto simp: decimal_nonempty)
  ultimately show ?thesis by (auto simp: parse_unsigned_def is_ascii_digit_def Let_def)
qed

lemma low_words:
  "read_u64_be (to_be_bytes 8 (unat a)) = a" "read_u32_be (to_be_bytes 4 (unat b)) = b"
  "low_u16 (replicate 30 0 @ to_be_bytes 2 (unat c)) = c"
proof -
  show "read_u64_be (to_be_bytes 8 (unat a)) = a"
    using unsigned_less [where ?'a = nat and w = a] by (simp add: read_u64_be_def)
  have l4: "[xs ! 0, xs ! 1, xs ! 2, xs ! 3] = xs" if "length xs = 4" for xs :: byte_array
    using that by (auto simp: numeral_eq_Suc length_Suc_conv)
  show "read_u32_be (to_be_bytes 4 (unat b)) = b"
    unfolding read_u32_be_def l4 [OF length_to_be_bytes] using unsigned_less [where ?'a = nat and w = b] by simp
  have l2: "[xs ! 0, xs ! 1] = xs" if "length xs = 2" for xs :: byte_array
    using that by (auto simp: numeral_eq_Suc length_Suc_conv)
  have "be_val [to_be_bytes 2 (unat c) ! 0, to_be_bytes 2 (unat c) ! 1] = unat c"
    unfolding l2 [OF length_to_be_bytes] using unsigned_less [where ?'a = nat and w = c] by simp
  then show "low_u16 (replicate 30 0 @ to_be_bytes 2 (unat c)) = c"
    unfolding low_u16_def by (simp add: nth_append del: be_val_simps)
qed

lemma packs_word:
  assumes "packs f pf v"
  shows "length (pack_word pf) = 32 \<and> field_json f (pack_word pf) = v"
  using assms
proof cases
  case (packs_u256 n x)
  then show ?thesis using packed_decimal [of n] by (simp add: pack_word_def field_json_def u256_printed)
next
  case (packs_i256 z x)
  then show ?thesis using packed_int [of z] by (simp add: pack_word_def field_json_def i256_printed)
next
  case (packs_u128 n x)
  let ?w = "replicate 16 0 @ to_be_bytes 16 n"
  have "length ?w = 32" "be_val ?w = n" using packs_u128 by (simp_all add: be_val_append)
  then show ?thesis
    using packs_u128 u256_printed [of ?w] parse_u128_decimal [of n] by (simp add: pack_word_def field_json_def)
next
  case (packs_address bs x)
  then show ?thesis
    using packed_hex [of bs 40] by (simp add: pack_word_def field_json_def word_to_address_def del: append_Cons)
next
  case (packs_bytes32 bs x)
  then show ?thesis
    using packed_hex [of bs 64] by (simp add: pack_word_def field_json_def bytes32_hex_def del: append_Cons)
qed (simp_all add: pack_word_def field_json_def low_words nth_append)

lemma packs_lengths:
  "list_all2 (\<lambda>f pv. packs f (fst pv) (snd pv)) fs pvs \<Longrightarrow> list_all (\<lambda>w. length w = 32) (map pack_word (map fst pvs))"
  by (induction rule: list_all2_induct) (auto dest: packs_word)

lemma packed_word:
  "list_all (\<lambda>w. length w = 32) ws \<Longrightarrow> i < length ws \<Longrightarrow> data_word (concat ws) i = ws ! i"
proof (induction ws arbitrary: i)
  case (Cons w ws)
  then show ?case
  proof (cases i)
    case (Suc j)
    then have "data_word (concat (w # ws)) i = data_word (concat ws) j" using Cons.prems by (simp add: data_word_def)
    then show ?thesis using Cons Suc by simp
  qed (simp add: data_word_def)
qed simp

lemma packed_length: "list_all (\<lambda>w. length w = 32) ws \<Longrightarrow> length (concat ws) = length ws * 32"
  by (induction ws) simp_all


text \<open>
  C37: A log packed from the fields of a layout decodes to an event of that kind which holds every
  packed value under the name of its field: amounts as the decimal text that was packed, signed and
  unsigned, addresses and hashes as the same hexadecimal text, and small numbers and flags as themselves.
\<close>

theorem packed_log_round_trip:
  assumes "lookup_by_topic0 cat topic0 = Some entry" "te_event entry = event_kind_as_str k"
    and "length indexed = length (el_indexed (layout_for k))"
    and "list_all2 (\<lambda>f pv. packs f (fst pv) (snd pv)) (el_data (layout_for k)) pvs" "fst (last pvs) = PkU16 version"
  shows "\<exists>e. decode_log_with cat \<lparr> rl_emitter = em, rl_topics = topic0 # indexed, rl_data = pack_data (map fst pvs) \<rparr> None version = Ok e
      \<and> he_kind e = k
      \<and> (\<forall>i < length pvs. \<forall>n. field_name (el_data (layout_for k) ! i) = Some n \<longrightarrow> json_get (he_payload e) n = Some (snd (pvs ! i)))"
proof -
  let ?fs = "el_data (layout_for k)" and ?ws = "map pack_word (map fst pvs)"
  let ?log = "\<lparr> rl_emitter = em, rl_topics = topic0 # indexed, rl_data = pack_data (map fst pvs) \<rparr>"
  have l: "length pvs = length ?fs" using assms(4) by (simp add: list_all2_lengthD)
  have w: "length (pack_word (fst (pvs ! i))) = 32 \<and> field_json (?fs ! i) (pack_word (fst (pvs ! i))) = snd (pvs ! i)"
    if "i < length pvs" for i using list_all2_nthD2 [OF assms(4) that] packs_word by blast
  note all = packs_lengths [OF assms(4)]
  have word: "data_word (pack_data (map fst pvs)) i = pack_word (fst (pvs ! i))" if "i < length pvs" for i
    using packed_word [OF all, of i] that by (simp add: pack_data_def)
  have ne: "pvs \<noteq> []" using l layouts_ok [of k] by (auto simp: layout_ok_def)
  have "low_u16 (pack_word (fst (pvs ! (length pvs - 1)))) = version"
    using assms(5) ne by (simp add: last_conv_nth pack_word_def low_words)
  then have "low_u16 (data_word (pack_data (map fst pvs)) (length ?fs - 1)) = version" using word [of "length pvs - 1"] ne unfolding l [symmetric] by simp
  moreover have "length (pack_data (map fst pvs)) = length ?fs * 32" using packed_length [OF all] l by (simp add: pack_data_def)
  ultimately have "log_fits k version ?log" using assms(3) by (simp add: log_fits_def)
  then have "decode_log_with cat ?log None version = Ok (decoded k ?log)"
    unfolding decode_Ok_iff using assms(1,2) by (intro exI [of _ entry] exI [of _ k]) simp
  moreover have "json_get (he_payload (decoded k ?log)) n = Some (snd (pvs ! i))"
    if "i < length pvs" "field_name (?fs ! i) = Some n" for i n
    using decoded_field [of i k n ?log] that l word [of i] w [of i] by simp
  ultimately show ?thesis by auto
qed

text \<open>
  C38: With the pinned catalogue the decoder accepts exactly the logs whose first topic is the one of
  a kind, with as many topics and at least as many data words as its layout, and with the expected
  version in the last of these words.
\<close>

theorem decode_accepts_exactly:
  assumes "load_catalogue 1 event_topics_v1 = Some cat"
  shows "(\<exists>e. decode_log_with cat log None version = Ok e \<and> he_kind e = k) \<longleftrightarrow>
    (\<exists>row topic0 indexed. row \<in> set event_topics_v1 \<and> tr_event row = event_kind_as_str k \<and> parse_hex32 (tr_topic0 row) = Some topic0
       \<and> rl_topics log = topic0 # indexed \<and> length indexed = length (el_indexed (layout_for k))
       \<and> length (el_data (layout_for k)) * 32 \<le> length (rl_data log)
       \<and> low_u16 (data_word (rl_data log) (length (el_data (layout_for k)) - 1)) = version)"
    (is "?L \<longleftrightarrow> ?R")
proof -
  obtain cat' where "load_catalogue 1 event_topics_v1 = Some cat'" "catalogue_ok cat'"
    "tc_entries cat' = map (\<lambda>row. entry_of row (the (parse_hex32 (tr_topic0 row)))) event_topics_v1" by (rule pinned_load)
  then have ok: "catalogue_ok cat"
    and es: "tc_entries cat = map (\<lambda>row. entry_of row (the (parse_hex32 (tr_topic0 row)))) event_topics_v1" using assms by auto
  note d = pinned_entries_distinct [OF es]
  have parsed: "parse_hex32 (tr_topic0 row) = Some (the (parse_hex32 (tr_topic0 row)))" if "row \<in> set event_topics_v1" for row
    using pinned_topics_lower that parse_lower_topic unfolding list_all_iff by fastforce
  show ?thesis
  proof
    assume ?L
    then obtain e entry where e: "rl_topics log \<noteq> []" "lookup_by_topic0 cat (hd (rl_topics log)) = Some entry"
      "event_kind_parse (te_event entry) = Some k" "log_fits k version log" unfolding decode_Ok_iff by auto
    note m = lookup_topic_member [OF ok e(2)]
    then obtain row where row: "row \<in> set event_topics_v1" "te_event entry = tr_event row" "te_topic0 entry = the (parse_hex32 (tr_topic0 row))"
      using es by (auto simp: entry_of_def)
    then have "parse_hex32 (tr_topic0 row) = Some (hd (rl_topics log))" "tr_event row = event_kind_as_str k"
      using parsed [of row] m event_kind_parse_only [OF e(3)] by simp_all
    then show ?R using row(1) e(1,4) by (intro exI [of _ row] exI [of _ "hd (rl_topics log)"] exI [of _ "tl (rl_topics log)"]) (simp add: log_fits_def)
  next
    assume ?R
    then obtain row topic0 indexed where r: "row \<in> set event_topics_v1" "tr_event row = event_kind_as_str k"
      "parse_hex32 (tr_topic0 row) = Some topic0" "rl_topics log = topic0 # indexed" and fits: "log_fits k version log"
      by (auto simp: log_fits_def)
    have "entry_of row topic0 \<in> set (tc_entries cat)" using r es by force
    then have "lookup_by_topic0 cat topic0 = Some (entry_of row topic0)"
      using entry_found_by_topic [OF ok d(1), of "entry_of row topic0"] by (simp add: entry_of_def)
    then have "decode_log_with cat log None version = Ok (decoded k log)"
      unfolding decode_Ok_iff using r fits by (intro exI [of _ "entry_of row topic0"] exI [of _ k]) (simp add: entry_of_def)
    then show ?L by auto
  qed
qed


section \<open>An example\<close>

text \<open>A deposit of a million units, packed as in the code's own example.\<close>

definition ex_topic :: byte_array where
  "ex_topic = the (parse_hex32 (tr_topic0 (event_topics_v1 ! 2)))"

definition ex_address :: "8 word \<Rightarrow> string" where
  "ex_address b = ''0x'' @ hex_lower (replicate 19 0 @ [b])"

definition ex_fields :: "(pack_field \<times> json_value) list" where
  "ex_fields =
     [(PkAddress (ex_address 34), JString (ex_address 34)), (PkU256 (decimal 1000000), JString (decimal 1000000)),
      (PkAddress (ex_address 51), JString (ex_address 51)), (PkU16 1, JPosInt 1)]"

definition ex_indexed :: "byte_array list" where
  "ex_indexed = [replicate 32 170, replicate 31 0 @ [221], replicate 31 0 @ [7]]"

definition ex_log :: canonical_raw_log where
  "ex_log = \<lparr> rl_emitter = ex_address 17, rl_topics = ex_topic # ex_indexed, rl_data = pack_data (map fst ex_fields) \<rparr>"

definition ex_catalogue :: topic_catalogue where
  "ex_catalogue = catalogue_add (event_topics_v1 ! 2) ex_topic
     \<lparr> tc_schema_version = 1, tc_entries = [], tc_by_topic = [], tc_by_event = [] \<rparr>"

lemma ex_entry: "lookup_by_topic0 ex_catalogue ex_topic = Some (entry_of (event_topics_v1 ! 2) ex_topic)"
  by (simp add: ex_catalogue_def catalogue_add_def lookup_by_topic0_def entry_of_def hm_get_def hm_insert_def Let_def)

lemma ex_row: "tr_event (event_topics_v1 ! 2) = event_kind_as_str Deposit" "length event_topics_v1 = 47"
  by code_simp+

lemma ex_packs: "list_all2 (\<lambda>f pv. packs f (fst pv) (snd pv)) (el_data (layout_for Deposit)) ex_fields"
  by (simp add: ex_fields_def new_layout_def ex_address_def del: append_Cons)
     (intro conjI packs_address packs_u16 [where c = 1, simplified] packs_u256; simp)

lemma ex_version: "low_u16 (data_word (rl_data ex_log) 3) = 1" "length (rl_data ex_log) = 128"
proof -
  have l: "length ex_fields = 4" by (simp add: ex_fields_def)
  note all = packs_lengths [OF ex_packs]
  have "data_word (rl_data ex_log) 3 = pack_word (fst (ex_fields ! 3))"
    using packed_word [OF all, of 3] l by (simp add: ex_log_def pack_data_def)
  also have "\<dots> = pack_word (PkU16 1)" by (simp add: ex_fields_def)
  finally show "low_u16 (data_word (rl_data ex_log) 3) = 1" using low_words(3) [of 1] by (simp add: pack_word_def)
  show "length (rl_data ex_log) = 128" using packed_length [OF all] l by (simp add: ex_log_def pack_data_def)
qed

lemma ex_topics: "rl_topics ex_log = ex_topic # ex_indexed" "length ex_indexed = 3"
  by (simp_all add: ex_log_def ex_indexed_def)

lemma ex_decodes: "decode_log_with ex_catalogue ex_log None 1 = Ok (decoded Deposit ex_log)"
  unfolding decode_Ok_iff using ex_entry ex_version ex_topics event_kind_parse_as_str [of Deposit]
  by (intro exI [of _ "entry_of (event_topics_v1 ! 2) ex_topic"] exI [of _ Deposit])
     (simp add: log_fits_def entry_of_def ex_row new_layout_def numeral_3_eq_3)

theorem packed_log_round_trip_witness:
  "\<exists>e. decode_log_with ex_catalogue ex_log None 1 = Ok e \<and> he_kind e = Deposit \<and> json_get (he_payload e) ''amount'' = Some (JString (decimal 1000000))"
proof -
  have "\<exists>e. decode_log_with ex_catalogue ex_log None 1 = Ok e \<and> he_kind e = Deposit
      \<and> (\<forall>i < length ex_fields. \<forall>n. field_name (el_data (layout_for Deposit) ! i) = Some n \<longrightarrow> json_get (he_payload e) n = Some (snd (ex_fields ! i)))"
    unfolding ex_log_def
    by (rule packed_log_round_trip [OF ex_entry _ _ ex_packs])
       (simp_all add: entry_of_def ex_row ex_indexed_def new_layout_def ex_fields_def)
  then obtain e where e: "decode_log_with ex_catalogue ex_log None 1 = Ok e" "he_kind e = Deposit"
    "\<forall>i < length ex_fields. \<forall>n. field_name (el_data (layout_for Deposit) ! i) = Some n \<longrightarrow> json_get (he_payload e) n = Some (snd (ex_fields ! i))"
    by blast
  have "json_get (he_payload e) ''amount'' = Some (snd (ex_fields ! 1))"
    using e(3) [rule_format, of 1 "''amount''"] by (simp add: ex_fields_def new_layout_def field_name_def)
  then show ?thesis using e(1,2) by (auto simp: ex_fields_def)
qed

theorem decode_accepts_exactly_witness:
  "\<exists>cat. load_catalogue 1 event_topics_v1 = Some cat \<and> (\<exists>e. decode_log_with cat ex_log None 1 = Ok e \<and> he_kind e = Deposit)"
proof -
  obtain cat where c: "load_catalogue 1 event_topics_v1 = Some cat" by (rule pinned_load)
  have m: "event_topics_v1 ! 2 \<in> set event_topics_v1" using ex_row(2) by (intro nth_mem) simp
  have "parse_hex32 (tr_topic0 (event_topics_v1 ! 2)) = Some ex_topic"
    using pinned_topics_lower m parse_lower_topic unfolding list_all_iff ex_topic_def by fastforce
  then have "\<exists>e. decode_log_with cat ex_log None 1 = Ok e \<and> he_kind e = Deposit"
    unfolding decode_accepts_exactly [OF c] using m ex_row(1) ex_version
    by (intro exI [of _ "event_topics_v1 ! 2"] exI [of _ ex_topic] exI [of _ ex_indexed])
       (simp add: ex_topics new_layout_def numeral_3_eq_3)
  then show ?thesis using c by blast
qed

theorem pinned_catalogue_exact_witness:
  "\<exists>cat entry k. load_catalogue 1 event_topics_v1 = Some cat \<and> lookup_by_event cat ''Deposit'' = Some entry
     \<and> lookup_by_topic0 cat (te_topic0 entry) = Some entry \<and> event_kind_parse (te_event entry) = Some k"
proof -
  obtain cat where c: "load_catalogue 1 event_topics_v1 = Some cat"
    "\<forall>k. \<exists>entry. lookup_by_event cat (event_kind_as_str k) = Some entry \<and> lookup_by_topic0 cat (te_topic0 entry) = Some entry
       \<and> signature_fits (te_signature entry) k \<and> parse_hex32 (te_topic0_hex_lower entry) = Some (te_topic0 entry)"
    "\<forall>t entry. lookup_by_topic0 cat t = Some entry \<longrightarrow>
       te_topic0 entry = t \<and> (\<exists>k. event_kind_parse (te_event entry) = Some k \<and> lookup_by_event cat (event_kind_as_str k) = Some entry)"
    using pinned_catalogue_exact by (elim exE conjE) (rule that)
  obtain entry where e: "lookup_by_event cat (event_kind_as_str Deposit) = Some entry" "lookup_by_topic0 cat (te_topic0 entry) = Some entry"
    using spec [OF c(2), of Deposit] by (elim exE conjE) (rule that)
  obtain k where "event_kind_parse (te_event entry) = Some k" using c(3) e(2) by metis
  then show ?thesis using c(1) e by (intro exI [of _ cat] exI [of _ entry] exI [of _ k]) simp
qed

end
