(* ===== verification/Correlation.thy ===== *)
theory Correlation
  imports Projection
begin

text \<open>
  The correlator of \<^verbatim>\<open>src/hybrid_v2/correlation.rs\<close>: it groups the events of one transaction that
  describe a match and writes a row per execution.  The methods take and return the pending groups
  together with the projection they write to.
\<close>


section \<open>Groups\<close>

record execution_group =
  eg_execution_id :: string
  eg_tx_hash :: string
  eg_block_number :: u64
  eg_buyer_order_hash :: string
  eg_seller_order_hash :: string
  eg_buyer_subkey :: string
  eg_seller_subkey :: string
  eg_series_id :: string
  eg_matched_qty_1e8 :: string
  eg_premium_amount :: string
  eg_fee_amount :: string
  eg_rebate_amount :: string
  eg_buyer_fill_seen :: bool
  eg_seller_fill_seen :: bool
  eg_premium_seen :: bool
  eg_pair_executed_seen :: bool

definition default_group :: execution_group where
  "default_group =
     \<lparr> eg_execution_id = [], eg_tx_hash = [], eg_block_number = 0, eg_buyer_order_hash = [], eg_seller_order_hash = [],
       eg_buyer_subkey = [], eg_seller_subkey = [], eg_series_id = [], eg_matched_qty_1e8 = [], eg_premium_amount = [],
       eg_fee_amount = [], eg_rebate_amount = [], eg_buyer_fill_seen = False, eg_seller_fill_seen = False,
       eg_premium_seen = False, eg_pair_executed_seen = False \<rparr>"

definition eg_is_complete :: "execution_group \<Rightarrow> bool" where
  "eg_is_complete g = (eg_pair_executed_seen g \<and> eg_buyer_fill_seen g \<and> eg_seller_fill_seen g \<and> eg_premium_seen g)"

type_synonym correlator = "(string \<times> string, execution_group) btreemap"
type_synonym tracking = "correlator \<times> projection_state"

definition new_correlator :: correlator where
  "new_correlator = []"

definition group_row :: "execution_completion \<Rightarrow> execution_group \<Rightarrow> matched_execution_row" where
  "group_row status g =
     \<lparr> mx_buyer_order_hash = eg_buyer_order_hash g, mx_seller_order_hash = eg_seller_order_hash g,
       mx_buyer_subkey = eg_buyer_subkey g, mx_seller_subkey = eg_seller_subkey g, mx_series_id = eg_series_id g,
       mx_matched_qty_1e8 = eg_matched_qty_1e8 g, mx_premium_amount = eg_premium_amount g, mx_fee_amount = eg_fee_amount g,
       mx_rebate_amount = eg_rebate_amount g, mx_block_number = eg_block_number g, mx_tx_hash = eg_tx_hash g,
       mx_completion_status = status \<rparr>"

definition write_group :: "execution_completion \<Rightarrow> execution_group \<Rightarrow> projection_state \<Rightarrow> projection_state" where
  "write_group status g st =
     st\<lparr>ps_matched_executions := bt_insert (eg_execution_id g) (group_row status g) (ps_matched_executions st)\<rparr>"


section \<open>Operations\<close>

definition finalize_if_ready :: "string \<times> string \<Rightarrow> tracking \<Rightarrow> tracking" where
  "finalize_if_ready key t =
     (case t of (pending, st) \<Rightarrow>
        (case bt_get pending key of
           Some g \<Rightarrow> if eg_is_complete g then (bt_remove key pending, write_group Complete g st) else (pending, st)
         | None \<Rightarrow> (pending, st)))"

definition keys_of_tx :: "string \<Rightarrow> correlator \<Rightarrow> (string \<times> string) list" where
  "keys_of_tx tx_hash pending = filter (\<lambda>k. fst k = tx_hash) (bt_keys pending)"

definition update_tx :: "string \<Rightarrow> (execution_group \<Rightarrow> execution_group) \<Rightarrow> correlator \<Rightarrow> correlator" where
  "update_tx tx_hash f pending = map (\<lambda>(k, g). (k, if fst k = tx_hash then f g else g)) pending"

definition finalize_tx :: "string \<Rightarrow> tracking \<Rightarrow> tracking" where
  "finalize_tx tx_hash t = fold finalize_if_ready (keys_of_tx tx_hash (fst t)) t"

definition opt_set :: "'a option \<Rightarrow> 'a \<Rightarrow> 'a" where
  "opt_set new_value old = (case new_value of Some v \<Rightarrow> v | None \<Rightarrow> old)"

definition pair_executed :: "hybrid_v2_event \<Rightarrow> apply_context \<Rightarrow> string \<Rightarrow> execution_group \<Rightarrow> execution_group" where
  "pair_executed e ctx exec_id g =
     (let p = payload_string (he_payload e)
      in g\<lparr>eg_execution_id := exec_id, eg_tx_hash := ac_tx_hash ctx, eg_block_number := ac_block_number ctx, eg_pair_executed_seen := True,
           eg_buyer_order_hash := opt_set (p ''buyer_order_hash'') (eg_buyer_order_hash g),
           eg_seller_order_hash := opt_set (p ''seller_order_hash'') (eg_seller_order_hash g),
           eg_buyer_subkey := opt_set (p ''buyer_subkey'') (eg_buyer_subkey g),
           eg_seller_subkey := opt_set (case p ''seller_subkey'' of Some s \<Rightarrow> Some s | None \<Rightarrow> he_subkey e) (eg_seller_subkey g),
           eg_matched_qty_1e8 := opt_set (p ''matched_qty_1e8'') (eg_matched_qty_1e8 g),
           eg_premium_amount := opt_set (p ''premium_1e8'') (eg_premium_amount g),
           eg_series_id := opt_set (p ''series_id'') (eg_series_id g)\<rparr>)"

definition order_filled :: "string \<Rightarrow> execution_group \<Rightarrow> execution_group" where
  "order_filled order_hash g =
     g\<lparr>eg_buyer_fill_seen := eg_buyer_fill_seen g \<or> order_hash = eg_buyer_order_hash g,
       eg_seller_fill_seen := eg_seller_fill_seen g \<or> order_hash = eg_seller_order_hash g\<rparr>"

definition premium_transferred :: "string \<Rightarrow> execution_group \<Rightarrow> execution_group" where
  "premium_transferred amount g =
     (if eg_premium_seen g then g
      else g\<lparr>eg_premium_amount := (if eg_premium_amount g = ''0'' then amount else eg_premium_amount g), eg_premium_seen := True\<rparr>)"

definition observe :: "hybrid_v2_event \<Rightarrow> apply_context \<Rightarrow> tracking \<Rightarrow> tracking" where
  "observe e ctx t =
     (case t of (pending, st) \<Rightarrow>
        (let tx = ac_tx_hash ctx; amount = or_zero (payload_string (he_payload e) ''amount'')
         in case he_kind e of
              OptionOrderPairExecuted \<Rightarrow>
                (case he_execution_id e of
                   None \<Rightarrow> (pending, st)
                 | Some exec_id \<Rightarrow>
                     finalize_if_ready (tx, exec_id) (upsert default_group (tx, exec_id) (pair_executed e ctx exec_id) pending, st))
            | OptionOrderFilled \<Rightarrow>
                (case he_order_hash e of
                   None \<Rightarrow> (pending, st)
                 | Some order_hash \<Rightarrow> finalize_tx tx (update_tx tx (order_filled order_hash) pending, st))
            | OptionPremiumTransferred \<Rightarrow> finalize_tx tx (update_tx tx (premium_transferred amount) pending, st)
            | OptionFeeCharged \<Rightarrow> (update_tx tx (\<lambda>g. g\<lparr>eg_fee_amount := amount\<rparr>) pending, st)
            | OptionRebatePaid \<Rightarrow> (update_tx tx (\<lambda>g. g\<lparr>eg_rebate_amount := amount\<rparr>) pending, st)
            | _ \<Rightarrow> (pending, st)))"

definition flush_group :: "string \<times> string \<Rightarrow> tracking \<Rightarrow> tracking" where
  "flush_group key t =
     (case t of (pending, st) \<Rightarrow>
        (case bt_get pending key of
           Some g \<Rightarrow> (bt_remove key pending, write_group (if eg_is_complete g then Complete else Incomplete) g st)
         | None \<Rightarrow> (pending, st)))"

definition flush_transaction :: "string \<Rightarrow> tracking \<Rightarrow> tracking" where
  "flush_transaction tx_hash t = fold flush_group (keys_of_tx tx_hash (fst t)) t"

definition invalidate_blocks :: "u64 list \<Rightarrow> tracking \<Rightarrow> tracking" where
  "invalidate_blocks orphaned_blocks t =
     (case t of (pending, st) \<Rightarrow>
        (filter (\<lambda>kv. eg_block_number (snd kv) \<notin> set orphaned_blocks) pending,
         st\<lparr>ps_matched_executions := map (\<lambda>(k, row). (k, if mx_block_number row \<in> set orphaned_blocks
              then row\<lparr>mx_completion_status := InvalidatedByReorg\<rparr> else row)) (ps_matched_executions st)\<rparr>))"


section \<open>Pending groups belong to the running transaction\<close>

text \<open>All pending groups belong to one transaction; after it was flushed none is left.\<close>

definition pending_of :: "string option \<Rightarrow> correlator \<Rightarrow> bool" where
  "pending_of tx pending = (\<forall>k \<in> set (bt_keys pending). Some (fst k) = tx)"

lemma keys_bt_remove: "bt_keys (bt_remove k m) = filter (\<lambda>k'. k' \<noteq> k) (bt_keys m)"
  by (simp add: bt_keys_def bt_remove_def filter_map comp_def)

lemma keys_update_tx [simp]: "bt_keys (update_tx tx f m) = bt_keys m"
  by (auto simp: bt_keys_def update_tx_def)

lemma keys_bt_insert: "set (bt_keys (bt_insert k v m)) \<subseteq> insert k (set (bt_keys m))"
  by (auto simp: bt_insert_def bt_keys_def dest!: set_takeWhileD set_dropWhileD)

lemma keys_finalize: "set (bt_keys (fst (finalize_if_ready k t))) \<subseteq> set (bt_keys (fst t))"
  by (auto simp: finalize_if_ready_def keys_bt_remove split: prod.splits option.splits)

lemma keys_finalize_list: "set (bt_keys (fst (fold finalize_if_ready ks t))) \<subseteq> set (bt_keys (fst t))"
proof (induction ks arbitrary: t)
  case (Cons k ks)
  show ?case using Cons [of "finalize_if_ready k t"] keys_finalize [of k t] by auto
qed simp

lemma keys_observe: "set (bt_keys (fst (observe e ctx t))) \<subseteq> set (bt_keys (fst t)) \<union> {k. fst k = ac_tx_hash ctx}"
proof -
  obtain p st where t: "t = (p, st)" by fastforce
  show ?thesis
    using keys_finalize_list keys_finalize keys_bt_insert
    by (fastforce simp: t observe_def Let_def finalize_tx_def upsert_def split: event_kind.splits option.splits)
qed

lemma flush_group_keys: "bt_keys (fst (flush_group k t)) = filter (\<lambda>k'. k' \<noteq> k) (bt_keys (fst t))"
proof -
  obtain p st where t: "t = (p, st)" by fastforce
  have "k \<notin> set (bt_keys p)" if "bt_get p k = None" using that by (simp add: bt_get_def bt_keys_def map_of_eq_None_iff)
  then have "filter (\<lambda>k'. k' \<noteq> k) (bt_keys p) = bt_keys p" if "bt_get p k = None" using that by (metis (mono_tags, lifting) filter_True)
  then show ?thesis by (auto simp: t flush_group_def keys_bt_remove split: option.splits)
qed

lemma flush_groups_keys: "bt_keys (fst (fold flush_group ks t)) = filter (\<lambda>k'. k' \<notin> set ks) (bt_keys (fst t))"
  by (induction ks arbitrary: t) (auto simp: flush_group_keys intro!: filter_cong)

lemma flush_transaction_keys: "bt_keys (fst (flush_transaction tx t)) = filter (\<lambda>k. fst k \<noteq> tx) (bt_keys (fst t))"
  unfolding flush_transaction_def flush_groups_keys keys_of_tx_def by (rule filter_cong) auto

lemma flush_clears: "pending_of (Some tx) (fst t) \<Longrightarrow> fst (flush_transaction tx t) = []"
proof -
  assume "pending_of (Some tx) (fst t)"
  then have "bt_keys (fst (flush_transaction tx t)) = []"
    unfolding flush_transaction_keys pending_of_def by (auto simp: filter_empty_conv)
  then show ?thesis by (simp add: bt_keys_def)
qed

lemma observe_pending: "pending_of (Some (ac_tx_hash ctx)) (fst t) \<Longrightarrow> pending_of (Some (ac_tx_hash ctx)) (fst (observe e ctx t))"
  using keys_observe [of e ctx t] by (fastforce simp: pending_of_def)


section \<open>One match in a transaction\<close>

definition filled_by :: "string \<Rightarrow> hybrid_v2_event list \<Rightarrow> bool" where
  "filled_by h es = list_ex (\<lambda>e. he_kind e = OptionOrderFilled \<and> he_order_hash e = Some h) es"

definition premium_in :: "hybrid_v2_event list \<Rightarrow> bool" where
  "premium_in es = list_ex (\<lambda>e. he_kind e = OptionPremiumTransferred) es"

text \<open>The group of the match while it is pending, and its row once all parts were seen.\<close>

definition match_of :: "apply_context \<Rightarrow> string \<Rightarrow> string \<Rightarrow> string \<Rightarrow> execution_group \<Rightarrow> bool" where
  "match_of ctx exec_id b s g \<longleftrightarrow> eg_execution_id g = exec_id \<and> eg_buyer_order_hash g = b \<and> eg_seller_order_hash g = s
     \<and> eg_tx_hash g = ac_tx_hash ctx \<and> eg_block_number g = ac_block_number ctx \<and> eg_pair_executed_seen g"

definition match_pending :: "apply_context \<Rightarrow> string \<Rightarrow> string \<Rightarrow> string \<Rightarrow> hybrid_v2_event list \<Rightarrow> tracking \<Rightarrow> bool" where
  "match_pending ctx exec_id b s es t \<longleftrightarrow>
     (\<exists>g. fst t = [((ac_tx_hash ctx, exec_id), g)] \<and> match_of ctx exec_id b s g \<and> \<not> eg_is_complete g
        \<and> eg_buyer_fill_seen g = filled_by b es \<and> eg_seller_fill_seen g = filled_by s es \<and> eg_premium_seen g = premium_in es)"

definition match_written :: "apply_context \<Rightarrow> string \<Rightarrow> string \<Rightarrow> string \<Rightarrow> hybrid_v2_event list \<Rightarrow> tracking \<Rightarrow> bool" where
  "match_written ctx exec_id b s es t \<longleftrightarrow>
     fst t = [] \<and> filled_by b es \<and> filled_by s es \<and> premium_in es
     \<and> (\<exists>g. match_of ctx exec_id b s g \<and> bt_get (ps_matched_executions (snd t)) exec_id = Some (group_row Complete g))"

definition match_state :: "apply_context \<Rightarrow> string \<Rightarrow> string \<Rightarrow> string \<Rightarrow> hybrid_v2_event list \<Rightarrow> tracking \<Rightarrow> bool" where
  "match_state ctx exec_id b s es t \<longleftrightarrow> bt_ok (ps_matched_executions (snd t))
     \<and> (match_pending ctx exec_id b s es t \<or> match_written ctx exec_id b s es t)"

lemma finalize_single:
  "finalize_if_ready k ([(k, g)], st) = (if eg_is_complete g then ([], write_group Complete g st) else ([(k, g)], st))"
  by (simp add: finalize_if_ready_def bt_get_def bt_remove_def)

lemma finalize_tx_single:
  "fst k = tx \<Longrightarrow> finalize_tx tx ([(k, g)], st) = (if eg_is_complete g then ([], write_group Complete g st) else ([(k, g)], st))"
  by (simp add: finalize_tx_def keys_of_tx_def bt_keys_def finalize_single)

lemma observe_nothing: "he_kind e \<noteq> OptionOrderPairExecuted \<Longrightarrow> observe e ctx ([], st) = ([], st)"
  by (cases "he_kind e") (simp_all add: observe_def Let_def update_tx_def finalize_tx_def keys_of_tx_def bt_keys_def split: option.splits)

lemma seen_snoc [simp]:
  "filled_by h (es @ [e]) = (filled_by h es \<or> he_kind e = OptionOrderFilled \<and> he_order_hash e = Some h)"
  "premium_in (es @ [e]) = (premium_in es \<or> he_kind e = OptionPremiumTransferred)"
  by (simp_all add: filled_by_def premium_in_def)

lemma matched_write [simp]: "ps_matched_executions (write_group c g st) = bt_insert (eg_execution_id g) (group_row c g) (ps_matched_executions st)"
  by (simp add: write_group_def)

lemma match_written_row:
  assumes "match_written ctx exec_id b s es (pending, st')"
  shows "pending = []
    \<and> (\<exists>row. bt_get (ps_matched_executions st') exec_id = Some row \<and> mx_buyer_order_hash row = b \<and> mx_seller_order_hash row = s
         \<and> mx_tx_hash row = ac_tx_hash ctx \<and> mx_block_number row = ac_block_number ctx
         \<and> mx_completion_status row = (if filled_by b es \<and> filled_by s es \<and> premium_in es then Complete else Incomplete))"
  using assms by (auto simp: match_written_def match_of_def group_row_def)

lemma match_state_settle:
  assumes "match_of ctx exec_id b s g" "bt_ok (ps_matched_executions st)"
    and "eg_buyer_fill_seen g = filled_by b es" "eg_seller_fill_seen g = filled_by s es" "eg_premium_seen g = premium_in es"
  shows "match_state ctx exec_id b s es
    (if eg_is_complete g then ([], write_group Complete g st) else ([((ac_tx_hash ctx, exec_id), g)], st))"
  using assms by (auto simp: match_state_def match_pending_def match_written_def match_of_def eg_is_complete_def)

definition next_group :: "hybrid_v2_event \<Rightarrow> execution_group \<Rightarrow> execution_group" where
  "next_group e g =
     (let amount = or_zero (payload_string (he_payload e) ''amount'')
      in case he_kind e of
           OptionOrderFilled \<Rightarrow> (case he_order_hash e of None \<Rightarrow> g | Some h \<Rightarrow> order_filled h g)
         | OptionPremiumTransferred \<Rightarrow> premium_transferred amount g
         | OptionFeeCharged \<Rightarrow> g\<lparr>eg_fee_amount := amount\<rparr>
         | OptionRebatePaid \<Rightarrow> g\<lparr>eg_rebate_amount := amount\<rparr>
         | _ \<Rightarrow> g)"

lemma observe_single:
  assumes "he_kind e \<noteq> OptionOrderPairExecuted" "fst k = ac_tx_hash ctx" "\<not> eg_is_complete g"
  shows "observe e ctx ([(k, g)], st) =
    (if eg_is_complete (next_group e g) then ([], write_group Complete (next_group e g) st) else ([(k, next_group e g)], st))"
proof -
  have [simp]: "eg_is_complete (g\<lparr>eg_fee_amount := a\<rparr>) = eg_is_complete g" "eg_is_complete (g\<lparr>eg_rebate_amount := a\<rparr>) = eg_is_complete g" for a
    by (simp_all add: eg_is_complete_def)
  show ?thesis
    using assms
    by (cases "he_kind e") (simp_all add: observe_def next_group_def update_tx_def finalize_tx_single Let_def split: option.splits)
qed

lemma next_group_match:
  assumes "match_of ctx exec_id b s g" "eg_buyer_fill_seen g = filled_by b es" "eg_seller_fill_seen g = filled_by s es"
    "eg_premium_seen g = premium_in es"
  shows "match_of ctx exec_id b s (next_group e g)" "eg_buyer_fill_seen (next_group e g) = filled_by b (es @ [e])"
    "eg_seller_fill_seen (next_group e g) = filled_by s (es @ [e])" "eg_premium_seen (next_group e g) = premium_in (es @ [e])"
proof -
  have "match_of ctx exec_id b s (next_group e g) \<and> eg_buyer_fill_seen (next_group e g) = filled_by b (es @ [e])
      \<and> eg_seller_fill_seen (next_group e g) = filled_by s (es @ [e]) \<and> eg_premium_seen (next_group e g) = premium_in (es @ [e])"
    using assms
    by (cases "he_kind e")
       (auto simp: next_group_def match_of_def order_filled_def premium_transferred_def Let_def split: option.splits)
  then show "match_of ctx exec_id b s (next_group e g)" "eg_buyer_fill_seen (next_group e g) = filled_by b (es @ [e])"
    "eg_seller_fill_seen (next_group e g) = filled_by s (es @ [e])" "eg_premium_seen (next_group e g) = premium_in (es @ [e])" by blast+
qed

lemma observe_match_state:
  assumes "match_state ctx exec_id b s es t" "he_kind e \<noteq> OptionOrderPairExecuted"
  shows "match_state ctx exec_id b s (es @ [e]) (observe e ctx t)"
proof (cases "match_written ctx exec_id b s es t")
  case True
  then have "observe e ctx t = t" using observe_nothing [OF assms(2)] by (cases t) (simp add: match_written_def)
  then show ?thesis using assms(1) True by (simp add: match_state_def match_written_def)
next
  case False
  then obtain g st where t: "t = ([((ac_tx_hash ctx, exec_id), g)], st)" and ok: "bt_ok (ps_matched_executions st)"
    and g: "match_of ctx exec_id b s g" "\<not> eg_is_complete g" "eg_buyer_fill_seen g = filled_by b es"
      "eg_seller_fill_seen g = filled_by s es" "eg_premium_seen g = premium_in es"
    using assms(1) by (cases t) (auto simp: match_state_def match_pending_def)
  have o: "observe e ctx t = (if eg_is_complete (next_group e g) then ([], write_group Complete (next_group e g) st)
      else ([((ac_tx_hash ctx, exec_id), next_group e g)], st))"
    unfolding t by (rule observe_single [OF assms(2) _ g(2)]) simp
  note n = next_group_match [OF g(1,3,4,5)]
  show ?thesis unfolding o by (rule match_state_settle [OF n(1) ok n(2,3,4)])
qed

lemma observe_all_match_state:
  assumes "match_state ctx exec_id b s [] t" "list_all (\<lambda>e. he_kind e \<noteq> OptionOrderPairExecuted) es"
  shows "match_state ctx exec_id b s es (fold (\<lambda>e. observe e ctx) es t)"
  using assms
proof (induction es rule: rev_induct)
  case (snoc e es)
  then show ?case using observe_match_state [of ctx exec_id b s es "fold (\<lambda>e. observe e ctx) es t" e] by simp
qed simp

lemma pair_opens_match:
  assumes "he_kind e = OptionOrderPairExecuted" "he_execution_id e = Some exec_id" "bt_ok (ps_matched_executions st)"
    and "payload_string (he_payload e) ''buyer_order_hash'' = Some b" "payload_string (he_payload e) ''seller_order_hash'' = Some s"
  shows "match_state ctx exec_id b s [] (observe e ctx ([], st))"
proof -
  let ?k = "(ac_tx_hash ctx, exec_id)" and ?g = "pair_executed e ctx exec_id default_group"
  have "observe e ctx ([], st) = finalize_if_ready ?k ([(?k, ?g)], st)"
    using assms(1,2) by (simp add: observe_def upsert_def get_or_def bt_insert_def Let_def)
  moreover have "match_of ctx exec_id b s ?g" "\<not> eg_is_complete ?g" "\<not> eg_buyer_fill_seen ?g" "\<not> eg_seller_fill_seen ?g" "\<not> eg_premium_seen ?g"
    using assms(4,5) by (simp_all add: match_of_def pair_executed_def default_group_def eg_is_complete_def opt_set_def Let_def)
  ultimately show ?thesis
    using assms(3) by (simp add: finalize_single match_state_def match_pending_def filled_by_def premium_in_def)
qed

text \<open>
  C40: A transaction with one match leaves exactly one row for it and nothing pending.  The row carries
  the order hashes of the match, and it is complete if and only if fills of both orders and a premium
  transfer followed in the same transaction; otherwise it is recorded as incomplete.
\<close>

theorem match_complete_iff:
  assumes "he_kind e = OptionOrderPairExecuted" "he_execution_id e = Some exec_id" "bt_ok (ps_matched_executions st)"
    and "payload_string (he_payload e) ''buyer_order_hash'' = Some b" "payload_string (he_payload e) ''seller_order_hash'' = Some s"
    and "list_all (\<lambda>e'. he_kind e' \<noteq> OptionOrderPairExecuted) es"
    and "(pending, st') = flush_transaction (ac_tx_hash ctx) (fold (\<lambda>e'. observe e' ctx) (e # es) ([], st))"
  shows "pending = []
    \<and> (\<exists>row. bt_get (ps_matched_executions st') exec_id = Some row \<and> mx_buyer_order_hash row = b \<and> mx_seller_order_hash row = s
         \<and> mx_tx_hash row = ac_tx_hash ctx \<and> mx_block_number row = ac_block_number ctx
         \<and> mx_completion_status row = (if filled_by b es \<and> filled_by s es \<and> premium_in es then Complete else Incomplete))"
proof -
  let ?t = "fold (\<lambda>e'. observe e' ctx) es (observe e ctx ([], st))"
  have f: "(pending, st') = flush_transaction (ac_tx_hash ctx) ?t" using assms(7) by simp
  have "match_state ctx exec_id b s es ?t" by (rule observe_all_match_state [OF pair_opens_match [OF assms(1-5)] assms(6)])
  then consider (pending) "match_pending ctx exec_id b s es ?t" "bt_ok (ps_matched_executions (snd ?t))"
    | (written) "match_written ctx exec_id b s es ?t"
    unfolding match_state_def by blast
  then show ?thesis
  proof cases
    case pending
    then obtain g st1 where g: "?t = ([((ac_tx_hash ctx, exec_id), g)], st1)" "match_of ctx exec_id b s g" "\<not> eg_is_complete g"
      "eg_buyer_fill_seen g = filled_by b es" "eg_seller_fill_seen g = filled_by s es" "eg_premium_seen g = premium_in es"
      unfolding match_pending_def by (cases ?t) auto
    then have "(pending, st') = ([], write_group Incomplete g st1)"
      unfolding f g(1) by (simp add: flush_transaction_def keys_of_tx_def bt_keys_def flush_group_def bt_get_def bt_remove_def)
    then show ?thesis using g pending(2) by (simp add: match_of_def group_row_def eg_is_complete_def)
  next
    case written
    then have "(pending, st') = ?t"
      unfolding f match_written_def by (cases ?t) (simp add: flush_transaction_def keys_of_tx_def bt_keys_def)
    then show ?thesis using match_written_row written by metis
  qed
qed


section \<open>An example\<close>

definition ex_event :: "event_kind \<Rightarrow> string option \<Rightarrow> string option \<Rightarrow> (string \<times> json_value) list \<Rightarrow> hybrid_v2_event" where
  "ex_event kind exec_id order_hash payload =
     \<lparr> he_kind = kind, he_event_version = 1, he_subkey = None, he_owner = None, he_subaccount_id = None, he_token = None,
       he_engine = None, he_execution_id = exec_id, he_order_hash = order_hash, he_series_id = None, he_payload = JObject payload \<rparr>"

definition ex_pair :: hybrid_v2_event where
  "ex_pair = ex_event OptionOrderPairExecuted (Some ''x1'') None [(''buyer_order_hash'', JString ''hb''), (''seller_order_hash'', JString ''hs'')]"

definition ex_fill :: "string \<Rightarrow> hybrid_v2_event" where
  "ex_fill h = ex_event OptionOrderFilled None (Some h) []"

definition ex_premium :: hybrid_v2_event where
  "ex_premium = ex_event OptionPremiumTransferred None None [(''amount'', JString ''5'')]"

definition ex_match_ctx :: apply_context where
  "ex_match_ctx = \<lparr> ac_block_number = 9, ac_tx_hash = ''tx'', ac_log_index = 0, ac_block_timestamp = 100 \<rparr>"

theorem match_complete_iff_witness:
  "\<exists>pending st' row. (pending, st') = flush_transaction ''tx''
       (fold (\<lambda>e. observe e ex_match_ctx) [ex_pair, ex_fill ''hs'', ex_premium, ex_fill ''hb''] ([], default_projection))
     \<and> pending = [] \<and> bt_get (ps_matched_executions st') ''x1'' = Some row \<and> mx_completion_status row = Complete"
proof -
  obtain pending st' where f: "(pending, st') = flush_transaction (ac_tx_hash ex_match_ctx)
      (fold (\<lambda>e. observe e ex_match_ctx) (ex_pair # [ex_fill ''hs'', ex_premium, ex_fill ''hb'']) ([], default_projection))"
    by (metis surj_pair)
  have seen: "filled_by ''hb'' [ex_fill ''hs'', ex_premium, ex_fill ''hb'']" "filled_by ''hs'' [ex_fill ''hs'', ex_premium, ex_fill ''hb'']"
    "premium_in [ex_fill ''hs'', ex_premium, ex_fill ''hb'']"
    by (simp_all add: filled_by_def premium_in_def ex_fill_def ex_premium_def ex_event_def)
  have "pending = [] \<and> (\<exists>row. bt_get (ps_matched_executions st') ''x1'' = Some row \<and> mx_buyer_order_hash row = ''hb''
      \<and> mx_seller_order_hash row = ''hs'' \<and> mx_tx_hash row = ac_tx_hash ex_match_ctx \<and> mx_block_number row = ac_block_number ex_match_ctx
      \<and> mx_completion_status row = (if filled_by ''hb'' [ex_fill ''hs'', ex_premium, ex_fill ''hb'']
          \<and> filled_by ''hs'' [ex_fill ''hs'', ex_premium, ex_fill ''hb''] \<and> premium_in [ex_fill ''hs'', ex_premium, ex_fill ''hb''] then Complete else Incomplete))"
    by (rule match_complete_iff [OF _ _ _ _ _ _ f])
       (simp_all add: ex_pair_def ex_fill_def ex_premium_def ex_event_def payload_string_def json_get_def json_as_str_def default_projection_def)
  then obtain row where "pending = []" "bt_get (ps_matched_executions st') ''x1'' = Some row" "mx_completion_status row = Complete"
    using seen by auto
  moreover have "ac_tx_hash ex_match_ctx = ''tx''" by (simp add: ex_match_ctx_def)
  ultimately show ?thesis using f by (intro exI [of _ pending] exI [of _ st'] exI [of _ row]) simp
qed

text \<open>A second report of a match that was already complete opens a new group, and the flush then records it as incomplete.\<close>

lemma repeated_pair_downgrades:
  "map_option mx_completion_status (bt_get (ps_matched_executions (snd (flush_transaction ''tx''
     (fold (\<lambda>e. observe e ex_match_ctx) [ex_pair, ex_fill ''hs'', ex_premium, ex_fill ''hb'', ex_pair] ([], default_projection))))) ''x1'')
   = Some Incomplete"
  by code_simp

end
