(* ===== verification/Decoded_Events.thy ===== *)
theory Decoded_Events
  imports Decoder_Props Correlation Projection_Props
begin

text \<open>
  Decoder and reducer together: every field that \<^verbatim>\<open>src/hybrid_v2/reducer.rs\<close> requires of an event is in
  what \<^verbatim>\<open>src/hybrid_v2/decoder.rs\<close> makes of a log, and a projection built from decoded events is well
  formed in all its amounts.
\<close>


section \<open>What the reducer finds in a decoded event\<close>

lemma decoded_identity:
  "he_subkey (decoded k log) = xt_subkey (take_topics (layout_for k) log)"
  "he_owner (decoded k log) = xt_owner (take_topics (layout_for k) log)"
  "he_subaccount_id (decoded k log) = xt_subaccount_id (take_topics (layout_for k) log)"
  "he_engine (decoded k log) = xt_engine (take_topics (layout_for k) log)"
  "he_execution_id (decoded k log) = xt_execution_id (take_topics (layout_for k) log)"
  by (simp_all add: decoded_def to_event_def extract_fields_split)

lemma decoded_found:
  "xt_token (take_topics (layout_for k) log) = Some t \<Longrightarrow> he_token (decoded k log) = Some t"
  "xt_order_hash (take_topics (layout_for k) log) = Some h \<Longrightarrow> he_order_hash (decoded k log) = Some h"
  "xt_series_id (take_topics (layout_for k) log) = Some h \<Longrightarrow> he_series_id (decoded k log) = Some h"
  by (simp_all add: decoded_def to_event_def extract_fields_split take_words_found)

lemma decoded_deposit_token:
  "k \<in> {Deposit, Withdraw} \<Longrightarrow> he_token (decoded k log) = Some (word_to_address (data_word (rl_data log) 0))"
  by (auto simp: decoded_def to_event_def extract_fields_split new_layout_def take_data_def put_def or_else_def Let_def
      take_topics_def take_indexed_def empty_extraction_def)

lemma decoded_amount:
  assumes "i < length (el_data (layout_for k))" "el_data (layout_for k) ! i = DfU256 ''amount''"
  shows "require_amount (he_payload (decoded k log)) k' = Ok (u256_be_to_decimal (data_word (rl_data log) i))"
  using decoded_field [of i k "''amount''" log] assms
  by (simp add: require_amount_def require_def field_name_def field_json_def json_as_str_def)

definition not_missing :: "reducer_result \<Rightarrow> bool" where
  "not_missing r \<longleftrightarrow> (\<forall>a b. fst r \<noteq> Err (MissingField a b))"

lemma not_missing_Ok [simp]: "not_missing (Ok (), st)"
  by (simp add: not_missing_def)

lemma not_missing_try [simp]:
  "not_missing (try_in st (Ok x) f) = not_missing (f x)"
  "(\<And>x. not_missing (f x)) \<Longrightarrow> (\<And>a b. e \<noteq> MissingField a b) \<Longrightarrow> not_missing (try_in st (ok_or r e) f)"
  by (auto simp: not_missing_def try_in_def ok_or_def split: option.splits)


lemma not_missing_error [simp]: "(\<And>a b. e \<noteq> MissingField a b) \<Longrightarrow> not_missing (Err e, st)"
  by (simp add: not_missing_def)

lemma not_missing_balance [simp]: "not_missing (credit_balance s t a st)" "not_missing (debit_balance s t a st)"
  by (simp_all add: credit_balance_def debit_balance_def Let_def)

lemma not_missing_opt: "not_missing (credit_opt s t a st)" "not_missing (debit_opt s t a st)"
  by (simp_all add: credit_opt_def debit_opt_def split: option.splits)

lemma not_missing_transfer:
  "not_missing (case debit_opt s t a st of (Err x, st') \<Rightarrow> (Err x, st') | (Ok y, st') \<Rightarrow> credit_opt s' t a st')"
  using not_missing_opt(2) [of s t a st] not_missing_opt(1) [of s' t a] by (auto simp: not_missing_def split: prod.splits sum.splits)

lemma not_missing_delta:
  "(\<And>x. not_missing (f x)) \<Longrightarrow> not_missing (try_in st (apply_delta_opt cur d s series side) f)"
  by (auto simp: apply_delta_opt_def apply_signed_delta_def try_in_def ok_or_def not_missing_def Let_def split: option.splits)

lemmas identity_simps = decoded_identity take_topics_def new_layout_def take_indexed_def empty_extraction_def put_def or_else_def

definition amount_kinds :: "event_kind list" where
  "amount_kinds = [Deposit, Withdraw, InternalTransfer, CollateralLocked, CollateralUnlocked, OrphanedLockReleased,
     OptionPremiumTransferred, OptionFeeCharged, OptionRebatePaid, BadDebtSocialized, RecoveryFinalizationWithdrawn]"

lemma amount_present: "k \<in> set amount_kinds \<Longrightarrow> \<exists>a. \<forall>k'. require_amount (he_payload (decoded k log)) k' = Ok a"
proof -
  have "list_all (\<lambda>k. list_ex (\<lambda>i. el_data (layout_for k) ! i = DfU256 ''amount'') [0 ..< length (el_data (layout_for k))]) amount_kinds"
    by code_simp
  moreover assume "k \<in> set amount_kinds"
  ultimately obtain i where "i < length (el_data (layout_for k))" "el_data (layout_for k) ! i = DfU256 ''amount''"
    by (auto simp: list_all_iff list_ex_iff)
  from decoded_amount [OF this] show ?thesis by blast
qed

lemma decoded_not_missing: "not_missing (apply_event st (decoded k log) ctx)"
proof (cases "k \<in> set amount_kinds")
  case True
  then obtain a where a: "\<And>k'. require_amount (he_payload (decoded k log)) k' = Ok a" using amount_present by blast
  show ?thesis
    using True a decoded_deposit_token [of k log] decoded_found [of k log]
    by (auto simp: amount_kinds_def apply_event_def apply_deposit_def apply_withdraw_def apply_internal_transfer_def adjust_reservation_def
        push_fee_event_def apply_bad_debt_def apply_finalization_withdrawn_def require_def identity_simps Let_def not_missing_transfer)
next
  case False
  then show ?thesis
    using decoded_found [of k log]
    by (cases k)
      (simp_all add: amount_kinds_def apply_event_def apply_identity_def require_identity_def apply_universe_def apply_capability_def
        apply_pause_flag_def apply_position_open_def apply_position_modify_def apply_position_close_def apply_position_liquidated_def
        apply_order_filled_def apply_order_cancelled_def apply_min_nonce_def apply_recovery_requested_def apply_recovery_activated_def
        apply_recovery_cancelled_def apply_recovery_finalized_def apply_subaccount_epoch_def apply_owner_epoch_def apply_nonce_cancelled_def
        require_def identity_simps Let_def not_missing_delta)
qed


lemma length_data_word: "log_fits k v log \<Longrightarrow> i < length (el_data (layout_for k)) \<Longrightarrow> length (data_word (rl_data log) i) = 32"
proof -
  assume f: "log_fits k v log" and i: "i < length (el_data (layout_for k))"
  have "(i + 1) * 32 \<le> length (el_data (layout_for k)) * 32" using i by (intro mult_le_mono1) simp
  moreover have "length (el_data (layout_for k)) * 32 \<le> length (rl_data log)" using f by (simp add: log_fits_def)
  ultimately have "32 \<le> length (rl_data log) - i * 32" by simp
  then show ?thesis by (simp add: data_word_def)
qed

lemma signed_val_range: "length w = 32 \<Longrightarrow> - (2 ^ 255) \<le> signed_val w \<and> signed_val w < 2 ^ 255"
proof -
  assume l: "length w = 32"
  have "be_val w < 2 ^ 256" using be_val_less [of w] l by simp
  then have lt: "int (be_val w) < 2 ^ 256" by (metis of_nat_less_iff of_nat_numeral of_nat_power)
  have two: "(2 :: int) ^ 256 = 2 * 2 ^ 255" by simp
  show ?thesis
  proof (cases "be_val w < 2 ^ 255")
    case True
    then have "int (be_val w) < 2 ^ 255" by (metis of_nat_less_iff of_nat_numeral of_nat_power)
    then show ?thesis unfolding signed_val_def if_P [OF True] by (simp add: order_trans [OF _ of_nat_0_le_iff])
  next
    case False
    then have "2 ^ 255 \<le> int (be_val w)" by (metis of_nat_le_iff of_nat_numeral of_nat_power linorder_not_less)
    then show ?thesis unfolding signed_val_def if_not_P [OF False] using lt two by linarith
  qed
qed

lemma decoded_word:
  assumes "log_fits k v log" "f \<in> set (el_data (layout_for k))" "field_name f = Some n"
  obtains w where "length w = 32" "json_get (he_payload (decoded k log)) n = Some (field_json f w)"
proof -
  obtain i where i: "i < length (el_data (layout_for k))" "el_data (layout_for k) ! i = f" using assms(2) by (metis in_set_conv_nth)
  then have "json_get (he_payload (decoded k log)) n = Some (field_json f (data_word (rl_data log) i))"
    using decoded_field [of i k n log] assms(3) by simp
  then show ?thesis using that length_data_word [OF assms(1) i(1)] by blast
qed

lemma decoded_unsigned:
  assumes "log_fits k v log" "f \<in> {DfU256 n, DfU128 n}" "f \<in> set (el_data (layout_for k))"
  shows "\<exists>m < 2 ^ 256. payload_string (he_payload (decoded k log)) n = Some (decimal m)"
proof -
  have "field_name f = Some n" using assms(2) by (auto simp: field_name_def)
  then obtain w where w: "length w = 32" "json_get (he_payload (decoded k log)) n = Some (field_json f w)"
    using decoded_word [OF assms(1,3)] by blast
  have "field_json f w = JString (decimal (be_val w))" using assms(2) w(1) by (auto simp: field_json_def u256_printed)
  moreover have "be_val w < 2 ^ 256" using be_val_less [of w] w(1) by simp
  ultimately show ?thesis using w(2) by (intro exI [of _ "be_val w"]) (simp add: payload_string_def json_as_str_def)
qed

lemma decoded_signed:
  assumes "log_fits k v log" "DfI256 n \<in> set (el_data (layout_for k))"
  shows "\<exists>z. - (2 ^ 255) \<le> z \<and> z < 2 ^ 255 \<and> payload_string (he_payload (decoded k log)) n = Some (decimal_int z)"
proof -
  obtain w where w: "length w = 32" "json_get (he_payload (decoded k log)) n = Some (field_json (DfI256 n) w)"
    using decoded_word [OF assms] by (auto simp: field_name_def)
  have "field_json (DfI256 n) w = JString (decimal_int (signed_val w))" using w(1) by (simp add: field_json_def i256_printed)
  then have "payload_string (he_payload (decoded k log)) n = Some (decimal_int (signed_val w))"
    using w(2) by (simp add: payload_string_def json_as_str_def)
  then show ?thesis using signed_val_range [OF w(1)] by blast
qed

text \<open>
  C36: A decoded event has every field the reducer asks for: applying it to any projection never fails
  with a missing field.  Every unsigned amount in its payload is the canonical decimal text of a
  number below \<open>2 ^ 256\<close>, every signed one that of a number of 256 bits, so that the arithmetic of
  the reducer never refuses it as unreadable.
\<close>

theorem decoded_event_complete:
  assumes "decode_log_with cat log em version = Ok e"
  shows "(\<forall>kind field. fst (apply_event st e ctx) \<noteq> Err (MissingField kind field))
    \<and> (\<forall>n. DfU256 n \<in> set (el_data (layout_for (he_kind e))) \<or> DfU128 n \<in> set (el_data (layout_for (he_kind e))) \<longrightarrow>
          (\<exists>m < 2 ^ 256. payload_string (he_payload e) n = Some (decimal m)))
    \<and> (\<forall>n. DfI256 n \<in> set (el_data (layout_for (he_kind e))) \<longrightarrow>
          (\<exists>z. - (2 ^ 255) \<le> z \<and> z < 2 ^ 255 \<and> payload_string (he_payload e) n = Some (decimal_int z)))"
proof -
  obtain k where e: "e = decoded k log" "log_fits k version log" using assms unfolding decode_Ok_iff by auto
  have "\<forall>kind field. fst (apply_event st e ctx) \<noteq> Err (MissingField kind field)"
    using decoded_not_missing [of st k log ctx] unfolding e not_missing_def by blast
  moreover have "\<exists>m < 2 ^ 256. payload_string (he_payload e) n = Some (decimal m)"
    if "DfU256 n \<in> set (el_data (layout_for k)) \<or> DfU128 n \<in> set (el_data (layout_for k))" for n
    unfolding e(1) using that decoded_unsigned [OF e(2), of "DfU256 n" n] decoded_unsigned [OF e(2), of "DfU128 n" n] by blast
  moreover have "\<exists>z. - (2 ^ 255) \<le> z \<and> z < 2 ^ 255 \<and> payload_string (he_payload e) n = Some (decimal_int z)"
    if "DfI256 n \<in> set (el_data (layout_for k))" for n
    unfolding e(1) by (rule decoded_signed [OF e(2) that])
  ultimately show ?thesis unfolding e(1) decoded_kind by blast
qed


theorem decoded_event_complete_witness:
  "\<exists>e. decode_log_with ex_catalogue ex_log None 1 = Ok e \<and> he_kind e = Deposit
     \<and> (\<forall>kind field. fst (apply_event default_projection e ex_match_ctx) \<noteq> Err (MissingField kind field))
     \<and> (\<exists>m < 2 ^ 256. payload_string (he_payload e) ''amount'' = Some (decimal m))"
proof -
  have "DfU256 ''amount'' \<in> set (el_data (layout_for (he_kind (decoded Deposit ex_log))))" by (simp add: new_layout_def)
  then show ?thesis
    using decoded_event_complete [OF ex_decodes, of default_projection ex_match_ctx] ex_decodes decoded_kind [of Deposit ex_log] by blast
qed


section \<open>The amounts a projection copies from its events\<close>

text \<open>
  Amounts that the reducer takes over from the payload as texts.
\<close>

definition amounts_ok :: "projection_state \<Rightarrow> bool" where
  "amounts_ok st =
     (list_all (\<lambda>r. canonical (fe_amount r)) (ps_fee_events st) \<and> table_ok canonical (ps_min_valid_nonce st) \<and>
      table_ok (\<lambda>r. qty_ok (ol_total_qty_1e8 r)) (ps_order_lifecycle st) \<and>
      table_ok (\<lambda>r. qty_ok (ep_min_valid_nonce r)) (ps_owner_recovery_epochs st) \<and>
      table_ok (\<lambda>r. qty_ok (ep_min_valid_nonce r)) (ps_subaccount_recovery_epochs st))"

lemma amounts_ok_simps [simp]:
  "amounts_ok (st\<lparr>ps_subaccounts := a\<rparr>) = amounts_ok st" "amounts_ok (st\<lparr>ps_subaccount_meta := b\<rparr>) = amounts_ok st"
  "amounts_ok (st\<lparr>ps_balances := bal\<rparr>) = amounts_ok st" "amounts_ok (st\<lparr>ps_reservations := c\<rparr>) = amounts_ok st"
  "amounts_ok (st\<lparr>ps_capability_grants := d\<rparr>) = amounts_ok st" "amounts_ok (st\<lparr>ps_collateral_universe := f\<rparr>) = amounts_ok st"
  "amounts_ok (st\<lparr>ps_disabled_tokens := g\<rparr>) = amounts_ok st" "amounts_ok (st\<lparr>ps_pause_flags := h\<rparr>) = amounts_ok st"
  "amounts_ok (st\<lparr>ps_bad_debt := i\<rparr>) = amounts_ok st" "amounts_ok (st\<lparr>ps_positions := j\<rparr>) = amounts_ok st"
  "amounts_ok (st\<lparr>ps_active_series := k\<rparr>) = amounts_ok st" "amounts_ok (st\<lparr>ps_recovery_state := l\<rparr>) = amounts_ok st"
  "amounts_ok (st\<lparr>ps_escape_state := n\<rparr>) = amounts_ok st" "amounts_ok (st\<lparr>ps_recovery_finalization_withdrawals := q\<rparr>) = amounts_ok st"
  "amounts_ok (st\<lparr>ps_recovery_pause := r\<rparr>) = amounts_ok st"
  by (simp_all add: amounts_ok_def)

lemma amounts_try_in: "amounts_ok s \<Longrightarrow> (\<And>x. amounts_ok (snd (f x))) \<Longrightarrow> amounts_ok (snd (try_in s r f))"
  by (cases r) auto

lemma amounts_frames:
  assumes "amounts_ok st"
  shows "amounts_ok (snd (apply_identity mark e st))" "amounts_ok (snd (adjust_reservation e add st))"
  "amounts_ok (snd (apply_universe e st))" "amounts_ok (apply_token_support b e st)"
  "amounts_ok (snd (apply_capability e st))" "amounts_ok (snd (apply_pause_flag e st))"
  "amounts_ok (snd (apply_bad_debt e st))" "amounts_ok (snd (apply_position_open e ctx st))"
  "amounts_ok (snd (apply_position_modify e ctx st))" "amounts_ok (snd (apply_position_close e st))"
  "amounts_ok (snd (apply_position_liquidated e ctx st))" "amounts_ok (apply_recovery_pause e ctx st)"
  "amounts_ok (snd (apply_finalization_withdrawn e st))"
  using assms by (auto simp: apply_identity_def adjust_reservation_def apply_universe_def apply_token_support_def apply_capability_def
    apply_pause_flag_def apply_bad_debt_def apply_position_open_def apply_position_modify_def apply_position_close_def
    apply_position_liquidated_def apply_recovery_pause_def apply_finalization_withdrawn_def Let_def
    intro!: amounts_try_in split: option.splits prod.splits)

lemma amounts_balance: "amounts_ok st \<Longrightarrow> amounts_ok (snd (credit_balance k t a st))" "amounts_ok st \<Longrightarrow> amounts_ok (snd (debit_balance k t a st))"
  by (auto simp: credit_balance_def debit_balance_def Let_def intro!: amounts_try_in)

lemma amounts_opt: "amounts_ok st \<Longrightarrow> amounts_ok (snd (credit_opt k t a st))" "amounts_ok st \<Longrightarrow> amounts_ok (snd (debit_opt k t a st))"
  by (auto simp: credit_opt_def debit_opt_def amounts_balance split: option.splits)

lemma amounts_transfer:
  "amounts_ok st \<Longrightarrow> amounts_ok (snd (case debit_opt s t a st of (Err x, st') \<Rightarrow> (Err x, st') | (Ok y, st') \<Rightarrow> credit_opt s' t a st'))"
  using amounts_opt(2) [of st s t a] amounts_opt(1) [of _ s' t a] by (auto split: prod.splits sum.splits)

lemma amounts_moves:
  assumes "amounts_ok st"
  shows "amounts_ok (snd (apply_deposit e st))" "amounts_ok (snd (apply_withdraw e st))" "amounts_ok (snd (apply_internal_transfer e st))"
    "amounts_ok (snd (apply_recovery_requested e ctx st))" "amounts_ok (snd (apply_recovery_activated e ctx st))"
    "amounts_ok (snd (apply_recovery_cancelled e ctx st))" "amounts_ok (snd (apply_recovery_finalized e ctx st))"
  using assms by (auto simp: apply_deposit_def apply_withdraw_def apply_internal_transfer_def apply_recovery_requested_def
    apply_recovery_activated_def apply_recovery_cancelled_def apply_recovery_finalized_def set_recovery_def Let_def
    amounts_balance amounts_transfer intro!: amounts_try_in)

text \<open>The text of a payload field is canonical, if there is one.\<close>

definition field_canonical :: "hybrid_v2_event \<Rightarrow> string \<Rightarrow> bool" where
  "field_canonical e n = (case payload_string (he_payload e) n of Some s \<Rightarrow> canonical s | None \<Rightarrow> True)"

lemma amounts_updates:
  assumes "amounts_ok st"
  shows "list_all (\<lambda>r. canonical (fe_amount r)) fs \<Longrightarrow> amounts_ok (st\<lparr>ps_fee_events := fs\<rparr>)"
    "table_ok canonical ns \<Longrightarrow> amounts_ok (st\<lparr>ps_min_valid_nonce := ns\<rparr>)"
    "table_ok (\<lambda>r. qty_ok (ol_total_qty_1e8 r)) os \<Longrightarrow> amounts_ok (st\<lparr>ps_order_lifecycle := os\<rparr>)"
    "table_ok (\<lambda>r. qty_ok (ep_min_valid_nonce r)) es \<Longrightarrow> amounts_ok (st\<lparr>ps_owner_recovery_epochs := es\<rparr>)"
    "table_ok (\<lambda>r. qty_ok (ep_min_valid_nonce r)) es \<Longrightarrow> amounts_ok (st\<lparr>ps_subaccount_recovery_epochs := es\<rparr>)"
  using assms by (simp_all add: amounts_ok_def)

lemma amounts_parts:
  assumes "amounts_ok st"
  shows "list_all (\<lambda>r. canonical (fe_amount r)) (ps_fee_events st)" "table_ok canonical (ps_min_valid_nonce st)"
    "table_ok (\<lambda>r. qty_ok (ol_total_qty_1e8 r)) (ps_order_lifecycle st)"
    "table_ok (\<lambda>r. qty_ok (ep_min_valid_nonce r)) (ps_owner_recovery_epochs st)"
    "table_ok (\<lambda>r. qty_ok (ep_min_valid_nonce r)) (ps_subaccount_recovery_epochs st)"
  using assms by (simp_all add: amounts_ok_def)

lemma amounts_defaults [simp]:
  "qty_ok []" "ep_min_valid_nonce default_epoch = []" "ol_total_qty_1e8 default_order_row = []"
  "ep_min_valid_nonce (advance_epoch ctx r) = ep_min_valid_nonce r"
  "ol_total_qty_1e8 (set_parties e row) = ol_total_qty_1e8 row" "ol_total_qty_1e8 (seen_at ctx row) = ol_total_qty_1e8 row"
  by (simp_all add: qty_ok_def default_epoch_def default_order_row_def advance_epoch_def set_parties_def seen_at_def)

lemma amounts_epochs:
  assumes "amounts_ok st"
  shows "amounts_ok (snd (apply_subaccount_epoch e ctx st))" "amounts_ok (snd (apply_owner_epoch e ctx st))"
    "amounts_ok (snd (apply_order_cancelled e ctx st))"
  using assms amounts_parts [OF assms]
  by (auto simp: apply_subaccount_epoch_def apply_owner_epoch_def apply_order_cancelled_def
    intro!: amounts_try_in table_ok_upsert amounts_updates)

lemma amounts_nonces:
  assumes "amounts_ok st" "field_canonical e ''new_min_valid_nonce''"
  shows "amounts_ok (snd (apply_min_nonce e st))" "amounts_ok (snd (apply_nonce_cancelled e ctx st))"
proof -
  have "canonical (or_zero (payload_string (he_payload e) ''new_min_valid_nonce''))"
    using assms(2) by (simp add: field_canonical_def or_zero_def split: option.splits)
  then show "amounts_ok (snd (apply_min_nonce e st))" "amounts_ok (snd (apply_nonce_cancelled e ctx st))"
    using assms(1) amounts_parts [OF assms(1)] by (auto simp: apply_min_nonce_def apply_nonce_cancelled_def Let_def qty_ok_def
      intro!: amounts_try_in table_ok_upsert table_ok_insert amounts_updates)
qed

lemma amounts_fee:
  assumes "amounts_ok st" "field_canonical e ''amount''"
  shows "amounts_ok (snd (push_fee_event l p r e ctx st))"
  using assms amounts_parts [OF assms(1)]
  by (auto simp: push_fee_event_def field_canonical_def payload_string_def require_amount_def require_def ok_or_def try_in_def
    intro!: amounts_updates split: option.splits)

lemma amounts_filled:
  assumes "amounts_ok st" "field_canonical e ''total_qty_1e8''"
  shows "amounts_ok (snd (apply_order_filled e ctx st))"
proof -
  have row: "qty_ok (ol_total_qty_1e8 (get_or default_order_row (ps_order_lifecycle st) h))" for h
    using table_ok_get_or [OF amounts_parts(3) [OF assms(1)], of default_order_row h] by simp
  show ?thesis
    using assms(1) amounts_parts(3) [OF assms(1)] row assms(2)
    by (auto simp: apply_order_filled_def Let_def field_canonical_def qty_ok_def
      intro!: amounts_try_in table_ok_insert amounts_updates split: option.splits if_splits)
qed

lemma amounts_event:
  assumes "amounts_ok st"
    and "he_kind e \<in> {OptionPremiumTransferred, OptionFeeCharged, OptionRebatePaid} \<Longrightarrow> field_canonical e ''amount''"
    and "he_kind e \<in> {OptionSubaccountMinValidOrderNonceAdvanced, NonceCancelled} \<Longrightarrow> field_canonical e ''new_min_valid_nonce''"
    and "he_kind e = OptionOrderFilled \<Longrightarrow> field_canonical e ''total_qty_1e8''"
  shows "amounts_ok (snd (apply_event st e ctx))"
  using assms
  by (cases "he_kind e")
    (simp_all add: apply_event_def amounts_frames amounts_moves amounts_epochs amounts_nonces amounts_fee amounts_filled amounts_try_in)

lemma decoded_canonical:
  assumes "log_fits k v log" "DfU256 n \<in> set (el_data (layout_for k)) \<or> DfU128 n \<in> set (el_data (layout_for k))"
  shows "field_canonical (decoded k log) n"
  using assms decoded_unsigned [OF assms(1), of "DfU256 n" n] decoded_unsigned [OF assms(1), of "DfU128 n" n]
  by (auto simp: field_canonical_def)

lemma decoded_amounts:
  assumes "decode_log_with cat log em version = Ok e" "amounts_ok st"
  shows "amounts_ok (snd (apply_event st e ctx))"
proof -
  obtain k where e: "e = decoded k log" "log_fits k version log" using assms(1) unfolding decode_Ok_iff by auto
  show ?thesis
    unfolding e(1)
    by (rule amounts_event [OF assms(2)]; rule decoded_canonical [OF e(2)]) (auto simp: decoded_kind new_layout_def)
qed

lemma default_amounts_ok: "amounts_ok default_projection"
  by (simp add: amounts_ok_def default_projection_def)

lemma decoded_run_amounts:
  assumes "apply_events xs st = Some st'" "amounts_ok st" "\<forall>x \<in> set xs. \<exists>cat log em version. decode_log_with cat log em version = Ok (fst x)"
  shows "amounts_ok st'"
  using assms
proof (induction xs arbitrary: st)
  case (Cons x xs)
  then obtain st1 where st1: "apply_event st (fst x) (snd x) = (Ok (), st1)" "apply_events xs st1 = Some st'"
    unfolding apply_events_Cons by blast
  have "\<exists>cat log em version. decode_log_with cat log em version = Ok (fst x)" using Cons.prems(3) by simp
  then have "amounts_ok st1" using decoded_amounts [OF _ Cons.prems(2), of _ _ _ _ "fst x" "snd x"] st1(1) by auto
  then show ?case using Cons.IH [OF st1(2)] Cons.prems(3) by simp
qed simp

text \<open>
  C33: What holds of every state that events build up from the empty projection.  The tables are
  ordered; balances, reservations, bad debts and capability masks are canonical decimal texts of
  numbers below \<open>2 ^ 256\<close>, and so are the quantities of positions and the filled quantities of orders
  unless they are the empty text of a field never written; at most eight tokens form the collateral
  universe, and a subaccount with active series has at most 32; every registered subaccount has its
  meta row, a cancelled order is terminal, and the recovery state and the escape row of a subaccount
  agree.  If moreover all the events were decoded from logs, the amounts that the reducer copies
  without arithmetic are canonical too: those of fee events and the minimum nonces of subaccounts,
  and, unless empty, the total quantities of orders and the nonces of the epoch rows.
\<close>

theorem projection_well_formed:
  assumes "apply_events xs default_projection = Some st"
  shows "projection_ok st \<and>
    ((\<forall>x \<in> set xs. \<exists>cat log em version. decode_log_with cat log em version = Ok (fst x)) \<longrightarrow> amounts_ok st)"
  using apply_events_ok [OF assms default_projection_ok] decoded_run_amounts [OF assms default_amounts_ok] by blast

lemma ex_deposit_applies:
  obtains st where "apply_event default_projection (decoded Deposit ex_log) ctx = (Ok (), st)"
proof -
  let ?e = "decoded Deposit ex_log"
  have "log_fits Deposit 1 ex_log" using ex_decodes unfolding decode_Ok_iff by (metis decoded_kind sum.inject(2))
  then obtain m where m: "m < 2 ^ 256" "payload_string (he_payload ?e) ''amount'' = Some (decimal m)"
    using decoded_unsigned [of Deposit 1 ex_log "DfU256 ''amount''" "''amount''"] by (auto simp: new_layout_def)
  have t: "he_token ?e = Some (word_to_address (data_word (rl_data ex_log) 0))" by (rule decoded_deposit_token) simp
  obtain sk where sk: "he_subkey ?e = Some sk" by (simp add: identity_simps)
  have am: "require_amount (he_payload ?e) kd = Ok (decimal m)" for kd
    using m(2) by (simp add: require_amount_def require_def payload_string_def)
  have fin: "\<not> is_finalized default_projection sk" by (simp add: is_finalized_def default_projection_def)
  have "\<exists>st. credit_balance sk (word_to_address (data_word (rl_data ex_log) 0)) (decimal m) default_projection = (Ok (), st)"
    unfolding credit_balance_Ok using m(1) by (auto simp: default_projection_def get_or_def)
  then obtain st where "credit_balance sk (word_to_address (data_word (rl_data ex_log) 0)) (decimal m) default_projection = (Ok (), st)" ..
  then show ?thesis
    by (intro that [of st]) (simp add: apply_event_def apply_deposit_def decoded_kind am t sk fin require_def)
qed

theorem projection_well_formed_witness:
  "\<exists>st. apply_events [(decoded Deposit ex_log, ex_match_ctx)] default_projection = Some st \<and> projection_ok st \<and> amounts_ok st"
proof -
  obtain st where "apply_event default_projection (decoded Deposit ex_log) ex_match_ctx = (Ok (), st)" by (rule ex_deposit_applies)
  then have st: "apply_events [(decoded Deposit ex_log, ex_match_ctx)] default_projection = Some st" by simp
  have "\<exists>cat log em version. decode_log_with cat log em version = Ok (decoded Deposit ex_log)" using ex_decodes by blast
  then show ?thesis using projection_well_formed [OF st] st by simp
qed


section \<open>Fields that are lost between decoder and reducer\<close>

lemma decoded_absent:
  assumes "n \<notin> set rewritten_keys" "Some n \<notin> field_name ` set (el_data (layout_for k))"
    and "bt_get (xt_payload (take_topics (layout_for k) log)) n = None"
  shows "json_get (he_payload (decoded k log)) n = None"
proof -
  let ?x = "extract_fields (layout_for k) log"
  have ok: "bt_ok (xt_payload ?x)" unfolding extract_fields_split by (rule take_words_ok [OF take_topics_ok])
  have "bt_get (xt_payload ?x) n = None" unfolding extract_fields_split other_field [OF take_topics_ok assms(2)] by (rule assms(3))
  then show ?thesis using rewrite_other [OF ok assms(1)] by (simp add: decoded_def to_event_def json_get_def bt_get_def)
qed

text \<open>The change of the short side of a position is decoded under a name the reducer does not read.\<close>

lemma modify_short_lost: "payload_i128 (he_payload (decoded OptionPositionModified log)) ''short_delta_1e8_signed'' = None"
  by (simp add: payload_i128_def decoded_absent rewritten_keys_def field_name_def take_topics_def new_layout_def take_indexed_def
      empty_extraction_def)

text \<open>Timestamps are decoded as numbers, and the reducer reads them as texts.\<close>

lemma eligible_at_lost: "payload_string (he_payload (decoded RecoveryRequested log)) ''activation_eligible_at'' = None"
  using decoded_field [of 1 RecoveryRequested "''activation_eligible_at''" log]
  by (simp add: new_layout_def field_name_def payload_string_def field_json_def json_as_str_def)

lemma pause_until_lost: "payload_string (he_payload (decoded RecoveryPauseSet log)) ''until_ts'' = None"
  using decoded_field [of 1 RecoveryPauseSet "''until_ts''" log]
  by (simp add: new_layout_def field_name_def payload_string_def field_json_def json_as_str_def)

text \<open>A decoded match has no key of the seller, and the correlator falls back to that of the buyer.\<close>

lemma seller_is_buyer:
  assumes "g' = pair_executed (decoded OptionOrderPairExecuted log) ctx exec_id g"
  shows "eg_seller_subkey g' = eg_buyer_subkey g'"
proof -
  let ?e = "decoded OptionOrderPairExecuted log" and ?h = "bytes32_hex (rl_topics log ! 3)"
  have "he_subkey ?e = Some ?h" by (simp add: identity_simps numeral_3_eq_3)
  moreover have "json_get (he_payload ?e) ''seller_subkey'' = None"
    by (simp add: decoded_absent rewritten_keys_def field_name_def take_topics_def new_layout_def take_indexed_def empty_extraction_def)
  moreover have "json_get (he_payload ?e) ''buyer_subkey'' = Some (JString ?h)"
  proof -
    let ?x = "extract_fields (layout_for OptionOrderPairExecuted) log"
    have "bt_ok (xt_payload ?x)" unfolding extract_fields_split by (rule take_words_ok [OF take_topics_ok])
    then have "bt_get (xt_payload (rewrite_payload OptionOrderPairExecuted log ?x)) ''buyer_subkey'' = Some (JString ?h)"
      by (simp add: rewrite_payload_def put_def Let_def split: option.splits)
    then show ?thesis by (simp add: decoded_def to_event_def json_get_def bt_get_def)
  qed
  ultimately show ?thesis unfolding assms by (simp add: pair_executed_def payload_string_def json_as_str_def opt_set_def Let_def)
qed

end
