(* ===== verification/Spec2Isabelle.thy ===== *)
theory Spec2Isabelle
  imports Orderbook_Props Engine Nonce_Store Perp_Trade Perp_Exec_Props Perp_Liquidation Perp_Funding Execution_Store Projection_Props Decoded_Events
begin

text \<open>
  A verification development for the trading backend under \<^verbatim>\<open>src/\<close>.  All paths below are relative to
  \<^verbatim>\<open>src/src/\<close>.

  \<^bold>\<open>The program.\<close>  The backend has three ledgers that share types but hold no common state.
  The \<^emph>\<open>matching engine\<close> takes signed orders, checks signature and nonce, matches them in an order book per
  market and queues an execution intent per trade, which is settled on chain through a payload that
  buyer and seller sign.  The \<^emph>\<open>perps ledger\<close> holds perpetual orders and positions in memory: an order is
  validated, gated by risk, matched and committed to both stores; two periodic ticks liquidate and
  settle funding.  \<^emph>\<open>Hybrid V2\<close> follows contracts on chain: raw logs are decoded, a reducer folds
  the events into a projection, a correlator groups the events of one match, and an execution store drives every own transaction through phases from discovery to
  broadcast.

  \<^bold>\<open>Conventions.\<close>  A Rust function that may fail returns a sum, \<^verbatim>\<open>Inl\<close> the error; a method on
  \<^verbatim>\<open>&mut self\<close> returns its result together with the new state, so that writes made before an error are
  part of the model.  \<^verbatim>\<open>u128\<close>, \<^verbatim>\<open>u64\<close>, \<^verbatim>\<open>u32\<close> are words; \<^verbatim>\<open>i128\<close> and \<^verbatim>\<open>i64\<close> are integers with casts and saturation
  written out.  A \<^verbatim>\<open>HashMap\<close> is a finite map and a \<^verbatim>\<open>BTreeMap\<close> a sorted association list.  Text of error
  messages is dropped, the error constructors are kept.  Clock readings and random ids are arguments.

  \<^bold>\<open>Base.\<close>
  \<^item> \<^verbatim>\<open>Prelude\<close>: results, words, decimal texts, trimming, and the locale \<^verbatim>\<open>text_codec\<close> for the text forms of
    the enums (\<^verbatim>\<open>as_str\<close> and \<^verbatim>\<open>from_str\<close>), interpreted for eight of them.
  \<^item> \<^verbatim>\<open>Maps\<close>: the two maps of the standard library behind the locales \<^verbatim>\<open>keyed_map\<close> and \<^verbatim>\<open>ordered_map\<close>.
  \<^item> \<^verbatim>\<open>Types\<close>: \<^verbatim>\<open>types.rs\<close> and the part of \<^verbatim>\<open>error.rs\<close> that the modelled code raises.

  \<^bold>\<open>Matching engine.\<close>
  \<^item> \<^verbatim>\<open>Orderbook\<close> models \<^verbatim>\<open>orderbook/\<close>: price levels, \<^verbatim>\<open>OrderBook::submit\<close> with its matching loop, \<^verbatim>\<open>cancel\<close>
    and the snapshot.  The loop is a partial function whose value \<^verbatim>\<open>None\<close> would mean that it does
    not return, and \<^verbatim>\<open>submit_total_inv\<close> shows that it always returns.  \<^verbatim>\<open>Orderbook_Inv\<close>,
    \<^verbatim>\<open>Orderbook_Match\<close> and \<^verbatim>\<open>Orderbook_Submit\<close> prove the invariant and the refinement of the loop to a walk
    over one price-time queue; \<^verbatim>\<open>Orderbook_Props\<close> states the results: price-time priority, conservation
    of size, no self trade, resting priority, the exact error of a refusal, the effect of a cancel.
  \<^item> \<^verbatim>\<open>Engine\<close> models \<^verbatim>\<open>engine/\<close> and \<^verbatim>\<open>execution/queue.rs\<close> on top of the locale \<^verbatim>\<open>matching_book\<close>, which the order
    book interprets: every command ends and keeps every book well formed, and each intent carries
    the parties, prices and sizes of its trade; the intents of an order add up to what it could
    trade at its limit.
  \<^item> \<^verbatim>\<open>Signing\<close> and \<^verbatim>\<open>Nonce_Store\<close> model \<^verbatim>\<open>signing/\<close>.  The hash and the recovery of the public key are third-party
    code and arguments; a digest binds every signed field if the hash has no collision among the
    values hashed.  \<^verbatim>\<open>Perp_Trade\<close> models the settlement payload of \<^verbatim>\<open>execution/perp_trade.rs\<close> and
    \<^verbatim>\<open>execution/intent.rs\<close> with the same result for both versions of its digest.

  \<^bold>\<open>Perps ledger.\<close>
  \<^item> \<^verbatim>\<open>Indexed_Store\<close> and \<^verbatim>\<open>Perp_Positions\<close> model \<^verbatim>\<open>perps/positions.rs\<close>: rows and the index of open positions,
    with at most one open position per account, subaccount and market in every reachable store.
  \<^item> \<^verbatim>\<open>Perp_Config\<close>, \<^verbatim>\<open>Perp_Margin\<close>, \<^verbatim>\<open>Perp_Fills\<close> model the modules of the same names: validation and risk status,
    the margin formulas with their rounding, and the application of a fill, which refines a
    specification of open, increase, reduce and close.
  \<^item> \<^verbatim>\<open>Perp_Orders\<close> and \<^verbatim>\<open>Perp_Execution\<close> model \<^verbatim>\<open>perps/orders.rs\<close>, \<^verbatim>\<open>order_store.rs\<close>, \<^verbatim>\<open>orderbook.rs\<close>, \<^verbatim>\<open>rejection.rs\<close> and
    \<^verbatim>\<open>execution.rs\<close>: the gate, the plan, the policies and the commit loop over both stores.
    \<^verbatim>\<open>Perp_Exec_Props\<close> shows priority, conservation, balanced exposure, the flags of an order and the
    risk limits that hold after its fills; also after a failure half way both stores stay well formed.
  \<^item> \<^verbatim>\<open>Perp_Sweep\<close> holds the locales \<^verbatim>\<open>keyed_sweep\<close> and \<^verbatim>\<open>full_sweep\<close> for a tick over all open positions;
    \<^verbatim>\<open>Perp_Liquidation\<close> and \<^verbatim>\<open>Perp_Funding\<close> interpret them for \<^verbatim>\<open>perps/liquidation.rs\<close> and \<^verbatim>\<open>perps/funding.rs\<close>.
    Each tick completes, acts on exactly the positions it should, and is idempotent; the estimated
    liquidation price decides the liquidation test up to the rounding of the margin formulas.

  \<^bold>\<open>Hybrid V2.\<close>
  \<^item> \<^verbatim>\<open>Phase_Machine\<close> has the locales \<^verbatim>\<open>phase_machine\<close>, \<^verbatim>\<open>ranked_machine\<close> and \<^verbatim>\<open>gated_machine\<close>; \<^verbatim>\<open>Execution_Phases\<close>
    interprets them for the two enums of \<^verbatim>\<open>hybrid_v2/execution/state.rs\<close> and \<^verbatim>\<open>broadcast_state.rs\<close>.
    A broadcast is reached through validation, simulation and a verified signature only.
  \<^item> \<^verbatim>\<open>Execution_Store\<close> models the execution tables of the in-memory store in \<^verbatim>\<open>hybrid_v2/persistence.rs\<close>
    with a step relation over its calls: rows are frozen where the code promises it, one caller wins
    the broadcast, and a nonce is handed out once.
  \<^item> \<^verbatim>\<open>Uint256\<close>, \<^verbatim>\<open>Hybrid_Events\<close> and \<^verbatim>\<open>Projection\<close> model \<^verbatim>\<open>hybrid_v2/events.rs\<close> and \<^verbatim>\<open>hybrid_v2/reducer.rs\<close>: arithmetic on
    decimal texts byte by byte, the 47 event kinds, and \<^verbatim>\<open>apply\<close> with a definition per arm.
    \<^verbatim>\<open>Projection_Inv\<close> and \<^verbatim>\<open>Projection_Props\<close> show that the arithmetic is exact, that token totals
    change only by deposits, withdrawals, one-sided transfers and finalizations, that orders only progress, and what a finalized subaccount keeps.
  \<^item> \<^verbatim>\<open>Topics\<close> models \<^verbatim>\<open>hybrid_v2/topics.rs\<close> with the pinned file \<^verbatim>\<open>resources/hybrid-v2/event-topics-v1.json\<close>, and
    \<^verbatim>\<open>Decoder\<close> models \<^verbatim>\<open>hybrid_v2/decoder.rs\<close>: the layout of every event, the extraction of topics and words,
    and the packing helpers.  \<^verbatim>\<open>Decoder_Props\<close> shows which logs are accepted, that packing and decoding
    are inverse, and that layouts and pinned signatures agree.  \<^verbatim>\<open>Decoded_Events\<close> composes decoder and
    reducer: no decoded event lacks a required field, and every projection built from events is well
    formed, with more of its amounts canonical if the events were decoded.  It also records fields that are lost on the way.
  \<^item> \<^verbatim>\<open>Correlation\<close> models \<^verbatim>\<open>hybrid_v2/correlation.rs\<close>: a match of a transaction becomes one row, complete
    exactly if both fills and the premium were seen.

  \<^bold>\<open>Not modelled.\<close>  HTTP and WebSocket handlers (\<^verbatim>\<open>api/\<close>), the SQL repository (\<^verbatim>\<open>db/\<close>, the \<^verbatim>\<open>*_pg.rs\<close> files and
  the PostgreSQL store of \<^verbatim>\<open>hybrid_v2/persistence.rs\<close>): their effect is decided by the network and by the
  database.  RPC clients, signer back ends, broadcast policy and workers (\<^verbatim>\<open>execution/\<close>, \<^verbatim>\<open>hybrid_v2/\<close>,
  \<^verbatim>\<open>confirmation/\<close>, \<^verbatim>\<open>reconciliation/\<close>, \<^verbatim>\<open>nonce_sync/\<close>, \<^verbatim>\<open>indexer/\<close>): timers around network calls.  Environment parsing,
  monitoring, administration and the binaries (\<^verbatim>\<open>config/\<close>, \<^verbatim>\<open>monitoring.rs\<close>, \<^verbatim>\<open>admin.rs\<close>, \<^verbatim>\<open>bin/\<close>): process wiring.
  Options, fees, quotes, market-maker sessions, authorization and subaccounts (\<^verbatim>\<open>options/\<close>, \<^verbatim>\<open>fees/\<close>, \<^verbatim>\<open>rfq/\<close>,
  \<^verbatim>\<open>mm/\<close>, \<^verbatim>\<open>auth/\<close>, \<^verbatim>\<open>subaccounts/\<close>, \<^verbatim>\<open>risk/\<close>, \<^verbatim>\<open>orders/\<close>) are separate services that keep their state in the database.
  Lifecycle messages sent to subscribers by the perps ledger are left out of the modelled
  operations because nothing reads them back.
\<close>

end
